(* ===== verification/Prelude.thy ===== *)
theory Prelude
  imports Main "HOL-Library.Char_ord" "HOL-Library.List_Lexorder"
begin

text \<open>
  Shared vocabulary of the development: fact collections, the row-list model of an SQL table,
  and the interfaces (locales) that several components implement.

  \<^item> A table is the list of its rows in insertion order. \<open>row_get\<close> is
    \<^verbatim>\<open>SELECT .. WHERE key = ?\<close> read with \<^verbatim>\<open>.get()\<close>, \<open>row_insert\<close> is a plain
    \<^verbatim>\<open>INSERT\<close> (\<open>None\<close> is the constraint error), \<open>row_insert_ignore\<close> is
    \<^verbatim>\<open>INSERT OR IGNORE\<close>, \<open>row_update\<close> and \<open>row_delete\<close> are \<^verbatim>\<open>UPDATE\<close> and \<^verbatim>\<open>DELETE\<close>.
  \<^item> \<open>sql_table\<close> is what a table with a primary key promises its clients,
    \<open>first_writer_wins\<close> the trust-on-first-use contract, \<open>codec\<close> an encoding with its
    decoder, \<open>invariant_system\<close> a step relation with an inductive invariant.
\<close>

named_theorems table_simps \<open>rewrite rules for row tables\<close>
named_theorems inv_intros \<open>an operation preserves an invariant\<close>
named_theorems frame_simps \<open>parts of the state an operation does not touch\<close>

section \<open>Generic lemmas\<close>

lemma find_append:
  "find P (xs @ ys) = (case find P xs of None \<Rightarrow> find P ys | Some x \<Rightarrow> Some x)"
  by (induction xs) auto

lemma find_None_set: "find P xs = None \<longleftrightarrow> (\<forall>x \<in> set xs. \<not> P x)"
  by (induction xs) auto

lemma find_SomeD: "find P xs = Some x \<Longrightarrow> x \<in> set xs \<and> P x"
  by (induction xs) (auto split: if_splits)

lemma find_map_cong:
  "(\<And>x. x \<in> set xs \<Longrightarrow> P (f x) = P x) \<Longrightarrow> find P (map f xs) = map_option f (find P xs)"
  by (induction xs) auto

lemma find_filter_keep:
  "(\<And>x. x \<in> set xs \<Longrightarrow> P x \<Longrightarrow> Q x) \<Longrightarrow> find P (filter Q xs) = find P xs"
  by (induction xs) auto

lemma find_filter_drop:
  "(\<And>x. x \<in> set xs \<Longrightarrow> P x \<Longrightarrow> \<not> Q x) \<Longrightarrow> find P (filter Q xs) = None"
  by (induction xs) auto

text \<open>The element order of a JavaScript \<^verbatim>\<open>Set\<close> built from an array: first occurrences.\<close>

fun js_set :: "'a list \<Rightarrow> 'a list" where
  "js_set [] = []"
| "js_set (x # xs) = x # filter (\<lambda>y. y \<noteq> x) (js_set xs)"

lemma set_js_set [simp]: "set (js_set xs) = set xs"
  by (induction xs) auto

lemma distinct_js_set [simp]: "distinct (js_set xs)"
  by (induction xs) auto

section \<open>Row tables\<close>

definition row_get :: "('r \<Rightarrow> 'k) \<Rightarrow> 'k \<Rightarrow> 'r list \<Rightarrow> 'r option" where
  "row_get key k rows = find (\<lambda>r. key r = k) rows"

definition row_insert :: "('r \<Rightarrow> 'k) \<Rightarrow> 'r \<Rightarrow> 'r list \<Rightarrow> 'r list option" where
  "row_insert key r rows = (if row_get key (key r) rows = None then Some (rows @ [r]) else None)"

definition row_insert_ignore :: "('r \<Rightarrow> 'k) \<Rightarrow> 'r \<Rightarrow> 'r list \<Rightarrow> 'r list" where
  "row_insert_ignore key r rows =
     (if row_get key (key r) rows = None then rows @ [r] else rows)"

definition row_update :: "('r \<Rightarrow> bool) \<Rightarrow> ('r \<Rightarrow> 'r) \<Rightarrow> 'r list \<Rightarrow> 'r list" where
  "row_update P f rows = map (\<lambda>r. if P r then f r else r) rows"

definition row_delete :: "('r \<Rightarrow> bool) \<Rightarrow> 'r list \<Rightarrow> 'r list" where
  "row_delete P rows = filter (\<lambda>r. \<not> P r) rows"

definition keys_distinct :: "('r \<Rightarrow> 'k) \<Rightarrow> 'r list \<Rightarrow> bool" where
  "keys_distinct key rows \<longleftrightarrow> distinct (map key rows)"

lemma row_get_Nil [simp]: "row_get key k [] = None"
  by (simp add: row_get_def)

lemma row_get_Cons [simp]:
  "row_get key k (r # rows) = (if key r = k then Some r else row_get key k rows)"
  by (simp add: row_get_def)

lemma row_get_append [simp]:
  "row_get key k (xs @ ys) = (case row_get key k xs of None \<Rightarrow> row_get key k ys | Some r \<Rightarrow> Some r)"
  by (simp add: row_get_def find_append split: option.splits)

lemma row_get_None_iff: "row_get key k rows = None \<longleftrightarrow> k \<notin> key ` set rows"
  by (auto simp: row_get_def find_None_set)

lemma row_get_SomeD: "row_get key k rows = Some r \<Longrightarrow> r \<in> set rows \<and> key r = k"
  by (auto simp: row_get_def dest: find_SomeD)

lemma row_get_Some_iff:
  "keys_distinct key rows \<Longrightarrow> row_get key k rows = Some r \<longleftrightarrow> r \<in> set rows \<and> key r = k"
  by (induction rows) (auto simp: keys_distinct_def)

lemma row_get_update:
  "(\<And>r. key (f r) = key r) \<Longrightarrow>
   row_get key k (row_update P f rows) =
     map_option (\<lambda>r. if P r then f r else r) (row_get key k rows)"
  unfolding row_get_def row_update_def by (rule find_map_cong) simp

lemma row_get_update_key:
  assumes "\<And>r. key (f r) = key r"
  shows "row_get key k (row_update (\<lambda>r. key r = k0) f rows) =
     (if k = k0 then map_option f (row_get key k0 rows) else row_get key k rows)"
proof -
  have "row_get key k (row_update (\<lambda>r. key r = k0) f rows) =
        map_option (\<lambda>r. if key r = k0 then f r else r) (row_get key k rows)"
    by (rule row_get_update) (rule assms)
  then show ?thesis
    by (cases "row_get key k rows") (auto dest: row_get_SomeD)
qed

lemma row_get_delete_other:
  "(\<And>r. key r = k \<Longrightarrow> \<not> P r) \<Longrightarrow> row_get key k (row_delete P rows) = row_get key k rows"
  unfolding row_get_def row_delete_def by (rule find_filter_keep) auto

lemma row_get_delete_key:
  "row_get key k (row_delete (\<lambda>r. key r = k) rows) = None"
  unfolding row_get_def row_delete_def by (rule find_filter_drop) auto

lemma row_get_insert_ignore:
  "row_get key k (row_insert_ignore key r rows) =
     (case row_get key k rows of Some r' \<Rightarrow> Some r' | None \<Rightarrow> (if key r = k then Some r else None))"
  by (auto simp: row_insert_ignore_def split: option.splits)

lemma row_insert_SomeD:
  "row_insert key r rows = Some rows' \<Longrightarrow> rows' = rows @ [r] \<and> row_get key (key r) rows = None"
  by (auto simp: row_insert_def split: if_splits)

lemma keys_distinct_Nil [simp]: "keys_distinct key []"
  by (simp add: keys_distinct_def)

lemma keys_distinct_append1:
  "keys_distinct key (rows @ [r]) \<longleftrightarrow> keys_distinct key rows \<and> row_get key (key r) rows = None"
  by (auto simp: keys_distinct_def row_get_None_iff)

lemma keys_distinct_insert_ignore:
  "keys_distinct key rows \<Longrightarrow> keys_distinct key (row_insert_ignore key r rows)"
  by (auto simp: row_insert_ignore_def keys_distinct_append1)

lemma keys_distinct_update:
  "(\<And>r. key (f r) = key r) \<Longrightarrow> keys_distinct key (row_update P f rows) = keys_distinct key rows"
  by (simp add: keys_distinct_def row_update_def comp_def if_distrib cong: if_cong)

lemma keys_distinct_delete:
  "keys_distinct key rows \<Longrightarrow> keys_distinct key (row_delete P rows)"
  by (simp add: keys_distinct_def row_delete_def distinct_map_filter)

lemma set_row_delete [simp]: "set (row_delete P rows) = {r \<in> set rows. \<not> P r}"
  by (auto simp: row_delete_def)

lemma set_row_update: "set (row_update P f rows) = (\<lambda>r. if P r then f r else r) ` set rows"
  by (auto simp: row_update_def)

lemma key_image_row_update:
  "(\<And>r. key (f r) = key r) \<Longrightarrow> key ` set (row_update P f rows) = key ` set rows"
  by (induction rows) (simp_all add: row_update_def)

lemma set_row_insert_ignore:
  "set (row_insert_ignore key r rows) =
     (if row_get key (key r) rows = None then insert r (set rows) else set rows)"
  by (auto simp: row_insert_ignore_def)

lemmas keys_distinct_intros =
  keys_distinct_insert_ignore keys_distinct_delete keys_distinct_update [THEN iffD2]

subsection \<open>The table interface\<close>

locale sql_table =
  fixes get :: "'k \<Rightarrow> 't \<Rightarrow> 'r option"
    and ins :: "'r \<Rightarrow> 't \<Rightarrow> 't option"
    and ins_ignore :: "'r \<Rightarrow> 't \<Rightarrow> 't"
    and del :: "'k \<Rightarrow> 't \<Rightarrow> 't"
    and key :: "'r \<Rightarrow> 'k"
    and wf :: "'t \<Rightarrow> bool"
  assumes ins_fresh: "get (key r) t = None \<Longrightarrow> \<exists>t'. ins r t = Some t'"
    and ins_taken: "get (key r) t \<noteq> None \<Longrightarrow> ins r t = None"
    and get_ins: "ins r t = Some t' \<Longrightarrow> get k t' = (if k = key r then Some r else get k t)"
    and ins_ignore_eq: "ins_ignore r t = (case ins r t of None \<Rightarrow> t | Some t' \<Rightarrow> t')"
    and get_del: "wf t \<Longrightarrow> get k (del k' t) = (if k = k' then None else get k t)"
    and wf_ins: "wf t \<Longrightarrow> ins r t = Some t' \<Longrightarrow> wf t'"
    and wf_del: "wf t \<Longrightarrow> wf (del k t)"
begin

lemma ins_None_iff: "ins r t = None \<longleftrightarrow> get (key r) t \<noteq> None"
  by (metis ins_fresh ins_taken option.distinct(1))

lemma get_ins_ignore:
  "get k (ins_ignore r t) =
     (if k = key r \<and> get k t = None then Some r else get k t)"
  using ins_None_iff [of r t] by (auto simp: ins_ignore_eq get_ins split: option.splits)

lemma wf_ins_ignore: "wf t \<Longrightarrow> wf (ins_ignore r t)"
  by (auto simp: ins_ignore_eq wf_ins split: option.splits)

lemma ins_ignore_idem: "ins_ignore r (ins_ignore r t) = ins_ignore r t"
proof -
  have "get (key r) (ins_ignore r t) \<noteq> None"
    by (auto simp: get_ins_ignore)
  then have "ins r (ins_ignore r t) = None"
    by (rule ins_taken)
  then show ?thesis
    by (simp add: ins_ignore_eq [of r "ins_ignore r t"])
qed

text \<open>A batch of \<^verbatim>\<open>INSERT OR IGNORE\<close>s: the first row offered for a free key stays.\<close>

lemma get_fold_ins_ignore:
  "get k (fold ins_ignore rs t) =
     (case get k t of Some r \<Rightarrow> Some r | None \<Rightarrow> find (\<lambda>r. key r = k) rs)"
  by (induction rs arbitrary: t) (auto simp: get_ins_ignore split: option.splits)

lemma wf_fold_ins_ignore: "wf t \<Longrightarrow> wf (fold ins_ignore rs t)"
  by (induction rs arbitrary: t) (auto simp: wf_ins_ignore)

end

lemma sql_table_rows:
  "sql_table (row_get key) (row_insert key) (row_insert_ignore key)
     (\<lambda>k. row_delete (\<lambda>r. key r = k)) key (keys_distinct key)"
proof (unfold_locales, goal_cases)
  case (1 r t) then show ?case by (simp add: row_insert_def)
next
  case (2 r t) then show ?case by (simp add: row_insert_def)
next
  case (3 r t t' k) then show ?case by (auto dest!: row_insert_SomeD split: option.splits)
next
  case (4 r t) then show ?case by (simp add: row_insert_def row_insert_ignore_def)
next
  case (5 t k k') then show ?case
    by (auto simp: row_get_delete_key intro!: row_get_delete_other)
next
  case (6 t r t') then show ?case by (auto dest!: row_insert_SomeD simp: keys_distinct_append1)
next
  case (7 t k) then show ?case by (rule keys_distinct_delete)
qed

section \<open>First writer wins\<close>

text \<open>
  Trust on first use: a claim binds a free key, and no later claim changes a binding. The
  result of any sequence of claims is the first one made for the key.
\<close>

locale first_writer_wins =
  fixes bound :: "'s \<Rightarrow> 'k \<Rightarrow> 'v option"
    and claim :: "'k \<Rightarrow> 'v \<Rightarrow> 's \<Rightarrow> 's"
  assumes claim_free: "bound s k = None \<Longrightarrow> bound (claim k v s) k = Some v"
    and claim_taken: "bound s k = Some w \<Longrightarrow> bound (claim k v s) k = Some w"
    and claim_other: "k' \<noteq> k \<Longrightarrow> bound (claim k v s) k' = bound s k'"
begin

lemma bound_claim:
  "bound (claim k v s) k' =
     (case bound s k' of Some w \<Rightarrow> Some w | None \<Rightarrow> (if k' = k then Some v else None))"
  by (cases "k' = k") (auto simp: claim_other claim_free claim_taken split: option.splits)

lemma bound_claims:
  "bound (fold (\<lambda>(k, v). claim k v) cs s) k =
     (case bound s k of Some w \<Rightarrow> Some w | None \<Rightarrow> map_of cs k)"
proof (induction cs arbitrary: s)
  case Nil
  show ?case by (simp split: option.split)
next
  case (Cons c cs)
  obtain k' v where c: "c = (k', v)" by (cases c)
  show ?case by (cases "bound s k") (auto simp: c Cons.IH bound_claim)
qed

lemma bound_stable:
  "bound s k = Some w \<Longrightarrow> bound (fold (\<lambda>(k, v). claim k v) cs s) k = Some w"
  by (simp add: bound_claims)

end

section \<open>Codecs\<close>

text \<open>
  An encoder with a partial decoder. The parsers of the protocol accept a text only if
  re-encoding the decoded bytes gives the text back, which makes the accepted texts exactly
  the encodings: \<open>canonical_iff\<close>.
\<close>

locale codec =
  fixes enc :: "'a \<Rightarrow> 'b"
    and dec :: "'b \<Rightarrow> 'a option"
  assumes dec_enc: "dec (enc x) = Some x"
begin

lemma enc_inj: "enc x = enc y \<longleftrightarrow> x = y"
  by (metis dec_enc option.inject)

lemma canonical_iff:
  "(\<exists>x. dec t = Some x \<and> enc x = t) \<longleftrightarrow> (\<exists>x. t = enc x)"
  by (metis dec_enc)

lemma canonical_unique:
  "dec t = Some x \<Longrightarrow> enc x = t \<Longrightarrow> dec u = Some x \<Longrightarrow> enc x = u \<Longrightarrow> t = u"
  by simp

end

section \<open>Transition systems\<close>

inductive run :: "('s \<Rightarrow> 'e \<Rightarrow> 's \<Rightarrow> bool) \<Rightarrow> 's \<Rightarrow> 'e list \<Rightarrow> 's \<Rightarrow> bool" for step where
  run_nil: "run step s [] s"
| run_cons: "step s e s' \<Longrightarrow> run step s' es s'' \<Longrightarrow> run step s (e # es) s''"

inductive_cases run_NilE: "run step s [] s'"
inductive_cases run_ConsE: "run step s (e # es) s'"

lemma run_append: "run step s es s' \<Longrightarrow> run step s' fs s'' \<Longrightarrow> run step s (es @ fs) s''"
  by (induction rule: run.induct) (auto intro: run.intros)

locale invariant_system =
  fixes init :: "'s \<Rightarrow> bool"
    and step :: "'s \<Rightarrow> 'e \<Rightarrow> 's \<Rightarrow> bool"
    and inv :: "'s \<Rightarrow> bool"
  assumes inv_init: "init s \<Longrightarrow> inv s"
    and inv_step: "step s e s' \<Longrightarrow> inv s \<Longrightarrow> inv s'"
begin

lemma run_inv: "run step s es s' \<Longrightarrow> inv s \<Longrightarrow> inv s'"
  by (induction rule: run.induct) (auto intro: inv_step)

lemma init_run_inv: "init s \<Longrightarrow> run step s es s' \<Longrightarrow> inv s'"
  by (blast intro: run_inv inv_init)

end

end
