(* ===== verification/Json.thy ===== *)
theory Json
  imports Prelude Complex_Main
begin

text \<open>
  JSON values as the code sees them after \<^verbatim>\<open>JSON.parse\<close>, the checks the protocol layer
  makes on them (\<^verbatim>\<open>typeof\<close>, own properties, \<^verbatim>\<open>Number.isInteger\<close>), what a value looks
  like after it has been stored as text and read back, and the canonical serialisation of
  \<^verbatim>\<open>packages/wot-core/src/protocol/crypto/jcs.ts\<close>.

  A JavaScript string is the list of the bytes of its UTF-8 form. A JSON number is a rational
  number or an infinity (\<^verbatim>\<open>JSON.parse\<close> reads an out-of-range literal as an infinity); NaN
  never comes out of \<^verbatim>\<open>JSON.parse\<close>. An object is the list of its own properties in
  property order; a missing property (\<^verbatim>\<open>undefined\<close>) is \<open>None\<close>.
\<close>

section \<open>Numbers\<close>

datatype jsnum = NegInf | Fin rat | PosInf

instantiation jsnum :: linorder
begin

fun less_eq_jsnum :: "jsnum \<Rightarrow> jsnum \<Rightarrow> bool" where
  "less_eq_jsnum NegInf y = True"
| "less_eq_jsnum (Fin a) (Fin b) = (a \<le> b)"
| "less_eq_jsnum (Fin a) PosInf = True"
| "less_eq_jsnum PosInf PosInf = True"
| "less_eq_jsnum x y = False"

definition less_jsnum :: "jsnum \<Rightarrow> jsnum \<Rightarrow> bool" where
  "less_jsnum x y \<longleftrightarrow> x \<le> y \<and> \<not> y \<le> (x :: jsnum)"

instance
proof
  fix x y z :: jsnum
  show "(x < y) = (x \<le> y \<and> \<not> y \<le> x)" by (rule less_jsnum_def)
  show "x \<le> x" by (cases x) auto
  show "x \<le> y \<Longrightarrow> y \<le> z \<Longrightarrow> x \<le> z" by (cases x; cases y; cases z) auto
  show "x \<le> y \<Longrightarrow> y \<le> x \<Longrightarrow> x = y" by (cases x; cases y) auto
  show "x \<le> y \<or> y \<le> x" by (cases x; cases y) auto
qed

end

lemma less_jsnum_simps [simp]:
  "(Fin a < Fin b) = (a < b)" "Fin a < PosInf" "NegInf < Fin a" "NegInf < PosInf"
  "\<not> PosInf < x" "\<not> x < NegInf"
  by (auto simp: less_jsnum_def elim!: less_eq_jsnum.elims)

definition num_of_int :: "int \<Rightarrow> jsnum" where
  "num_of_int n = Fin (of_int n)"

text \<open>\<^verbatim>\<open>Number.isInteger(x)\<close>, with the integer when it is one.\<close>

fun num_int :: "jsnum \<Rightarrow> int option" where
  "num_int (Fin r) = (if of_int \<lfloor>r\<rfloor> = r then Some \<lfloor>r\<rfloor> else None)"
| "num_int _ = None"

lemma num_int_of_int [simp]: "num_int (num_of_int n) = Some n"
  by (simp add: num_of_int_def)

lemma num_int_SomeD: "num_int x = Some n \<Longrightarrow> x = num_of_int n"
  by (cases x) (auto simp: num_of_int_def split: if_splits)

lemma num_of_int_less [simp]: "(num_of_int m < num_of_int n) = (m < n)"
  by (simp add: num_of_int_def)

lemma num_of_int_inj [simp]: "(num_of_int m = num_of_int n) = (m = n)"
  by (simp add: num_of_int_def)

definition max_safe_integer :: int where
  "max_safe_integer = 9007199254740991"

text \<open>\<^verbatim>\<open>Number.isSafeInteger\<close>, on an integer.\<close>

definition safe_integer :: "int \<Rightarrow> bool" where
  "safe_integer n \<longleftrightarrow> \<bar>n\<bar> \<le> max_safe_integer"

section \<open>Values\<close>

datatype json =
    JNull
  | JBool bool
  | JNum jsnum
  | JStr string
  | JArr "json list"
  | JObj "(string \<times> json) list"

abbreviation JInt :: "int \<Rightarrow> json" where
  "JInt n \<equiv> JNum (num_of_int n)"

text \<open>Reading a property: \<^verbatim>\<open>value.key\<close> (\<open>None\<close> is \<^verbatim>\<open>undefined\<close>).\<close>

fun jget :: "string \<Rightarrow> json \<Rightarrow> json option" where
  "jget k (JObj kvs) = map_of kvs k"
| "jget k _ = None"

fun jkeys :: "json \<Rightarrow> string list" where
  "jkeys (JObj kvs) = map fst kvs"
| "jkeys _ = []"

fun jstr :: "json \<Rightarrow> string option" where
  "jstr (JStr s) = Some s"
| "jstr _ = None"

fun jint :: "json \<Rightarrow> int option" where
  "jint (JNum x) = num_int x"
| "jint _ = None"

fun jarr :: "json \<Rightarrow> json list option" where
  "jarr (JArr xs) = Some xs"
| "jarr _ = None"

text \<open>The \<^verbatim>\<open>assertRecord\<close> of the protocol files: a non-null object that is no array.\<close>

fun is_record :: "json \<Rightarrow> bool" where
  "is_record (JObj _) = True"
| "is_record _ = False"

definition jget_str :: "string \<Rightarrow> json \<Rightarrow> string option" where
  "jget_str k v = Option.bind (jget k v) jstr"

definition jget_int :: "string \<Rightarrow> json \<Rightarrow> int option" where
  "jget_int k v = Option.bind (jget k v) jint"

lemma jstr_SomeD: "jstr v = Some s \<Longrightarrow> v = JStr s"
  by (cases v) auto

lemma jint_SomeD: "jint v = Some n \<Longrightarrow> v = JInt n"
  by (cases v) (auto dest: num_int_SomeD)

lemma jarr_SomeD: "jarr v = Some xs \<Longrightarrow> v = JArr xs"
  by (cases v) auto

lemma jget_str_Some: "jget_str k v = Some s \<longleftrightarrow> jget k v = Some (JStr s)"
  by (auto simp: jget_str_def bind_eq_Some_conv dest: jstr_SomeD)

lemma jget_int_Some: "jget_int k v = Some n \<longleftrightarrow> jget k v = Some (JInt n)"
  by (auto simp: jget_int_def bind_eq_Some_conv dest: jint_SomeD)

lemma jget_record: "jget k v \<noteq> None \<Longrightarrow> is_record v"
  by (cases v) auto

lemma jget_in_jkeys: "jget k v \<noteq> None \<longleftrightarrow> k \<in> set (jkeys v)"
proof (cases v)
  case (JObj kvs)
  then show ?thesis
    using map_of_eq_None_iff [of kvs k] by (simp del: not_None_eq)
qed auto

text \<open>
  The closed-frame check of the protocol files (\<^verbatim>\<open>assertTopLevelKeys\<close> followed by the
  required-property checks, \<^verbatim>\<open>assertExactKeys\<close>): every own key is allowed and every
  allowed key is an own key.
\<close>

definition exact_keys :: "string list \<Rightarrow> json \<Rightarrow> bool" where
  "exact_keys allowed v \<longleftrightarrow>
     is_record v \<and> list_all (\<lambda>k. k \<in> set allowed) (jkeys v) \<and> list_all (\<lambda>k. k \<in> set (jkeys v)) allowed"

text \<open>\<^verbatim>\<open>assertNoExtraKeys\<close>: unknown keys are refused, missing ones are not.\<close>

definition no_extra_keys :: "string list \<Rightarrow> json \<Rightarrow> bool" where
  "no_extra_keys allowed v \<longleftrightarrow> is_record v \<and> list_all (\<lambda>k. k \<in> set allowed) (jkeys v)"

text \<open>
  The order of properties. What is read by key does not depend on it; the canonical form of an object
  is written, and so read back, in the order of its keys.
\<close>

definition key_sorted :: "json \<Rightarrow> json" where
  "key_sorted v = (case v of JObj kvs \<Rightarrow> JObj (sort_key fst kvs) | _ \<Rightarrow> v)"

lemma map_of_insort: "map_of (insort_key fst (k, v) xs) = (map_of xs)(k \<mapsto> v)"
  by (induction xs) (auto simp: fun_eq_iff)

lemma map_of_key_sorted: "map_of (sort_key fst kvs) = map_of kvs"
proof (induction kvs)
  case (Cons kv kvs)
  then show ?case by (cases kv) (simp add: map_of_insort)
qed simp

lemma key_sorted_read [simp]:
  "jget k (key_sorted v) = jget k v" "jget_str k (key_sorted v) = jget_str k v" "jget_int k (key_sorted v) = jget_int k v"
  "is_record (key_sorted v) = is_record v" "set (jkeys (key_sorted v)) = set (jkeys v)"
  "exact_keys ks (key_sorted v) = exact_keys ks v" "no_extra_keys ks (key_sorted v) = no_extra_keys ks v"
proof -
  show get: "jget k (key_sorted v) = jget k v" by (cases v) (simp_all add: key_sorted_def map_of_key_sorted)
  then show "jget_str k (key_sorted v) = jget_str k v" "jget_int k (key_sorted v) = jget_int k v"
    by (simp_all add: jget_str_def jget_int_def)
  show rec: "is_record (key_sorted v) = is_record v" by (cases v) (simp_all add: key_sorted_def)
  show keys: "set (jkeys (key_sorted v)) = set (jkeys v)" by (cases v) (simp_all add: key_sorted_def)
  then show "exact_keys ks (key_sorted v) = exact_keys ks v" "no_extra_keys ks (key_sorted v) = no_extra_keys ks v"
    using rec by (simp_all add: exact_keys_def no_extra_keys_def list_all_iff)
qed

lemma sort_jkeys_key_sorted [simp]: "sort (jkeys (key_sorted v)) = sort (jkeys v)"
proof (cases v)
  case (JObj kvs)
  have ins: "map fst (insort_key fst x xs) = insort (fst x) (map fst xs)" for x and xs :: "(string \<times> json) list"
    by (induction xs) auto
  have "map fst (sort_key fst kvs) = sort (map fst kvs)" by (induction kvs) (simp_all add: ins)
  then show ?thesis by (simp add: JObj key_sorted_def sorted_sort_id)
qed (simp_all add: key_sorted_def)

lemma exact_keys_set: "exact_keys ks v \<longleftrightarrow> is_record v \<and> set (jkeys v) = set ks"
  by (auto simp: exact_keys_def list_all_iff)

section \<open>Stored values\<close>

text \<open>
  \<^verbatim>\<open>JSON.parse(JSON.stringify(v))\<close>: non-finite numbers become \<^verbatim>\<open>null\<close>, everything else
  is kept. Two values have the same text exactly when they are stored alike, so the tables
  hold the stored value in place of its text.
\<close>

fun json_stored :: "json \<Rightarrow> json"
  and json_stored_list :: "json list \<Rightarrow> json list"
  and json_stored_fields :: "(string \<times> json) list \<Rightarrow> (string \<times> json) list" where
  "json_stored (JNum (Fin r)) = JNum (Fin r)"
| "json_stored (JNum NegInf) = JNull"
| "json_stored (JNum PosInf) = JNull"
| "json_stored (JArr xs) = JArr (json_stored_list xs)"
| "json_stored (JObj kvs) = JObj (json_stored_fields kvs)"
| "json_stored JNull = JNull"
| "json_stored (JBool b) = JBool b"
| "json_stored (JStr s) = JStr s"
| "json_stored_list [] = []"
| "json_stored_list (x # xs) = json_stored x # json_stored_list xs"
| "json_stored_fields [] = []"
| "json_stored_fields ((k, v) # kvs) = (k, json_stored v) # json_stored_fields kvs"

lemma json_stored_idem [simp]:
  "json_stored (json_stored v) = json_stored v"
  "json_stored_list (json_stored_list vs) = json_stored_list vs"
  "json_stored_fields (json_stored_fields kvs) = json_stored_fields kvs"
  by (induction v and vs and kvs rule: json_stored_json_stored_list_json_stored_fields.induct) auto

lemma map_of_json_stored_fields:
  "map_of (json_stored_fields kvs) k = map_option json_stored (map_of kvs k)"
  by (induction kvs) auto

lemma jget_json_stored: "jget k (json_stored v) = map_option json_stored (jget k v)"
  by (cases v rule: json_stored.cases) (auto simp: map_of_json_stored_fields)

lemma jget_str_json_stored [simp]: "jget_str k (json_stored v) = jget_str k v"
proof -
  have "jstr (json_stored w) = jstr w" for w
    by (cases w rule: json_stored.cases) auto
  then show ?thesis
    by (cases "jget k v") (simp_all add: jget_str_def jget_json_stored)
qed

section \<open>Decimal text\<close>

fun nat_text :: "nat \<Rightarrow> string" where
  "nat_text n =
     (if n < 10 then [char_of (48 + n)] else nat_text (n div 10) @ [char_of (48 + n mod 10)])"

declare nat_text.simps [simp del]

definition int_text :: "int \<Rightarrow> string" where
  "int_text n = (if n < 0 then ''-'' @ nat_text (nat (- n)) else nat_text (nat n))"

fun nat_of_text :: "nat \<Rightarrow> string \<Rightarrow> nat" where
  "nat_of_text acc [] = acc"
| "nat_of_text acc (c # cs) = nat_of_text (10 * acc + (of_char c - 48)) cs"

lemma nat_of_text_append: "nat_of_text acc (s @ t) = nat_of_text (nat_of_text acc s) t"
  by (induction s arbitrary: acc) auto

lemma of_char_digit: "n < 10 \<Longrightarrow> of_char (char_of (48 + n) :: char) = (48 + n :: nat)"
  by simp

lemma nat_of_text_nat_text: "nat_of_text 0 (nat_text n) = n"
proof (induction n rule: nat_text.induct)
  case (1 n)
  show ?case
  proof (cases "n < 10")
    case True
    then show ?thesis by (simp add: nat_text.simps [of n] of_char_digit)
  next
    case False
    then have IH: "nat_of_text 0 (nat_text (n div 10)) = n div 10"
      using 1 by simp
    have "nat_of_text 0 (nat_text n) = 10 * (n div 10) + n mod 10"
      using False by (simp add: nat_text.simps [of n] nat_of_text_append IH of_char_digit)
    then show ?thesis by simp
  qed
qed

lemma nat_text_inj: "nat_text m = nat_text n \<longleftrightarrow> m = n"
  by (metis nat_of_text_nat_text)

section \<open>Canonical serialisation (RFC 8785)\<close>

text \<open>
  The escapes of \<^verbatim>\<open>JSON.stringify\<close> on a string. The byte of a character outside ASCII is
  copied.
\<close>

definition hex_digit :: "nat \<Rightarrow> char" where
  "hex_digit n = (if n < 10 then char_of (48 + n) else char_of (87 + n))"

definition json_escape_char :: "char \<Rightarrow> string" where
  "json_escape_char c =
     (let n = of_char c :: nat in
      if n = 34 then [CHR 0x5C, CHR 0x22]
      else if n = 92 then [CHR 0x5C, CHR 0x5C]
      else if n = 8 then [CHR 0x5C, CHR ''b'']
      else if n = 9 then [CHR 0x5C, CHR ''t'']
      else if n = 10 then [CHR 0x5C, CHR ''n'']
      else if n = 12 then [CHR 0x5C, CHR ''f'']
      else if n = 13 then [CHR 0x5C, CHR ''r'']
      else if n < 32 then CHR 0x5C # ''u00'' @ [hex_digit (n div 16), hex_digit (n mod 16)]
      else [c])"

definition json_quote :: "string \<Rightarrow> string" where
  "json_quote s = CHR 0x22 # concat (map json_escape_char s) @ [CHR 0x22]"

fun join :: "string \<Rightarrow> string list \<Rightarrow> string" where
  "join sep [] = []"
| "join sep [x] = x"
| "join sep (x # y # xs) = x @ sep @ join sep (y # xs)"

text \<open>
  \<open>canonicalize num v\<close> is \<open>None\<close> where the code throws (a non-finite number). \<open>num\<close> is the
  number formatting of \<^verbatim>\<open>JSON.stringify\<close>. The fields are serialised and then sorted by
  key; the code sorts the keys and then serialises, which gives the same list.
\<close>

fun canonicalize :: "(rat \<Rightarrow> string) \<Rightarrow> json \<Rightarrow> string option"
  and canonicalize_items :: "(rat \<Rightarrow> string) \<Rightarrow> json list \<Rightarrow> string list option"
  and canonicalize_fields ::
    "(rat \<Rightarrow> string) \<Rightarrow> (string \<times> json) list \<Rightarrow> (string \<times> string) list option" where
  "canonicalize num JNull = Some ''null''"
| "canonicalize num (JBool b) = Some (if b then ''true'' else ''false'')"
| "canonicalize num (JNum x) = (case x of Fin r \<Rightarrow> Some (num r) | _ \<Rightarrow> None)"
| "canonicalize num (JStr s) = Some (json_quote s)"
| "canonicalize num (JArr xs) =
     map_option (\<lambda>ts. ''['' @ join '','' ts @ '']'') (canonicalize_items num xs)"
| "canonicalize num (JObj kvs) =
     map_option (\<lambda>kts. ''{'' @ join '','' (map (\<lambda>(k, t). json_quote k @ '':'' @ t) (sort_key fst kts)) @ ''}'')
       (canonicalize_fields num kvs)"
| "canonicalize_items num [] = Some []"
| "canonicalize_items num (x # xs) =
     Option.bind (canonicalize num x) (\<lambda>t. map_option ((#) t) (canonicalize_items num xs))"
| "canonicalize_fields num [] = Some []"
| "canonicalize_fields num ((k, v) # kvs) =
     Option.bind (canonicalize num v) (\<lambda>t. map_option ((#) (k, t)) (canonicalize_fields num kvs))"

text \<open>
  The number formatting that the values of this protocol need: an integer below \<open>10 ^ 21\<close> in
  magnitude is its decimal text; \<open>other\<close> is what the runtime prints for any other number.
\<close>

definition js_number_text :: "(rat \<Rightarrow> string) \<Rightarrow> rat \<Rightarrow> string" where
  "js_number_text other r =
     (if of_int \<lfloor>r\<rfloor> = r \<and> \<bar>r\<bar> < 10 ^ 21 then int_text \<lfloor>r\<rfloor> else other r)"

section \<open>Quoted strings can be read back\<close>

text \<open>
  The value of a hexadecimal digit, and the inverse of \<open>json_quote\<close>: reads up to the closing
  quote and undoes the escapes the serialiser writes.
\<close>

definition hex_value :: "char \<Rightarrow> nat" where
  "hex_value c = (let n = of_char c :: nat in if n < 58 then n - 48 else n - 87)"

definition unescape :: "char \<Rightarrow> char" where
  "unescape c =
     (if c = CHR ''b'' then CHR 0x08 else if c = CHR ''t'' then CHR 0x09
      else if c = CHR ''n'' then CHR 0x0A else if c = CHR ''f'' then CHR 0x0C
      else if c = CHR ''r'' then CHR 0x0D else c)"

fun read_quoted :: "string \<Rightarrow> (string \<times> string) option" where
  "read_quoted [] = None"
| "read_quoted (c # cs) =
     (if c = CHR 0x22 then Some ([], cs)
      else if c = CHR 0x5C then
        (case cs of
           [] \<Rightarrow> None
         | e # r \<Rightarrow>
             if e = CHR ''u'' then
               (case r of
                  x # y # h # l # r' \<Rightarrow>
                    map_option (\<lambda>(s, t). (char_of (16 * hex_value h + hex_value l) # s, t)) (read_quoted r')
                | _ \<Rightarrow> None)
             else map_option (\<lambda>(s, t). (unescape e # s, t)) (read_quoted r))
      else map_option (\<lambda>(s, t). (c # s, t)) (read_quoted cs))"

lemma hex_value_digit: "n < 16 \<Longrightarrow> hex_value (hex_digit n) = n"
  by (simp add: hex_value_def hex_digit_def Let_def)

lemma char_of_nat_eq: "of_char c = (n :: nat) \<Longrightarrow> c = char_of n"
  by (metis char_of_char)

lemma char_codes:
  "char_of (34 :: nat) = CHR 0x22" "char_of (92 :: nat) = CHR 0x5C" "char_of (8 :: nat) = CHR 0x08"
  "char_of (9 :: nat) = CHR 0x09" "char_of (10 :: nat) = CHR 0x0A" "char_of (12 :: nat) = CHR 0x0C"
  "char_of (13 :: nat) = CHR 0x0D"
  by code_simp+

lemma read_quoted_escape:
  "read_quoted (json_escape_char c @ r) = map_option (\<lambda>(s, t). (c # s, t)) (read_quoted r)"
proof -
  let ?n = "of_char c :: nat"
  consider (special) "?n \<in> {34, 92, 8, 9, 10, 12, 13}" | (control) "?n \<notin> {34, 92, 8, 9, 10, 12, 13}" "?n < 32"
    | (plain) "?n \<notin> {34, 92, 8, 9, 10, 12, 13}" "\<not> ?n < 32" by blast
  then show ?thesis
  proof cases
    case special
    then show ?thesis
      by (auto simp: json_escape_char_def unescape_def char_codes dest!: char_of_nat_eq)
  next
    case control
    then have "16 * hex_value (hex_digit (?n div 16)) + hex_value (hex_digit (?n mod 16)) = ?n"
      by (simp add: hex_value_digit)
    then show ?thesis
      using control by (simp add: json_escape_char_def Let_def)
  next
    case plain
    then have "c \<noteq> CHR 0x22" "c \<noteq> CHR 0x5C" by auto
    with plain show ?thesis by (simp add: json_escape_char_def Let_def)
  qed
qed

lemma read_quoted_escaped: "read_quoted (concat (map json_escape_char s) @ CHR 0x22 # r) = Some (s, r)"
  by (induction s) (simp_all add: read_quoted_escape)

lemma json_quote_append_inject: "json_quote s @ x = json_quote t @ y \<longleftrightarrow> s = t \<and> x = y"
proof
  assume "json_quote s @ x = json_quote t @ y"
  then have "read_quoted (concat (map json_escape_char s) @ CHR 0x22 # x) =
      read_quoted (concat (map json_escape_char t) @ CHR 0x22 # y)"
    by (simp add: json_quote_def)
  then show "s = t \<and> x = y" by (simp add: read_quoted_escaped)
qed simp

lemma json_quote_inject [simp]: "json_quote s = json_quote t \<longleftrightarrow> s = t"
  using json_quote_append_inject [of s "[]" t "[]"] by simp

end
