(* ===== verification/Tables.thy ===== *)
theory Tables
  imports Json
begin

text \<open>
  The broker's one SQLite database: the tables of \<^verbatim>\<open>packages/wot-relay/src/log-store.ts\<close>
  (durable log, devices, spaces, space admins, personal document owners) and of
  \<^verbatim>\<open>packages/wot-relay/src/queue.ts\<close> (inbox messages, per-device inbox entries), which share
  one handle. A table is its rows in insertion order; the primary keys are the key functions
  below and the invariant \<open>db_keys\<close> says that no key occurs twice.

  Timestamps are the epoch milliseconds whose ISO text the code stores. The stored text has a
  fixed width, so its lexicographic order, which the queries use, is the order of the
  milliseconds. \<open>revoked_at\<close> is a text the client sent and stays a text.
\<close>

record log_row =
  log_doc :: string
  log_device :: string
  log_seq :: int
  log_hash :: string
  log_jws :: string
  log_created :: int

datatype device_status = Active | Revoked

lemma not_Revoked [simp]: "s \<noteq> Revoked \<longleftrightarrow> s = Active"
  by (cases s) simp_all

lemma not_Active [simp]: "s \<noteq> Active \<longleftrightarrow> s = Revoked"
  by (cases s) simp_all

record device_row =
  dev_did :: string
  dev_id :: string
  dev_first_seen :: int
  dev_last_seen :: int
  dev_status :: device_status
  dev_revoked_at :: "string option"

record space_row =
  sp_id :: string
  sp_key :: string
  sp_generation :: int
  sp_created :: int

record owner_row =
  own_doc :: string
  own_did :: string
  own_claimed :: int

record message_row =
  msg_rowid :: nat
  msg_id :: string
  msg_to :: string
  msg_envelope :: json
  msg_created :: int

datatype entry_status = Pending | Acked | SenderExcluded

record entry_row =
  ent_msg :: string
  ent_device :: string
  ent_status :: entry_status

record db =
  doc_log :: "log_row list"
  devices :: "device_row list"
  spaces :: "space_row list"
  space_admins :: "(string \<times> string) list"
  owners :: "owner_row list"
  messages :: "message_row list"
  next_rowid :: nat
  entries :: "entry_row list"

definition empty_db :: db where
  "empty_db = \<lparr>doc_log = [], devices = [], spaces = [], space_admins = [], owners = [],
     messages = [], next_rowid = 1, entries = []\<rparr>"

definition log_key :: "log_row \<Rightarrow> string \<times> string \<times> int" where
  "log_key r = (log_doc r, log_device r, log_seq r)"

definition ent_key :: "entry_row \<Rightarrow> string \<times> string" where
  "ent_key e = (ent_msg e, ent_device e)"

section \<open>The tables implement the table interface\<close>

interpretation log_table: sql_table "row_get log_key" "row_insert log_key"
  "row_insert_ignore log_key" "\<lambda>k. row_delete (\<lambda>r. log_key r = k)" log_key "keys_distinct log_key"
  by (rule sql_table_rows)

interpretation device_table: sql_table "row_get dev_id" "row_insert dev_id"
  "row_insert_ignore dev_id" "\<lambda>k. row_delete (\<lambda>r. dev_id r = k)" dev_id "keys_distinct dev_id"
  by (rule sql_table_rows)

interpretation space_table: sql_table "row_get sp_id" "row_insert sp_id"
  "row_insert_ignore sp_id" "\<lambda>k. row_delete (\<lambda>r. sp_id r = k)" sp_id "keys_distinct sp_id"
  by (rule sql_table_rows)

interpretation admin_table: sql_table "row_get id" "row_insert id"
  "row_insert_ignore id" "\<lambda>k. row_delete (\<lambda>r. id r = k)"
  "id :: string \<times> string \<Rightarrow> string \<times> string" "keys_distinct id"
  by (rule sql_table_rows)

interpretation owner_table: sql_table "row_get own_doc" "row_insert own_doc"
  "row_insert_ignore own_doc" "\<lambda>k. row_delete (\<lambda>r. own_doc r = k)" own_doc "keys_distinct own_doc"
  by (rule sql_table_rows)

interpretation message_table: sql_table "row_get msg_id" "row_insert msg_id"
  "row_insert_ignore msg_id" "\<lambda>k. row_delete (\<lambda>r. msg_id r = k)" msg_id "keys_distinct msg_id"
  by (rule sql_table_rows)

interpretation entry_table: sql_table "row_get ent_key" "row_insert ent_key"
  "row_insert_ignore ent_key" "\<lambda>k. row_delete (\<lambda>r. ent_key r = k)" ent_key "keys_distinct ent_key"
  by (rule sql_table_rows)

section \<open>Integrity of the database\<close>

definition log_keys :: "db \<Rightarrow> bool" where
  "log_keys d \<longleftrightarrow> keys_distinct log_key (doc_log d) \<and> keys_distinct dev_id (devices d) \<and>
     keys_distinct sp_id (spaces d) \<and> keys_distinct id (space_admins d) \<and>
     keys_distinct own_doc (owners d)"

text \<open>
  The inbox: messages and entries are keyed, row ids grow with insertion, and every entry
  belongs to a stored message.
\<close>

definition inbox_ok :: "db \<Rightarrow> bool" where
  "inbox_ok d \<longleftrightarrow> keys_distinct msg_id (messages d) \<and> keys_distinct ent_key (entries d) \<and>
     sorted_wrt (<) (map msg_rowid (messages d)) \<and>
     (\<forall>m \<in> set (messages d). msg_rowid m < next_rowid d) \<and>
     (\<forall>e \<in> set (entries d). ent_msg e \<in> msg_id ` set (messages d))"

text \<open>
  The registry: an admin row belongs to a registered space and generations are not negative.
\<close>

definition registry_ok :: "db \<Rightarrow> bool" where
  "registry_ok d \<longleftrightarrow>
     (\<forall>(s, a) \<in> set (space_admins d). s \<in> sp_id ` set (spaces d)) \<and>
     (\<forall>s \<in> set (spaces d). 0 \<le> sp_generation s)"

definition db_ok :: "db \<Rightarrow> bool" where
  "db_ok d \<longleftrightarrow> log_keys d \<and> inbox_ok d \<and> registry_ok d"

lemma db_ok_empty: "db_ok empty_db"
  by (simp add: db_ok_def log_keys_def inbox_ok_def registry_ok_def empty_db_def)

text \<open>Operations that leave a group of tables alone keep its part of the invariant.\<close>

lemma log_keys_frame:
  "doc_log d' = doc_log d \<Longrightarrow> devices d' = devices d \<Longrightarrow> spaces d' = spaces d \<Longrightarrow>
   space_admins d' = space_admins d \<Longrightarrow> owners d' = owners d \<Longrightarrow> log_keys d' = log_keys d"
  by (simp add: log_keys_def)

lemma inbox_ok_frame:
  "messages d' = messages d \<Longrightarrow> entries d' = entries d \<Longrightarrow> next_rowid d' = next_rowid d \<Longrightarrow>
   inbox_ok d' = inbox_ok d"
  by (simp add: inbox_ok_def)

lemma registry_ok_frame:
  "spaces d' = spaces d \<Longrightarrow> space_admins d' = space_admins d \<Longrightarrow> registry_ok d' = registry_ok d"
  by (simp add: registry_ok_def)

end
