(* ===== verification/SeqConsistency.thy ===== *)
theory SeqConsistency
  imports Json
begin

text \<open>
  The sequence-number and heads comparisons shared by broker and clients:
  \<^verbatim>\<open>protocol/sync/seq-consistency.ts\<close> and \<^verbatim>\<open>protocol/sync/heads.ts\<close>. A thrown
  \<^verbatim>\<open>Error\<close> is \<open>Inl\<close>. Sequence numbers are the integral JavaScript numbers, unbounded here;
  the safe-integer check of the code is \<open>safe_seq\<close>.
\<close>

datatype seq_error = InvalidSeq | InvalidContentHash | SeqOverflow

definition safe_seq :: "int \<Rightarrow> bool" where
  "safe_seq n \<longleftrightarrow> safe_integer n \<and> 0 \<le> n"

section \<open>Broker and local sequence numbers\<close>

datatype local_seq_disposition = RestoreCloneRequired | NoRestoreCloneDetected

definition classifyLocalBrokerSeqConsistency ::
  "int \<Rightarrow> int \<Rightarrow> seq_error + local_seq_disposition" where
  "classifyLocalBrokerSeqConsistency localSeq brokerSeq =
     (if \<not> safe_seq localSeq \<or> \<not> safe_seq brokerSeq then Inl InvalidSeq
      else if brokerSeq > localSeq then Inr RestoreCloneRequired
      else Inr NoRestoreCloneDetected)"

datatype seq_collision = AcceptNewEntry | IdempotentRetransmission | RejectSeqCollision

definition classifyBrokerSeqCollision ::
  "int \<Rightarrow> string option \<Rightarrow> string \<Rightarrow> seq_error + seq_collision" where
  "classifyBrokerSeqCollision seq existing incoming =
     (if \<not> safe_seq seq then Inl InvalidSeq
      else if incoming = [] then Inl InvalidContentHash
      else (case existing of
          None \<Rightarrow> Inr AcceptNewEntry
        | Some h \<Rightarrow>
            if h = [] then Inl InvalidContentHash
            else if h = incoming then Inr IdempotentRetransmission
            else Inr RejectSeqCollision))"

lemma classifyBrokerSeqCollision_accept:
  "classifyBrokerSeqCollision seq existing incoming = Inr AcceptNewEntry \<longleftrightarrow>
     safe_seq seq \<and> incoming \<noteq> [] \<and> existing = None"
  by (auto simp: classifyBrokerSeqCollision_def split: option.splits)

lemma classifyBrokerSeqCollision_idem:
  "classifyBrokerSeqCollision seq existing incoming = Inr IdempotentRetransmission \<longleftrightarrow>
     safe_seq seq \<and> incoming \<noteq> [] \<and> existing = Some incoming"
  by (auto simp: classifyBrokerSeqCollision_def split: option.splits)

section \<open>Heads\<close>

text \<open>
  \<^verbatim>\<open>SyncHeads\<close>: the last sequence number per device, as the own properties of an object.
\<close>

type_synonym heads = "(string \<times> int) list"

text \<open>The head of a device; one that is not listed counts as -1.\<close>

definition head_of :: "heads \<Rightarrow> string \<Rightarrow> int" where
  "head_of hs deviceId = (case map_of hs deviceId of None \<Rightarrow> -1 | Some h \<Rightarrow> h)"

definition deriveSyncStartSeq :: "heads \<Rightarrow> string \<Rightarrow> seq_error + int" where
  "deriveSyncStartSeq hs deviceId =
     (case map_of hs deviceId of
        None \<Rightarrow> Inr 0
      | Some h \<Rightarrow>
          if \<not> safe_seq h then Inl InvalidSeq
          else if h = max_safe_integer then Inl SeqOverflow
          else Inr (h + 1))"

datatype heads_comparison = Consistent | Divergent

definition compareSyncHeads :: "heads \<Rightarrow> heads \<Rightarrow> seq_error + heads_comparison" where
  "compareSyncHeads l r =
     (if \<not> list_all (\<lambda>(_, s). safe_seq s) l \<or> \<not> list_all (\<lambda>(_, s). safe_seq s) r then Inl InvalidSeq
      else if length l \<noteq> length r then Inr Divergent
      else if list_all (\<lambda>(k, _). map_of r k \<noteq> None \<and> map_of l k = map_of r k) l
      then Inr Consistent else Inr Divergent)"

datatype sync_response_disposition = RequestNextPage | Complete

definition evaluateSyncResponseDisposition :: "bool \<Rightarrow> sync_response_disposition" where
  "evaluateSyncResponseDisposition truncated = (if truncated then RequestNextPage else Complete)"

text \<open>The first sequence number a peer misses is one the heads do not cover.\<close>

lemma deriveSyncStartSeq_gt:
  assumes "deriveSyncStartSeq hs d = Inr n"
  shows "0 \<le> n \<and> (case map_of hs d of None \<Rightarrow> n = 0 | Some h \<Rightarrow> n = h + 1 \<and> safe_seq n)"
  using assms
  by (auto simp: deriveSyncStartSeq_def safe_seq_def safe_integer_def max_safe_integer_def
      split: option.splits if_splits)

lemma keys_subset_same_card:
  assumes "distinct (map fst l)" "distinct (map fst r)" "length l = length r"
    and "fst ` set l \<subseteq> fst ` set r"
  shows "fst ` set l = fst ` set r"
proof (rule card_subset_eq)
  have "card (fst ` set l) = length l" "card (fst ` set r) = length r"
    using assms(1,2) distinct_card [of "map fst l"] distinct_card [of "map fst r"] by auto
  then show "card (fst ` set l) = card (fst ` set r)" using assms(3) by simp
qed (use assms(4) in auto)

text \<open>
  On objects (no key twice) of safe sequence numbers the comparison decides equality of the
  two heads as maps.
\<close>

lemma compareSyncHeads_eq:
  assumes l: "distinct (map fst l)" and r: "distinct (map fst r)"
    and sl: "\<forall>(k, s) \<in> set l. safe_seq s" and sr: "\<forall>(k, s) \<in> set r. safe_seq s"
  shows "compareSyncHeads l r = Inr (if map_of l = map_of r then Consistent else Divergent)"
proof -
  have safe: "list_all (\<lambda>(_, s). safe_seq s) l" "list_all (\<lambda>(_, s). safe_seq s) r"
    using sl sr by (auto simp: list_all_iff)
  have dom: "fst ` set l = fst ` set r" if "map_of l = map_of r"
    using that by (metis dom_map_of_conv_image_fst)
  have len: "length l = length r" if "map_of l = map_of r"
  proof -
    have "card (fst ` set l) = length l" "card (fst ` set r) = length r"
      using l r distinct_card [of "map fst l"] distinct_card [of "map fst r"] by auto
    then show ?thesis using dom [OF that] by simp
  qed
  have all: "list_all (\<lambda>(k, _). map_of r k \<noteq> None \<and> map_of l k = map_of r k) l"
    if eq: "map_of l = map_of r"
    unfolding list_all_iff
  proof (clarify, intro conjI)
    fix k v assume "(k, v) \<in> set l"
    then have "map_of l k = Some v" using l by simp
    then show "map_of r k \<noteq> None" "map_of l k = map_of r k" using eq by auto
  qed
  have conv: "map_of l = map_of r"
    if len': "length l = length r"
      and ok: "list_all (\<lambda>(k, _). map_of r k \<noteq> None \<and> map_of l k = map_of r k) l"
  proof (rule ext)
    fix k
    have sub: "fst ` set l \<subseteq> fst ` set r"
    proof
      fix k assume "k \<in> fst ` set l"
      then have "map_of r k \<noteq> None" using ok by (auto simp: list_all_iff)
      then show "k \<in> fst ` set r" by (simp add: map_of_eq_None_iff)
    qed
    have same: "fst ` set l = fst ` set r"
      by (rule keys_subset_same_card [OF l r len' sub])
    show "map_of l k = map_of r k"
    proof (cases "k \<in> fst ` set l")
      case True
      then show ?thesis using ok by (auto simp: list_all_iff)
    next
      case False
      then show ?thesis using same by (metis map_of_eq_None_iff)
    qed
  qed
  show ?thesis
    using safe len all conv by (auto simp: compareSyncHeads_def)
qed

end
