(* ===== verification/DocLog.thy ===== *)
theory DocLog
  imports Tables SeqConsistency "HOL-Library.Product_Lexorder" "HOL-Library.AList"
begin

text \<open>
  The broker's durable store, class \<^verbatim>\<open>DocLog\<close> of \<^verbatim>\<open>packages/wot-relay/src/log-store.ts\<close>:
  the append-only log, the device list, the space registry and the personal document owners.

  Every method is one synchronous SQLite transaction and so one function on the database.
  An exception aborts the transaction: \<open>Inl\<close>, and the database is unchanged. A clock reading
  of the code is the argument \<open>now\<close>. Text columns compare by their UTF-8 bytes, the order of
  \<open>string\<close> here. \<^verbatim>\<open>SELECT\<close>s without \<^verbatim>\<open>ORDER BY\<close> read their rows in insertion order.
\<close>

datatype store_error = ConstraintError | ClassifyError seq_error

type_synonym 'a tx = "store_error + 'a \<times> db"

section \<open>The log\<close>

datatype append_result =
    AcceptedEntry
  | IdempotentEntry
  | SeqCollision
  | KeyGenerationStale

record entry_params =
  ep_doc :: string
  ep_device :: string
  ep_seq :: int
  ep_hash :: string
  ep_jws :: string
  ep_generation :: "int option"

definition getContentHash :: "string \<Rightarrow> string \<Rightarrow> int \<Rightarrow> db \<Rightarrow> string option" where
  "getContentHash docId deviceId seq d =
     map_option log_hash (row_get log_key (docId, deviceId, seq) (doc_log d))"

definition getSpace :: "string \<Rightarrow> db \<Rightarrow> (string \<times> int) option" where
  "getSpace spaceId d =
     map_option (\<lambda>r. (sp_key r, sp_generation r)) (row_get sp_id spaceId (spaces d))"

definition log_row_of :: "entry_params \<Rightarrow> int \<Rightarrow> log_row" where
  "log_row_of p now =
     \<lparr>log_doc = ep_doc p, log_device = ep_device p, log_seq = ep_seq p, log_hash = ep_hash p,
      log_jws = ep_jws p, log_created = now\<rparr>"

definition appendEntry :: "entry_params \<Rightarrow> int \<Rightarrow> db \<Rightarrow> append_result tx" where
  "appendEntry p now d =
     (case classifyBrokerSeqCollision (ep_seq p)
             (getContentHash (ep_doc p) (ep_device p) (ep_seq p) d) (ep_hash p) of
        Inl e \<Rightarrow> Inl (ClassifyError e)
      | Inr RejectSeqCollision \<Rightarrow> Inr (SeqCollision, d)
      | Inr IdempotentRetransmission \<Rightarrow> Inr (IdempotentEntry, d)
      | Inr AcceptNewEntry \<Rightarrow>
          (case (ep_generation p, getSpace (ep_doc p) d) of
             (Some g, Some (_, current)) \<Rightarrow>
               if g < current then Inr (KeyGenerationStale, d)
               else Inr (AcceptedEntry,
                 d\<lparr>doc_log := row_insert_ignore log_key (log_row_of p now) (doc_log d)\<rparr>)
           | _ \<Rightarrow> Inr (AcceptedEntry,
                 d\<lparr>doc_log := row_insert_ignore log_key (log_row_of p now) (doc_log d)\<rparr>)))"

text \<open>
  \<^verbatim>\<open>entries.slice(0, limit)\<close>; a negative bound counts from the end.
\<close>

definition js_slice0 :: "int \<Rightarrow> 'a list \<Rightarrow> 'a list" where
  "js_slice0 n xs = (if n < 0 then take (nat (int (length xs) + n)) xs else take (nat n) xs)"

definition doc_rows :: "string \<Rightarrow> db \<Rightarrow> log_row list" where
  "doc_rows docId d =
     sort_key (\<lambda>r. (log_device r, log_seq r)) (filter (\<lambda>r. log_doc r = docId) (doc_log d))"

definition missing_rows :: "string \<Rightarrow> heads \<Rightarrow> db \<Rightarrow> log_row list" where
  "missing_rows docId hs d = filter (\<lambda>r. log_seq r > head_of hs (log_device r)) (doc_rows docId d)"

definition getSinceWithTruncation ::
  "string \<Rightarrow> heads \<Rightarrow> int option \<Rightarrow> db \<Rightarrow> string list \<times> bool" where
  "getSinceWithTruncation docId hs limit d =
     (let missing = missing_rows docId hs d in
      case limit of
        Some n \<Rightarrow>
          if int (length missing) > n then (map log_jws (js_slice0 n missing), True)
          else (map log_jws missing, False)
      | None \<Rightarrow> (map log_jws missing, False))"

definition getSince :: "string \<Rightarrow> heads \<Rightarrow> int option \<Rightarrow> db \<Rightarrow> string list" where
  "getSince docId hs limit d = fst (getSinceWithTruncation docId hs limit d)"

fun max_seqs :: "log_row list \<Rightarrow> heads" where
  "max_seqs [] = []"
| "max_seqs (r # rs) =
     (case map_of (max_seqs rs) (log_device r) of
        None \<Rightarrow> (log_device r, log_seq r) # max_seqs rs
      | Some m \<Rightarrow> AList.update (log_device r) (max m (log_seq r)) (max_seqs rs))"

definition getHeads :: "string \<Rightarrow> db \<Rightarrow> heads" where
  "getHeads docId d = max_seqs (doc_rows docId d)"

section \<open>The device list\<close>

datatype device_registration = DevRegistered bool | DevIdConflict | DevRevoked

definition registerDevice :: "string \<Rightarrow> string \<Rightarrow> int \<Rightarrow> db \<Rightarrow> device_registration tx" where
  "registerDevice did deviceId now d =
     (case row_get dev_id deviceId (devices d) of
        Some e \<Rightarrow>
          if dev_did e \<noteq> did then Inr (DevIdConflict, d)
          else if dev_status e = Revoked then Inr (DevRevoked, d)
          else Inr (DevRegistered False,
            d\<lparr>devices := row_update (\<lambda>r. dev_id r = deviceId) (dev_last_seen_update (\<lambda>_. now)) (devices d)\<rparr>)
      | None \<Rightarrow>
          (case row_insert dev_id
                  \<lparr>dev_did = did, dev_id = deviceId, dev_first_seen = now, dev_last_seen = now,
                   dev_status = Active, dev_revoked_at = None\<rparr> (devices d) of
             None \<Rightarrow> Inl ConstraintError
           | Some rows \<Rightarrow> Inr (DevRegistered True, d\<lparr>devices := rows\<rparr>)))"

definition getDevice :: "string \<Rightarrow> db \<Rightarrow> device_row option" where
  "getDevice deviceId d = row_get dev_id deviceId (devices d)"

definition didForDevice :: "string \<Rightarrow> db \<Rightarrow> string option" where
  "didForDevice deviceId d = map_option dev_did (row_get dev_id deviceId (devices d))"

datatype device_revocation = RevRevoked | RevAlready | RevTombstoned | RevDidMismatch

definition revokeDevice ::
  "string \<Rightarrow> string \<Rightarrow> string \<Rightarrow> int \<Rightarrow> db \<Rightarrow> device_revocation tx" where
  "revokeDevice did deviceId revokedAt now d =
     (case row_get dev_id deviceId (devices d) of
        None \<Rightarrow>
          (case row_insert dev_id
                  \<lparr>dev_did = did, dev_id = deviceId, dev_first_seen = now, dev_last_seen = now,
                   dev_status = Revoked, dev_revoked_at = Some revokedAt\<rparr> (devices d) of
             None \<Rightarrow> Inl ConstraintError
           | Some rows \<Rightarrow> Inr (RevTombstoned, d\<lparr>devices := rows\<rparr>))
      | Some e \<Rightarrow>
          if dev_did e \<noteq> did then Inr (RevDidMismatch, d)
          else if dev_status e = Revoked then Inr (RevAlready, d)
          else Inr (RevRevoked,
            d\<lparr>devices := row_update (\<lambda>r. dev_id r = deviceId)
                (\<lambda>r. r\<lparr>dev_status := Revoked, dev_revoked_at := Some revokedAt, dev_last_seen := now\<rparr>)
                (devices d)\<rparr>))"

definition isActive :: "string \<Rightarrow> string \<Rightarrow> db \<Rightarrow> bool" where
  "isActive did deviceId d =
     (case row_get dev_id deviceId (devices d) of
        None \<Rightarrow> False
      | Some e \<Rightarrow> dev_did e = did \<and> dev_status e = Active)"

definition activeDeviceIdsForDid :: "string \<Rightarrow> db \<Rightarrow> string list" where
  "activeDeviceIdsForDid did d =
     map dev_id (filter (\<lambda>r. dev_did r = did \<and> dev_status r = Active) (devices d))"

definition effectiveActiveDeviceIdsForDid :: "string \<Rightarrow> int \<Rightarrow> int \<Rightarrow> db \<Rightarrow> string list" where
  "effectiveActiveDeviceIdsForDid did nowMs inactiveMs d =
     map dev_id (filter (\<lambda>r. dev_did r = did \<and> dev_status r = Active \<and>
       dev_last_seen r \<ge> nowMs - inactiveMs) (devices d))"

section \<open>Spaces and personal documents\<close>

definition isSpaceRegistered :: "string \<Rightarrow> db \<Rightarrow> bool" where
  "isSpaceRegistered spaceId d \<longleftrightarrow> row_get sp_id spaceId (spaces d) \<noteq> None"

definition admin_dids :: "string \<Rightarrow> db \<Rightarrow> string list" where
  "admin_dids spaceId d = map snd (filter (\<lambda>r. fst r = spaceId) (space_admins d))"

definition getSpaceAdmins :: "string \<Rightarrow> db \<Rightarrow> string list" where
  "getSpaceAdmins spaceId d = sort (admin_dids spaceId d)"

definition getPersonalDocOwner :: "string \<Rightarrow> db \<Rightarrow> string option" where
  "getPersonalDocOwner docId d = map_option own_did (row_get own_doc docId (owners d))"

definition isPersonalDocOwned :: "string \<Rightarrow> db \<Rightarrow> bool" where
  "isPersonalDocOwned docId d \<longleftrightarrow> getPersonalDocOwner docId d \<noteq> None"

definition personalDocOwnerCount :: "db \<Rightarrow> nat" where
  "personalDocOwnerCount d = length (owners d)"

text \<open>\<^verbatim>\<open>sameStringSet\<close> on the element lists of two sets.\<close>

definition sameStringSet :: "string list \<Rightarrow> string list \<Rightarrow> bool" where
  "sameStringSet a b \<longleftrightarrow> length a = length b \<and> list_all (\<lambda>v. v \<in> set b) a"

fun insert_all :: "('r \<Rightarrow> 'k) \<Rightarrow> 'r list \<Rightarrow> 'r list \<Rightarrow> 'r list option" where
  "insert_all key [] rows = Some rows"
| "insert_all key (r # rs) rows =
     (case row_insert key r rows of None \<Rightarrow> None | Some rows' \<Rightarrow> insert_all key rs rows')"

datatype space_registration = SpaceRegistered | SpaceIdempotent | SpaceConflict | PersonalOwnerConflict

definition registerSpace ::
  "string \<Rightarrow> string \<Rightarrow> string list \<Rightarrow> string \<Rightarrow> int \<Rightarrow> db \<Rightarrow> space_registration tx" where
  "registerSpace spaceId verificationKey adminDids signerDid now d =
     (let incomingAdmins = js_set adminDids;
          personalOwner = getPersonalDocOwner spaceId d in
      if personalOwner \<noteq> None \<and> personalOwner \<noteq> Some signerDid then Inr (PersonalOwnerConflict, d)
      else case row_get sp_id spaceId (spaces d) of
        Some existing \<Rightarrow>
          if sp_key existing \<noteq> verificationKey then Inr (SpaceConflict, d)
          else if \<not> sameStringSet (js_set (admin_dids spaceId d)) incomingAdmins
          then Inr (SpaceConflict, d)
          else Inr (SpaceIdempotent, d)
      | None \<Rightarrow>
          (case row_insert sp_id
                  \<lparr>sp_id = spaceId, sp_key = verificationKey, sp_generation = 0, sp_created = now\<rparr>
                  (spaces d) of
             None \<Rightarrow> Inl ConstraintError
           | Some rows \<Rightarrow>
               (case insert_all id (map (Pair spaceId) incomingAdmins) (space_admins d) of
                  None \<Rightarrow> Inl ConstraintError
                | Some admins \<Rightarrow>
                    Inr (SpaceRegistered,
                      d\<lparr>spaces := rows, space_admins := admins,
                        owners := (if personalOwner \<noteq> None
                                   then row_delete (\<lambda>r. own_doc r = spaceId) (owners d)
                                   else owners d)\<rparr>))))"

datatype owner_claim = OwnerClaimed | OwnerIdempotent | OwnerConflict

definition claimPersonalDocOwner :: "string \<Rightarrow> string \<Rightarrow> int \<Rightarrow> db \<Rightarrow> owner_claim tx" where
  "claimPersonalDocOwner docId did now d =
     (case row_get own_doc docId (owners d) of
        Some e \<Rightarrow> Inr (if own_did e = did then OwnerIdempotent else OwnerConflict, d)
      | None \<Rightarrow>
          (case row_insert own_doc \<lparr>own_doc = docId, own_did = did, own_claimed = now\<rparr> (owners d) of
             None \<Rightarrow> Inl ConstraintError
           | Some rows \<Rightarrow> Inr (OwnerClaimed, d\<lparr>owners := rows\<rparr>)))"

definition rotateSpace :: "string \<Rightarrow> string \<Rightarrow> int \<Rightarrow> db \<Rightarrow> db" where
  "rotateSpace spaceId newKey newGeneration d =
     d\<lparr>spaces := row_update (\<lambda>r. sp_id r = spaceId)
         (\<lambda>r. r\<lparr>sp_key := newKey, sp_generation := newGeneration\<rparr>) (spaces d)\<rparr>"

definition addAdmin :: "string \<Rightarrow> string \<Rightarrow> db \<Rightarrow> db" where
  "addAdmin spaceId adminDid d =
     d\<lparr>space_admins := row_insert_ignore id (spaceId, adminDid) (space_admins d)\<rparr>"

definition removeAdmin :: "string \<Rightarrow> string \<Rightarrow> db \<Rightarrow> db" where
  "removeAdmin spaceId adminDid d =
     d\<lparr>space_admins := row_delete (\<lambda>r. fst r = spaceId \<and> snd r = adminDid) (space_admins d)\<rparr>"

section \<open>Statistics\<close>

definition entryCount :: "string option \<Rightarrow> db \<Rightarrow> nat" where
  "entryCount docId d =
     (case docId of
        Some x \<Rightarrow> if x = [] then length (doc_log d) else length (filter (\<lambda>r. log_doc r = x) (doc_log d))
      | None \<Rightarrow> length (doc_log d))"

definition entryCountForDevice :: "string \<Rightarrow> string \<Rightarrow> db \<Rightarrow> nat" where
  "entryCountForDevice docId deviceId d =
     length (filter (\<lambda>r. log_doc r = docId \<and> log_device r = deviceId) (doc_log d))"

definition docCount :: "db \<Rightarrow> nat" where
  "docCount d = length (remdups (map log_doc (doc_log d)))"

text \<open>\<^verbatim>\<open>GROUP BY key\<close> with \<^verbatim>\<open>COUNT(*)\<close>: one row per key, in key order.\<close>

definition group_count :: "('r \<Rightarrow> 'k::linorder) \<Rightarrow> 'r list \<Rightarrow> ('k \<times> nat) list" where
  "group_count key rows =
     map (\<lambda>k. (k, length (filter (\<lambda>r. key r = k) rows))) (sort (remdups (map key rows)))"

definition entriesByDoc :: "db \<Rightarrow> (string \<times> nat) list" where
  "entriesByDoc d = group_count log_doc (doc_log d)"

definition devicesByDoc :: "db \<Rightarrow> (string \<times> nat) list" where
  "devicesByDoc d =
     map (\<lambda>k. (k, length (remdups (map log_device (filter (\<lambda>r. log_doc r = k) (doc_log d))))))
       (sort (remdups (map log_doc (doc_log d))))"

definition topDocsByEntries :: "int \<Rightarrow> db \<Rightarrow> (string \<times> nat \<times> nat) list" where
  "topDocsByEntries limit d =
     (let rows = sort_key (\<lambda>(doc, n, _). (- int n, doc))
           (map (\<lambda>(k, n). (k, n, the (map_of (devicesByDoc d) k))) (entriesByDoc d)) in
      if limit < 0 then rows else take (nat limit) rows)"

definition entriesByDocAndDevice :: "db \<Rightarrow> ((string \<times> string) \<times> nat) list" where
  "entriesByDocAndDevice d = group_count (\<lambda>r. (log_doc r, log_device r)) (doc_log d)"

definition spacesByDoc :: "db \<Rightarrow> (string \<times> int \<times> string list) list" where
  "spacesByDoc d =
     map (\<lambda>s. (sp_id s, sp_generation s, getSpaceAdmins (sp_id s) d)) (spaces d)"

text \<open>\<^verbatim>\<open>LENGTH\<close> of an SQLite text counts its code points: the bytes that start one.\<close>

definition utf8_chars :: "string \<Rightarrow> nat" where
  "utf8_chars s = length (filter (\<lambda>c. \<not> (128 \<le> (of_char c :: nat) \<and> (of_char c :: nat) < 192)) s)"

definition totalLogBytes :: "db \<Rightarrow> nat" where
  "totalLogBytes d = sum_list (map (\<lambda>r. utf8_chars (log_jws r)) (doc_log d))"

section \<open>The log: lemmas\<close>

lemma getContentHash_insert:
  "getContentHash docId dev n (d\<lparr>doc_log := row_insert_ignore log_key (log_row_of p now) (doc_log d)\<rparr>) =
     (case getContentHash docId dev n d of
        Some h \<Rightarrow> Some h
      | None \<Rightarrow> if (docId, dev, n) = (ep_doc p, ep_device p, ep_seq p) then Some (ep_hash p) else None)"
  by (auto simp: getContentHash_def row_get_insert_ignore log_row_of_def log_key_def
      split: option.splits)

text \<open>The outcomes of an ingest, each with its exact condition.\<close>

definition generation_stale :: "entry_params \<Rightarrow> db \<Rightarrow> bool" where
  "generation_stale p d \<longleftrightarrow>
     (case (ep_generation p, getSpace (ep_doc p) d) of
        (Some g, Some (_, current)) \<Rightarrow> g < current
      | _ \<Rightarrow> False)"

lemma appendEntry_new:
  assumes "safe_seq (ep_seq p)" "ep_hash p \<noteq> []"
    and "getContentHash (ep_doc p) (ep_device p) (ep_seq p) d = None"
  shows "appendEntry p now d =
     (if generation_stale p d then Inr (KeyGenerationStale, d)
      else Inr (AcceptedEntry, d\<lparr>doc_log := doc_log d @ [log_row_of p now]\<rparr>))"
proof -
  have "row_get log_key (log_key (log_row_of p now)) (doc_log d) = None"
    using assms(3) by (simp add: getContentHash_def log_row_of_def log_key_def)
  moreover have "classifyBrokerSeqCollision (ep_seq p) None (ep_hash p) = Inr AcceptNewEntry"
    using assms(1,2) by (simp add: classifyBrokerSeqCollision_accept)
  ultimately show ?thesis
    using assms(3)
    by (simp add: appendEntry_def generation_stale_def row_insert_ignore_def
        split: option.splits prod.splits)
qed

lemma appendEntry_known:
  assumes "safe_seq (ep_seq p)" "ep_hash p \<noteq> []" "h \<noteq> []"
    and "getContentHash (ep_doc p) (ep_device p) (ep_seq p) d = Some h"
  shows "appendEntry p now d =
     Inr (if h = ep_hash p then IdempotentEntry else SeqCollision, d)"
  using assms by (simp add: appendEntry_def classifyBrokerSeqCollision_def)

lemma appendEntry_doc_log:
  assumes "appendEntry p now d = Inr (res, d')"
  shows "d' = d \<and> res \<noteq> AcceptedEntry \<or>
    d' = d\<lparr>doc_log := row_insert_ignore log_key (log_row_of p now) (doc_log d)\<rparr> \<and> res = AcceptedEntry"
  using assms
  by (auto simp: appendEntry_def split: sum.splits seq_collision.splits option.splits if_splits)

text \<open>An entry that is not refused is on record afterwards, with the content it was sent with.\<close>

lemma appendEntry_recorded:
  assumes "appendEntry p now d = Inr (res, d')" and "res \<in> {AcceptedEntry, IdempotentEntry}"
  shows "getContentHash (ep_doc p) (ep_device p) (ep_seq p) d' = Some (ep_hash p)"
proof (cases "getContentHash (ep_doc p) (ep_device p) (ep_seq p) d")
  case None
  then have "res = AcceptedEntry"
    using assms
    by (auto simp: appendEntry_def classifyBrokerSeqCollision_def
        split: if_splits option.splits prod.splits)
  then show ?thesis
    using appendEntry_doc_log [OF assms(1)] None by (auto simp: getContentHash_insert)
next
  case (Some h)
  then have "d' = d \<and> h = ep_hash p"
    using assms by (auto simp: appendEntry_def classifyBrokerSeqCollision_def split: if_splits)
  then show ?thesis using Some by simp
qed

text \<open>A recorded content hash is never replaced.\<close>

lemma appendEntry_hash_stable:
  assumes "appendEntry p now d = Inr (res, d')" and "getContentHash x y n d = Some h"
  shows "getContentHash x y n d' = Some h"
  using appendEntry_doc_log [OF assms(1)] assms(2) by (auto simp: getContentHash_insert)

section \<open>Catch-up pages\<close>

text \<open>The heads of a peer that has received some rows: the last sequence number per device.\<close>

definition advance_heads :: "log_row list \<Rightarrow> heads \<Rightarrow> heads" where
  "advance_heads rows hs = fold (\<lambda>r. AList.update (log_device r) (log_seq r)) rows hs"

lemma head_of_advance_snoc:
  "head_of (advance_heads (xs @ [x]) hs) dev =
     (if dev = log_device x then log_seq x else head_of (advance_heads xs hs) dev)"
  by (simp add: advance_heads_def head_of_def update_conv')

lemma head_of_advance_cases:
  "head_of (advance_heads xs hs) dev = head_of hs dev \<or>
   (\<exists>r \<in> set xs. log_device r = dev \<and> head_of (advance_heads xs hs) dev = log_seq r)"
proof (induction xs rule: rev_induct)
  case Nil
  show ?case by (simp add: advance_heads_def)
next
  case (snoc x xs)
  then show ?case by (auto simp: head_of_advance_snoc)
qed

abbreviation coord :: "log_row \<Rightarrow> string \<times> int" where
  "coord r \<equiv> (log_device r, log_seq r)"

lemma head_of_advance_ge:
  assumes "sorted_wrt (\<lambda>a b. coord a < coord b) xs" and "r \<in> set xs"
  shows "log_seq r \<le> head_of (advance_heads xs hs) (log_device r)"
  using assms
proof (induction xs rule: rev_induct)
  case Nil
  then show ?case by simp
next
  case (snoc x xs)
  then have "r \<in> set xs \<Longrightarrow> coord r < coord x" by (auto simp: sorted_wrt_append)
  with snoc show ?case
    by (auto simp: head_of_advance_snoc sorted_wrt_append less_prod_def)
qed

lemma head_of_advance_mono:
  assumes "sorted_wrt (\<lambda>a b. coord a < coord b) xs"
    and "\<forall>r \<in> set xs. head_of hs (log_device r) < log_seq r"
  shows "head_of hs dev \<le> head_of (advance_heads xs hs) dev"
  using head_of_advance_cases [of xs hs dev] assms(2) by fastforce

lemma sorted_wrt_sort_key_distinct:
  assumes "distinct (map f xs)"
  shows "sorted_wrt (\<lambda>a b. f a < f b) (sort_key f xs)"
proof -
  have "sorted (map f (sort_key f xs))" by simp
  moreover have "distinct (map f (sort_key f xs))"
    using assms by (simp add: distinct_map)
  ultimately have "sorted_wrt (<) (map f (sort_key f xs))"
    by (simp add: strict_sorted_iff)
  then show ?thesis by (simp add: sorted_wrt_map)
qed

lemma doc_rows_sorted:
  assumes "log_keys d"
  shows "sorted_wrt (\<lambda>a b. coord a < coord b) (doc_rows docId d)"
  unfolding doc_rows_def
proof (rule sorted_wrt_sort_key_distinct)
  have "distinct (map log_key (doc_log d))"
    using assms by (simp add: log_keys_def keys_distinct_def)
  then show "distinct (map coord (filter (\<lambda>r. log_doc r = docId) (doc_log d)))"
    by (auto simp: distinct_map inj_on_def log_key_def)
qed

lemma missing_rows_sorted:
  "log_keys d \<Longrightarrow> sorted_wrt (\<lambda>a b. coord a < coord b) (missing_rows docId hs d)"
  unfolding missing_rows_def by (rule sorted_wrt_filter) (rule doc_rows_sorted)

lemma missing_rows_advance:
  assumes "log_keys d"
  shows "missing_rows docId (advance_heads (take n (missing_rows docId hs d)) hs) d =
         drop n (missing_rows docId hs d)"
proof -
  let ?M = "missing_rows docId hs d"
  let ?hs = "advance_heads (take n ?M) hs"
  let ?late = "\<lambda>r. log_seq r > head_of ?hs (log_device r)"
  have srt: "sorted_wrt (\<lambda>a b. coord a < coord b) (take n ?M @ drop n ?M)"
    using missing_rows_sorted [OF assms] by simp
  then have srt_take: "sorted_wrt (\<lambda>a b. coord a < coord b) (take n ?M)"
    and between: "\<And>a b. a \<in> set (take n ?M) \<Longrightarrow> b \<in> set (drop n ?M) \<Longrightarrow> coord a < coord b"
    unfolding sorted_wrt_append by blast+
  have above: "log_seq r > head_of hs (log_device r)" if "r \<in> set ?M" for r
    using that by (simp add: missing_rows_def)
  have mono: "head_of hs dev \<le> head_of ?hs dev" for dev
    using srt_take above by (intro head_of_advance_mono) (auto dest: in_set_takeD)
  have taken: "\<not> ?late r" if "r \<in> set (take n ?M)" for r
    using head_of_advance_ge [OF srt_take that] by (simp add: not_less)
  have kept: "?late r" if r: "r \<in> set (drop n ?M)" for r
  proof -
    have "log_seq a < log_seq r" if "a \<in> set (take n ?M)" "log_device a = log_device r" for a
      using between [OF that(1) r] that(2) by (simp add: less_prod_def)
    then show ?thesis
      using head_of_advance_cases [of "take n ?M" hs "log_device r"] above [OF in_set_dropD [OF r]]
      by auto
  qed
  have "missing_rows docId ?hs d = filter ?late (doc_rows docId d)"
    by (simp add: missing_rows_def)
  also have "\<dots> = filter ?late ?M"
    unfolding missing_rows_def filter_filter
    by (rule filter_cong [OF refl]) (use mono in \<open>auto simp: missing_rows_def intro: le_less_trans\<close>)
  also have "\<dots> = filter ?late (take n ?M) @ filter ?late (drop n ?M)"
    by (metis append_take_drop_id filter_append)
  also have "\<dots> = drop n ?M"
    using taken kept by (simp add: filter_empty_conv)
  finally show ?thesis .
qed

text \<open>
  A peer that asks for pages of at most \<open>n\<close> entries and advances its heads by each page, as
  long as the broker reports truncation. The fuel bounds the number of requests.
\<close>

fun pull_pages :: "nat \<Rightarrow> nat \<Rightarrow> string \<Rightarrow> heads \<Rightarrow> db \<Rightarrow> string list option" where
  "pull_pages 0 n docId hs d = None"
| "pull_pages (Suc fuel) n docId hs d =
     (let (page, truncated) = getSinceWithTruncation docId hs (Some (int n)) d in
      if truncated
      then map_option ((@) page)
             (pull_pages fuel n docId (advance_heads (take n (missing_rows docId hs d)) hs) d)
      else Some page)"

lemma pull_pages_complete:
  assumes "log_keys d" "0 < n" "length (missing_rows docId hs d) < fuel"
  shows "pull_pages fuel n docId hs d = Some (getSince docId hs None d)"
  using assms(3)
proof (induction fuel arbitrary: hs)
  case 0
  then show ?case by simp
next
  case (Suc fuel)
  let ?M = "missing_rows docId hs d"
  show ?case
  proof (cases "length ?M > n")
    case True
    then have "length (drop n ?M) < fuel" using Suc.prems \<open>0 < n\<close> by simp
    then have "pull_pages fuel n docId (advance_heads (take n ?M) hs) d = Some (map log_jws (drop n ?M))"
      using Suc.IH [of "advance_heads (take n ?M) hs"]
      by (simp add: missing_rows_advance [OF \<open>log_keys d\<close>] getSince_def getSinceWithTruncation_def)
    with True show ?thesis
      by (simp add: getSince_def getSinceWithTruncation_def js_slice0_def flip: map_append)
  next
    case False
    then show ?thesis
      by (simp add: getSince_def getSinceWithTruncation_def)
  qed
qed

section \<open>Heads\<close>

lemma map_of_max_seqs_Cons:
  "map_of (max_seqs (r # rs)) dev =
     (if dev = log_device r
      then Some (case map_of (max_seqs rs) dev of None \<Rightarrow> log_seq r | Some m \<Rightarrow> max m (log_seq r))
      else map_of (max_seqs rs) dev)"
  by (auto simp: update_conv' split: option.splits)

lemma max_seqs_None:
  "map_of (max_seqs rs) dev = None \<longleftrightarrow> dev \<notin> log_device ` set rs"
  by (induction rs) (auto simp: map_of_max_seqs_Cons simp del: max_seqs.simps(2))

lemma max_seqs_Some:
  "map_of (max_seqs rs) dev = Some m \<Longrightarrow>
     (\<exists>r \<in> set rs. log_device r = dev \<and> log_seq r = m) \<and>
     (\<forall>r \<in> set rs. log_device r = dev \<longrightarrow> log_seq r \<le> m)"
proof (induction rs arbitrary: m)
  case Nil
  then show ?case by simp
next
  case (Cons r rs)
  show ?case
  proof (cases "map_of (max_seqs rs) dev")
    case None
    then have "\<forall>x \<in> set rs. log_device x \<noteq> dev" by (auto simp: max_seqs_None)
    then show ?thesis using Cons.prems None
      by (auto simp: map_of_max_seqs_Cons simp del: max_seqs.simps(2) split: if_splits)
  next
    case (Some n)
    note IH = Cons.IH [OF Some]
    show ?thesis using Cons.prems Some IH
      by (fastforce simp: map_of_max_seqs_Cons max_def simp del: max_seqs.simps(2) split: if_splits)
  qed
qed

lemma getHeads_covers:
  "missing_rows docId (getHeads docId d) d = []"
proof -
  have "log_seq r \<le> head_of (getHeads docId d) (log_device r)" if r: "r \<in> set (doc_rows docId d)" for r
  proof -
    obtain m where m: "map_of (getHeads docId d) (log_device r) = Some m"
      using r max_seqs_None [of "doc_rows docId d"] by (auto simp: getHeads_def)
    then show ?thesis
      using max_seqs_Some [of "doc_rows docId d"] r by (auto simp: getHeads_def head_of_def)
  qed
  then show ?thesis by (auto simp: missing_rows_def filter_empty_conv not_less)
qed

section \<open>The device list: lemmas\<close>

lemma row_insert_free:
  "row_get key (key r) rows = None \<Longrightarrow> row_insert key r rows = Some (rows @ [r])"
  by (simp add: row_insert_def)

lemma registerDevice_eq:
  "registerDevice did deviceId now d =
     (case getDevice deviceId d of
        Some e \<Rightarrow>
          if dev_did e \<noteq> did then Inr (DevIdConflict, d)
          else if dev_status e = Revoked then Inr (DevRevoked, d)
          else Inr (DevRegistered False,
            d\<lparr>devices := row_update (\<lambda>r. dev_id r = deviceId) (dev_last_seen_update (\<lambda>_. now)) (devices d)\<rparr>)
      | None \<Rightarrow> Inr (DevRegistered True, d\<lparr>devices := devices d @
            [\<lparr>dev_did = did, dev_id = deviceId, dev_first_seen = now, dev_last_seen = now,
              dev_status = Active, dev_revoked_at = None\<rparr>]\<rparr>))"
  by (auto simp: registerDevice_def getDevice_def row_insert_free split: option.splits)

lemma revokeDevice_eq:
  "revokeDevice did deviceId revokedAt now d =
     (case getDevice deviceId d of
        None \<Rightarrow> Inr (RevTombstoned, d\<lparr>devices := devices d @
            [\<lparr>dev_did = did, dev_id = deviceId, dev_first_seen = now, dev_last_seen = now,
              dev_status = Revoked, dev_revoked_at = Some revokedAt\<rparr>]\<rparr>)
      | Some e \<Rightarrow>
          if dev_did e \<noteq> did then Inr (RevDidMismatch, d)
          else if dev_status e = Revoked then Inr (RevAlready, d)
          else Inr (RevRevoked,
            d\<lparr>devices := row_update (\<lambda>r. dev_id r = deviceId)
                (\<lambda>r. r\<lparr>dev_status := Revoked, dev_revoked_at := Some revokedAt, dev_last_seen := now\<rparr>)
                (devices d)\<rparr>))"
  by (auto simp: revokeDevice_def getDevice_def row_insert_free split: option.splits)

lemma registerDevice_total: "\<exists>res d'. registerDevice did deviceId now d = Inr (res, d')"
  by (auto simp: registerDevice_eq split: option.splits)

lemma revokeDevice_total: "\<exists>res d'. revokeDevice did deviceId revokedAt now d = Inr (res, d')"
  by (auto simp: revokeDevice_eq split: option.splits)

lemma getDevice_registerDevice:
  assumes "registerDevice did deviceId now d = Inr (res, d')"
  shows "getDevice k d' =
     (if k \<noteq> deviceId then getDevice k d
      else case getDevice k d of
        None \<Rightarrow> Some \<lparr>dev_did = did, dev_id = deviceId, dev_first_seen = now, dev_last_seen = now,
                   dev_status = Active, dev_revoked_at = None\<rparr>
      | Some e \<Rightarrow> Some (if dev_did e = did \<and> dev_status e = Active then e\<lparr>dev_last_seen := now\<rparr> else e))"
  using assms
  by (auto simp: registerDevice_eq getDevice_def row_get_update_key
      dest: row_get_SomeD split: option.splits if_splits)

lemma getDevice_revokeDevice:
  assumes "revokeDevice did deviceId revokedAt now d = Inr (res, d')"
  shows "getDevice k d' =
     (if k \<noteq> deviceId then getDevice k d
      else case getDevice k d of
        None \<Rightarrow> Some \<lparr>dev_did = did, dev_id = deviceId, dev_first_seen = now, dev_last_seen = now,
                   dev_status = Revoked, dev_revoked_at = Some revokedAt\<rparr>
      | Some e \<Rightarrow> Some (if dev_did e = did \<and> dev_status e = Active
          then e\<lparr>dev_status := Revoked, dev_revoked_at := Some revokedAt, dev_last_seen := now\<rparr> else e))"
  using assms
  by (auto simp: revokeDevice_eq getDevice_def row_get_update_key
      dest: row_get_SomeD split: option.splits if_splits)

lemma didForDevice_getDevice: "didForDevice k d = map_option dev_did (getDevice k d)"
  by (simp add: didForDevice_def getDevice_def)

lemma isActive_getDevice:
  "isActive did k d \<longleftrightarrow> (\<exists>e. getDevice k d = Some e \<and> dev_did e = did \<and> dev_status e = Active)"
  by (auto simp: isActive_def getDevice_def split: option.splits)

definition deviceRevoked :: "string \<Rightarrow> db \<Rightarrow> bool" where
  "deviceRevoked k d \<longleftrightarrow> (\<exists>e. getDevice k d = Some e \<and> dev_status e = Revoked)"

lemma deviceRevoked_not_active: "deviceRevoked k d \<Longrightarrow> \<not> isActive did k d"
  by (auto simp: deviceRevoked_def isActive_getDevice)

lemma registerDevice_revoked:
  "registerDevice did deviceId now d = Inr (res, d') \<Longrightarrow> deviceRevoked k d \<Longrightarrow> deviceRevoked k d'"
  by (auto simp: deviceRevoked_def getDevice_registerDevice)

lemma revokeDevice_revoked:
  "revokeDevice did deviceId revAt now d = Inr (res, d') \<Longrightarrow> deviceRevoked k d \<Longrightarrow> deviceRevoked k d'"
  by (auto simp: deviceRevoked_def getDevice_revokeDevice)

text \<open>A successful registration or revocation leaves the device in the state it reports.\<close>

lemma registerDevice_active:
  "registerDevice did deviceId now d = Inr (DevRegistered b, d') \<Longrightarrow> isActive did deviceId d'"
  using getDevice_registerDevice [of did deviceId now d "DevRegistered b" d' deviceId]
  by (auto simp: isActive_getDevice registerDevice_eq split: option.splits if_splits)

lemma revokeDevice_revokes:
  "revokeDevice did deviceId revAt now d = Inr (res, d') \<Longrightarrow> res \<noteq> RevDidMismatch \<Longrightarrow> deviceRevoked deviceId d'"
  using getDevice_revokeDevice [of did deviceId revAt now d res d' deviceId]
  by (auto simp: deviceRevoked_def revokeDevice_eq split: option.splits if_splits)

text \<open>A revocation under another DID changes nothing.\<close>

lemma revokeDevice_foreign:
  "didForDevice deviceId d = Some owner \<Longrightarrow> owner \<noteq> did \<Longrightarrow>
     revokeDevice did deviceId revAt now d = Inr (RevDidMismatch, d)"
  by (auto simp: revokeDevice_eq didForDevice_getDevice)

text \<open>The database after a transaction; a failed one leaves it as it was.\<close>

definition after :: "'a tx \<Rightarrow> db \<Rightarrow> db" where
  "after t d = (case t of Inl _ \<Rightarrow> d | Inr (_, d') \<Rightarrow> d')"

lemma after_Inl [simp]: "after (Inl e) d = d"
  by (simp add: after_def)

lemma after_Inr [simp]: "after (Inr (a, d')) d = d'"
  by (simp add: after_def)

lemma didForDevice_registerDevice:
  "didForDevice k (after (registerDevice did deviceId now d) d) =
     (case didForDevice k d of Some w \<Rightarrow> Some w | None \<Rightarrow> if k = deviceId then Some did else None)"
proof -
  obtain res d' where d': "registerDevice did deviceId now d = Inr (res, d')"
    using registerDevice_total by blast
  show ?thesis
    by (auto simp: d' didForDevice_getDevice getDevice_registerDevice [OF d'] split: option.splits)
qed

lemma didForDevice_revokeDevice:
  "didForDevice k (after (revokeDevice did deviceId revAt now d) d) =
     (case didForDevice k d of Some w \<Rightarrow> Some w | None \<Rightarrow> if k = deviceId then Some did else None)"
proof -
  obtain res d' where d': "revokeDevice did deviceId revAt now d = Inr (res, d')"
    using revokeDevice_total by blast
  show ?thesis
    by (auto simp: d' didForDevice_getDevice getDevice_revokeDevice [OF d'] split: option.splits)
qed

text \<open>
  Device ownership, ownership of personal documents and the content of a log coordinate are
  all decided by the first writer. A claim carries its clock reading.
\<close>


interpretation device_owner: first_writer_wins "\<lambda>d k. didForDevice k d"
  "\<lambda>k did d. after (registerDevice did k now d) d" for now
  by unfold_locales (auto simp: didForDevice_registerDevice split: option.splits)

lemma claimPersonalDocOwner_eq:
  "claimPersonalDocOwner docId did now d =
     (case getPersonalDocOwner docId d of
        Some w \<Rightarrow> Inr (if w = did then OwnerIdempotent else OwnerConflict, d)
      | None \<Rightarrow> Inr (OwnerClaimed, d\<lparr>owners := owners d @ [\<lparr>own_doc = docId, own_did = did, own_claimed = now\<rparr>]\<rparr>))"
  by (auto simp: claimPersonalDocOwner_def getPersonalDocOwner_def row_insert_free split: option.splits)

lemma getPersonalDocOwner_claim:
  "getPersonalDocOwner k (after (claimPersonalDocOwner docId did now d) d) =
     (case getPersonalDocOwner k d of Some w \<Rightarrow> Some w | None \<Rightarrow> if k = docId then Some did else None)"
  by (auto simp: claimPersonalDocOwner_eq getPersonalDocOwner_def split: option.splits)

interpretation personal_owner: first_writer_wins "\<lambda>d k. getPersonalDocOwner k d"
  "\<lambda>k did d. after (claimPersonalDocOwner k did now d) d" for now
  by unfold_locales (auto simp: getPersonalDocOwner_claim split: option.splits)

text \<open>
  The insert step of the ingest: coordinates are claimed by content hashes. \<open>jws\<close> and \<open>now\<close>
  are the remaining columns.
\<close>

interpretation log_content: first_writer_wins
  "\<lambda>d (docId, dev, n). getContentHash docId dev n d"
  "\<lambda>(docId, dev, n) h d. d\<lparr>doc_log := row_insert_ignore log_key
     (log_row_of \<lparr>ep_doc = docId, ep_device = dev, ep_seq = n, ep_hash = h, ep_jws = jws,
        ep_generation = None\<rparr> now) (doc_log d)\<rparr>" for jws now
  by unfold_locales (auto simp: getContentHash_insert split: option.splits if_splits)

section \<open>The space registry: lemmas\<close>

lemma insert_all_Some:
  "distinct (map key rs) \<Longrightarrow> \<forall>r \<in> set rs. row_get key (key r) rows = None \<Longrightarrow>
     insert_all key rs rows = Some (rows @ rs)"
proof (induction rs arbitrary: rows)
  case Nil
  then show ?case by simp
next
  case (Cons r rs)
  have "\<forall>x \<in> set rs. row_get key (key x) (rows @ [r]) = None"
    using Cons.prems by (auto simp: image_iff)
  then show ?case
    using Cons.IH [of "rows @ [r]"] Cons.prems by (simp add: row_insert_free)
qed

lemma length_js_set: "length (js_set xs) = card (set xs)"
  by (metis distinct_card distinct_js_set set_js_set)

lemma sameStringSet_js_set: "sameStringSet (js_set a) (js_set b) \<longleftrightarrow> set a = set b"
proof
  assume s: "sameStringSet (js_set a) (js_set b)"
  then have "set a \<subseteq> set b" and "card (set a) = card (set b)"
    by (auto simp: sameStringSet_def length_js_set list_all_iff)
  then show "set a = set b" by (simp add: card_subset_eq)
qed (auto simp: sameStringSet_def length_js_set list_all_iff)

lemma getSpaceAdmins_iff: "a \<in> set (getSpaceAdmins s d) \<longleftrightarrow> (s, a) \<in> set (space_admins d)"
  by (force simp: getSpaceAdmins_def admin_dids_def)

lemma set_admin_dids: "set (admin_dids s d) = set (getSpaceAdmins s d)"
  by (simp add: getSpaceAdmins_def)

lemma unregistered_no_admins:
  assumes "registry_ok d" "\<not> isSpaceRegistered s d"
  shows "row_get id (s, a) (space_admins d) = None"
proof -
  have "s \<notin> sp_id ` set (spaces d)"
    using assms(2) by (simp add: isSpaceRegistered_def row_get_None_iff)
  then have "(s, a) \<notin> set (space_admins d)"
    using assms(1) by (auto simp: registry_ok_def)
  then show ?thesis by (simp add: row_get_None_iff)
qed

text \<open>
  On a sound database a registration never fails: what it answers is decided by the owner of
  the personal document of that name and by the registered key and admins.
\<close>

definition registered_space :: "string \<Rightarrow> string \<Rightarrow> string list \<Rightarrow> int \<Rightarrow> db \<Rightarrow> db" where
  "registered_space spaceId key adminDids now d =
     d\<lparr>spaces := spaces d @ [\<lparr>sp_id = spaceId, sp_key = key, sp_generation = 0, sp_created = now\<rparr>],
       space_admins := space_admins d @ map (Pair spaceId) (js_set adminDids),
       owners := (if getPersonalDocOwner spaceId d \<noteq> None
                  then row_delete (\<lambda>r. own_doc r = spaceId) (owners d) else owners d)\<rparr>"

lemma registerSpace_eq:
  assumes "registry_ok d"
  shows "registerSpace spaceId key adminDids signerDid now d =
     (if getPersonalDocOwner spaceId d \<notin> {None, Some signerDid} then Inr (PersonalOwnerConflict, d)
      else case getSpace spaceId d of
        Some (key', _) \<Rightarrow>
          Inr (if key' = key \<and> set (getSpaceAdmins spaceId d) = set adminDids
               then SpaceIdempotent else SpaceConflict, d)
      | None \<Rightarrow> Inr (SpaceRegistered, registered_space spaceId key adminDids now d))"
proof (cases "row_get sp_id spaceId (spaces d)")
  case None
  then have "\<not> isSpaceRegistered spaceId d" by (simp add: isSpaceRegistered_def)
  then have free: "\<forall>r \<in> set (map (Pair spaceId) (js_set adminDids)). row_get id (id r) (space_admins d) = None"
    using unregistered_no_admins [OF assms] by auto
  have "distinct (map id (map (Pair spaceId) (js_set adminDids)))"
    by (simp add: distinct_map inj_on_def)
  from insert_all_Some [OF this free] None show ?thesis
    by (auto simp: registerSpace_def getSpace_def registered_space_def row_insert_free Let_def)
next
  case (Some e)
  then show ?thesis
    by (auto simp: registerSpace_def getSpace_def Let_def sameStringSet_js_set set_admin_dids)
qed

lemma getSpace_registered_space:
  "getSpace k (registered_space spaceId key adminDids now d) =
     (case getSpace k d of Some s \<Rightarrow> Some s | None \<Rightarrow> if k = spaceId then Some (key, 0) else None)"
  by (auto simp: getSpace_def registered_space_def split: option.splits)

lemma getSpaceAdmins_registered_space:
  "set (getSpaceAdmins k (registered_space spaceId key adminDids now d)) =
     set (getSpaceAdmins k d) \<union> (if k = spaceId then set adminDids else {})"
  by (auto simp: getSpaceAdmins_iff registered_space_def)

lemma getSpace_rotateSpace:
  "getSpace k (rotateSpace spaceId key g d) =
     (if k = spaceId \<and> getSpace k d \<noteq> None then Some (key, g) else getSpace k d)"
  by (auto simp: getSpace_def rotateSpace_def row_get_update_key)

lemma isSpaceRegistered_getSpace: "isSpaceRegistered k d \<longleftrightarrow> getSpace k d \<noteq> None"
  by (simp add: isSpaceRegistered_def getSpace_def)

lemma getSpaceAdmins_addAdmin:
  "set (getSpaceAdmins k (addAdmin s a d)) =
     set (getSpaceAdmins k d) \<union> (if k = s then {a} else {})"
  by (auto simp: getSpaceAdmins_iff addAdmin_def set_row_insert_ignore row_get_None_iff split: if_splits)

lemma getSpaceAdmins_removeAdmin:
  "set (getSpaceAdmins k (removeAdmin s a d)) =
     set (getSpaceAdmins k d) - (if k = s then {a} else {})"
  by (auto simp: getSpaceAdmins_iff removeAdmin_def)

section \<open>Integrity is preserved\<close>

lemma appendEntry_db_ok [inv_intros]:
  assumes "db_ok d"
  shows "db_ok (after (appendEntry p now d) d)"
proof (cases "appendEntry p now d")
  case (Inr r)
  obtain res d' where r: "r = (res, d')" by (cases r)
  from appendEntry_doc_log [OF Inr [unfolded r]] assms show ?thesis
    by (auto simp: Inr r db_ok_def log_keys_def inbox_ok_def registry_ok_def
        keys_distinct_insert_ignore)
qed (simp add: assms)

lemma registerDevice_db_ok [inv_intros]:
  assumes "db_ok d"
  shows "db_ok (after (registerDevice did deviceId now d) d)"
  using assms
  by (auto simp: registerDevice_eq getDevice_def db_ok_def log_keys_def inbox_ok_def registry_ok_def
      keys_distinct_append1 keys_distinct_update split: option.splits)

lemma revokeDevice_db_ok [inv_intros]:
  assumes "db_ok d"
  shows "db_ok (after (revokeDevice did deviceId revAt now d) d)"
  using assms
  by (auto simp: revokeDevice_eq getDevice_def db_ok_def log_keys_def inbox_ok_def registry_ok_def
      keys_distinct_append1 keys_distinct_update split: option.splits)

lemma claimPersonalDocOwner_db_ok [inv_intros]:
  assumes "db_ok d"
  shows "db_ok (after (claimPersonalDocOwner docId did now d) d)"
  using assms
  by (auto simp: claimPersonalDocOwner_eq getPersonalDocOwner_def db_ok_def log_keys_def
      inbox_ok_def registry_ok_def keys_distinct_append1 split: option.splits)

lemma keys_distinct_admin_rows:
  assumes "keys_distinct id rows" "\<And>a. row_get id (s, a) rows = None"
  shows "keys_distinct id (rows @ map (Pair s) (js_set as))"
  using assms
  by (auto simp: keys_distinct_def row_get_None_iff distinct_map inj_on_def)

lemma registered_space_db_ok:
  assumes "db_ok d" "\<not> isSpaceRegistered spaceId d"
  shows "db_ok (registered_space spaceId key adminDids now d)"
proof -
  have "keys_distinct id (space_admins d @ map (Pair spaceId) (js_set adminDids))"
    using assms unregistered_no_admins by (intro keys_distinct_admin_rows) (auto simp: db_ok_def log_keys_def)
  moreover have "row_get sp_id spaceId (spaces d) = None"
    using assms(2) by (simp add: isSpaceRegistered_def)
  ultimately show ?thesis
    using assms(1)
    by (auto simp: db_ok_def log_keys_def inbox_ok_def registry_ok_def registered_space_def
        keys_distinct_append1 keys_distinct_delete)
qed

lemma registerSpace_db_ok [inv_intros]:
  assumes "db_ok d"
  shows "db_ok (after (registerSpace spaceId key adminDids signerDid now d) d)"
proof -
  have "registry_ok d" using assms by (simp add: db_ok_def)
  then show ?thesis
    using assms registered_space_db_ok [OF assms, of spaceId]
    by (auto simp: registerSpace_eq isSpaceRegistered_getSpace split: option.splits)
qed

lemma rotateSpace_db_ok [inv_intros]:
  "db_ok d \<Longrightarrow> 0 \<le> g \<Longrightarrow> db_ok (rotateSpace s key g d)"
  by (simp add: rotateSpace_def db_ok_def log_keys_def inbox_ok_def registry_ok_def
      keys_distinct_update key_image_row_update) (auto simp: set_row_update)

lemma addAdmin_db_ok [inv_intros]:
  "db_ok d \<Longrightarrow> isSpaceRegistered s d \<Longrightarrow> db_ok (addAdmin s a d)"
  by (auto simp: addAdmin_def db_ok_def log_keys_def inbox_ok_def registry_ok_def
      keys_distinct_insert_ignore set_row_insert_ignore isSpaceRegistered_def
      dest: row_get_SomeD split: if_splits)

lemma removeAdmin_db_ok [inv_intros]:
  "db_ok d \<Longrightarrow> db_ok (removeAdmin s a d)"
  by (auto simp: removeAdmin_def db_ok_def log_keys_def inbox_ok_def registry_ok_def
      keys_distinct_delete)

section \<open>Properties\<close>

definition entry_a :: entry_params where
  "entry_a = \<lparr>ep_doc = ''doc'', ep_device = ''dev'', ep_seq = 0, ep_hash = ''aa'', ep_jws = ''j'',
     ep_generation = Some 0\<rparr>"

text \<open>An entry the log accepted, or already holds, is answered as a retransmission whenever it is
  sent again, with no change to the database, and different content at its coordinate is answered
  as a collision and never stored.\<close>

theorem append_replay:
  assumes "appendEntry p now d = Inr (r, d')" "r \<in> {AcceptedEntry, IdempotentEntry}"
  shows "appendEntry p now' d' = Inr (IdempotentEntry, d') \<and>
    (\<forall>q. (ep_doc q, ep_device q, ep_seq q) = (ep_doc p, ep_device p, ep_seq p) \<longrightarrow>
       ep_hash q \<notin> {[], ep_hash p} \<longrightarrow> appendEntry q now' d' = Inr (SeqCollision, d'))"
proof -
  have rec: "getContentHash (ep_doc p) (ep_device p) (ep_seq p) d' = Some (ep_hash p)"
    by (rule appendEntry_recorded [OF assms])
  have "safe_seq (ep_seq p)" "ep_hash p \<noteq> []"
    using assms(1) by (auto simp: appendEntry_def classifyBrokerSeqCollision_def split: if_splits)
  then show ?thesis
    using rec appendEntry_known [of p "ep_hash p" d' now'] appendEntry_known [of _ "ep_hash p" d' now']
    by auto
qed

theorem append_replay_witness:
  "appendEntry entry_a 5 (after (appendEntry entry_a 1 empty_db) empty_db) =
     Inr (IdempotentEntry, after (appendEntry entry_a 1 empty_db) empty_db)"
  using append_replay [of entry_a 1 empty_db AcceptedEntry _ 5]
  by (simp add: appendEntry_def entry_a_def empty_db_def getContentHash_def getSpace_def
      classifyBrokerSeqCollision_def safe_seq_def safe_integer_def max_safe_integer_def after_def)

text \<open>Once a space has rotated to a generation, an entry under an older generation never enters the
  log: only what is already stored at its coordinate is still acknowledged.\<close>

theorem append_after_rotation:
  assumes "isSpaceRegistered (ep_doc p) d" "ep_generation p = Some e" "e < g"
    and "safe_seq (ep_seq p)" "ep_hash p \<noteq> []"
    and stored: "getContentHash (ep_doc p) (ep_device p) (ep_seq p) d \<noteq> Some []"
  shows "appendEntry p now (rotateSpace (ep_doc p) key g d) =
    Inr (case getContentHash (ep_doc p) (ep_device p) (ep_seq p) d of
           None \<Rightarrow> KeyGenerationStale
         | Some h \<Rightarrow> if h = ep_hash p then IdempotentEntry else SeqCollision,
         rotateSpace (ep_doc p) key g d)"
proof -
  have same: "getContentHash x y n (rotateSpace s key g d) = getContentHash x y n d" for x y n s
    by (simp add: getContentHash_def rotateSpace_def)
  have "generation_stale p (rotateSpace (ep_doc p) key g d)"
    using assms(1-3) by (simp add: generation_stale_def getSpace_rotateSpace isSpaceRegistered_getSpace)
  then show ?thesis
    using assms(4,5) stored appendEntry_new [of p "rotateSpace (ep_doc p) key g d" now]
      appendEntry_known [of p _ "rotateSpace (ep_doc p) key g d" now]
    by (auto simp: same split: option.splits)
qed

definition space_db :: db where
  "space_db = empty_db\<lparr>spaces := [\<lparr>sp_id = ''doc'', sp_key = ''k0'', sp_generation = 0, sp_created = 0\<rparr>],
     space_admins := [(''doc'', ''did:key:a'')]\<rparr>"

theorem append_after_rotation_witness:
  "appendEntry entry_a 5 (rotateSpace ''doc'' ''k1'' 1 space_db) =
     Inr (KeyGenerationStale, rotateSpace ''doc'' ''k1'' 1 space_db)"
  using append_after_rotation [of entry_a space_db 0 1 5 "''k1''"]
  by (simp add: entry_a_def space_db_def empty_db_def isSpaceRegistered_def getContentHash_def
      safe_seq_def safe_integer_def max_safe_integer_def)

text \<open>C33: Catch-up is complete and ends: a peer that pulls pages of at most \<open>n > 0\<close> entries and
  advances its heads by each page receives, after at most one request per missing entry and one
  more, exactly the entries above its heads in the order of device and sequence number; and the
  heads the broker reports leave nothing to pull.\<close>

theorem catch_up_complete:
  assumes "log_keys d" "0 < n"
  shows "pull_pages (Suc (length (missing_rows docId hs d))) n docId hs d =
           Some (getSince docId hs None d) \<and>
         sorted_wrt (\<lambda>a b. coord a < coord b) (missing_rows docId hs d) \<and>
         getSince docId hs None d = map log_jws (missing_rows docId hs d) \<and>
         set (missing_rows docId hs d) =
           {r \<in> set (doc_log d). log_doc r = docId \<and> head_of hs (log_device r) < log_seq r} \<and>
         getSince docId (getHeads docId d) None d = []"
proof (intro conjI)
  show "set (missing_rows docId hs d) =
      {r \<in> set (doc_log d). log_doc r = docId \<and> head_of hs (log_device r) < log_seq r}"
    by (auto simp: missing_rows_def doc_rows_def)
  show "pull_pages (Suc (length (missing_rows docId hs d))) n docId hs d = Some (getSince docId hs None d)"
    by (rule pull_pages_complete [OF assms lessI])
  show "sorted_wrt (\<lambda>a b. coord a < coord b) (missing_rows docId hs d)"
    by (rule missing_rows_sorted [OF assms(1)])
qed (simp_all add: getSince_def getSinceWithTruncation_def getHeads_covers)

definition log_db :: db where
  "log_db = empty_db\<lparr>doc_log := map (\<lambda>(dev, n, j). \<lparr>log_doc = ''doc'', log_device = dev, log_seq = n,
     log_hash = ''aa'', log_jws = j, log_created = 0\<rparr>)
     [(''b'', 0, ''b0''), (''a'', 0, ''a0''), (''a'', 1, ''a1''), (''a'', 2, ''a2'')]\<rparr>"

theorem catch_up_complete_witness:
  "pull_pages 4 2 ''doc'' [(''a'', 0)] log_db = Some [''a1'', ''a2'', ''b0'']"
proof -
  have m: "missing_rows ''doc'' [(''a'', 0)] log_db = map (\<lambda>(dev, n, j). \<lparr>log_doc = ''doc'', log_device = dev,
      log_seq = n, log_hash = ''aa'', log_jws = j, log_created = 0\<rparr>) [(''a'', 1, ''a1''), (''a'', 2, ''a2''), (''b'', 0, ''b0'')]"
    by code_simp
  have keys: "log_keys log_db"
    by (simp add: log_db_def log_keys_def empty_db_def keys_distinct_def log_key_def)
  have "(0::nat) < 2" by simp
  note c = catch_up_complete [OF keys this, of "''doc''" "[(''a'', 0)]", unfolded m]
  from c have "pull_pages (Suc (length [''a1'', ''a2'', ''b0''])) 2 ''doc'' [(''a'', 0)] log_db =
      Some [''a1'', ''a2'', ''b0'']"
    by (simp del: pull_pages.simps)
  then show ?thesis by (simp add: numeral_eq_Suc del: pull_pages.simps)
qed

text \<open>Space registration is first writer wins: after a space is registered, the same key and admin
  set is idempotent and any other binding, by anyone, is refused; nothing changes either way.\<close>

theorem registerSpace_first_writer:
  assumes ok: "db_ok d" and reg: "registerSpace s key admins signer now d = Inr (SpaceRegistered, d')"
  shows "registerSpace s key' admins' signer' now' d' =
     Inr (if key' = key \<and> set admins' = set admins then SpaceIdempotent else SpaceConflict, d')"
proof -
  have rok: "registry_ok d" using ok by (simp add: db_ok_def)
  have free: "getSpace s d = None" and d': "d' = registered_space s key admins now d"
    using reg by (auto simp: registerSpace_eq [OF rok] split: option.splits if_splits)
  have "db_ok d'"
    using registered_space_db_ok [OF ok] free by (simp add: d' isSpaceRegistered_getSpace)
  then have rok': "registry_ok d'" by (simp add: db_ok_def)
  have "getPersonalDocOwner s d' = None"
    by (auto simp: d' registered_space_def getPersonalDocOwner_def row_get_delete_key)
  moreover have "getSpace s d' = Some (key, 0)"
    using free by (simp add: d' getSpace_registered_space)
  moreover have "set (getSpaceAdmins s d') = set admins"
  proof -
    have "\<not> isSpaceRegistered s d" using free by (simp add: isSpaceRegistered_getSpace)
    then have "(s, a) \<notin> set (space_admins d)" for a
      using unregistered_no_admins [OF rok, of s a] by (simp add: row_get_None_iff)
    then have "set (getSpaceAdmins s d) = {}"
      by (intro equals0I) (metis getSpaceAdmins_iff)
    then show ?thesis by (simp add: d' getSpaceAdmins_registered_space)
  qed
  ultimately show ?thesis by (simp add: registerSpace_eq [OF rok'])
qed

theorem registerSpace_first_writer_witness:
  "registerSpace ''s'' ''evil'' [''did:key:b''] ''did:key:b'' 9
     (after (registerSpace ''s'' ''k'' [''did:key:a''] ''did:key:a'' 1 empty_db) empty_db) =
   Inr (SpaceConflict, after (registerSpace ''s'' ''k'' [''did:key:a''] ''did:key:a'' 1 empty_db) empty_db)"
  using registerSpace_first_writer [OF db_ok_empty, of "''s''" "''k''" "[''did:key:a'']" "''did:key:a''" 1 _
      "''evil''" "[''did:key:b'']" "''did:key:b''" 9]
  by (simp add: registerSpace_def Let_def empty_db_def getPersonalDocOwner_def row_insert_def after_def)

text \<open>A document name that is bound to a personal owner becomes a space only by a registration that
  the owner signed, whoever the listed admins are; then the personal binding is gone.\<close>

theorem personal_upgrade_by_owner_only:
  assumes "db_ok d" "getPersonalDocOwner s d = Some w" "\<not> isSpaceRegistered s d"
  shows "(signer \<noteq> w \<longrightarrow> registerSpace s key admins signer now d = Inr (PersonalOwnerConflict, d)) \<and>
    (signer = w \<longrightarrow> (\<exists>d'. registerSpace s key admins signer now d = Inr (SpaceRegistered, d') \<and>
       getPersonalDocOwner s d' = None \<and> getSpace s d' = Some (key, 0) \<and>
       (\<forall>k. k \<noteq> s \<longrightarrow> getPersonalDocOwner k d' = getPersonalDocOwner k d)))"
proof -
  have rok: "registry_ok d" using assms(1) by (simp add: db_ok_def)
  let ?d' = "registered_space s key admins now d"
  have other: "row_get own_doc k (row_delete (\<lambda>r. own_doc r = s) (owners d)) = row_get own_doc k (owners d)"
    if "k \<noteq> s" for k
    using that by (intro row_get_delete_other) auto
  have free: "getSpace s d = None" using assms(3) unfolding isSpaceRegistered_getSpace by blast
  have gone: "getPersonalDocOwner s ?d' = None"
    using assms(2) by (auto simp: registered_space_def getPersonalDocOwner_def row_get_delete_key)
  have kept: "getPersonalDocOwner k ?d' = getPersonalDocOwner k d" if "k \<noteq> s" for k
    using other [OF that] by (simp add: registered_space_def getPersonalDocOwner_def)
  have "getSpace s ?d' = Some (key, 0)" using free by (simp add: getSpace_registered_space)
  then show ?thesis
    using assms(2) free gone kept by (simp add: registerSpace_eq [OF rok])
qed

theorem personal_upgrade_by_owner_only_witness:
  "registerSpace ''p'' ''k'' [''did:key:a'', ''did:key:b''] ''did:key:b'' 3
     (after (claimPersonalDocOwner ''p'' ''did:key:a'' 1 empty_db) empty_db) =
   Inr (PersonalOwnerConflict, after (claimPersonalDocOwner ''p'' ''did:key:a'' 1 empty_db) empty_db)"
proof -
  let ?d = "after (claimPersonalDocOwner ''p'' ''did:key:a'' 1 empty_db) empty_db"
  have "db_ok ?d" by (intro inv_intros db_ok_empty)
  moreover have "getPersonalDocOwner ''p'' ?d = Some ''did:key:a''" "\<not> isSpaceRegistered ''p'' ?d"
    by (simp_all add: claimPersonalDocOwner_eq getPersonalDocOwner_def isSpaceRegistered_def empty_db_def)
  ultimately show ?thesis
    using personal_upgrade_by_owner_only [of ?d "''p''" "''did:key:a''" "''did:key:b''"] by simp
qed

end
