(* ===== verification/InboxQueue.thy ===== *)
theory InboxQueue
  imports DocLog
begin

text \<open>
  The per-device store-and-forward inbox, class \<^verbatim>\<open>OfflineQueue\<close> of
  \<^verbatim>\<open>packages/wot-relay/src/queue.ts\<close>, and the pure fan-out and acknowledgement rules of
  \<^verbatim>\<open>wot-core/src/protocol/sync/broker-inbox-disposition.ts\<close>.

  An envelope is stored as its JSON text and read back by \<^verbatim>\<open>JSON.parse\<close>; the row here holds
  the value that is read back. Two texts are equal exactly if these values are.
\<close>

definition day_ms :: int where
  "day_ms = 24 * 60 * 60 * 1000"

definition DEFAULT_TTL_MS :: int where
  "DEFAULT_TTL_MS = 30 * day_ms"

definition DEFAULT_INACTIVE_MS :: int where
  "DEFAULT_INACTIVE_MS = 90 * day_ms"

section \<open>Operations\<close>

definition get_message :: "string \<Rightarrow> db \<Rightarrow> message_row option" where
  "get_message messageId d = row_get msg_id messageId (messages d)"

definition entry_status_of :: "string \<Rightarrow> string \<Rightarrow> db \<Rightarrow> entry_status option" where
  "entry_status_of messageId deviceId d =
     map_option ent_status (row_get ent_key (messageId, deviceId) (entries d))"

definition insert_message :: "string \<Rightarrow> string \<Rightarrow> json \<Rightarrow> int \<Rightarrow> db \<Rightarrow> db option" where
  "insert_message messageId toDid envelope created d =
     map_option (\<lambda>rows. d\<lparr>messages := rows, next_rowid := Suc (next_rowid d)\<rparr>)
       (row_insert msg_id \<lparr>msg_rowid = next_rowid d, msg_id = messageId, msg_to = toDid,
          msg_envelope = envelope, msg_created = created\<rparr> (messages d))"

definition insert_entry_ignore :: "string \<Rightarrow> entry_status \<Rightarrow> string \<Rightarrow> db \<Rightarrow> db" where
  "insert_entry_ignore messageId status deviceId d =
     d\<lparr>entries := row_insert_ignore ent_key
         \<lparr>ent_msg = messageId, ent_device = deviceId, ent_status = status\<rparr> (entries d)\<rparr>"

text \<open>The rows of the legacy table \<^verbatim>\<open>offline_queue\<close>.\<close>

record legacy_row =
  leg_id :: int
  leg_msg :: string
  leg_to :: string
  leg_envelope :: json
  leg_created :: int

fun migrateLegacyOfflineQueue :: "legacy_row list \<Rightarrow> db \<Rightarrow> db option" where
  "migrateLegacyOfflineQueue [] d = Some d"
| "migrateLegacyOfflineQueue (r # rs) d =
     (case get_message (leg_msg r) d of
        None \<Rightarrow> Option.bind (insert_message (leg_msg r) (leg_to r) (leg_envelope r) (leg_created r) d)
                 (migrateLegacyOfflineQueue rs)
      | Some e \<Rightarrow>
          if msg_to e \<noteq> leg_to r \<or> msg_envelope e \<noteq> leg_envelope r
          then Option.bind (insert_message (leg_msg r @ ''#legacy-'' @ int_text (leg_id r))
                   (leg_to r) (leg_envelope r) (leg_created r) d)
                 (migrateLegacyOfflineQueue rs)
          else migrateLegacyOfflineQueue rs d)"

datatype enqueue_result = EnqInserted | EnqIdempotent | EnqCollision

record fanout_input =
  fi_message :: string
  fi_to :: string
  fi_envelope :: json
  fi_targets :: "string list"
  fi_excluded :: "string option"

definition fanout_entries :: "fanout_input \<Rightarrow> db \<Rightarrow> db" where
  "fanout_entries i d =
     (let d1 = fold (insert_entry_ignore (fi_message i) Pending) (fi_targets i) d in
      case fi_excluded i of
        Some s \<Rightarrow> if s = [] then d1 else insert_entry_ignore (fi_message i) SenderExcluded s d1
      | None \<Rightarrow> d1)"

definition enqueueFanout :: "fanout_input \<Rightarrow> int \<Rightarrow> db \<Rightarrow> enqueue_result tx" where
  "enqueueFanout i now d =
     (let envelope = json_stored (fi_envelope i) in
      case get_message (fi_message i) d of
        Some e \<Rightarrow>
          if msg_to e \<noteq> fi_to i \<or> msg_envelope e \<noteq> envelope then Inr (EnqCollision, d)
          else Inr (EnqIdempotent, fanout_entries i d)
      | None \<Rightarrow>
          (case insert_message (fi_message i) (fi_to i) envelope now d of
             None \<Rightarrow> Inl ConstraintError
           | Some d1 \<Rightarrow> Inr (EnqInserted, fanout_entries i d1)))"

definition messages_in_order :: "db \<Rightarrow> message_row list" where
  "messages_in_order d = sort_key msg_rowid (messages d)"

definition pending_envelopes :: "string \<Rightarrow> string \<Rightarrow> db \<Rightarrow> json list" where
  "pending_envelopes toDid deviceId d =
     map msg_envelope (filter (\<lambda>m. msg_to m = toDid \<and>
       entry_status_of (msg_id m) deviceId d = Some Pending) (messages_in_order d))"

definition mint_entries :: "string \<Rightarrow> string \<Rightarrow> db \<Rightarrow> db" where
  "mint_entries toDid deviceId d =
     fold (\<lambda>m. insert_entry_ignore (msg_id m) Pending deviceId)
       (filter (\<lambda>m. msg_to m = toDid \<and> entry_status_of (msg_id m) deviceId d = None) (messages d)) d"

definition deliverOnConnect :: "string \<Rightarrow> string \<Rightarrow> db \<Rightarrow> json list \<times> db" where
  "deliverOnConnect toDid deviceId d =
     (let d1 = mint_entries toDid deviceId d in (pending_envelopes toDid deviceId d1, d1))"

definition isFullyDelivered :: "string \<Rightarrow> int \<Rightarrow> int \<Rightarrow> db \<Rightarrow> bool" where
  "isFullyDelivered messageId nowMs inactiveMs d =
     (case get_message messageId d of
        None \<Rightarrow> False
      | Some m \<Rightarrow>
          list_ex (\<lambda>e. ent_msg e = messageId \<and> ent_status e = Acked) (entries d) \<and>
          list_all (\<lambda>dev. entry_status_of messageId dev d \<in> {Some Acked, Some SenderExcluded})
            (effectiveActiveDeviceIdsForDid (msg_to m) nowMs inactiveMs d))"

definition deleteMessage :: "string \<Rightarrow> db \<Rightarrow> db" where
  "deleteMessage messageId d =
     d\<lparr>entries := row_delete (\<lambda>e. ent_msg e = messageId) (entries d),
       messages := row_delete (\<lambda>m. msg_id m = messageId) (messages d)\<rparr>"

definition ackDevice :: "string \<Rightarrow> string \<Rightarrow> int \<Rightarrow> int \<Rightarrow> db \<Rightarrow> bool \<times> db" where
  "ackDevice messageId deviceId nowMs inactiveMs d =
     (if entry_status_of messageId deviceId d \<noteq> Some Pending then (False, d)
      else
        let d1 = d\<lparr>entries := row_update (\<lambda>e. ent_key e = (messageId, deviceId))
                    (ent_status_update (\<lambda>_. Acked)) (entries d)\<rparr> in
        (True, if isFullyDelivered messageId nowMs inactiveMs d1 then deleteMessage messageId d1 else d1))"

definition delete_if_delivered :: "int \<Rightarrow> int \<Rightarrow> string \<Rightarrow> db \<Rightarrow> db" where
  "delete_if_delivered nowMs inactiveMs messageId d =
     (if isFullyDelivered messageId nowMs inactiveMs d then deleteMessage messageId d else d)"

definition deleteForDevice :: "string \<Rightarrow> int \<Rightarrow> int \<Rightarrow> db \<Rightarrow> db" where
  "deleteForDevice deviceId nowMs inactiveMs d =
     (let affected = remdups (map ent_msg (filter (\<lambda>e. ent_device e = deviceId) (entries d)));
          d1 = d\<lparr>entries := row_delete (\<lambda>e. ent_device e = deviceId) (entries d)\<rparr> in
      fold (delete_if_delivered nowMs inactiveMs) affected d1)"

record gc_result =
  gc_delivered :: nat
  gc_expired :: nat
  gc_inactive :: nat

definition collectGarbage :: "int \<Rightarrow> int \<Rightarrow> int \<Rightarrow> db \<Rightarrow> gc_result \<times> db" where
  "collectGarbage nowMs ttlMs inactiveMs d =
     (let d1 = fold (delete_if_delivered nowMs inactiveMs) (map msg_id (messages d)) d;
          expired = map msg_id (filter (\<lambda>m. msg_created m < nowMs - ttlMs) (messages d1));
          d2 = fold deleteMessage expired d1;
          gone = map dev_id (filter (\<lambda>r. dev_last_seen r < nowMs - inactiveMs) (devices d2));
          d3 = d2\<lparr>entries := row_delete (\<lambda>e. ent_device e \<in> set gone) (entries d2)\<rparr> in
      (\<lparr>gc_delivered = length (messages d) - length (messages d1),
        gc_expired = length expired,
        gc_inactive = length (entries d2) - length (entries d3)\<rparr>, d3))"

definition getByMessageId :: "string \<Rightarrow> db \<Rightarrow> (string \<times> json) option" where
  "getByMessageId messageId d = map_option (\<lambda>m. (msg_to m, msg_envelope m)) (get_message messageId d)"

section \<open>Counts\<close>

text \<open>The join of entries with their messages, as the recipient of each entry.\<close>

definition entry_recipients :: "db \<Rightarrow> string list" where
  "entry_recipients d =
     concat (map (\<lambda>e. map msg_to (filter (\<lambda>m. msg_id m = ent_msg e) (messages d))) (entries d))"

definition count_slots :: "string option \<Rightarrow> db \<Rightarrow> nat" where
  "count_slots toDid d =
     (case toDid of
        Some did \<Rightarrow> if did = [] then length (entries d)
                    else length (filter (\<lambda>t. t = did) (entry_recipients d))
      | None \<Rightarrow> length (entries d))"

definition countByDid :: "db \<Rightarrow> (string \<times> nat) list" where
  "countByDid d = group_count id (entry_recipients d)"

definition topPendingByDid :: "int \<Rightarrow> db \<Rightarrow> (string \<times> nat) list" where
  "topPendingByDid limit d =
     (let rows = sort_key (\<lambda>(did, n). (- int n, did)) (countByDid d) in
      if limit < 0 then rows else take (nat limit) rows)"

definition messageCount :: "string option \<Rightarrow> db \<Rightarrow> nat" where
  "messageCount toDid d =
     (case toDid of
        Some did \<Rightarrow> if did = [] then length (messages d)
                    else length (filter (\<lambda>m. msg_to m = did) (messages d))
      | None \<Rightarrow> length (messages d))"

section \<open>Fan-out targets and acknowledgements as pure rules\<close>

record inbox_device =
  id_did :: string
  id_device :: string
  id_status :: device_status

record inbox_entry =
  ie_did :: string
  ie_device :: string
  ie_message :: string
  ie_acked :: bool

record delivery_disposition =
  dd_targets :: "inbox_entry list"
  dd_cleanup :: "(string \<times> string) list"
  dd_excluded :: "(string \<times> string) option"
  dd_fully :: bool

definition target_step ::
  "string \<Rightarrow> string \<times> string \<Rightarrow> string \<Rightarrow> inbox_device \<Rightarrow>
   inbox_entry list \<times> (string \<times> string) list \<times> (string \<times> string) option \<Rightarrow>
   inbox_entry list \<times> (string \<times> string) list \<times> (string \<times> string) option" where
  "target_step messageId sender recipient dev acc =
     (let (targets, cleanup, excluded) = acc in
      if id_did dev \<noteq> recipient then acc
      else if id_status dev = Revoked
      then (targets, cleanup @ [(id_did dev, id_device dev)], excluded)
      else if fst sender = recipient \<and> id_device dev = snd sender
      then (targets, cleanup, Some (id_did dev, id_device dev))
      else (targets @ [\<lparr>ie_did = id_did dev, ie_device = id_device dev,
              ie_message = messageId, ie_acked = False\<rparr>], cleanup, excluded))"

definition computeBrokerInboxDeliveryTargets ::
  "string \<Rightarrow> string \<times> string \<Rightarrow> string \<Rightarrow> inbox_device list \<Rightarrow> delivery_disposition" where
  "computeBrokerInboxDeliveryTargets messageId sender recipient devs =
     (let (targets, cleanup, excluded) = fold (target_step messageId sender recipient) devs ([], [], None) in
      \<lparr>dd_targets = targets, dd_cleanup = cleanup, dd_excluded = excluded, dd_fully = (targets = [])\<rparr>)"

definition ack_matches :: "string \<times> string \<Rightarrow> string \<Rightarrow> inbox_entry \<Rightarrow> bool" where
  "ack_matches dev messageId e \<longleftrightarrow>
     ie_message e = messageId \<and> ie_did e = fst dev \<and> ie_device e = snd dev"

definition applyBrokerInboxAck ::
  "string \<times> string \<Rightarrow> string \<Rightarrow> inbox_entry list \<Rightarrow> bool \<times> inbox_entry list \<times> bool" where
  "applyBrokerInboxAck dev messageId es =
     (let es' = map (\<lambda>e. if ack_matches dev messageId e then e\<lparr>ie_acked := True\<rparr> else e) es in
      (list_ex (ack_matches dev messageId) es, es',
       list_all ie_acked (filter (\<lambda>e. ie_message e = messageId) es')))"

section \<open>Frames and integrity\<close>

text \<open>The inbox operations leave the log, the devices, the spaces and the owners alone.\<close>

definition same_store :: "db \<Rightarrow> db \<Rightarrow> bool" where
  "same_store d d' \<longleftrightarrow> doc_log d' = doc_log d \<and> devices d' = devices d \<and> spaces d' = spaces d \<and>
     space_admins d' = space_admins d \<and> owners d' = owners d"

lemma same_store_refl [simp, frame_simps]: "same_store d d"
  by (simp add: same_store_def)

lemma same_store_trans [trans]: "same_store a b \<Longrightarrow> same_store b c \<Longrightarrow> same_store a c"
  by (simp add: same_store_def)

lemma same_store_inbox [simp, frame_simps]:
  "same_store d (d\<lparr>entries := x\<rparr>)" "same_store d (d\<lparr>messages := y, next_rowid := n\<rparr>)"
  "same_store d (d\<lparr>entries := x, messages := y\<rparr>)"
  by (simp_all add: same_store_def)

lemma same_store_fold:
  "(\<And>x d. x \<in> set xs \<Longrightarrow> same_store d (f x d)) \<Longrightarrow> same_store d (fold f xs d)"
proof (induction xs arbitrary: d)
  case (Cons x xs)
  have "same_store d (f x d)" "same_store (f x d) (fold f xs (f x d))"
    using Cons by simp_all
  then show ?case by (simp add: same_store_trans)
qed simp

lemma same_store_ok:
  "same_store d d' \<Longrightarrow> inbox_ok d' \<Longrightarrow> db_ok d \<Longrightarrow> db_ok d'"
  by (simp add: db_ok_def same_store_def log_keys_def registry_ok_def)

lemma same_store_active:
  "same_store d d' \<Longrightarrow>
     effectiveActiveDeviceIdsForDid did n w d' = effectiveActiveDeviceIdsForDid did n w d"
  by (simp add: same_store_def effectiveActiveDeviceIdsForDid_def)

lemma insert_message_same [frame_simps]: "insert_message m t e c d = Some d' \<Longrightarrow> same_store d d'"
  by (auto simp: insert_message_def)

lemma insert_entry_ignore_same [simp, frame_simps]: "same_store d (insert_entry_ignore m st dev d)"
  by (simp add: insert_entry_ignore_def)

lemma deleteMessage_same [simp, frame_simps]: "same_store d (deleteMessage m d)"
  by (simp add: deleteMessage_def)

lemma delete_if_delivered_same [simp, frame_simps]: "same_store d (delete_if_delivered n w m d)"
  by (simp add: delete_if_delivered_def)

lemma fanout_entries_same [simp, frame_simps]: "same_store d (fanout_entries i d)"
proof -
  have "same_store d (fold (insert_entry_ignore (fi_message i) Pending) (fi_targets i) d)"
    by (rule same_store_fold) simp
  then show ?thesis
    by (auto simp: fanout_entries_def Let_def split: option.split intro: same_store_trans)
qed

text \<open>The message table is keyed by message id and by row id.\<close>

lemma inbox_ok_insert_message:
  assumes "inbox_ok d" "insert_message m t e c d = Some d'"
  shows "inbox_ok d'"
proof -
  have d': "d' = d\<lparr>messages := messages d @ [\<lparr>msg_rowid = next_rowid d, msg_id = m, msg_to = t,
        msg_envelope = e, msg_created = c\<rparr>], next_rowid := Suc (next_rowid d)\<rparr>"
    and free: "row_get msg_id m (messages d) = None"
    using assms(2) by (auto simp: insert_message_def dest: row_insert_SomeD)
  show ?thesis
    using assms(1) free
    by (auto simp: d' inbox_ok_def keys_distinct_append1 sorted_wrt_append less_Suc_eq)
qed

lemma inbox_ok_insert_entry:
  assumes "inbox_ok d" "m \<in> msg_id ` set (messages d)"
  shows "inbox_ok (insert_entry_ignore m st dev d)"
  using assms
  by (auto simp: insert_entry_ignore_def inbox_ok_def keys_distinct_insert_ignore set_row_insert_ignore)

lemma inbox_ok_fold_entries:
  assumes "inbox_ok d" "\<forall>(m, dev) \<in> set xs. m \<in> msg_id ` set (messages d)"
  shows "inbox_ok (fold (\<lambda>(m, dev). insert_entry_ignore m st dev) xs d) \<and>
         messages (fold (\<lambda>(m, dev). insert_entry_ignore m st dev) xs d) = messages d"
  using assms
proof (induction xs arbitrary: d)
  case (Cons x xs)
  obtain m dev where x: "x = (m, dev)" by (cases x)
  have "inbox_ok (insert_entry_ignore m st dev d)"
    using Cons.prems by (auto simp: x intro: inbox_ok_insert_entry)
  moreover have "messages (insert_entry_ignore m st dev d) = messages d"
    by (simp add: insert_entry_ignore_def)
  ultimately show ?case
    using Cons.IH [of "insert_entry_ignore m st dev d"] Cons.prems(2) by (simp add: x)
qed simp

lemma inbox_ok_deleteMessage: "inbox_ok d \<Longrightarrow> inbox_ok (deleteMessage m d)"
  by (auto simp: deleteMessage_def inbox_ok_def keys_distinct_delete [unfolded row_delete_def]
      row_delete_def sorted_wrt_map sorted_wrt_filter)

lemma inbox_ok_delete_if: "inbox_ok d \<Longrightarrow> inbox_ok (delete_if_delivered n w m d)"
  by (simp add: delete_if_delivered_def inbox_ok_deleteMessage)

lemma inbox_ok_delete_entries: "inbox_ok d \<Longrightarrow> inbox_ok (d\<lparr>entries := row_delete P (entries d)\<rparr>)"
  by (auto simp: inbox_ok_def keys_distinct_delete)

lemma inbox_ok_set_status:
  assumes "inbox_ok d"
  shows "inbox_ok (d\<lparr>entries := row_update P (ent_status_update f) (entries d)\<rparr>)"
  using assms by (auto simp: inbox_ok_def keys_distinct_update ent_key_def set_row_update)

lemma inbox_ok_fold:
  "(\<And>x d. inbox_ok d \<Longrightarrow> inbox_ok (f x d)) \<Longrightarrow> inbox_ok d \<Longrightarrow> inbox_ok (fold f xs d)"
  by (induction xs arbitrary: d) auto

lemma fanout_entries_ok:
  assumes ok: "inbox_ok d" and m: "fi_message i \<in> msg_id ` set (messages d)"
  shows "inbox_ok (fanout_entries i d) \<and> messages (fanout_entries i d) = messages d"
proof -
  let ?d1 = "fold (insert_entry_ignore (fi_message i) Pending) (fi_targets i) d"
  have "?d1 = fold (\<lambda>(m, dev). insert_entry_ignore m Pending dev) (map (Pair (fi_message i)) (fi_targets i)) d"
    by (simp add: fold_map comp_def)
  then have d1: "inbox_ok ?d1 \<and> messages ?d1 = messages d"
    using inbox_ok_fold_entries [OF ok, of "map (Pair (fi_message i)) (fi_targets i)"] m by simp
  then have "inbox_ok (insert_entry_ignore (fi_message i) SenderExcluded s ?d1)" for s
    using m by (intro inbox_ok_insert_entry) auto
  with d1 show ?thesis
    by (auto simp: fanout_entries_def Let_def insert_entry_ignore_def split: option.splits)
qed

lemma insert_message_eq:
  "get_message m d = None \<Longrightarrow> insert_message m t e c d =
     Some (d\<lparr>messages := messages d @ [\<lparr>msg_rowid = next_rowid d, msg_id = m, msg_to = t,
        msg_envelope = e, msg_created = c\<rparr>], next_rowid := Suc (next_rowid d)\<rparr>)"
  by (simp add: insert_message_def get_message_def row_insert_free)

lemma enqueueFanout_total: "\<exists>r d'. enqueueFanout i now d = Inr (r, d')"
  by (auto simp: enqueueFanout_def insert_message_eq Let_def split: option.splits)

lemma get_message_member: "get_message m d = Some r \<Longrightarrow> m \<in> msg_id ` set (messages d)"
  by (auto simp: get_message_def dest: row_get_SomeD)

lemma enqueueFanout_db_ok [inv_intros]:
  assumes "db_ok d"
  shows "db_ok (after (enqueueFanout i now d) d)"
proof -
  have ok: "inbox_ok d" using assms by (simp add: db_ok_def)
  show ?thesis
  proof (cases "get_message (fi_message i) d")
    case None
    let ?d1 = "d\<lparr>messages := messages d @ [\<lparr>msg_rowid = next_rowid d, msg_id = fi_message i,
        msg_to = fi_to i, msg_envelope = json_stored (fi_envelope i), msg_created = now\<rparr>],
        next_rowid := Suc (next_rowid d)\<rparr>"
    have d1: "insert_message (fi_message i) (fi_to i) (json_stored (fi_envelope i)) now d = Some ?d1"
      using None by (rule insert_message_eq)
    have "inbox_ok ?d1" by (rule inbox_ok_insert_message [OF ok d1])
    then have "inbox_ok (fanout_entries i ?d1)"
      by (intro fanout_entries_ok [THEN conjunct1]) simp_all
    moreover have "same_store d (fanout_entries i ?d1)"
      by (rule same_store_trans [OF insert_message_same [OF d1] fanout_entries_same])
    ultimately show ?thesis
      using same_store_ok [OF _ _ assms] None d1 by (simp add: enqueueFanout_def)
  next
    case (Some r)
    have "inbox_ok (fanout_entries i d)"
      using fanout_entries_ok [OF ok get_message_member [OF Some]] by simp
    then show ?thesis
      using Some assms same_store_ok [OF fanout_entries_same _ assms]
      by (simp add: enqueueFanout_def Let_def)
  qed
qed

lemma mint_entries_ok:
  assumes "inbox_ok d"
  shows "inbox_ok (mint_entries did dev d) \<and> messages (mint_entries did dev d) = messages d"
proof -
  let ?ms = "filter (\<lambda>m. msg_to m = did \<and> entry_status_of (msg_id m) dev d = None) (messages d)"
  have "mint_entries did dev d =
      fold (\<lambda>(m, dev). insert_entry_ignore m Pending dev) (map (\<lambda>m. (msg_id m, dev)) ?ms) d"
    by (simp add: mint_entries_def fold_map comp_def)
  then show ?thesis
    using inbox_ok_fold_entries [OF assms, of "map (\<lambda>m. (msg_id m, dev)) ?ms"] by auto
qed

lemma mint_entries_same [simp, frame_simps]: "same_store d (mint_entries did dev d)"
  unfolding mint_entries_def by (rule same_store_fold) simp

lemma deliverOnConnect_db_ok [inv_intros]:
  "db_ok d \<Longrightarrow> db_ok (snd (deliverOnConnect did dev d))"
  using same_store_ok [OF mint_entries_same] mint_entries_ok
  by (simp add: deliverOnConnect_def Let_def db_ok_def [of d])

lemma ackDevice_db_ok [inv_intros]:
  assumes "db_ok d"
  shows "db_ok (snd (ackDevice m dev n w d))"
proof -
  let ?d1 = "d\<lparr>entries := row_update (\<lambda>e. ent_key e = (m, dev)) (ent_status_update (\<lambda>_. Acked)) (entries d)\<rparr>"
  have "inbox_ok ?d1" using assms by (intro inbox_ok_set_status) (simp add: db_ok_def)
  then have d1: "db_ok ?d1" by (rule same_store_ok [OF same_store_inbox(1) _ assms])
  have "db_ok (deleteMessage m ?d1)"
    by (rule same_store_ok [OF deleteMessage_same inbox_ok_deleteMessage d1]) fact
  with d1 assms show ?thesis by (simp add: ackDevice_def Let_def)
qed

lemma deleteForDevice_db_ok [inv_intros]:
  assumes "db_ok d"
  shows "db_ok (deleteForDevice dev n w d)"
proof -
  have ok: "inbox_ok d" using assms by (simp add: db_ok_def)
  have "inbox_ok (deleteForDevice dev n w d)"
    unfolding deleteForDevice_def Let_def
    by (rule inbox_ok_fold [OF inbox_ok_delete_if inbox_ok_delete_entries [OF ok]])
  moreover have "same_store d (deleteForDevice dev n w d)"
    unfolding deleteForDevice_def Let_def
    by (rule same_store_trans [OF same_store_inbox(1) same_store_fold]) simp
  ultimately show ?thesis using same_store_ok [OF _ _ assms] by simp
qed

lemma collectGarbage_db_ok [inv_intros]:
  assumes "db_ok d"
  shows "db_ok (snd (collectGarbage n ttl w d))"
proof -
  let ?d1 = "fold (delete_if_delivered n w) (map msg_id (messages d)) d"
  let ?d2 = "fold deleteMessage (map msg_id (filter (\<lambda>m. msg_created m < n - ttl) (messages ?d1))) ?d1"
  have ok: "inbox_ok ?d2"
    using assms by (intro inbox_ok_fold inbox_ok_deleteMessage inbox_ok_delete_if) (simp_all add: db_ok_def)
  have same: "same_store d ?d2"
    by (rule same_store_trans [OF same_store_fold same_store_fold]) simp_all
  have d2: "db_ok ?d2" by (rule same_store_ok [OF same ok assms])
  show ?thesis
    unfolding collectGarbage_def Let_def snd_conv
    by (rule same_store_ok [OF same_store_inbox(1) inbox_ok_delete_entries [OF ok] d2])
qed

section \<open>Functional behaviour\<close>

lemma entry_status_insert:
  "entry_status_of m dev (insert_entry_ignore m' st dev' d) =
     (case entry_status_of m dev d of
        Some s \<Rightarrow> Some s
      | None \<Rightarrow> if m = m' \<and> dev = dev' then Some st else None)"
  by (auto simp: entry_status_of_def insert_entry_ignore_def row_get_insert_ignore ent_key_def
      split: option.splits)

text \<open>An entry keeps the status it was created with until an acknowledgement changes it.\<close>

interpretation inbox_entry: first_writer_wins "\<lambda>d (m, dev). entry_status_of m dev d"
  "\<lambda>(m, dev) st. insert_entry_ignore m st dev"
  by unfold_locales (auto simp: entry_status_insert split: option.splits if_splits)

lemma map_of_const: "map_of (map (\<lambda>x. (f x, v)) xs) k = (if k \<in> f ` set xs then Some v else None)"
  by (induction xs) auto

lemma entry_status_fold:
  "entry_status_of m dev (fold (insert_entry_ignore m' st) devs d) =
     (case entry_status_of m dev d of
        Some s \<Rightarrow> Some s
      | None \<Rightarrow> if m = m' \<and> dev \<in> set devs then Some st else None)"
proof -
  have "fold (insert_entry_ignore m' st) devs d =
      fold (\<lambda>(k, v). (\<lambda>(m, dev) st. insert_entry_ignore m st dev) k v) (map (\<lambda>dev. ((m', dev), st)) devs) d"
    by (simp add: fold_map comp_def)
  then show ?thesis
    using inbox_entry.bound_claims [of "map (\<lambda>dev. ((m', dev), st)) devs" d "(m, dev)"]
    by (auto simp: map_of_const [where f = "Pair m'"] image_iff split: option.splits)
qed

lemma entry_status_fanout:
  "entry_status_of m dev (fanout_entries i d) =
     (case entry_status_of m dev d of
        Some s \<Rightarrow> Some s
      | None \<Rightarrow>
          if m \<noteq> fi_message i then None
          else if dev \<in> set (fi_targets i) then Some Pending
          else if fi_excluded i = Some dev \<and> dev \<noteq> [] then Some SenderExcluded
          else None)"
  by (auto simp: fanout_entries_def Let_def entry_status_insert entry_status_fold split: option.splits)

lemma messages_fanout [simp]: "messages (fanout_entries i d) = messages d"
proof -
  have "messages (fold (insert_entry_ignore m st) devs e) = messages e" for m st devs e
    by (induction devs arbitrary: e) (auto simp: insert_entry_ignore_def)
  then show ?thesis
    by (auto simp: fanout_entries_def Let_def insert_entry_ignore_def split: option.splits)
qed

lemma get_message_fanout [simp]: "get_message m (fanout_entries i d) = get_message m d"
  by (simp add: get_message_def)

text \<open>
  An accepted envelope is retained under its id; a retained id is never rebound to another
  recipient or envelope.
\<close>

lemma enqueueFanout_stored:
  assumes "enqueueFanout i now d = Inr (r, d')" "r \<noteq> EnqCollision"
  shows "getByMessageId (fi_message i) d' = Some (fi_to i, json_stored (fi_envelope i))"
  using assms
  by (auto simp: enqueueFanout_def Let_def insert_message_eq getByMessageId_def
      split: option.splits if_splits)
    (simp add: get_message_def)

lemma enqueueFanout_stable:
  assumes "enqueueFanout i now d = Inr (r, d')" "getByMessageId m d = Some x"
  shows "getByMessageId m d' = Some x"
  using assms
  by (auto simp: enqueueFanout_def Let_def insert_message_eq getByMessageId_def
      split: option.splits if_splits)
    (auto simp: get_message_def)

lemma enqueueFanout_collision:
  "enqueueFanout i now d = Inr (EnqCollision, d') \<longleftrightarrow>
     d' = d \<and> (\<exists>x. getByMessageId (fi_message i) d = Some x \<and> x \<noteq> (fi_to i, json_stored (fi_envelope i)))"
  by (auto simp: enqueueFanout_def Let_def insert_message_eq getByMessageId_def
      split: option.splits if_splits)

lemma enqueueFanout_entries:
  assumes "enqueueFanout i now d = Inr (r, d')" "r \<noteq> EnqCollision"
  shows "entry_status_of m dev d' =
     (case entry_status_of m dev d of
        Some s \<Rightarrow> Some s
      | None \<Rightarrow>
          if m \<noteq> fi_message i then None
          else if dev \<in> set (fi_targets i) then Some Pending
          else if fi_excluded i = Some dev \<and> dev \<noteq> [] then Some SenderExcluded
          else None)"
proof -
  have "entry_status_of m dev d1 = entry_status_of m dev d"
    if "insert_message (fi_message i) t e c d = Some d1" for t e c d1
    using that by (auto simp: insert_message_def entry_status_of_def)
  then show ?thesis
    using assms
    by (auto simp: enqueueFanout_def Let_def insert_message_eq entry_status_fanout
        split: option.splits if_splits)
qed

section \<open>Delivery on connect\<close>

lemma messages_in_order_ok: "inbox_ok d \<Longrightarrow> messages_in_order d = messages d"
proof -
  assume "inbox_ok d"
  then have "sorted_wrt (<) (map msg_rowid (messages d))" by (simp add: inbox_ok_def)
  then have "sorted (map msg_rowid (messages d))" by (simp add: strict_sorted_iff)
  then show ?thesis by (simp add: messages_in_order_def sorted_sort_id sort_key_id_if_sorted)
qed

lemma entry_status_mint:
  assumes "inbox_ok d" "m \<in> set (messages d)"
  shows "entry_status_of (msg_id m) dev (mint_entries did dev d) =
     (case entry_status_of (msg_id m) dev d of
        Some s \<Rightarrow> Some s | None \<Rightarrow> if msg_to m = did then Some Pending else None)"
proof -
  let ?ms = "filter (\<lambda>m. msg_to m = did \<and> entry_status_of (msg_id m) dev d = None) (messages d)"
  have same: "m' = m" if "m' \<in> set (messages d)" "msg_id m' = msg_id m" for m'
    using that assms by (auto simp: inbox_ok_def keys_distinct_def distinct_map inj_on_def)
  have "mint_entries did dev d =
      fold (\<lambda>(k, v). (\<lambda>(m, dev) st. insert_entry_ignore m st dev) k v)
        (map (\<lambda>m. ((msg_id m, dev), Pending)) ?ms) d"
    by (simp add: mint_entries_def fold_map comp_def)
  then show ?thesis
    using inbox_entry.bound_claims [of "map (\<lambda>m. ((msg_id m, dev), Pending)) ?ms" d "(msg_id m, dev)"]
      same assms(2)
    by (auto simp: map_of_const [where f = "\<lambda>m. (msg_id m, dev)"] image_iff split: option.splits)
qed

text \<open>
  A connecting device receives, in order of arrival, every retained message to its DID that it
  has neither acknowledged nor sent itself.
\<close>

lemma deliverOnConnect_result:
  assumes "inbox_ok d"
  shows "fst (deliverOnConnect did dev d) =
     map msg_envelope (filter (\<lambda>m. msg_to m = did \<and>
       entry_status_of (msg_id m) dev d \<in> {None, Some Pending}) (messages d))"
proof -
  have ok: "inbox_ok (mint_entries did dev d)" and ms: "messages (mint_entries did dev d) = messages d"
    using mint_entries_ok [OF assms] by simp_all
  have "filter (\<lambda>m. msg_to m = did \<and> entry_status_of (msg_id m) dev (mint_entries did dev d) = Some Pending) (messages d) =
        filter (\<lambda>m. msg_to m = did \<and> entry_status_of (msg_id m) dev d \<in> {None, Some Pending}) (messages d)"
    by (rule filter_cong [OF refl]) (auto simp: entry_status_mint [OF assms] split: option.splits)
  then show ?thesis
    by (simp add: deliverOnConnect_def Let_def pending_envelopes_def messages_in_order_ok [OF ok] ms)
qed

text \<open>Delivery does not consume: connecting again delivers the same.\<close>

lemma deliverOnConnect_again:
  assumes "inbox_ok d"
  shows "fst (deliverOnConnect did dev (snd (deliverOnConnect did dev d))) = fst (deliverOnConnect did dev d)"
proof -
  have ok: "inbox_ok (mint_entries did dev d)" and ms: "messages (mint_entries did dev d) = messages d"
    using mint_entries_ok [OF assms] by simp_all
  have "filter (\<lambda>m. msg_to m = did \<and> entry_status_of (msg_id m) dev (mint_entries did dev d) \<in> {None, Some Pending}) (messages d) =
        filter (\<lambda>m. msg_to m = did \<and> entry_status_of (msg_id m) dev d \<in> {None, Some Pending}) (messages d)"
    by (rule filter_cong [OF refl]) (auto simp: entry_status_mint [OF assms] split: option.splits)
  then show ?thesis
    using deliverOnConnect_result [OF assms] deliverOnConnect_result [OF ok]
    by (simp add: deliverOnConnect_def Let_def ms)
qed

section \<open>Terminal deletion\<close>

definition effective_active :: "string \<Rightarrow> string \<Rightarrow> int \<Rightarrow> int \<Rightarrow> db \<Rightarrow> bool" where
  "effective_active did dev nowMs inactiveMs d \<longleftrightarrow>
     (\<exists>e \<in> set (devices d). dev_id e = dev \<and> dev_did e = did \<and> dev_status e = Active \<and>
        dev_last_seen e \<ge> nowMs - inactiveMs)"

lemma isFullyDelivered_iff:
  assumes "inbox_ok d"
  shows "isFullyDelivered m n w d \<longleftrightarrow>
     (\<exists>row. get_message m d = Some row \<and> (\<exists>dev. entry_status_of m dev d = Some Acked) \<and>
       (\<forall>dev. effective_active (msg_to row) dev n w d \<longrightarrow>
          entry_status_of m dev d \<in> {Some Acked, Some SenderExcluded}))"
proof -
  have keys: "keys_distinct ent_key (entries d)" using assms by (simp add: inbox_ok_def)
  have acked: "list_ex (\<lambda>e. ent_msg e = m \<and> ent_status e = Acked) (entries d) \<longleftrightarrow>
      (\<exists>dev. entry_status_of m dev d = Some Acked)"
    by (auto simp: list_ex_iff entry_status_of_def row_get_Some_iff [OF keys] ent_key_def)
  show ?thesis
    unfolding isFullyDelivered_def acked
    by (auto simp: list_all_iff effectiveActiveDeviceIdsForDid_def effective_active_def
        split: option.splits)
qed

lemma get_message_deleteMessage:
  "get_message k (deleteMessage m d) = (if k = m then None else get_message k d)"
  by (auto simp: get_message_def deleteMessage_def row_get_delete_key intro!: row_get_delete_other)

lemma entry_status_deleteMessage:
  "entry_status_of k dev (deleteMessage m d) = (if k = m then None else entry_status_of k dev d)"
proof (cases "k = m")
  case True
  have "row_get ent_key (m, dev) (row_delete (\<lambda>e. ent_msg e = m) (entries d)) = None"
    by (auto simp: row_get_None_iff ent_key_def)
  then show ?thesis using True by (simp add: entry_status_of_def deleteMessage_def)
next
  case False
  have "row_get ent_key (k, dev) (row_delete (\<lambda>e. ent_msg e = m) (entries d)) = row_get ent_key (k, dev) (entries d)"
    using False by (intro row_get_delete_other) (auto simp: ent_key_def)
  then show ?thesis using False by (simp add: entry_status_of_def deleteMessage_def)
qed

lemma isFullyDelivered_deleteMessage:
  assumes "inbox_ok d" "k \<noteq> m"
  shows "isFullyDelivered k n w (deleteMessage m d) = isFullyDelivered k n w d"
  using assms(2)
  by (simp add: isFullyDelivered_iff inbox_ok_deleteMessage assms(1) get_message_deleteMessage
      entry_status_deleteMessage effective_active_def)
    (simp add: deleteMessage_def)

lemma fold_delete_if_delivered:
  assumes "inbox_ok d"
  shows "get_message k (fold (delete_if_delivered n w) ms d) =
      (if k \<in> set ms \<and> isFullyDelivered k n w d then None else get_message k d) \<and>
    (entry_status_of k dev (fold (delete_if_delivered n w) ms d) =
      (if k \<in> set ms \<and> isFullyDelivered k n w d then None else entry_status_of k dev d))"
  using assms
proof (induction ms arbitrary: d)
  case Nil
  show ?case by simp
next
  case (Cons m ms)
  let ?d1 = "delete_if_delivered n w m d"
  have ok: "inbox_ok ?d1" by (rule inbox_ok_delete_if [OF Cons.prems])
  have gone: "\<not> isFullyDelivered m n w (deleteMessage m d)"
    by (simp add: isFullyDelivered_def get_message_deleteMessage)
  show ?case
  proof (cases "k = m")
    case True
    then show ?thesis
      using Cons.IH [OF ok] gone
      by (auto simp: delete_if_delivered_def get_message_deleteMessage entry_status_deleteMessage)
  next
    case False
    then show ?thesis
      using Cons.IH [OF ok] isFullyDelivered_deleteMessage [OF Cons.prems False]
      by (auto simp: delete_if_delivered_def get_message_deleteMessage entry_status_deleteMessage)
  qed
qed

lemma fold_deleteMessage:
  "get_message k (fold deleteMessage ms d) = (if k \<in> set ms then None else get_message k d)"
  "entry_status_of k dev (fold deleteMessage ms d) = (if k \<in> set ms then None else entry_status_of k dev d)"
  by (induction ms arbitrary: d) (auto simp: get_message_deleteMessage entry_status_deleteMessage)

text \<open>A message a device still has to receive: retained, and neither acknowledged nor sent by it.\<close>

definition outstanding :: "string \<Rightarrow> string \<Rightarrow> int \<Rightarrow> int \<Rightarrow> db \<Rightarrow> bool" where
  "outstanding m dev nowMs inactiveMs d \<longleftrightarrow>
     (\<exists>row. get_message m d = Some row \<and> effective_active (msg_to row) dev nowMs inactiveMs d \<and>
        entry_status_of m dev d \<notin> {Some Acked, Some SenderExcluded})"

lemma outstanding_not_delivered:
  "inbox_ok d \<Longrightarrow> outstanding m dev n w d \<Longrightarrow> \<not> isFullyDelivered m n w d"
  by (auto simp: isFullyDelivered_iff outstanding_def)

lemma effective_active_frame:
  "devices d' = devices d \<Longrightarrow> effective_active did dev n w d' = effective_active did dev n w d"
  by (simp add: effective_active_def)

lemma entry_status_set_acked:
  "entry_status_of k dev' (d\<lparr>entries := row_update (\<lambda>e. ent_key e = (m, dev)) (ent_status_update (\<lambda>_. Acked)) (entries d)\<rparr>) =
     (if k = m \<and> dev' = dev then map_option (\<lambda>_. Acked) (entry_status_of k dev' d)
      else entry_status_of k dev' d)"
proof -
  have "ent_key (ent_status_update f r) = ent_key r" for f r
    by (simp add: ent_key_def)
  then show ?thesis
    by (simp add: entry_status_of_def row_get_update_key [of ent_key] option.map_comp comp_def)
qed

lemma entry_status_delete_device:
  "entry_status_of k dev' (d\<lparr>entries := row_delete (\<lambda>e. ent_device e \<in> D) (entries d)\<rparr>) =
     (if dev' \<in> D then None else entry_status_of k dev' d)"
proof (cases "dev' \<in> D")
  case True
  then have "row_get ent_key (k, dev') (row_delete (\<lambda>e. ent_device e \<in> D) (entries d)) = None"
    by (auto simp: row_get_None_iff ent_key_def)
  then show ?thesis using True by (simp add: entry_status_of_def)
next
  case False
  then have "row_get ent_key (k, dev') (row_delete (\<lambda>e. ent_device e \<in> D) (entries d)) =
             row_get ent_key (k, dev') (entries d)"
    by (intro row_get_delete_other) (auto simp: ent_key_def)
  then show ?thesis using False by (simp add: entry_status_of_def)
qed

text \<open>
  An acknowledgement counts only for a pending entry of the device itself; it removes the
  message exactly if that was the last one missing.
\<close>

definition acked_db :: "string \<Rightarrow> string \<Rightarrow> db \<Rightarrow> db" where
  "acked_db m dev d =
     d\<lparr>entries := row_update (\<lambda>e. ent_key e = (m, dev)) (ent_status_update (\<lambda>_. Acked)) (entries d)\<rparr>"

lemma ackDevice_eq:
  "ackDevice m dev n w d =
     (if entry_status_of m dev d \<noteq> Some Pending then (False, d)
      else (True, delete_if_delivered n w m (acked_db m dev d)))"
  by (simp add: ackDevice_def acked_db_def delete_if_delivered_def Let_def)

lemma acked_db_simps [simp]:
  "get_message k (acked_db m dev d) = get_message k d"
  "devices (acked_db m dev d) = devices d"
  "entry_status_of k dev' (acked_db m dev d) =
     (if k = m \<and> dev' = dev then map_option (\<lambda>_. Acked) (entry_status_of k dev' d)
      else entry_status_of k dev' d)"
  by (simp_all add: acked_db_def get_message_def entry_status_set_acked)

lemma inbox_ok_acked: "inbox_ok d \<Longrightarrow> inbox_ok (acked_db m dev d)"
  unfolding acked_db_def by (rule inbox_ok_set_status)

lemma ackDevice_result:
  assumes "inbox_ok d" "entry_status_of m dev d = Some Pending"
  shows "get_message k (snd (ackDevice m dev n w d)) =
     (if k = m \<and> isFullyDelivered m n w (acked_db m dev d) then None else get_message k d)"
  using assms by (auto simp: ackDevice_eq delete_if_delivered_def get_message_deleteMessage)

text \<open>Nothing but its own acknowledgement takes an outstanding message from a device.\<close>

lemma outstanding_delete_if:
  assumes "inbox_ok d" "outstanding m dev n w d"
  shows "outstanding m dev n w (delete_if_delivered n w k d)"
proof (cases "k = m")
  case True
  then show ?thesis
    using assms outstanding_not_delivered by (simp add: delete_if_delivered_def)
next
  case False
  then show ?thesis
    using assms(2)
    by (auto simp: outstanding_def delete_if_delivered_def get_message_deleteMessage
        entry_status_deleteMessage effective_active_def)
      (auto simp: deleteMessage_def)
qed

lemma outstanding_fold_delete_if:
  assumes "inbox_ok d" "outstanding m dev n w d"
  shows "outstanding m dev n w (fold (delete_if_delivered n w) ks d)"
  using assms by (induction ks arbitrary: d) (auto intro: outstanding_delete_if inbox_ok_delete_if)

lemma ackDevice_keeps_outstanding:
  assumes "inbox_ok d" "outstanding m dev n w d" "(m', dev') \<noteq> (m, dev)"
  shows "outstanding m dev n w (snd (ackDevice m' dev' n w d))"
proof -
  have "outstanding m dev n w (acked_db m' dev' d)"
    using assms(2,3) by (auto simp: outstanding_def effective_active_def)
  then show ?thesis
    using assms(2) outstanding_delete_if [OF inbox_ok_acked [OF assms(1)]] by (simp add: ackDevice_eq)
qed

lemma deleteForDevice_keeps_outstanding:
  assumes "inbox_ok d" "outstanding m dev n w d" "dev' \<noteq> dev"
  shows "outstanding m dev n w (deleteForDevice dev' n w d)"
proof -
  let ?d1 = "d\<lparr>entries := row_delete (\<lambda>e. ent_device e = dev') (entries d)\<rparr>"
  have "outstanding m dev n w ?d1"
    using assms(2,3) entry_status_delete_device [where D = "{dev'}"]
    by (simp add: outstanding_def effective_active_def get_message_def)
  then show ?thesis
    unfolding deleteForDevice_def Let_def
    by (intro outstanding_fold_delete_if inbox_ok_delete_entries [OF assms(1)])
qed

section \<open>Garbage collection\<close>

definition gc_messages :: "int \<Rightarrow> int \<Rightarrow> int \<Rightarrow> db \<Rightarrow> db" where
  "gc_messages nowMs ttlMs inactiveMs d =
     (let d1 = fold (delete_if_delivered nowMs inactiveMs) (map msg_id (messages d)) d in
      fold deleteMessage (map msg_id (filter (\<lambda>m. msg_created m < nowMs - ttlMs) (messages d1))) d1)"

lemma get_message_iff:
  "inbox_ok d \<Longrightarrow> get_message m d = Some row \<longleftrightarrow> row \<in> set (messages d) \<and> msg_id row = m"
  by (simp add: get_message_def row_get_Some_iff inbox_ok_def)

lemma collectGarbage_db:
  "snd (collectGarbage n ttl w d) =
     (let d2 = gc_messages n ttl w d in
      d2\<lparr>entries := row_delete (\<lambda>e. ent_device e \<in>
          dev_id ` {r \<in> set (devices d2). dev_last_seen r < n - w}) (entries d2)\<rparr>)"
  by (simp add: collectGarbage_def gc_messages_def Let_def)

lemma gc_messages_same: "same_store d (gc_messages n ttl w d)"
  unfolding gc_messages_def Let_def
  by (rule same_store_trans [OF same_store_fold same_store_fold]) simp_all

lemma gc_messages_ok: "inbox_ok d \<Longrightarrow> inbox_ok (gc_messages n ttl w d)"
  unfolding gc_messages_def Let_def
  by (intro inbox_ok_fold inbox_ok_deleteMessage inbox_ok_delete_if) simp_all

lemma gc_messages_result:
  assumes ok: "inbox_ok d" and row: "get_message m d = Some row"
  shows "get_message m (gc_messages n ttl w d) =
     (if isFullyDelivered m n w d \<or> msg_created row < n - ttl then None else Some row) \<and>
   (\<not> isFullyDelivered m n w d \<and> \<not> msg_created row < n - ttl \<longrightarrow>
     entry_status_of m dev (gc_messages n ttl w d) = entry_status_of m dev d)"
proof -
  let ?d1 = "fold (delete_if_delivered n w) (map msg_id (messages d)) d"
  have mem: "m \<in> set (map msg_id (messages d))"
    using get_message_member [OF row] by auto
  have ok1: "inbox_ok ?d1"
    by (intro inbox_ok_fold inbox_ok_delete_if ok)
  have g1: "get_message m ?d1 = (if isFullyDelivered m n w d then None else Some row)"
    and e1: "\<not> isFullyDelivered m n w d \<Longrightarrow> entry_status_of m dev ?d1 = entry_status_of m dev d"
    using fold_delete_if_delivered [OF ok, of m n w "map msg_id (messages d)" dev] mem row by auto
  have "m \<in> set (map msg_id (filter (\<lambda>m. msg_created m < n - ttl) (messages ?d1))) \<longleftrightarrow>
        (\<exists>r. get_message m ?d1 = Some r \<and> msg_created r < n - ttl)"
    by (auto simp: get_message_iff [OF ok1])
  with g1 e1 show ?thesis
    unfolding gc_messages_def Let_def by (simp add: fold_deleteMessage split: if_splits)
qed

text \<open>The sweep removes exactly the delivered and the expired messages.\<close>

lemma collectGarbage_messages:
  assumes "inbox_ok d" "get_message m d = Some row"
  shows "get_message m (snd (collectGarbage n ttl w d)) =
     (if isFullyDelivered m n w d \<or> msg_created row < n - ttl then None else Some row)"
  using gc_messages_result [OF assms, of n ttl w]
  by (simp add: collectGarbage_db Let_def get_message_def)

lemma collectGarbage_keeps_outstanding:
  assumes ok: "db_ok d" and out: "outstanding m dev n w d"
    and row: "get_message m d = Some row" and young: "n - ttl \<le> msg_created row"
  shows "outstanding m dev n w (snd (collectGarbage n ttl w d))"
proof -
  have iok: "inbox_ok d" using ok by (simp add: db_ok_def)
  have act: "effective_active (msg_to row) dev n w d" and st: "entry_status_of m dev d \<notin> {Some Acked, Some SenderExcluded}"
    using out row by (auto simp: outstanding_def)
  have not_full: "\<not> isFullyDelivered m n w d" by (rule outstanding_not_delivered [OF iok out])
  let ?d2 = "gc_messages n ttl w d"
  have dev2: "devices ?d2 = devices d" using gc_messages_same by (simp add: same_store_def)
  have e2: "entry_status_of m dev ?d2 = entry_status_of m dev d"
    using gc_messages_result [OF iok row] not_full young by simp
  have stay: "dev \<notin> dev_id ` {r \<in> set (devices ?d2). dev_last_seen r < n - w}"
  proof
    assume "dev \<in> dev_id ` {r \<in> set (devices ?d2). dev_last_seen r < n - w}"
    moreover have "keys_distinct dev_id (devices d)" using ok by (simp add: db_ok_def log_keys_def)
    ultimately show False
      using act by (force simp: effective_active_def dev2 keys_distinct_def distinct_map inj_on_def)
  qed
  have "get_message m (snd (collectGarbage n ttl w d)) = Some row"
    using collectGarbage_messages [OF iok row] not_full young by simp
  moreover have "effective_active (msg_to row) dev n w (snd (collectGarbage n ttl w d))"
    using act by (simp add: collectGarbage_db Let_def effective_active_def dev2)
  moreover have "entry_status_of m dev (snd (collectGarbage n ttl w d)) = entry_status_of m dev d"
    using stay e2 by (simp add: collectGarbage_db Let_def entry_status_delete_device)
  ultimately show ?thesis using st by (simp add: outstanding_def)
qed

section \<open>Fan-out rules\<close>

lemma target_step_fold:
  "fold (target_step m sender recipient) devs (t, c, x) =
     (t @ map (\<lambda>dev. \<lparr>ie_did = id_did dev, ie_device = id_device dev, ie_message = m, ie_acked = False\<rparr>)
        (filter (\<lambda>dev. id_did dev = recipient \<and> id_status dev = Active \<and>
           (id_did dev, id_device dev) \<noteq> sender) devs),
      c @ map (\<lambda>dev. (id_did dev, id_device dev))
        (filter (\<lambda>dev. id_did dev = recipient \<and> id_status dev = Revoked) devs),
      if \<exists>dev \<in> set devs. id_status dev = Active \<and> id_did dev = recipient \<and> (id_did dev, id_device dev) = sender
      then Some sender else x)"
proof (induction devs arbitrary: t c x)
  case (Cons dev devs)
  obtain sd sv where sender: "sender = (sd, sv)" by (cases sender)
  consider "id_did dev \<noteq> recipient" | "id_did dev = recipient" "id_status dev = Revoked"
    | "id_did dev = recipient" "id_status dev = Active" "(id_did dev, id_device dev) = sender"
    | "id_did dev = recipient" "id_status dev = Active" "(id_did dev, id_device dev) \<noteq> sender"
    using not_Active by blast
  then show ?case
  proof cases
    case 1
    then have "target_step m sender recipient dev (t, c, x) = (t, c, x)"
      by (simp add: target_step_def)
    then show ?thesis using 1 by (simp add: Cons.IH)
  next
    case 2
    then have "target_step m sender recipient dev (t, c, x) = (t, c @ [(id_did dev, id_device dev)], x)"
      by (simp add: target_step_def)
    then show ?thesis using 2 by (simp add: Cons.IH)
  next
    case 3
    then have "target_step m sender recipient dev (t, c, x) = (t, c, Some sender)"
      by (auto simp: target_step_def)
    then show ?thesis using 3 by (simp add: Cons.IH)
  next
    case 4
    then have "target_step m sender recipient dev (t, c, x) =
        (t @ [\<lparr>ie_did = id_did dev, ie_device = id_device dev, ie_message = m, ie_acked = False\<rparr>], c, x)"
      by (auto simp: target_step_def sender)
    then show ?thesis using 4 by (simp add: Cons.IH)
  qed
qed simp

lemma computeBrokerInboxDeliveryTargets_eq:
  "computeBrokerInboxDeliveryTargets m sender recipient devs =
     (let targets = filter (\<lambda>dev. id_did dev = recipient \<and> id_status dev = Active \<and>
           (id_did dev, id_device dev) \<noteq> sender) devs in
      \<lparr>dd_targets = map (\<lambda>dev. \<lparr>ie_did = id_did dev, ie_device = id_device dev,
           ie_message = m, ie_acked = False\<rparr>) targets,
       dd_cleanup = map (\<lambda>dev. (id_did dev, id_device dev))
         (filter (\<lambda>dev. id_did dev = recipient \<and> id_status dev = Revoked) devs),
       dd_excluded = (if \<exists>dev \<in> set devs. id_status dev = Active \<and> id_did dev = recipient \<and>
           (id_did dev, id_device dev) = sender then Some sender else None),
       dd_fully = (targets = [])\<rparr>)"
  by (simp add: computeBrokerInboxDeliveryTargets_def target_step_fold Let_def)

lemma applyBrokerInboxAck_fully:
  "snd (snd (applyBrokerInboxAck dev m es)) \<longleftrightarrow>
     (\<forall>e \<in> set es. ie_message e = m \<longrightarrow> ie_acked e \<or> ack_matches dev m e)"
  by (auto simp: applyBrokerInboxAck_def Let_def list_all_iff split: if_splits)

section \<open>Properties\<close>

definition inbox_example :: db where
  "inbox_example = empty_db\<lparr>
     devices := [\<lparr>dev_did = ''a'', dev_id = ''a1'', dev_first_seen = 0, dev_last_seen = 0, dev_status = Active, dev_revoked_at = None\<rparr>,
                 \<lparr>dev_did = ''a'', dev_id = ''a2'', dev_first_seen = 0, dev_last_seen = 0, dev_status = Active, dev_revoked_at = None\<rparr>],
     messages := [\<lparr>msg_rowid = 1, msg_id = ''m'', msg_to = ''a'', msg_envelope = JStr ''x'', msg_created = 0\<rparr>],
     next_rowid := 2,
     entries := [\<lparr>ent_msg = ''m'', ent_device = ''a1'', ent_status = Pending\<rparr>,
                 \<lparr>ent_msg = ''m'', ent_device = ''a2'', ent_status = Acked\<rparr>]\<rparr>"

lemma inbox_example_ok: "db_ok inbox_example"
  by (simp add: inbox_example_def empty_db_def db_ok_def log_keys_def inbox_ok_def registry_ok_def
      keys_distinct_def ent_key_def)

text \<open>C35: A connecting device is sent, in order of arrival, exactly the retained messages to its DID for
  which it has no entry or a pending one. So a message that it acknowledged or sent itself is left
  out as long as the entry that says so is kept; garbage collection can drop the entry before the
  message, and then the message is delivered again (a finding). Delivery consumes nothing, so a
  reconnect before the acknowledgement delivers the same again.\<close>

theorem deliver_exactly_unacknowledged:
  assumes "db_ok d"
  shows "fst (deliverOnConnect did dev d) =
      map msg_envelope (filter (\<lambda>m. msg_to m = did \<and>
        entry_status_of (msg_id m) dev d \<in> {None, Some Pending}) (messages d)) \<and>
    fst (deliverOnConnect did dev (snd (deliverOnConnect did dev d))) = fst (deliverOnConnect did dev d) \<and>
    sorted_wrt (<) (map msg_rowid (messages d))"
proof -
  have ok: "inbox_ok d" using assms by (simp add: db_ok_def)
  have "sorted_wrt (<) (map msg_rowid (messages d))" using ok by (simp add: inbox_ok_def)
  then show ?thesis
    by (intro conjI deliverOnConnect_result [OF ok] deliverOnConnect_again [OF ok])
qed

theorem deliver_exactly_unacknowledged_witness:
  "fst (deliverOnConnect ''a'' ''a1'' inbox_example) = [JStr ''x''] \<and>
   fst (deliverOnConnect ''a'' ''a2'' inbox_example) = []"
  using deliver_exactly_unacknowledged [OF inbox_example_ok, of "''a''" "''a1''"]
    deliver_exactly_unacknowledged [OF inbox_example_ok, of "''a''" "''a2''"]
  by (simp add: inbox_example_def empty_db_def entry_status_of_def ent_key_def)

text \<open>Enqueueing is bound to the content: an id that is retained with another recipient or envelope
  is refused without any change, otherwise the envelope is retained under its id and every target
  and the excluded sender have an entry, an existing entry keeping its status.\<close>

theorem enqueue_content_bound:
  "(\<exists>x. getByMessageId (fi_message i) d = Some x \<and> x \<noteq> (fi_to i, json_stored (fi_envelope i))) \<and>
     enqueueFanout i now d = Inr (EnqCollision, d) \<or>
   (\<exists>r d'. r \<noteq> EnqCollision \<and> enqueueFanout i now d = Inr (r, d') \<and>
     getByMessageId (fi_message i) d' = Some (fi_to i, json_stored (fi_envelope i)) \<and>
     (\<forall>dev. entry_status_of (fi_message i) dev d' =
       (case entry_status_of (fi_message i) dev d of
          Some s \<Rightarrow> Some s
        | None \<Rightarrow> if dev \<in> set (fi_targets i) then Some Pending
                  else if fi_excluded i = Some dev \<and> dev \<noteq> [] then Some SenderExcluded
                  else None)))"
proof -
  obtain r d' where d': "enqueueFanout i now d = Inr (r, d')"
    using enqueueFanout_total by blast
  show ?thesis
  proof (cases "r = EnqCollision")
    case True
    then show ?thesis using d' enqueueFanout_collision [of i now d d'] by auto
  next
    case False
    then show ?thesis
      using d' enqueueFanout_stored [OF d' False] enqueueFanout_entries [OF d' False, of "fi_message i"]
      by auto
  qed
qed

lemma enqueueFanout_keeps_outstanding:
  assumes out: "outstanding m dev n w d" and i: "\<not> (fi_message i = m \<and> fi_excluded i = Some dev)"
  shows "outstanding m dev n w (after (enqueueFanout i now d) d)"
proof -
  obtain r d' where d': "enqueueFanout i now d = Inr (r, d')"
    using enqueueFanout_total by blast
  obtain row where row: "get_message m d = Some row"
    and act: "effective_active (msg_to row) dev n w d"
    and st: "entry_status_of m dev d \<notin> {Some Acked, Some SenderExcluded}"
    using out by (auto simp: outstanding_def)
  have row': "get_message m d' = Some row"
    using d' row
    by (auto simp: enqueueFanout_def Let_def insert_message_eq split: option.splits if_splits)
      (simp add: get_message_def)
  have st': "entry_status_of m dev d' \<notin> {Some Acked, Some SenderExcluded}"
  proof (cases "r = EnqCollision")
    case True
    then have "d' = d" using d' enqueueFanout_collision [of i now d d'] by simp
    then show ?thesis using st by simp
  next
    case False
    show ?thesis
      using enqueueFanout_entries [OF d' False, of m dev] st i
      by (auto split: option.splits if_splits)
  qed
  have "devices d' = devices d"
    using d' by (auto simp: enqueueFanout_def Let_def insert_message_eq split: option.splits if_splits
        intro!: fanout_entries_same [unfolded same_store_def, THEN conjunct2, THEN conjunct1])
      (use fanout_entries_same in \<open>simp_all add: same_store_def\<close>)
  then have "effective_active (msg_to row) dev n w d'" using act by (simp add: effective_active_def)
  with row' st' show ?thesis by (simp add: outstanding_def d')
qed

text \<open>C32: No message is lost before delivery: an active device of the recipient that has not
  acknowledged a retained message (and is not its sender) still finds it retained after any
  enqueue that does not name it as that message's sender, any acknowledgement but its own, any
  revocation clean-up but its own, and any garbage collection within the retention time.\<close>

theorem outstanding_is_kept:
  assumes ok: "db_ok d" and out: "outstanding m dev n w d"
  shows "(\<forall>i now. \<not> (fi_message i = m \<and> fi_excluded i = Some dev) \<longrightarrow>
       outstanding m dev n w (after (enqueueFanout i now d) d)) \<and>
    (\<forall>m' dev'. (m', dev') \<noteq> (m, dev) \<longrightarrow> outstanding m dev n w (snd (ackDevice m' dev' n w d))) \<and>
    (\<forall>dev'. dev' \<noteq> dev \<longrightarrow> outstanding m dev n w (deleteForDevice dev' n w d)) \<and>
    (\<forall>ttl. (\<forall>row \<in> set (messages d). msg_id row = m \<longrightarrow> n - ttl \<le> msg_created row) \<longrightarrow>
       outstanding m dev n w (snd (collectGarbage n ttl w d)))"
proof -
  have iok: "inbox_ok d" using ok by (simp add: db_ok_def)
  obtain row where row: "get_message m d = Some row"
    using out by (auto simp: outstanding_def)
  have "outstanding m dev n w (snd (collectGarbage n ttl w d))"
    if "\<forall>row \<in> set (messages d). msg_id row = m \<longrightarrow> n - ttl \<le> msg_created row" for ttl
    using that row by (intro collectGarbage_keeps_outstanding [OF ok out row])
      (auto simp: get_message_iff [OF iok])
  then show ?thesis
    using enqueueFanout_keeps_outstanding [OF out] ackDevice_keeps_outstanding [OF iok out]
      deleteForDevice_keeps_outstanding [OF iok out] by blast
qed

theorem outstanding_is_kept_witness:
  "outstanding ''m'' ''a1'' 5 DEFAULT_INACTIVE_MS
     (snd (collectGarbage 5 DEFAULT_TTL_MS DEFAULT_INACTIVE_MS inbox_example)) \<and>
   outstanding ''m'' ''a1'' 5 DEFAULT_INACTIVE_MS
     (snd (ackDevice ''m'' ''a2'' 5 DEFAULT_INACTIVE_MS inbox_example))"
proof -
  have out: "outstanding ''m'' ''a1'' 5 DEFAULT_INACTIVE_MS inbox_example"
    by (simp add: outstanding_def inbox_example_def empty_db_def get_message_def effective_active_def
        entry_status_of_def ent_key_def DEFAULT_INACTIVE_MS_def day_ms_def)
  have "\<forall>row \<in> set (messages inbox_example). msg_id row = ''m'' \<longrightarrow> 5 - DEFAULT_TTL_MS \<le> msg_created row"
    by (simp add: inbox_example_def DEFAULT_TTL_MS_def day_ms_def)
  note gc = outstanding_is_kept [OF inbox_example_ok out, THEN conjunct2, THEN conjunct2, THEN conjunct2,
      THEN spec, THEN mp, OF this]
  have "(''m'', ''a2'') \<noteq> (''m'', ''a1'')" by simp
  note ack = outstanding_is_kept [OF inbox_example_ok out, THEN conjunct2, THEN conjunct1,
      THEN spec, THEN spec, THEN mp, OF this]
  show ?thesis by (rule conjI [OF gc ack])
qed

text \<open>A message leaves the inbox by an acknowledgement exactly when some device has acknowledged it
  and every effectively active device of the recipient has acknowledged it or sent it; an
  acknowledgement for anything but the device's own pending entry changes nothing.\<close>

theorem ack_terminal:
  assumes "db_ok d"
  shows "(entry_status_of m dev d \<noteq> Some Pending \<longrightarrow> ackDevice m dev n w d = (False, d)) \<and>
    (entry_status_of m dev d = Some Pending \<longrightarrow> (\<forall>row. get_message m d = Some row \<longrightarrow>
       (get_message m (snd (ackDevice m dev n w d)) = None \<longleftrightarrow>
        (\<forall>dev'. dev' \<noteq> dev \<longrightarrow> effective_active (msg_to row) dev' n w d \<longrightarrow>
           entry_status_of m dev' d \<in> {Some Acked, Some SenderExcluded}))))"
proof (intro conjI impI allI)
  assume "entry_status_of m dev d \<noteq> Some Pending"
  then show "ackDevice m dev n w d = (False, d)" by (simp add: ackDevice_def)
next
  fix row assume p: "entry_status_of m dev d = Some Pending" and row: "get_message m d = Some row"
  have ok: "inbox_ok d" using assms by (simp add: db_ok_def)
  have "isFullyDelivered m n w (acked_db m dev d) \<longleftrightarrow>
      (\<forall>dev'. dev' \<noteq> dev \<longrightarrow> effective_active (msg_to row) dev' n w d \<longrightarrow>
         entry_status_of m dev' d \<in> {Some Acked, Some SenderExcluded})"
    using p row by (auto simp: isFullyDelivered_iff [OF inbox_ok_acked [OF ok]] effective_active_def)
  then show "get_message m (snd (ackDevice m dev n w d)) = None \<longleftrightarrow>
      (\<forall>dev'. dev' \<noteq> dev \<longrightarrow> effective_active (msg_to row) dev' n w d \<longrightarrow>
         entry_status_of m dev' d \<in> {Some Acked, Some SenderExcluded})"
    using ackDevice_result [OF ok p, of m n w] row by simp
qed

theorem ack_terminal_witness:
  "get_message ''m'' (snd (ackDevice ''m'' ''a1'' 5 DEFAULT_INACTIVE_MS inbox_example)) = None"
proof -
  have "entry_status_of ''m'' ''a1'' inbox_example = Some Pending"
    and "get_message ''m'' inbox_example = Some (hd (messages inbox_example))"
    and "\<forall>dev'. dev' \<noteq> ''a1'' \<longrightarrow> effective_active (msg_to (hd (messages inbox_example))) dev' 5 DEFAULT_INACTIVE_MS inbox_example \<longrightarrow>
       entry_status_of ''m'' dev' inbox_example \<in> {Some Acked, Some SenderExcluded}"
    by (auto simp: inbox_example_def empty_db_def get_message_def effective_active_def
        entry_status_of_def ent_key_def)
  then show ?thesis
    using ack_terminal [OF inbox_example_ok, of "''m''" "''a1''" 5 DEFAULT_INACTIVE_MS] by blast
qed

text \<open>The garbage collection drops the sender's exclusion once its device has not registered for the
  inactivity window, also while the message is still retained; a reconnect of that device then
  delivers its own self-addressed message back to it.\<close>

theorem echo_after_garbage_collection:
  "let d1 = after (registerDevice ''a'' ''a1'' 0 empty_db) empty_db;
       d2 = after (enqueueFanout \<lparr>fi_message = ''m'', fi_to = ''a'', fi_envelope = JStr ''x'', fi_targets = [],
              fi_excluded = Some ''a1''\<rparr> (80 * day_ms) d1) d1;
       d3 = snd (collectGarbage (91 * day_ms) DEFAULT_TTL_MS DEFAULT_INACTIVE_MS d2) in
   fst (deliverOnConnect ''a'' ''a1'' d2) = [] \<and> fst (deliverOnConnect ''a'' ''a1'' d3) = [JStr ''x'']"
  by code_simp

text \<open>The fan-out rule of the protocol targets exactly the active devices of the recipient other than
  the sending device, and only a self-addressed message excludes its sender.\<close>

theorem fanout_targets:
  "dd_targets (computeBrokerInboxDeliveryTargets m sender recipient devs) =
     map (\<lambda>dev. \<lparr>ie_did = id_did dev, ie_device = id_device dev, ie_message = m, ie_acked = False\<rparr>)
       (filter (\<lambda>dev. id_did dev = recipient \<and> id_status dev = Active \<and> (id_did dev, id_device dev) \<noteq> sender) devs) \<and>
   (\<forall>x. dd_excluded (computeBrokerInboxDeliveryTargets m sender recipient devs) = Some x \<longleftrightarrow>
      x = sender \<and> fst sender = recipient \<and>
      (\<exists>dev \<in> set devs. id_status dev = Active \<and> (id_did dev, id_device dev) = sender))"
  by (auto simp: computeBrokerInboxDeliveryTargets_eq Let_def)

end
