(* ===== verification/Store.thy ===== *)
theory Store
  imports InboxQueue
begin

text \<open>
  Histories of the broker's database: any interleaving of the transactions of \<^verbatim>\<open>DocLog\<close> and
  \<^verbatim>\<open>OfflineQueue\<close>, which share one SQLite handle and run one at a time. A step is one
  transaction; \<open>run store_step\<close> is a history. The guards of two steps are what their only
  callers establish: a rotation carries a non-negative generation and an admin is added to a
  registered space only.
\<close>

datatype store_op =
    OpAppend entry_params int
  | OpRegisterDevice string string int
  | OpRevokeDevice string string string int
  | OpRegisterSpace string string "string list" string int
  | OpClaimOwner string string int
  | OpRotate string string int
  | OpAddAdmin string string
  | OpRemoveAdmin string string
  | OpEnqueue fanout_input int
  | OpDeliver string string
  | OpAck string string int int
  | OpDeleteForDevice string int int
  | OpGarbage int int int

inductive store_step :: "db \<Rightarrow> store_op \<Rightarrow> db \<Rightarrow> bool" where
  step_append: "store_step d (OpAppend p now) (after (appendEntry p now d) d)"
| step_register: "store_step d (OpRegisterDevice did dev now) (after (registerDevice did dev now d) d)"
| step_revoke: "store_step d (OpRevokeDevice did dev revAt now) (after (revokeDevice did dev revAt now d) d)"
| step_space: "store_step d (OpRegisterSpace s key admins signer now)
     (after (registerSpace s key admins signer now d) d)"
| step_claim: "store_step d (OpClaimOwner doc did now) (after (claimPersonalDocOwner doc did now d) d)"
| step_rotate: "0 \<le> g \<Longrightarrow> store_step d (OpRotate s key g) (rotateSpace s key g d)"
| step_add: "isSpaceRegistered s d \<Longrightarrow> store_step d (OpAddAdmin s a) (addAdmin s a d)"
| step_remove: "store_step d (OpRemoveAdmin s a) (removeAdmin s a d)"
| step_enqueue: "store_step d (OpEnqueue i now) (after (enqueueFanout i now d) d)"
| step_deliver: "store_step d (OpDeliver did dev) (snd (deliverOnConnect did dev d))"
| step_ack: "store_step d (OpAck m dev now inactive) (snd (ackDevice m dev now inactive d))"
| step_delete: "store_step d (OpDeleteForDevice dev now inactive) (deleteForDevice dev now inactive d)"
| step_gc: "store_step d (OpGarbage now ttl inactive) (snd (collectGarbage now ttl inactive d))"

inductive_simps store_step_simps:
  "store_step d (OpAppend p now) d'"
  "store_step d (OpRegisterDevice did dev now) d'"
  "store_step d (OpRevokeDevice did dev revAt now) d'"
  "store_step d (OpRegisterSpace s key admins signer now) d'"
  "store_step d (OpClaimOwner doc did now) d'"
  "store_step d (OpRotate s key g) d'"
  "store_step d (OpAddAdmin s a) d'"
  "store_step d (OpRemoveAdmin s a) d'"
  "store_step d (OpEnqueue i now) d'"
  "store_step d (OpDeliver did dev) d'"
  "store_step d (OpAck m dev now inactive) d'"
  "store_step d (OpDeleteForDevice dev now inactive) d'"
  "store_step d (OpGarbage now ttl inactive) d'"

interpretation store: invariant_system "\<lambda>d. d = empty_db" store_step db_ok
proof unfold_locales
  fix d show "d = empty_db \<Longrightarrow> db_ok d" by (simp add: db_ok_empty)
next
  fix d op d' assume "store_step d op d'" "db_ok d"
  then show "db_ok d'" by (cases rule: store_step.cases) (simp_all add: inv_intros)
qed

text \<open>Steps are deterministic: the same histories as a function.\<close>

fun exec_store :: "store_op \<Rightarrow> db \<Rightarrow> db" where
  "exec_store (OpAppend p now) d = after (appendEntry p now d) d"
| "exec_store (OpRegisterDevice did dev now) d = after (registerDevice did dev now d) d"
| "exec_store (OpRevokeDevice did dev revAt now) d = after (revokeDevice did dev revAt now d) d"
| "exec_store (OpRegisterSpace s key admins signer now) d = after (registerSpace s key admins signer now d) d"
| "exec_store (OpClaimOwner doc did now) d = after (claimPersonalDocOwner doc did now d) d"
| "exec_store (OpRotate s key g) d = rotateSpace s key g d"
| "exec_store (OpAddAdmin s a) d = addAdmin s a d"
| "exec_store (OpRemoveAdmin s a) d = removeAdmin s a d"
| "exec_store (OpEnqueue i now) d = after (enqueueFanout i now d) d"
| "exec_store (OpDeliver did dev) d = snd (deliverOnConnect did dev d)"
| "exec_store (OpAck m dev now inactive) d = snd (ackDevice m dev now inactive d)"
| "exec_store (OpDeleteForDevice dev now inactive) d = deleteForDevice dev now inactive d"
| "exec_store (OpGarbage now ttl inactive) d = snd (collectGarbage now ttl inactive d)"

fun store_guard :: "store_op \<Rightarrow> db \<Rightarrow> bool" where
  "store_guard (OpRotate s key g) d \<longleftrightarrow> 0 \<le> g"
| "store_guard (OpAddAdmin s a) d \<longleftrightarrow> isSpaceRegistered s d"
| "store_guard _ d \<longleftrightarrow> True"

lemma store_step_iff: "store_step d op d' \<longleftrightarrow> store_guard op d \<and> d' = exec_store op d"
  by (cases op) (auto simp: store_step_simps)

fun store_guards :: "store_op list \<Rightarrow> db \<Rightarrow> bool" where
  "store_guards [] d \<longleftrightarrow> True"
| "store_guards (op # ops) d \<longleftrightarrow> store_guard op d \<and> store_guards ops (exec_store op d)"

lemma run_store_iff: "run store_step d ops d' \<longleftrightarrow> store_guards ops d \<and> d' = fold exec_store ops d"
proof (induction ops arbitrary: d)
  case Nil
  show ?case by (auto intro: run.intros elim: run_NilE)
next
  case (Cons op ops)
  show ?case
    by (auto simp: Cons.IH [symmetric] store_step_iff elim!: run_ConsE intro: run.intros)
qed

section \<open>What no step changes\<close>

lemma enqueueFanout_same: "same_store d (after (enqueueFanout i now d) d)"
  by (auto simp: enqueueFanout_def Let_def split: option.splits
      dest: insert_message_same intro: same_store_trans [OF _ fanout_entries_same])

lemma deliverOnConnect_same: "same_store d (snd (deliverOnConnect did dev d))"
  by (simp add: deliverOnConnect_def Let_def)

lemma ackDevice_same: "same_store d (snd (ackDevice m dev n w d))"
  by (auto simp: ackDevice_def Let_def intro: same_store_trans [OF same_store_inbox(1) deleteMessage_same])

lemma deleteForDevice_same: "same_store d (deleteForDevice dev n w d)"
  unfolding deleteForDevice_def Let_def
  by (rule same_store_trans [OF same_store_inbox(1) same_store_fold]) simp

lemma collectGarbage_same: "same_store d (snd (collectGarbage n ttl w d))"
  unfolding collectGarbage_db Let_def
  by (rule same_store_trans [OF gc_messages_same same_store_inbox(1)])

lemmas inbox_same = enqueueFanout_same deliverOnConnect_same ackDevice_same deleteForDevice_same
  collectGarbage_same

lemma same_store_getDevice: "same_store d d' \<Longrightarrow> getDevice k d' = getDevice k d"
  by (simp add: same_store_def getDevice_def)

text \<open>A step appends at most one row to the log.\<close>

lemma store_step_log:
  assumes "store_step d op d'"
  shows "\<exists>new. doc_log d' = doc_log d @ new"
proof -
  have same: "same_store d d' \<Longrightarrow> \<exists>new. doc_log d' = doc_log d @ new" for d'
    by (simp add: same_store_def)
  from assms show ?thesis
  proof (cases rule: store_step.cases)
    case (step_append p now)
    then show ?thesis
      using appendEntry_doc_log [of p now d]
      by (auto simp: after_def row_insert_ignore_def split: sum.splits)
  next
    case (step_space s key admins signer now)
    then show ?thesis
      by (auto simp: registerSpace_def Let_def after_def split: option.splits)
  qed (auto simp: registerDevice_eq revokeDevice_eq claimPersonalDocOwner_eq rotateSpace_def
      addAdmin_def removeAdmin_def intro: same inbox_same split: option.splits)
qed

lemma run_log: "run store_step d ops d' \<Longrightarrow> \<exists>new. doc_log d' = doc_log d @ new"
proof (induction rule: run.induct)
  case (run_cons s e s' es s'')
  from store_step_log [OF run_cons.hyps(1)] run_cons.IH show ?case by auto
qed simp

text \<open>The device list: an owner is for ever, and so is a revocation.\<close>

definition device_kept :: "db \<Rightarrow> db \<Rightarrow> bool" where
  "device_kept d d' \<longleftrightarrow> (\<forall>k.
     (\<forall>w. didForDevice k d = Some w \<longrightarrow> didForDevice k d' = Some w) \<and>
     (deviceRevoked k d \<longrightarrow> deviceRevoked k d'))"

lemma device_kept_refl: "device_kept d d"
  by (simp add: device_kept_def)

lemma device_kept_trans: "device_kept a b \<Longrightarrow> device_kept b c \<Longrightarrow> device_kept a c"
  by (simp add: device_kept_def)

lemma device_kept_frame: "devices d' = devices d \<Longrightarrow> device_kept d d'"
  by (simp add: device_kept_def didForDevice_getDevice deviceRevoked_def getDevice_def)

lemma device_kept_register: "device_kept d (after (registerDevice did dev now d) d)"
proof -
  obtain r d' where d': "registerDevice did dev now d = Inr (r, d')"
    using registerDevice_total by blast
  show ?thesis
    using didForDevice_registerDevice [of _ did dev now d] registerDevice_revoked [OF d']
    by (simp add: device_kept_def d')
qed

lemma device_kept_revoke: "device_kept d (after (revokeDevice did dev revAt now d) d)"
proof -
  obtain r d' where d': "revokeDevice did dev revAt now d = Inr (r, d')"
    using revokeDevice_total by blast
  show ?thesis
    using didForDevice_revokeDevice [of _ did dev revAt now d] revokeDevice_revoked [OF d']
    by (simp add: device_kept_def d')
qed

lemma appendEntry_devices: "devices (after (appendEntry p now d) d) = devices d"
  by (cases "appendEntry p now d") (auto simp: after_def dest: appendEntry_doc_log)

lemma registerSpace_devices: "devices (after (registerSpace s key admins signer now d) d) = devices d"
  by (auto simp: registerSpace_def Let_def after_def split: option.splits)

lemma store_step_devices:
  assumes "store_step d op d'"
  shows "device_kept d d'"
  using assms
proof (cases rule: store_step.cases)
  case (step_register did dev now)
  then show ?thesis by (simp add: device_kept_register)
next
  case (step_revoke did dev revAt now)
  then show ?thesis by (simp add: device_kept_revoke)
qed (auto intro!: device_kept_frame
    simp: appendEntry_devices registerSpace_devices claimPersonalDocOwner_eq rotateSpace_def
      addAdmin_def removeAdmin_def inbox_same [unfolded same_store_def] split: option.splits)

lemma run_devices: "run store_step d ops d' \<Longrightarrow> device_kept d d'"
  by (induction rule: run.induct) (auto intro: device_kept_refl device_kept_trans dest: store_step_devices)

section \<open>Properties\<close>

text \<open>C30: The log is append only: over any history of transactions every stored row stays, in place and
  unchanged, new rows come after it, and the content recorded at a coordinate is never replaced.\<close>

theorem log_is_append_only:
  assumes "run store_step d ops d'"
  shows "(\<exists>new. doc_log d' = doc_log d @ new) \<and>
    (\<forall>docId dev n h. getContentHash docId dev n d = Some h \<longrightarrow> getContentHash docId dev n d' = Some h)"
  using run_log [OF assms] by (auto simp: getContentHash_def)

theorem log_is_append_only_witness:
  "\<exists>d'. run store_step (after (appendEntry entry_a 1 empty_db) empty_db)
     [OpRegisterDevice ''did:a'' ''dev'' 2, OpRotate ''doc'' ''k'' 7, OpAppend (entry_a\<lparr>ep_hash := ''bb''\<rparr>) 3] d' \<and>
   getContentHash ''doc'' ''dev'' 0 d' = Some ''aa''"
proof -
  let ?d = "after (appendEntry entry_a 1 empty_db) empty_db"
  have "\<exists>d'. run store_step ?d [OpRegisterDevice ''did:a'' ''dev'' 2, OpRotate ''doc'' ''k'' 7,
      OpAppend (entry_a\<lparr>ep_hash := ''bb''\<rparr>) 3] d'"
    by (simp add: run_store_iff)
  then obtain d' where r: "run store_step ?d [OpRegisterDevice ''did:a'' ''dev'' 2,
      OpRotate ''doc'' ''k'' 7, OpAppend (entry_a\<lparr>ep_hash := ''bb''\<rparr>) 3] d'" ..
  have "getContentHash ''doc'' ''dev'' 0 ?d = Some ''aa''" by code_simp
  then show ?thesis using log_is_append_only [OF r] r by blast
qed

text \<open>C31: Device identity is permanent: over any history the DID a device id is registered or revoked
  under never changes, a revoked device never becomes active again for anyone, and every later
  registration of it is refused.\<close>

theorem device_tombstone:
  assumes "run store_step d ops d'" "didForDevice k d = Some w"
  shows "didForDevice k d' = Some w \<and>
    (deviceRevoked k d \<longrightarrow> (\<forall>did. \<not> isActive did k d') \<and>
       (\<forall>did now. registerDevice did k now d' = Inr (if did = w then DevRevoked else DevIdConflict, d')))"
proof -
  have kept: "didForDevice k d' = Some w" "deviceRevoked k d \<Longrightarrow> deviceRevoked k d'"
    using run_devices [OF assms(1)] assms(2) by (auto simp: device_kept_def)
  then show ?thesis
    by (auto simp: deviceRevoked_not_active registerDevice_eq deviceRevoked_def didForDevice_getDevice)
qed

theorem device_tombstone_witness:
  "\<exists>d'. run store_step (after (revokeDevice ''did:a'' ''dev'' ''t'' 1 empty_db) empty_db)
     [OpRegisterDevice ''did:b'' ''dev'' 2, OpRegisterDevice ''did:a'' ''dev'' 3] d' \<and> \<not> isActive ''did:a'' ''dev'' d'"
proof -
  let ?d = "after (revokeDevice ''did:a'' ''dev'' ''t'' 1 empty_db) empty_db"
  have "\<exists>d'. run store_step ?d [OpRegisterDevice ''did:b'' ''dev'' 2, OpRegisterDevice ''did:a'' ''dev'' 3] d'"
    by (simp add: run_store_iff)
  then obtain d' where r: "run store_step ?d
     [OpRegisterDevice ''did:b'' ''dev'' 2, OpRegisterDevice ''did:a'' ''dev'' 3] d'" ..
  have "didForDevice ''dev'' ?d = Some ''did:a''" "deviceRevoked ''dev'' ?d"
    by (simp_all add: revokeDevice_eq getDevice_def didForDevice_def deviceRevoked_def empty_db_def)
  then show ?thesis using device_tombstone [OF r] r by blast
qed

text \<open>C34: Every database that transactions can produce is sound: all primary keys are unique, inbox
  entries belong to retained messages, row ids follow the order of arrival, admin rows belong to
  registered spaces and generations are not negative; so no transaction fails on a constraint.\<close>

theorem store_integrity:
  assumes "run store_step empty_db ops d"
  shows "db_ok d \<and>
    (\<forall>did dev now. registerDevice did dev now d \<noteq> Inl ConstraintError) \<and>
    (\<forall>did dev revAt now. revokeDevice did dev revAt now d \<noteq> Inl ConstraintError) \<and>
    (\<forall>s key admins signer now. registerSpace s key admins signer now d \<noteq> Inl ConstraintError) \<and>
    (\<forall>docId did now. claimPersonalDocOwner docId did now d \<noteq> Inl ConstraintError) \<and>
    (\<forall>i now. enqueueFanout i now d \<noteq> Inl ConstraintError)"
proof -
  have ok: "db_ok d" by (rule store.init_run_inv [OF refl assms])
  then have "registry_ok d" by (simp add: db_ok_def)
  with ok show ?thesis
    using registerDevice_total [of _ _ _ d] revokeDevice_total [of _ _ _ _ d] enqueueFanout_total [of _ _ d]
    by (auto simp: registerSpace_eq claimPersonalDocOwner_eq split: option.splits if_splits)
      (metis Inl_Inr_False)+
qed

theorem store_integrity_witness:
  "\<exists>d. run store_step empty_db [OpRegisterSpace ''s'' ''k'' [''did:a'', ''did:a''] ''did:a'' 1, OpAddAdmin ''s'' ''did:b''] d \<and> db_ok d"
proof -
  let ?d = "after (registerSpace ''s'' ''k'' [''did:a'', ''did:a''] ''did:a'' 1 empty_db) empty_db"
  have "isSpaceRegistered ''s'' ?d" by code_simp
  then have "\<exists>d. run store_step empty_db
      [OpRegisterSpace ''s'' ''k'' [''did:a'', ''did:a''] ''did:a'' 1, OpAddAdmin ''s'' ''did:b''] d"
    by (simp add: run_store_iff)
  then obtain d where r: "run store_step empty_db
      [OpRegisterSpace ''s'' ''k'' [''did:a'', ''did:a''] ''did:a'' 1, OpAddAdmin ''s'' ''did:b''] d" ..
  show ?thesis using store_integrity [OF r] r by blast
qed

end
