(* ===== verification/Encoding.thy ===== *)
theory Encoding
  imports Prelude "HOL-Library.Word"
begin

text \<open>
  The text encodings of \<^verbatim>\<open>protocol/crypto/encoding.ts\<close> and \<^verbatim>\<open>protocol/crypto/hex.ts\<close>:
  base64, base64url, base58 and hexadecimal, with the \<^verbatim>\<open>btoa\<close> and \<^verbatim>\<open>atob\<close> of the platform.
  A \<^verbatim>\<open>Uint8Array\<close> is a list of 8-bit words, an exception is \<open>None\<close>.
\<close>

type_synonym bytes = "8 word list"

definition utf8_encode :: "string \<Rightarrow> bytes" where
  "utf8_encode s = map of_char s"

lemma utf8_encode_append [simp]: "utf8_encode (s @ t) = utf8_encode s @ utf8_encode t"
  by (simp add: utf8_encode_def)

lemma unat_word8_less: "unat (b :: 8 word) < 256"
  using unsigned_less [of b] by simp

lemma unat_byte [simp]: "n < 256 \<Longrightarrow> unat (word_of_nat n :: 8 word) = n"
  by (simp add: unat_of_nat)

text \<open>Position of a character in an alphabet, \<^verbatim>\<open>indexOf\<close>.\<close>

fun index_of :: "'a \<Rightarrow> 'a list \<Rightarrow> nat option" where
  "index_of x [] = None"
| "index_of x (y # ys) = (if x = y then Some 0 else map_option Suc (index_of x ys))"

lemma index_of_nth: "distinct xs \<Longrightarrow> i < length xs \<Longrightarrow> index_of (xs ! i) xs = Some i"
proof (induction xs arbitrary: i)
  case (Cons x xs)
  then show ?case by (cases i) auto
qed simp

lemma index_of_SomeD: "index_of x xs = Some i \<Longrightarrow> i < length xs \<and> xs ! i = x"
  by (induction xs arbitrary: i) (auto split: if_splits)

section \<open>Base64\<close>

definition base64_alphabet :: string where
  "base64_alphabet = ''ABCDEFGHIJKLMNOPQRSTUVWXYZabcdefghijklmnopqrstuvwxyz0123456789+/''"

definition b64_char :: "nat \<Rightarrow> char" where
  "b64_char n = base64_alphabet ! n"

definition b64_val :: "char \<Rightarrow> nat option" where
  "b64_val c = index_of c base64_alphabet"

fun sextets :: "nat list \<Rightarrow> nat list" where
  "sextets [] = []"
| "sextets [a] = [a div 4, (a mod 4) * 16]"
| "sextets [a, b] = [a div 4, (a mod 4) * 16 + b div 16, (b mod 16) * 4]"
| "sextets (a # b # c # bs) =
     [a div 4, (a mod 4) * 16 + b div 16, (b mod 16) * 4 + c div 64, c mod 64] @ sextets bs"

fun octets :: "nat list \<Rightarrow> nat list" where
  "octets [] = []"
| "octets [a] = []"
| "octets [a, b] = [a * 4 + b div 16]"
| "octets [a, b, c] = [a * 4 + b div 16, (b mod 16) * 16 + c div 4]"
| "octets (a # b # c # d # ss) =
     [a * 4 + b div 16, (b mod 16) * 16 + c div 4, (c mod 4) * 64 + d] @ octets ss"

definition btoa :: "bytes \<Rightarrow> string" where
  "btoa bs = map b64_char (sextets (map unat bs)) @ replicate ((3 - length bs mod 3) mod 3) CHR ''=''"

definition ascii_whitespace :: "char \<Rightarrow> bool" where
  "ascii_whitespace c \<longleftrightarrow> c \<in> {CHR 0x09, CHR 0x0A, CHR 0x0C, CHR 0x0D, CHR '' ''}"

fun drop_one_pad :: "string \<Rightarrow> string" where
  "drop_one_pad [] = []"
| "drop_one_pad (c # cs) = (if c = CHR ''='' then cs else c # cs)"

text \<open>
  \<^verbatim>\<open>atob\<close>, the forgiving decoder: white space is dropped, then one or two final \<^verbatim>\<open>=\<close> of a
  text of length divisible by four; surplus bits are discarded.
\<close>

definition atob :: "string \<Rightarrow> bytes option" where
  "atob t =
     (let t1 = filter (\<lambda>c. \<not> ascii_whitespace c) t;
          t2 = (if length t1 mod 4 = 0 then rev (drop_one_pad (drop_one_pad (rev t1))) else t1) in
      if length t2 mod 4 = 1 \<or> list_ex (\<lambda>c. b64_val c = None) t2 then None
      else Some (map word_of_nat (octets (map (\<lambda>c. the (b64_val c)) t2))))"

definition encodeBase64 :: "bytes \<Rightarrow> string" where
  "encodeBase64 bs = btoa bs"

definition decodeBase64 :: "string \<Rightarrow> bytes option" where
  "decodeBase64 s = atob s"

definition to_url :: "char \<Rightarrow> char" where
  "to_url c = (if c = CHR ''+'' then CHR ''-'' else if c = CHR ''/'' then CHR ''_'' else c)"

definition from_url :: "char \<Rightarrow> char" where
  "from_url c = (if c = CHR ''-'' then CHR ''+'' else if c = CHR ''_'' then CHR ''/'' else c)"

text \<open>\<^verbatim>\<open>encodeBase64Url\<close>: the final run of \<^verbatim>\<open>=\<close> is cut.\<close>

definition encodeBase64Url :: "bytes \<Rightarrow> string" where
  "encodeBase64Url bs = rev (dropWhile (\<lambda>c. c = CHR ''='') (rev (map to_url (btoa bs))))"

definition decodeBase64Url :: "string \<Rightarrow> bytes option" where
  "decodeBase64Url s =
     (let padded = map from_url s in
      atob (padded @ replicate ((4 - length padded mod 4) mod 4) CHR ''=''))"

lemma distinct_base64_alphabet: "distinct base64_alphabet"
  by code_simp

lemma length_base64_alphabet: "length base64_alphabet = 64"
  by code_simp

lemma b64_val_char [simp]: "n < 64 \<Longrightarrow> b64_val (b64_char n) = Some n"
  by (simp add: b64_val_def b64_char_def index_of_nth distinct_base64_alphabet length_base64_alphabet)

lemma b64_char_in: "n < 64 \<Longrightarrow> b64_char n \<in> set base64_alphabet"
  by (simp add: b64_char_def length_base64_alphabet)

lemma base64_alphabet_plain:
  "c \<in> set base64_alphabet \<Longrightarrow> c \<noteq> CHR ''='' \<and> \<not> ascii_whitespace c \<and> from_url (to_url c) = c \<and> to_url c \<noteq> CHR ''=''"
proof -
  have "list_all (\<lambda>c. c \<noteq> CHR ''='' \<and> \<not> ascii_whitespace c \<and> from_url (to_url c) = c \<and> to_url c \<noteq> CHR ''='') base64_alphabet"
    by code_simp
  then show "c \<in> set base64_alphabet \<Longrightarrow> ?thesis" by (simp add: list_all_iff)
qed

lemma sextets_less: "\<forall>b \<in> set bs. b < 256 \<Longrightarrow> \<forall>s \<in> set (sextets bs). s < 64"
  by (induction bs rule: sextets.induct) auto

lemma octet1: "(b::nat) < 256 \<Longrightarrow> a div 4 * 4 + ((a mod 4) * 16 + b div 16) div 16 = a"
  by (simp add: div_add1_eq div_mult_self1 less_mult_imp_div_less)

lemma octet2:
  assumes "(b::nat) < 256" "c < 256"
  shows "((a mod 4) * 16 + b div 16) mod 16 * 16 + ((b mod 16) * 4 + c div 64) div 4 = b"
proof -
  have "b div 16 < 16" "c div 64 < 4" using assms by (simp_all add: less_mult_imp_div_less)
  then show ?thesis by simp
qed

lemma octet3:
  assumes "(c::nat) < 256"
  shows "((b mod 16) * 4 + c div 64) mod 4 * 64 + c mod 64 = c"
proof -
  have "c div 64 < 4" using assms by (simp_all add: less_mult_imp_div_less)
  then show ?thesis by simp
qed

lemma octets_sextets: "\<forall>b \<in> set bs. b < 256 \<Longrightarrow> octets (sextets bs) = bs"
proof (induction bs rule: sextets.induct)
  case (3 a b)
  then show ?case using octet1 [of b a] octet2 [of b 0 a] by simp
next
  case (4 a b c bs)
  then show ?case using octet1 [of b a] octet2 [of b c a] octet3 [of c b] by simp
qed simp_all

lemma length_sextets: "length (sextets bs) = (length bs * 4 + 2) div 3"
proof (induction bs rule: sextets.induct)
  case (4 a b c bs)
  have "(length (a # b # c # bs) * 4 + 2) div 3 = (length bs * 4 + 2 + 4 * 3) div 3" by simp
  also have "\<dots> = (length bs * 4 + 2) div 3 + 4" by simp
  finally show ?case using 4 by simp
qed simp_all

lemma length_sextets_pad:
  "(length (sextets bs) + (3 - length bs mod 3) mod 3) mod 4 = 0"
  "length (sextets bs) mod 4 \<noteq> 1"
proof (induction bs rule: sextets.induct)
  case (4 a b c bs)
  have len: "length (sextets (a # b # c # bs)) = length (sextets bs) + 4" by simp
  have "length (a # b # c # bs) = length bs + 3" by simp
  then have n: "length (a # b # c # bs) mod 3 = length bs mod 3" by (simp only: mod_add_self2)
  have shift: "(l + 4 + x) mod 4 = (l + x) mod (4::nat)" for l x
    by presburger
  { case 1 then show ?case using 4(1) unfolding len n shift by simp }
  { case 2 then show ?case using 4(2) unfolding len by simp }
qed simp_all

lemma pad_length:
  assumes "(l + p) mod 4 = (0::nat)" "p < 3"
  shows "(4 - l mod 4) mod 4 = p"
proof -
  have "p = 0 \<or> p = 1 \<or> p = 2" using assms(2) by linarith
  moreover have "l mod 4 = 0 \<or> l mod 4 = 1 \<or> l mod 4 = 2 \<or> l mod 4 = 3" by presburger
  moreover have "(l mod 4 + p) mod 4 = 0" using assms(1) by (simp add: mod_add_left_eq)
  ultimately show ?thesis by (elim disjE) simp_all
qed

abbreviation b64_core :: "bytes \<Rightarrow> string" where
  "b64_core bs \<equiv> map b64_char (sextets (map unat bs))"

lemma b64_core_alphabet: "c \<in> set (b64_core bs) \<Longrightarrow> c \<in> set base64_alphabet"
  using sextets_less [of "map unat bs"] by (auto intro!: b64_char_in simp: unat_word8_less)

lemma drop_one_pad_other: "xs = [] \<or> hd xs \<noteq> CHR ''='' \<Longrightarrow> drop_one_pad xs = xs"
  by (cases xs) auto

lemma atob_btoa [simp]: "atob (btoa bs) = Some bs"
proof -
  let ?p = "(3 - length bs mod 3) mod 3"
  let ?t = "b64_core bs @ replicate ?p CHR ''=''"
  have plain: "c \<noteq> CHR ''='' \<and> \<not> ascii_whitespace c \<and> b64_val c \<noteq> None" if "c \<in> set (b64_core bs)" for c
  proof -
    have "c \<in> set base64_alphabet" using that by (rule b64_core_alphabet)
    then show ?thesis
      using base64_alphabet_plain b64_val_char sextets_less [of "map unat bs"] that
      by (auto simp: unat_word8_less)
  qed
  have f: "filter (\<lambda>c. \<not> ascii_whitespace c) ?t = ?t"
    using plain by (auto simp: filter_id_conv ascii_whitespace_def)
  have core: "hd (rev (b64_core bs)) \<noteq> CHR ''=''" if "b64_core bs \<noteq> []"
    using that plain [of "last (b64_core bs)"] last_in_set [OF that] by (simp add: hd_rev)
  have stop: "drop_one_pad (rev (b64_core bs)) = rev (b64_core bs)"
    using core by (intro drop_one_pad_other) auto
  have "?p = 0 \<or> ?p = Suc 0 \<or> ?p = Suc (Suc 0)" by auto
  then have strip: "drop_one_pad (drop_one_pad (rev ?t)) = rev (b64_core bs)"
    unfolding rev_append rev_replicate
    by (elim disjE) (simp_all only: replicate.simps append.simps drop_one_pad.simps stop if_True refl)
  have len: "length ?t mod 4 = 0"
    using length_sextets_pad(1) [of "map unat bs"] by simp
  have vals: "map (\<lambda>c. the (b64_val c)) (b64_core bs) = sextets (map unat bs)"
    using sextets_less [of "map unat bs"] by (auto simp: unat_word8_less intro!: map_idI)
  have "octets (sextets (map unat bs)) = map unat bs"
    by (intro octets_sextets) (auto simp: unat_word8_less)
  then have "map word_of_nat (octets (sextets (map unat bs))) = bs"
    by (simp add: comp_def)
  then show ?thesis
    unfolding btoa_def atob_def Let_def f strip rev_rev_ident
    using len length_sextets_pad(2) [of "map unat bs"] plain vals
    by (auto simp: list_ex_iff)
qed

lemma encodeBase64Url_core: "encodeBase64Url bs = map to_url (b64_core bs)"
proof -
  have to: "to_url (CHR ''='') = CHR ''=''" by (simp add: to_url_def)
  have drop: "dropWhile (\<lambda>c. c = x) (replicate n x @ ys) = dropWhile (\<lambda>c. c = x) ys" for n x and ys :: string
    by (induction n) auto
  have "\<forall>c \<in> set (map to_url (b64_core bs)). c \<noteq> CHR ''=''"
    using b64_core_alphabet base64_alphabet_plain by auto
  then have "dropWhile (\<lambda>c. c = CHR ''='') (rev (map to_url (b64_core bs))) = rev (map to_url (b64_core bs))"
    by (intro dropWhile_eq_self_iff [THEN iffD2]) (metis hd_in_set set_rev)
  then show ?thesis
    by (simp add: encodeBase64Url_def btoa_def to drop rev_map)
qed

lemma decodeBase64Url_encode [simp]: "decodeBase64Url (encodeBase64Url bs) = Some bs"
proof -
  have core: "map from_url (map to_url (b64_core bs)) = b64_core bs"
    using b64_core_alphabet base64_alphabet_plain by (auto intro!: map_idI)
  have len: "(4 - length (sextets (map unat bs)) mod 4) mod 4 = (3 - length bs mod 3) mod 3"
    using length_sextets_pad(1) [of "map unat bs"] by (intro pad_length) simp_all
  show ?thesis
    unfolding decodeBase64Url_def Let_def encodeBase64Url_core core
    using atob_btoa [of bs] len by (simp add: btoa_def)
qed

interpretation base64: codec encodeBase64 decodeBase64
  by unfold_locales (simp add: encodeBase64_def decodeBase64_def)

interpretation base64url: codec encodeBase64Url decodeBase64Url
  by unfold_locales simp

section \<open>Hexadecimal\<close>

definition hex_alphabet :: string where
  "hex_alphabet = ''0123456789abcdef''"

definition bytesToHex :: "bytes \<Rightarrow> string" where
  "bytesToHex bs = concat (map (\<lambda>b. [hex_alphabet ! (unat b div 16), hex_alphabet ! (unat b mod 16)]) bs)"

lemma length_bytesToHex: "length (bytesToHex bs) = 2 * length bs"
  by (induction bs) (auto simp: bytesToHex_def)

text \<open>\<^verbatim>\<open>bytesToHex\<close> determines the bytes: pairs of digits are read back by their positions.\<close>

fun hex_pairs :: "string \<Rightarrow> bytes option" where
  "hex_pairs [] = Some []"
| "hex_pairs [c] = None"
| "hex_pairs (c # d # cs) =
     (case (index_of c hex_alphabet, index_of d hex_alphabet, hex_pairs cs) of
        (Some x, Some y, Some bs) \<Rightarrow> Some (word_of_nat (16 * x + y) # bs)
      | _ \<Rightarrow> None)"

lemma hex_pairs_bytesToHex: "hex_pairs (bytesToHex bs) = Some bs"
proof (induction bs)
  case Nil
  show ?case by (simp add: bytesToHex_def)
next
  case (Cons b bs)
  have d: "distinct hex_alphabet" "length hex_alphabet = 16" by (code_simp, code_simp)
  have "unat b div 16 < 16" "unat b mod 16 < 16"
    using unat_word8_less [of b] by (simp_all add: less_mult_imp_div_less)
  then show ?case
    using Cons by (simp add: bytesToHex_def index_of_nth d)
qed

interpretation hex: codec bytesToHex hex_pairs
  by unfold_locales (rule hex_pairs_bytesToHex)

section \<open>Base58\<close>

definition BASE58_ALPHABET :: string where
  "BASE58_ALPHABET = ''123456789ABCDEFGHJKLMNPQRSTUVWXYZabcdefghijkmnopqrstuvwxyz''"

text \<open>
  The loops of the base conversion work on little-endian digits: \<open>carry_loop\<close> is the
  \<^verbatim>\<open>while (carry > 0)\<close> loop, \<open>mac\<close> multiplies the digits by \<open>m\<close> and adds a carry in base \<open>b\<close>.
\<close>

fun carry_loop :: "nat \<Rightarrow> nat \<Rightarrow> nat list" where
  "carry_loop b c = (if c = 0 \<or> b < 2 then [] else c mod b # carry_loop b (c div b))"

declare carry_loop.simps [simp del]

fun mac :: "nat \<Rightarrow> nat \<Rightarrow> nat \<Rightarrow> nat list \<Rightarrow> nat list" where
  "mac m b c [] = carry_loop b c"
| "mac m b c (d # ds) = (c + d * m) mod b # mac m b ((c + d * m) div b) ds"

definition base58_digits :: "bytes \<Rightarrow> nat list" where
  "base58_digits bs = fold (\<lambda>byte ds. mac 256 58 (unat byte) ds) bs [0]"

definition encodeBase58 :: "bytes \<Rightarrow> string" where
  "encodeBase58 bs =
     map (\<lambda>_. BASE58_ALPHABET ! 0) (takeWhile (\<lambda>b. b = 0) bs) @
     map (\<lambda>d. BASE58_ALPHABET ! d) (rev (base58_digits bs))"

definition base58_bytes :: "nat list \<Rightarrow> nat list" where
  "base58_bytes vs = fold (mac 58 256) vs [0]"

definition decodeBase58 :: "string \<Rightarrow> bytes option" where
  "decodeBase58 s =
     (if list_ex (\<lambda>c. index_of c BASE58_ALPHABET = None) s then None
      else Some (map word_of_nat (rev
        (base58_bytes (map (\<lambda>c. the (index_of c BASE58_ALPHABET)) s) @
         map (\<lambda>_. 0) (takeWhile (\<lambda>c. c = BASE58_ALPHABET ! 0) s)))))"

text \<open>The number a little-endian digit list denotes, and lists without leading zeros.\<close>

fun digits_value :: "nat \<Rightarrow> nat list \<Rightarrow> nat" where
  "digits_value b [] = 0"
| "digits_value b (d # ds) = d + b * digits_value b ds"

definition normal_digits :: "nat \<Rightarrow> nat list \<Rightarrow> bool" where
  "normal_digits b ds \<longleftrightarrow> (\<forall>d \<in> set ds. d < b) \<and> (ds = [] \<or> last ds \<noteq> 0)"

lemma carry_loop_value: "2 \<le> b \<Longrightarrow> digits_value b (carry_loop b c) = c"
  by (induction b c rule: carry_loop.induct) (subst carry_loop.simps, auto)

lemma carry_loop_normal: "2 \<le> b \<Longrightarrow> normal_digits b (carry_loop b c) \<and> (c \<noteq> 0 \<longrightarrow> carry_loop b c \<noteq> [])"
proof (induction b c rule: carry_loop.induct)
  case (1 b c)
  show ?case
  proof (cases "c = 0")
    case True
    then show ?thesis by (simp add: carry_loop.simps normal_digits_def)
  next
    case False
    then have ih: "normal_digits b (carry_loop b (c div b))" "c div b \<noteq> 0 \<Longrightarrow> carry_loop b (c div b) \<noteq> []"
      using 1 by auto
    have eq: "carry_loop b c = c mod b # carry_loop b (c div b)"
      using False 1(2) by (simp add: carry_loop.simps)
    have "c mod b \<noteq> 0" if "carry_loop b (c div b) = []"
      using that ih(2) False by (metis div_mult_mod_eq add_0 mult_0)
    then show ?thesis using ih 1(2) by (auto simp: eq normal_digits_def)
  qed
qed

lemma mac_value: "2 \<le> b \<Longrightarrow> digits_value b (mac m b c ds) = c + m * digits_value b ds"
proof (induction m b c ds rule: mac.induct)
  case (1 m b c)
  then show ?case by (simp add: carry_loop_value)
next
  case (2 m b c d ds)
  let ?x = "c + d * m"
  have "digits_value b (mac m b c (d # ds)) = ?x mod b + b * (?x div b + m * digits_value b ds)"
    using 2 by simp
  also have "\<dots> = ?x + m * (b * digits_value b ds)"
    by (simp add: algebra_simps)
  finally show ?case by (simp add: algebra_simps)
qed

lemma mac_normal:
  assumes "2 \<le> b" "0 < m" "normal_digits b ds"
  shows "normal_digits b (mac m b c ds)"
  using assms
proof (induction m b c ds rule: mac.induct)
  case (1 m b c)
  then show ?case by (simp add: carry_loop_normal)
next
  case (2 m b c d ds)
  let ?x = "c + d * m"
  have ds: "normal_digits b ds" using 2(4) by (auto simp: normal_digits_def split: if_splits)
  have tail: "normal_digits b (mac m b (?x div b) ds)" using 2 ds by simp
  have "?x mod b \<noteq> 0" if e: "mac m b (?x div b) ds = []"
  proof -
    have "ds = []" "?x div b = 0"
      using e carry_loop_normal [OF 2(2), of "?x div b"] by (cases ds; auto)+
    moreover have "d \<noteq> 0" using 2(4) \<open>ds = []\<close> by (simp add: normal_digits_def)
    ultimately show ?thesis using 2(2,3) by (metis add_is_0 div_mult_mod_eq mult_0 mult_is_0 add_0 not_gr_zero)
  qed
  then show ?case using tail 2(2) by (auto simp: normal_digits_def)
qed

lemma digits_value_pos:
  "2 \<le> b \<Longrightarrow> normal_digits b ds \<Longrightarrow> digits_value b ds = 0 \<longleftrightarrow> ds = []"
  by (induction ds) (auto simp: normal_digits_def split: if_splits)

text \<open>A number has one list of digits without leading zeros.\<close>

lemma normal_digits_unique:
  assumes "2 \<le> b" "normal_digits b ds" "normal_digits b es" "digits_value b ds = digits_value b es"
  shows "ds = es"
  using assms(2-4)
proof (induction ds arbitrary: es)
  case Nil
  then show ?case using digits_value_pos [OF assms(1), of es] by simp
next
  case (Cons d ds)
  have "digits_value b (d # ds) \<noteq> 0" by (simp only: digits_value_pos [OF assms(1) Cons.prems(1)]) simp
  then have "es \<noteq> []" using Cons.prems(3) by auto
  then obtain e es' where es: "es = e # es'" by (cases es) auto
  have "d < b" "e < b" using Cons.prems(1,2) by (auto simp: normal_digits_def es)
  moreover have sum: "d + b * digits_value b ds = e + b * digits_value b es'"
    using Cons.prems(3) by (simp add: es)
  ultimately have de: "d = e" by (metis mod_less mod_mult_self2)
  then have "digits_value b ds = digits_value b es'" using sum assms(1) by simp
  note this de
  moreover have "normal_digits b ds" "normal_digits b es'"
    using Cons.prems(1,2) by (auto simp: normal_digits_def es split: if_splits)
  ultimately show ?case using Cons.IH [of es'] by (simp add: es)
qed

lemma digits_value_append:
  "digits_value b (xs @ ys) = digits_value b xs + b ^ length xs * digits_value b ys"
  by (induction xs) (auto simp: algebra_simps)

lemma fold_mac_value:
  "2 \<le> b \<Longrightarrow> digits_value b (fold (mac m b) vs ds) =
     fold (\<lambda>v n. v + m * n) vs (digits_value b ds)"
  by (induction vs arbitrary: ds) (auto simp: mac_value)

lemma fold_mac_normal:
  "2 \<le> b \<Longrightarrow> 0 < m \<Longrightarrow> normal_digits b ds \<Longrightarrow> normal_digits b (fold (mac m b) vs ds)"
  by (induction vs arbitrary: ds) (auto simp: mac_normal)

lemma fold_value_append:
  "fold (\<lambda>v n. v + m * n) vs n = digits_value m (rev vs) + m ^ length vs * n"
  by (induction vs arbitrary: n) (auto simp: digits_value_append algebra_simps)

lemma mac_less: "2 \<le> b \<Longrightarrow> \<forall>d \<in> set (mac m b c ds). d < b"
proof (induction m b c ds rule: mac.induct)
  case (1 m b c)
  then show ?case using carry_loop_normal [of b c] by (simp add: normal_digits_def)
qed auto

lemma fold_mac_less:
  "2 \<le> b \<Longrightarrow> \<forall>d \<in> set ds. d < b \<Longrightarrow> \<forall>d \<in> set (fold (mac m b) vs ds). d < b"
proof (induction vs arbitrary: ds)
  case (Cons v vs)
  show ?case
    using Cons.IH [OF Cons.prems(1) mac_less [OF Cons.prems(1), of m v ds]] by simp
qed simp

text \<open>
  A conversion started at the digit \<^verbatim>\<open>[0]\<close> stays there on zeros, and from the first digit
  that is not zero on it is the conversion of the rest without leading zeros.
\<close>

lemma fold_mac_zeros:
  "2 \<le> b \<Longrightarrow> fold (mac m b) (replicate z 0) [0] = [0]"
  by (induction z) (auto simp: carry_loop.simps)

lemma mac_zero: "2 \<le> b \<Longrightarrow> v \<noteq> 0 \<Longrightarrow> mac m b v [0] = mac m b v []"
  by (simp add: carry_loop.simps [of b v])

lemma fold_mac_nonzero:
  "2 \<le> b \<Longrightarrow> v \<noteq> 0 \<Longrightarrow> fold (mac m b) (replicate z 0 @ v # vs) [0] = fold (mac m b) (v # vs) []"
  using fold_mac_zeros [of b m z] by (simp add: mac_zero del: mac.simps fold_replicate)

lemma base58_alphabet: "distinct BASE58_ALPHABET" "length BASE58_ALPHABET = 58"
  by (code_simp, code_simp)

lemma base58_index [simp]: "d < 58 \<Longrightarrow> index_of (BASE58_ALPHABET ! d) BASE58_ALPHABET = Some d"
  by (simp add: index_of_nth base58_alphabet)

lemma base58_first: "d < 58 \<Longrightarrow> BASE58_ALPHABET ! d = BASE58_ALPHABET ! 0 \<longleftrightarrow> d = 0"
  using nth_eq_iff_index_eq [OF base58_alphabet(1), of d 0] by (simp add: base58_alphabet)

lemma normal_bytes:
  "b \<noteq> 0 \<Longrightarrow> normal_digits 256 (map unat (rev ((b :: 8 word) # bs)))"
  by (auto simp: normal_digits_def unat_word8_less unat_eq_0)

lemma map_digits_decode:
  assumes "\<forall>d \<in> set ds. d < 58"
  shows "map (\<lambda>c. the (index_of c BASE58_ALPHABET)) (map (\<lambda>d. BASE58_ALPHABET ! d) ds) = ds"
    and "list_ex (\<lambda>c. index_of c BASE58_ALPHABET = None) (map (\<lambda>d. BASE58_ALPHABET ! d) ds) = False"
  using assms by (auto simp: list_ex_iff intro!: map_idI)

lemma decodeBase58_digits:
  assumes "\<forall>d \<in> set ds. d < 58"
  shows "decodeBase58 (map (\<lambda>d. BASE58_ALPHABET ! d) ds) =
     Some (map word_of_nat (rev (base58_bytes ds @ map (\<lambda>_. 0) (takeWhile (\<lambda>d. d = 0) ds))))"
proof -
  have "takeWhile (\<lambda>c. c = BASE58_ALPHABET ! 0) (map (\<lambda>d. BASE58_ALPHABET ! d) ds) =
        map (\<lambda>d. BASE58_ALPHABET ! d) (takeWhile (\<lambda>d. d = 0) ds)"
    using assms by (induction ds) (auto simp: base58_first)
  then show ?thesis
    unfolding decodeBase58_def map_digits_decode [OF assms] by (simp add: comp_def)
qed

text \<open>
  Decoding inverts encoding on every byte string with a byte that is not zero; leading zero
  bytes are kept. On the empty and the all-zero string the code adds two zero bytes.
\<close>

lemma decodeBase58_encodeBase58:
  assumes "b \<noteq> 0"
  shows "decodeBase58 (encodeBase58 (replicate z 0 @ b # bs)) = Some (replicate z 0 @ b # bs)"
proof -
  let ?N = "digits_value 256 (map unat (rev (b # bs)))"
  let ?E = "fold (mac 256 58) (map unat (b # bs)) []"
  have b0: "unat b \<noteq> 0" using assms by (simp add: unat_eq_0)
  have digits: "base58_digits (replicate z 0 @ b # bs) = ?E"
  proof -
    have "base58_digits (replicate z 0 @ b # bs) = fold (mac 256 58) (map unat (replicate z 0 @ b # bs)) [0]"
      by (simp only: base58_digits_def fold_map comp_def)
    also have "\<dots> = fold (mac 256 58) (replicate z 0 @ unat b # map unat bs) [0]" by simp
    also have "\<dots> = fold (mac 256 58) (unat b # map unat bs) []"
      using b0 by (intro fold_mac_nonzero) simp_all
    finally show ?thesis by simp
  qed
  have E: "normal_digits 58 ?E" by (rule fold_mac_normal) (simp_all add: normal_digits_def)
  have E_value: "digits_value 58 ?E = ?N"
    using fold_value_append [of 256 "map unat (b # bs)" 0]
    by (simp add: fold_mac_value rev_map del: fold_simps list.map rev.simps)
  have "?N \<noteq> 0" using digits_value_pos [OF _ normal_bytes [OF assms, of bs]] by simp
  then have "?E \<noteq> []" using E_value by (metis digits_value.simps(1))
  then obtain e es where E_rev: "rev ?E = e # es" and e: "e \<noteq> 0"
    using E by (cases "rev ?E") (auto simp: normal_digits_def last_rev dest: arg_cong [where f = rev])
  have small: "\<forall>d \<in> set (replicate z 0 @ rev ?E). d < 58"
    using E by (auto simp: normal_digits_def)
  have txt58: "encodeBase58 (replicate z 0 @ b # bs) = map (\<lambda>d. BASE58_ALPHABET ! d) (replicate z 0 @ rev ?E)"
  proof -
    have "takeWhile (\<lambda>b. b = 0) (replicate z 0 @ b # bs) = replicate z 0"
      using assms by (simp add: takeWhile_append)
    then show ?thesis by (simp only: encodeBase58_def digits map_append map_replicate)
  qed
  let ?D = "fold (mac 58 256) (rev ?E) []"
  have D: "base58_bytes (replicate z 0 @ rev ?E) = ?D"
    using e unfolding base58_bytes_def E_rev by (intro fold_mac_nonzero) simp_all
  have "normal_digits 256 ?D" by (rule fold_mac_normal) (simp_all add: normal_digits_def)
  moreover have "digits_value 256 ?D = ?N"
    using fold_value_append [of 58 "rev ?E" 0] E_value by (simp add: fold_mac_value del: fold_simps list.map)
  ultimately have "?D = map unat (rev (b # bs))"
    by (intro normal_digits_unique [of 256]) (use normal_bytes [OF assms, of bs] in simp_all)
  moreover have "takeWhile (\<lambda>d. d = 0) (replicate z 0 @ rev ?E) = replicate z 0"
    unfolding E_rev using e by (simp add: takeWhile_append)
  ultimately show ?thesis
    unfolding txt58 decodeBase58_digits [OF small] D by (simp add: rev_map comp_def)
qed

lemma encodeBase58_zeros: "encodeBase58 (replicate z 0) = replicate (Suc z) CHR ''1''"
proof -
  have "base58_digits (replicate z 0) = fold (mac 256 58) (map unat (replicate z (0 :: 8 word))) [0]"
    by (simp only: base58_digits_def fold_map comp_def)
  also have "\<dots> = [0]" using fold_mac_zeros [of 58 256 z] by simp
  finally have "base58_digits (replicate z 0) = [0]" .
  moreover have "takeWhile (\<lambda>b. b = 0) (replicate z (0 :: 8 word)) = replicate z 0" by (induction z) auto
  moreover have "BASE58_ALPHABET ! 0 = CHR ''1''" by (simp add: BASE58_ALPHABET_def)
  ultimately show ?thesis by (simp add: encodeBase58_def replicate_append_same)
qed

lemma decodeBase58_zeros: "decodeBase58 (encodeBase58 (replicate z 0)) = Some (replicate (z + 2) 0)"
proof -
  have one: "CHR ''1'' = BASE58_ALPHABET ! 0" by (simp add: BASE58_ALPHABET_def)
  have t: "encodeBase58 (replicate z 0) = map (\<lambda>d. BASE58_ALPHABET ! d) (replicate (Suc z) 0)"
    unfolding encodeBase58_zeros one by simp
  have "base58_bytes (replicate (Suc z) 0) = [0]"
    unfolding base58_bytes_def by (rule fold_mac_zeros) simp
  moreover have "takeWhile (\<lambda>d. d = 0) (replicate (Suc z) (0 :: nat)) = replicate (Suc z) 0"
    by (induction z) auto
  moreover have "\<forall>d \<in> set (replicate (Suc z) (0 :: nat)). d < 58" by simp
  ultimately show ?thesis
    unfolding t by (subst decodeBase58_digits) (simp_all add: replicate_append_same)
qed

lemma bytes_split: "(\<exists>z. bs = replicate z 0) \<or> (\<exists>z b cs. bs = replicate z 0 @ b # cs \<and> b \<noteq> (0 :: 8 word))"
proof (induction bs)
  case Nil
  show ?case by simp
next
  case (Cons c bs)
  show ?case
  proof (cases "c = 0")
    case True
    then show ?thesis using Cons by (metis append_Cons replicate_Suc)
  next
    case False
    then show ?thesis by (metis append_Nil replicate_0)
  qed
qed

section \<open>Properties\<close>

text \<open>Base58 decodes what it encodes: every byte string with a non-zero byte comes back unchanged,
  its leading zero bytes included; the empty and the all-zero string come back two zero bytes
  longer.\<close>

theorem base58_roundtrip:
  "decodeBase58 (encodeBase58 bs) =
     Some (if \<exists>b \<in> set bs. b \<noteq> 0 then bs else bs @ [0, 0])"
proof -
  from bytes_split [of bs] show ?thesis
  proof (elim disjE exE conjE)
    fix z assume bs: "bs = replicate z 0"
    then show ?thesis
      using decodeBase58_zeros [of z] replicate_add [of z 2 "0 :: 8 word"] by (simp add: numeral_2_eq_2)
  next
    fix z b cs assume "bs = replicate z 0 @ b # cs" "b \<noteq> 0"
    then show ?thesis by (auto simp: decodeBase58_encodeBase58)
  qed
qed

text \<open>Base64url decodes what it encodes, so two byte strings with the same encoding are equal, and the
  encoding is unpadded.\<close>

theorem base64url_roundtrip:
  "decodeBase64Url (encodeBase64Url bs) = Some bs \<and>
   (encodeBase64Url bs = encodeBase64Url cs \<longleftrightarrow> bs = cs) \<and>
   CHR ''='' \<notin> set (encodeBase64Url bs)"
proof (intro conjI)
  show "encodeBase64Url bs = encodeBase64Url cs \<longleftrightarrow> bs = cs" by (rule base64url.enc_inj)
  show "CHR ''='' \<notin> set (encodeBase64Url bs)"
  proof
    assume "CHR ''='' \<in> set (encodeBase64Url bs)"
    then obtain c where "c \<in> set (b64_core bs)" "to_url c = CHR ''=''"
      unfolding encodeBase64Url_core set_map [of to_url] by (metis imageE)
    then show False using base64_alphabet_plain [OF b64_core_alphabet] by blast
  qed
qed (rule decodeBase64Url_encode)

end
