(* ===== verification/Formats.thy ===== *)
theory Formats
  imports Encoding Json "HOL-Library.Monad_Syntax"
begin

text \<open>
  The textual formats the protocol parsers accept: canonical version-4 UUIDs, the two DID
  patterns, DID URLs, base64url segments, compact JWS texts and RFC 3339 date-times. The regular
  expressions of \<^verbatim>\<open>protocol/sync\<close> are written as recognisers on the UTF-8 bytes of the text.
\<close>

definition is_digit :: "char \<Rightarrow> bool" where
  "is_digit c \<longleftrightarrow> CHR ''0'' \<le> c \<and> c \<le> CHR ''9''"

definition is_lower :: "char \<Rightarrow> bool" where
  "is_lower c \<longleftrightarrow> CHR ''a'' \<le> c \<and> c \<le> CHR ''z''"

definition is_upper :: "char \<Rightarrow> bool" where
  "is_upper c \<longleftrightarrow> CHR ''A'' \<le> c \<and> c \<le> CHR ''Z''"

definition is_lower_hex :: "char \<Rightarrow> bool" where
  "is_lower_hex c \<longleftrightarrow> is_digit c \<or> (CHR ''a'' \<le> c \<and> c \<le> CHR ''f'')"

definition is_hex :: "char \<Rightarrow> bool" where
  "is_hex c \<longleftrightarrow> is_lower_hex c \<or> (CHR ''A'' \<le> c \<and> c \<le> CHR ''F'')"

text \<open>\<^verbatim>\<open>split\<close> at a separator character.\<close>

fun split_on :: "char \<Rightarrow> string \<Rightarrow> string list" where
  "split_on x [] = [[]]"
| "split_on x (c # cs) =
     (if c = x then [] # split_on x cs
      else case split_on x cs of [] \<Rightarrow> [[c]] | p # ps \<Rightarrow> (c # p) # ps)"

lemma split_on_nonempty [simp]: "split_on x s \<noteq> []"
  by (cases s) (auto split: list.splits)

lemma split_on_free: "x \<notin> set s \<Longrightarrow> split_on x s = [s]"
  by (induction s) auto

lemma split_on_append: "x \<notin> set s \<Longrightarrow> split_on x (s @ x # t) = s # split_on x t"
  by (induction s) auto

fun strip_prefix :: "string \<Rightarrow> string \<Rightarrow> string option" where
  "strip_prefix [] s = Some s"
| "strip_prefix (p # ps) [] = None"
| "strip_prefix (p # ps) (c # cs) = (if p = c then strip_prefix ps cs else None)"

lemma strip_prefix_append [simp]: "strip_prefix p (p @ s) = Some s"
  by (induction p) auto

lemma strip_prefix_SomeD: "strip_prefix p s = Some r \<Longrightarrow> s = p @ r"
  by (induction p s rule: strip_prefix.induct) (auto split: if_splits)

section \<open>Identifiers\<close>

fun matches :: "(char \<Rightarrow> bool) list \<Rightarrow> string \<Rightarrow> bool" where
  "matches [] [] \<longleftrightarrow> True"
| "matches (p # ps) (c # cs) \<longleftrightarrow> p c \<and> matches ps cs"
| "matches _ _ \<longleftrightarrow> False"

definition uuid_pattern :: "(char \<Rightarrow> bool) list" where
  "uuid_pattern = replicate 8 is_lower_hex @ [\<lambda>c. c = CHR ''-''] @ replicate 4 is_lower_hex @
     [\<lambda>c. c = CHR ''-'', \<lambda>c. c = CHR ''4''] @ replicate 3 is_lower_hex @
     [\<lambda>c. c = CHR ''-'', \<lambda>c. c \<in> set ''89ab''] @ replicate 3 is_lower_hex @
     [\<lambda>c. c = CHR ''-''] @ replicate 12 is_lower_hex"

definition isCanonicalUuidV4 :: "string \<Rightarrow> bool" where
  "isCanonicalUuidV4 s = matches uuid_pattern s"

lemma matches_length: "matches ps s \<Longrightarrow> length s = length ps"
  by (induction ps s rule: matches.induct) auto

lemma uuid_length: "isCanonicalUuidV4 s \<Longrightarrow> length s = 36"
  by (auto simp: isCanonicalUuidV4_def uuid_pattern_def dest: matches_length)

text \<open>\<open>did:method:rest\<close> with a method of lower-case letters and digits: the rest.\<close>

definition did_rest :: "string \<Rightarrow> string option" where
  "did_rest s = do {
     r \<leftarrow> strip_prefix ''did:'' s;
     (case dropWhile (\<lambda>c. is_lower c \<or> is_digit c) r of
        c # rest \<Rightarrow> if c = CHR '':'' \<and> takeWhile (\<lambda>c. is_lower c \<or> is_digit c) r \<noteq> [] then Some rest else None
      | [] \<Rightarrow> None) }"

definition is_id_char :: "char \<Rightarrow> bool" where
  "is_id_char c \<longleftrightarrow> is_lower c \<or> is_upper c \<or> is_digit c \<or> c \<in> set ''._-''"

fun did_segment_chars :: "string \<Rightarrow> bool" where
  "did_segment_chars [] \<longleftrightarrow> True"
| "did_segment_chars (c # cs) \<longleftrightarrow>
     (if c = CHR ''%''
      then (case cs of a # b # r \<Rightarrow> is_hex a \<and> is_hex b \<and> did_segment_chars r | _ \<Rightarrow> False)
      else is_id_char c \<and> did_segment_chars cs)"

text \<open>\<^verbatim>\<open>DID_PATTERN\<close> of the capability modules.\<close>

definition strict_did :: "string \<Rightarrow> bool" where
  "strict_did s =
     (case did_rest s of
        None \<Rightarrow> False
      | Some rest \<Rightarrow> list_all (\<lambda>seg. seg \<noteq> [] \<and> did_segment_chars seg) (split_on CHR '':'' rest))"

text \<open>
  What \<^verbatim>\<open>.+\<close> can match from the start of a text: the part before the first line terminator
  (line feed, carriage return, and the UTF-8 forms of U+2028 and U+2029).
\<close>

fun dot_prefix :: "string \<Rightarrow> string" where
  "dot_prefix [] = []"
| "dot_prefix (c # cs) =
     (if c = CHR 0x0A \<or> c = CHR 0x0D then []
      else if c = CHR 0xE2 \<and> (case cs of a # b # _ \<Rightarrow> a = CHR 0x80 \<and> (b = CHR 0xA8 \<or> b = CHR 0xA9) | _ \<Rightarrow> False)
      then []
      else c # dot_prefix cs)"

text \<open>The loose patterns \<^verbatim>\<open>/^did:[a-z0-9]+:.+/\<close> and \<^verbatim>\<open>/^did:[a-z0-9]+:.+#.+/\<close>.\<close>

definition loose_did :: "string \<Rightarrow> bool" where
  "loose_did s = (case did_rest s of None \<Rightarrow> False | Some rest \<Rightarrow> dot_prefix rest \<noteq> [])"

definition did_url :: "string \<Rightarrow> bool" where
  "did_url s =
     (case did_rest s of
        None \<Rightarrow> False
      | Some rest \<Rightarrow>
          let p = dot_prefix rest in
          list_ex (\<lambda>i. p ! i = CHR ''#'') [1..<length p - 1])"

definition is_b64url_char :: "char \<Rightarrow> bool" where
  "is_b64url_char c \<longleftrightarrow> is_lower c \<or> is_upper c \<or> is_digit c \<or> c = CHR ''_'' \<or> c = CHR ''-''"

definition b64url_text :: "string \<Rightarrow> bool" where
  "b64url_text s \<longleftrightarrow> s \<noteq> [] \<and> list_all is_b64url_char s"

definition isValidBase64UrlSegment :: "string \<Rightarrow> bool" where
  "isValidBase64UrlSegment s \<longleftrightarrow> b64url_text s \<and> length s mod 4 \<noteq> 1"

definition isCompactJws :: "string \<Rightarrow> bool" where
  "isCompactJws s = (let parts = split_on CHR ''.'' s in length parts = 3 \<and> list_all (\<lambda>p. p \<noteq> []) parts)"

definition jws_compact_segments :: "string \<Rightarrow> bool" where
  "jws_compact_segments s =
     (let parts = split_on CHR ''.'' s in length parts = 3 \<and> list_all isValidBase64UrlSegment parts)"

lemma jws_compact_segments_compact: "jws_compact_segments s \<Longrightarrow> isCompactJws s"
  by (auto simp: jws_compact_segments_def isCompactJws_def isValidBase64UrlSegment_def b64url_text_def
      Let_def list_all_iff)

section \<open>Date-times\<close>

record date_time =
  dt_year :: nat
  dt_month :: nat
  dt_day :: nat
  dt_hour :: nat
  dt_minute :: nat
  dt_second :: nat
  dt_fraction :: string
  dt_offset :: "(bool \<times> nat \<times> nat) option"

definition digits_n :: "nat \<Rightarrow> string \<Rightarrow> (nat \<times> string) option" where
  "digits_n n s =
     (if length (take n s) = n \<and> list_all is_digit (take n s)
      then Some (nat_of_text 0 (take n s), drop n s) else None)"

definition expect :: "char \<Rightarrow> string \<Rightarrow> string option" where
  "expect c s = strip_prefix [c] s"

definition fraction_part :: "string \<Rightarrow> (string \<times> string) option" where
  "fraction_part s =
     (case s of
        c # r \<Rightarrow>
          if c = CHR ''.''
          then (if takeWhile is_digit r = [] then None
                else Some (takeWhile is_digit r, dropWhile is_digit r))
          else Some ([], s)
      | [] \<Rightarrow> Some ([], s))"

definition timezone_part :: "string \<Rightarrow> (bool \<times> nat \<times> nat) option option" where
  "timezone_part s =
     (if s = ''Z'' then Some None
      else case s of
        [] \<Rightarrow> None
      | c # r \<Rightarrow>
          if c \<noteq> CHR ''+'' \<and> c \<noteq> CHR ''-'' then None
          else do {
            (h, r1) \<leftarrow> digits_n 2 r;
            r2 \<leftarrow> expect CHR '':'' r1;
            (m, r3) \<leftarrow> digits_n 2 r2;
            if r3 = [] then Some (Some (c = CHR ''-'', h, m)) else None })"

definition rfc3339 :: "string \<Rightarrow> date_time option" where
  "rfc3339 s = do {
     (y, r) \<leftarrow> digits_n 4 s;   r \<leftarrow> expect CHR ''-'' r;
     (mo, r) \<leftarrow> digits_n 2 r;  r \<leftarrow> expect CHR ''-'' r;
     (d, r) \<leftarrow> digits_n 2 r;   r \<leftarrow> expect CHR ''T'' r;
     (h, r) \<leftarrow> digits_n 2 r;   r \<leftarrow> expect CHR '':'' r;
     (mi, r) \<leftarrow> digits_n 2 r;  r \<leftarrow> expect CHR '':'' r;
     (sec, r) \<leftarrow> digits_n 2 r;
     (f, r) \<leftarrow> fraction_part r;
     tz \<leftarrow> timezone_part r;
     Some \<lparr>dt_year = y, dt_month = mo, dt_day = d, dt_hour = h, dt_minute = mi, dt_second = sec,
           dt_fraction = f, dt_offset = tz\<rparr> }"

definition isLeapYear :: "nat \<Rightarrow> bool" where
  "isLeapYear y \<longleftrightarrow> y mod 4 = 0 \<and> (y mod 100 \<noteq> 0 \<or> y mod 400 = 0)"

definition daysInMonth :: "nat \<Rightarrow> nat \<Rightarrow> nat" where
  "daysInMonth y m = (if m = 2 then (if isLeapYear y then 29 else 28)
     else if m \<in> {4, 6, 9, 11} then 30 else 31)"

text \<open>
  \<^verbatim>\<open>new Date(Date.UTC(year, month, 0)).getUTCDate()\<close>, the month length of \<^verbatim>\<open>log-entry.ts\<close>:
  \<^verbatim>\<open>Date.UTC\<close> reads the years 0 to 99 as 1900 to 1999.
\<close>

definition daysInMonthUTC :: "nat \<Rightarrow> nat \<Rightarrow> nat" where
  "daysInMonthUTC y m = daysInMonth (if y \<le> 99 then 1900 + y else y) m"

definition valid_parts :: "(nat \<Rightarrow> nat \<Rightarrow> nat) \<Rightarrow> date_time \<Rightarrow> bool" where
  "valid_parts days t \<longleftrightarrow>
     1 \<le> dt_month t \<and> dt_month t \<le> 12 \<and> 1 \<le> dt_day t \<and> dt_day t \<le> days (dt_year t) (dt_month t) \<and>
     dt_hour t \<le> 23 \<and> dt_minute t \<le> 59 \<and> dt_second t \<le> 59 \<and>
     (case dt_offset t of None \<Rightarrow> True | Some (_, h, m) \<Rightarrow> h \<le> 23 \<and> m \<le> 59)"

definition valid_rfc3339 :: "string \<Rightarrow> bool" where
  "valid_rfc3339 s = (case rfc3339 s of None \<Rightarrow> False | Some t \<Rightarrow> valid_parts daysInMonth t)"

definition valid_log_timestamp :: "string \<Rightarrow> bool" where
  "valid_log_timestamp s = (case rfc3339 s of None \<Rightarrow> False | Some t \<Rightarrow> valid_parts daysInMonthUTC t)"

text \<open>\<^verbatim>\<open>Date.parse\<close> on a valid date-time: milliseconds since the epoch, fractions cut after three digits.\<close>

definition days_before_year :: "nat \<Rightarrow> int" where
  "days_before_year y =
     365 * int y + (if y = 0 then 0
       else int ((y - 1) div 4) - int ((y - 1) div 100) + int ((y - 1) div 400) + 1)"

definition fraction_ms :: "string \<Rightarrow> int" where
  "fraction_ms f = int (nat_of_text 0 (take 3 (f @ ''000'')))"

definition offset_minutes :: "(bool \<times> nat \<times> nat) option \<Rightarrow> int" where
  "offset_minutes tz =
     (case tz of None \<Rightarrow> 0
      | Some (neg, h, m) \<Rightarrow> (if neg then - 1 else 1) * (60 * int h + int m))"

definition date_ms :: "date_time \<Rightarrow> int" where
  "date_ms t =
     (let days = days_before_year (dt_year t) - 719528 +
            int (sum_list (map (daysInMonth (dt_year t)) [1..<dt_month t])) + int (dt_day t) - 1;
          minutes = (days * 24 + int (dt_hour t)) * 60 + int (dt_minute t) - offset_minutes (dt_offset t) in
      (minutes * 60 + int (dt_second t)) * 1000 + fraction_ms (dt_fraction t))"

definition date_parse :: "string \<Rightarrow> int option" where
  "date_parse s =
     (case rfc3339 s of None \<Rightarrow> None
      | Some t \<Rightarrow> if valid_parts daysInMonth t then Some (date_ms t) else None)"

lemma date_parse_valid: "valid_rfc3339 s \<longleftrightarrow> date_parse s \<noteq> None"
  by (auto simp: valid_rfc3339_def date_parse_def split: option.splits)

lemma date_parse_example: "date_parse ''2024-02-29T12:30:45.1239+01:30'' = Some 1709204445123"
  by code_simp

text \<open>The two month tables agree except for February of the year 0.\<close>

lemma daysInMonthUTC_eq: "y \<noteq> 0 \<or> m \<noteq> 2 \<Longrightarrow> y < 10000 \<Longrightarrow> daysInMonthUTC y m = daysInMonth y m"
proof (cases "1 \<le> y \<and> y \<le> 99")
  case True
  have "1900 + y = y + 475 * 4" "1900 + y = y + 19 * 100" by simp_all
  then have "(1900 + y) mod 4 = y mod 4" "(1900 + y) mod 100 = y mod 100"
    by (metis mod_mult_self1)+
  moreover have "y mod 100 = y" "y \<noteq> 0" using True by simp_all
  ultimately show ?thesis using True by (simp add: daysInMonthUTC_def daysInMonth_def isLeapYear_def)
qed (auto simp: daysInMonthUTC_def daysInMonth_def)

end
