(* ===== verification/DidKey.thy ===== *)
theory DidKey
  imports Formats
begin

text \<open>
  Key identifiers, \<^verbatim>\<open>protocol/identity/did-key.ts\<close>: multibase keys, \<^verbatim>\<open>did:key\<close>
  identifiers and the resolver. A \<^verbatim>\<open>DidKeyValidationError\<close> is \<open>None\<close>.
\<close>

definition ED25519_PREFIX :: bytes where
  "ED25519_PREFIX = [0xed, 0x01]"

definition X25519_PREFIX :: bytes where
  "X25519_PREFIX = [0xec, 0x01]"

definition PUBLIC_KEY_LENGTH :: nat where
  "PUBLIC_KEY_LENGTH = 32"

definition key_to_multibase :: "bytes \<Rightarrow> bytes \<Rightarrow> string option" where
  "key_to_multibase prefix publicKey =
     (if length publicKey \<noteq> PUBLIC_KEY_LENGTH then None
      else Some (CHR ''z'' # encodeBase58 (prefix @ publicKey)))"

definition ed25519PublicKeyToMultibase :: "bytes \<Rightarrow> string option" where
  "ed25519PublicKeyToMultibase publicKey = key_to_multibase ED25519_PREFIX publicKey"

definition x25519PublicKeyToMultibase :: "bytes \<Rightarrow> string option" where
  "x25519PublicKeyToMultibase publicKey = key_to_multibase X25519_PREFIX publicKey"

definition publicKeyToDidKey :: "bytes \<Rightarrow> string option" where
  "publicKeyToDidKey publicKey = map_option ((@) ''did:key:'') (ed25519PublicKeyToMultibase publicKey)"

definition didOrKidToDid :: "string \<Rightarrow> string" where
  "didOrKidToDid s = hd (split_on CHR ''#'' s)"

definition decodeBase58Multibase :: "string \<Rightarrow> bytes option" where
  "decodeBase58Multibase s = (case s of c # r \<Rightarrow> if c = CHR ''z'' then decodeBase58 r else None | [] \<Rightarrow> None)"

definition multibase_to_key :: "bytes \<Rightarrow> string \<Rightarrow> bytes option" where
  "multibase_to_key prefix s = do {
     decoded \<leftarrow> decodeBase58Multibase s;
     if take 2 decoded \<noteq> prefix then None
     else if length (drop 2 decoded) \<noteq> PUBLIC_KEY_LENGTH then None
     else Some (drop 2 decoded) }"

definition ed25519MultibaseToPublicKeyBytes :: "string \<Rightarrow> bytes option" where
  "ed25519MultibaseToPublicKeyBytes s = multibase_to_key ED25519_PREFIX s"

definition x25519MultibaseToPublicKeyBytes :: "string \<Rightarrow> bytes option" where
  "x25519MultibaseToPublicKeyBytes s = multibase_to_key X25519_PREFIX s"

definition didKeyToPublicKeyBytes :: "string \<Rightarrow> bytes option" where
  "didKeyToPublicKeyBytes didOrKid = do {
     r \<leftarrow> strip_prefix ''did:key:z'' (didOrKidToDid didOrKid);
     ed25519MultibaseToPublicKeyBytes (CHR ''z'' # r) }"

section \<open>Documents and the resolver\<close>

record key_agreement =
  ka_id :: string
  ka_type :: string
  ka_controller :: string
  ka_multibase :: string

record did_service =
  svc_id :: string
  svc_type :: string
  svc_endpoint :: string

text \<open>A document: the verification method is always \<^verbatim>\<open>#sig-0\<close>, controlled by the DID itself.\<close>

record did_document =
  doc_id :: string
  doc_sig_multibase :: string
  doc_key_agreement :: "key_agreement list"
  doc_service :: "did_service list option"

record resolve_options =
  ro_key_agreement :: "key_agreement list option"
  ro_service :: "did_service list option"

definition encryptionKeyMultibaseFromDidDocument :: "did_document option \<Rightarrow> string option" where
  "encryptionKeyMultibaseFromDidDocument d =
     (case d of None \<Rightarrow> None
      | Some doc \<Rightarrow> find (\<lambda>enc. enc \<noteq> [] \<and> x25519MultibaseToPublicKeyBytes enc \<noteq> None)
          (map ka_multibase (doc_key_agreement doc)))"

definition resolveDidKey :: "string \<Rightarrow> resolve_options \<Rightarrow> did_document option" where
  "resolveDidKey did opts =
     (if CHR ''#'' \<in> set did \<or> strip_prefix ''did:key:z'' did = None then None
      else do {
        key \<leftarrow> didKeyToPublicKeyBytes did;
        mb \<leftarrow> ed25519PublicKeyToMultibase key;
        Some \<lparr>doc_id = did, doc_sig_multibase = mb,
              doc_key_agreement = (case ro_key_agreement opts of None \<Rightarrow> [] | Some ka \<Rightarrow> ka),
              doc_service = (case ro_service opts of None \<Rightarrow> None | Some s \<Rightarrow> if s = [] then None else Some s)\<rparr> })"

definition no_options :: resolve_options where
  "no_options = \<lparr>ro_key_agreement = None, ro_service = None\<rparr>"

text \<open>The resolver of \<^verbatim>\<open>createDidKeyResolver\<close> over the configured documents.\<close>

definition did_key_resolve :: "(string \<times> resolve_options) list \<Rightarrow> string \<Rightarrow> did_document option" where
  "did_key_resolve documents did =
     (if strip_prefix ''did:key:'' did = None then None
      else resolveDidKey did (case map_of documents did of None \<Rightarrow> no_options | Some opts \<Rightarrow> opts))"

section \<open>Lemmas\<close>

lemma multibase_to_key_encode:
  assumes "prefix = [p, q]" "p \<noteq> 0" "key_to_multibase prefix key = Some s"
  shows "multibase_to_key prefix s = Some key"
proof -
  have len: "length key = PUBLIC_KEY_LENGTH" and s: "s = CHR ''z'' # encodeBase58 (prefix @ key)"
    using assms(3) by (auto simp: key_to_multibase_def split: if_splits)
  have "decodeBase58 (encodeBase58 (p # q # key)) = Some (p # q # key)"
    using decodeBase58_encodeBase58 [OF assms(2), of 0 "q # key"] by simp
  then show ?thesis
    using len by (simp add: multibase_to_key_def decodeBase58Multibase_def s assms(1))
qed

lemma ed25519_multibase_roundtrip:
  "ed25519PublicKeyToMultibase key = Some s \<Longrightarrow> ed25519MultibaseToPublicKeyBytes s = Some key"
  unfolding ed25519PublicKeyToMultibase_def ed25519MultibaseToPublicKeyBytes_def ED25519_PREFIX_def
  by (rule multibase_to_key_encode [OF refl]) (code_simp, assumption)

lemma x25519_multibase_roundtrip:
  "x25519PublicKeyToMultibase key = Some s \<Longrightarrow> x25519MultibaseToPublicKeyBytes s = Some key"
  unfolding x25519PublicKeyToMultibase_def x25519MultibaseToPublicKeyBytes_def X25519_PREFIX_def
  by (rule multibase_to_key_encode [OF refl]) (code_simp, assumption)

lemma base58_text_alphabet: "c \<in> set (encodeBase58 bs) \<Longrightarrow> c \<in> set BASE58_ALPHABET"
proof -
  have digits: "\<forall>d \<in> set (base58_digits bs). d < 58"
  proof -
    have "base58_digits bs = fold (mac 256 58) (map unat bs) [0]"
      by (simp add: base58_digits_def fold_map comp_def)
    then show ?thesis by (simp only:) (rule fold_mac_less, simp_all)
  qed
  have "\<exists>d < 58. c = BASE58_ALPHABET ! d" if "c \<in> set (encodeBase58 bs)"
    using that digits by (auto simp: encodeBase58_def intro: exI [of _ "0 :: nat"])
  then show "c \<in> set BASE58_ALPHABET" if "c \<in> set (encodeBase58 bs)"
    using that by (auto simp: base58_alphabet)
qed

lemma base58_text_plain: "c \<in> set (encodeBase58 bs) \<Longrightarrow> c \<notin> set [CHR ''#'', CHR 0x0A, CHR 0x0D, CHR 0xE2]"
proof -
  have "list_all (\<lambda>c. c \<notin> set [CHR ''#'', CHR 0x0A, CHR 0x0D, CHR 0xE2]) BASE58_ALPHABET" by code_simp
  then show "c \<in> set (encodeBase58 bs) \<Longrightarrow> ?thesis"
    using base58_text_alphabet unfolding list_all_iff by blast
qed

lemma publicKeyToDidKey_plain: "publicKeyToDidKey key = Some did \<Longrightarrow> CHR ''#'' \<notin> set did"
  using base58_text_plain
  by (fastforce simp: publicKeyToDidKey_def ed25519PublicKeyToMultibase_def key_to_multibase_def
      split: if_splits)

lemma didOrKidToDid_kid: "CHR ''#'' \<notin> set did \<Longrightarrow> didOrKidToDid (did @ CHR ''#'' # frag) = did"
  by (simp add: didOrKidToDid_def split_on_append)

lemma didOrKidToDid_did: "CHR ''#'' \<notin> set did \<Longrightarrow> didOrKidToDid did = did"
  by (simp add: didOrKidToDid_def split_on_free)

lemma didKeyToPublicKeyBytes_did:
  assumes "publicKeyToDidKey key = Some did"
  shows "didKeyToPublicKeyBytes did = Some key"
proof -
  obtain mb where mb: "ed25519PublicKeyToMultibase key = Some mb" and did: "did = ''did:key:'' @ mb"
    using assms by (auto simp: publicKeyToDidKey_def)
  obtain t where t: "mb = CHR ''z'' # t"
    using mb by (auto simp: ed25519PublicKeyToMultibase_def key_to_multibase_def split: if_splits)
  have "didOrKidToDid did = ''did:key:z'' @ t"
    using didOrKidToDid_did [OF publicKeyToDidKey_plain [OF assms]] by (simp add: did t)
  then show ?thesis
    using ed25519_multibase_roundtrip [OF mb] by (simp add: didKeyToPublicKeyBytes_def t)
qed

section \<open>Properties\<close>

text \<open>A \<^verbatim>\<open>did:key\<close> identifier names exactly one key: every 32-byte key has an identifier, the
  identifier and each of its key ids (with any fragment) give the key back, and so two keys with
  the same identifier are equal.\<close>

theorem did_key_roundtrip:
  assumes "length key = 32"
  shows "\<exists>did. publicKeyToDidKey key = Some did \<and> didKeyToPublicKeyBytes did = Some key \<and>
    (\<forall>frag. didKeyToPublicKeyBytes (did @ CHR ''#'' # frag) = Some key) \<and>
    (\<forall>key'. publicKeyToDidKey key' = Some did \<longrightarrow> key' = key) \<and>
    (\<exists>doc. did_key_resolve [] did = Some doc \<and> doc_id doc = did \<and>
       ed25519MultibaseToPublicKeyBytes (doc_sig_multibase doc) = Some key)"
proof -
  obtain mb where mb: "ed25519PublicKeyToMultibase key = Some mb"
    using assms by (simp add: ed25519PublicKeyToMultibase_def key_to_multibase_def PUBLIC_KEY_LENGTH_def)
  define did where "did = ''did:key:'' @ mb"
  have did: "publicKeyToDidKey key = Some did" by (simp add: publicKeyToDidKey_def mb did_def)
  note plain = publicKeyToDidKey_plain [OF did]
  note key = didKeyToPublicKeyBytes_did [OF did]
  obtain t where t: "mb = CHR ''z'' # t"
    using mb by (auto simp: ed25519PublicKeyToMultibase_def key_to_multibase_def split: if_splits)
  have "didKeyToPublicKeyBytes (did @ CHR ''#'' # frag) = Some key" for frag
    using key plain by (simp add: didKeyToPublicKeyBytes_def didOrKidToDid_kid didOrKidToDid_did)
  moreover have "key' = key" if "publicKeyToDidKey key' = Some did" for key'
    using didKeyToPublicKeyBytes_did [OF that] key by simp
  moreover have "\<exists>doc. did_key_resolve [] did = Some doc \<and> doc_id doc = did \<and>
       ed25519MultibaseToPublicKeyBytes (doc_sig_multibase doc) = Some key"
    using plain key mb ed25519_multibase_roundtrip [OF mb]
    by (simp add: did_key_resolve_def resolveDidKey_def did_def t)
  ultimately show ?thesis using did key by blast
qed

theorem did_key_roundtrip_witness:
  "didKeyToPublicKeyBytes (the (publicKeyToDidKey (replicate 32 0)) @ ''#sig-0'') = Some (replicate 32 0)"
proof -
  have "length (replicate 32 (0 :: 8 word)) = 32" by simp
  from did_key_roundtrip [OF this] obtain did where
    "publicKeyToDidKey (replicate 32 0) = Some did"
    "\<forall>frag. didKeyToPublicKeyBytes (did @ CHR ''#'' # frag) = Some (replicate 32 0)" by blast
  then show ?thesis by simp
qed

end
