(* ===== verification/Jws.thy ===== *)
theory Jws
  imports DidKey "HOL-Library.Multiset"
begin

text \<open>
  Compact JWS signatures, \<^verbatim>\<open>protocol/crypto/jws.ts\<close>, and the canonical serialisation they
  sign over (\<^verbatim>\<open>protocol/crypto/jcs.ts\<close>, modelled in \<open>Json\<close>).

  What the code takes from outside the repository is the parameter \<open>runtime\<close>: the JSON
  parser on UTF-8 bytes, the number formatting of \<^verbatim>\<open>JSON.stringify\<close>, the constructor
  \<^verbatim>\<open>URL\<close> as a validity test, the Ed25519 verifier of the crypto adapter (\<open>None\<close> when it
  throws) and SHA-256.
\<close>

record runtime =
  json_parse :: "bytes \<Rightarrow> json option"
  number_text :: "rat \<Rightarrow> string"
  valid_url :: "string \<Rightarrow> bool"
  verify_ed25519 :: "bytes \<Rightarrow> bytes \<Rightarrow> bytes \<Rightarrow> bool option"
  sha256 :: "bytes \<Rightarrow> bytes"

definition canonicalizeToBytes :: "runtime \<Rightarrow> json \<Rightarrow> bytes option" where
  "canonicalizeToBytes rt v = map_option utf8_encode (canonicalize (number_text rt) v)"

record decoded_jws =
  jws_header :: json
  jws_payload :: json
  jws_signing_input :: bytes
  jws_signature :: bytes

definition decodeJws :: "runtime \<Rightarrow> string \<Rightarrow> decoded_jws option" where
  "decodeJws rt jws =
     (case split_on CHR ''.'' jws of
        [h, p, s] \<Rightarrow>
          if h = [] \<or> p = [] \<or> s = [] then None
          else do {
            header \<leftarrow> Option.bind (decodeBase64Url h) (json_parse rt);
            payload \<leftarrow> Option.bind (decodeBase64Url p) (json_parse rt);
            signature \<leftarrow> decodeBase64Url s;
            Some \<lparr>jws_header = header, jws_payload = payload,
                  jws_signing_input = utf8_encode (h @ ''.'' @ p), jws_signature = signature\<rparr> }
      | _ \<Rightarrow> None)"

definition createJcsEd25519JwsWithSigner ::
  "runtime \<Rightarrow> json \<Rightarrow> json \<Rightarrow> (bytes \<Rightarrow> bytes) \<Rightarrow> string option" where
  "createJcsEd25519JwsWithSigner rt header payload sign =
     (if jget ''alg'' header \<noteq> Some (JStr ''EdDSA'') then None
      else case jget_str ''kid'' header of
        None \<Rightarrow> None
      | Some kid \<Rightarrow>
          if kid = [] then None
          else do {
            h \<leftarrow> map_option encodeBase64Url (canonicalizeToBytes rt header);
            p \<leftarrow> map_option encodeBase64Url (canonicalizeToBytes rt payload);
            Some (h @ ''.'' @ p @ ''.'' @ encodeBase64Url (sign (utf8_encode (h @ ''.'' @ p)))) })"

text \<open>\<^verbatim>\<open>createJcsEd25519Jws\<close>: the same with a seed; \<open>ed25519_sign\<close> is the signature function of the library.\<close>

definition createJcsEd25519Jws ::
  "runtime \<Rightarrow> (bytes \<Rightarrow> bytes \<Rightarrow> bytes) \<Rightarrow> json \<Rightarrow> json \<Rightarrow> bytes \<Rightarrow> string option" where
  "createJcsEd25519Jws rt ed25519_sign header payload signingSeed =
     (if length signingSeed \<noteq> 32 then None
      else createJcsEd25519JwsWithSigner rt header payload (ed25519_sign signingSeed))"

definition verifyJwsWithPublicKey :: "runtime \<Rightarrow> string \<Rightarrow> bytes \<Rightarrow> decoded_jws option" where
  "verifyJwsWithPublicKey rt jws publicKey = do {
     decoded \<leftarrow> decodeJws rt jws;
     (if \<not> is_record (jws_header decoded) \<or> jget ''alg'' (jws_header decoded) \<noteq> Some (JStr ''EdDSA'') then None
      else case jget_str ''kid'' (jws_header decoded) of
        None \<Rightarrow> None
      | Some kid \<Rightarrow>
          if kid = [] then None
          else if verify_ed25519 rt (jws_signing_input decoded) (jws_signature decoded) publicKey = Some True
          then Some decoded else None) }"

section \<open>Lemmas\<close>

lemma encodeBase64Url_empty: "encodeBase64Url bs = [] \<longleftrightarrow> bs = []"
proof
  assume "encodeBase64Url bs = []"
  then have "Some bs = decodeBase64Url []" using decodeBase64Url_encode [of bs] by simp
  then show "bs = []" by (simp add: decodeBase64Url_def atob_def Let_def)
qed (simp add: encodeBase64Url_core)

lemma base64url_no_dot: "CHR ''.'' \<notin> set (encodeBase64Url bs)"
proof
  have "list_all (\<lambda>c. to_url c \<noteq> CHR ''.'') base64_alphabet" by code_simp
  then have plain: "c \<in> set base64_alphabet \<Longrightarrow> to_url c \<noteq> CHR ''.''" for c unfolding list_all_iff by blast
  assume "CHR ''.'' \<in> set (encodeBase64Url bs)"
  then obtain c where "c \<in> set (b64_core bs)" "to_url c = CHR ''.''"
    unfolding encodeBase64Url_core set_map [of to_url] by (metis imageE)
  then show False using plain [OF b64_core_alphabet] by simp
qed

lemma canonicalize_nonempty: "canonicalize num v \<noteq> Some [] \<or> (\<exists>r. v = JNum (Fin r) \<and> num r = [])"
  by (cases v) (auto simp: json_quote_def split: jsnum.splits)

lemma createJws_decode:
  assumes jws: "createJcsEd25519JwsWithSigner rt header payload sign = Some jws"
    and num: "\<forall>r. number_text rt r \<noteq> []" and sig: "\<forall>m. sign m \<noteq> []"
  obtains hb pb where
    "canonicalizeToBytes rt header = Some hb" "canonicalizeToBytes rt payload = Some pb"
    "decodeJws rt jws = do {
       h \<leftarrow> json_parse rt hb; p \<leftarrow> json_parse rt pb;
       Some \<lparr>jws_header = h, jws_payload = p,
         jws_signing_input = utf8_encode (encodeBase64Url hb @ ''.'' @ encodeBase64Url pb),
         jws_signature = sign (utf8_encode (encodeBase64Url hb @ ''.'' @ encodeBase64Url pb))\<rparr> }"
proof -
  obtain hb pb where hb: "canonicalizeToBytes rt header = Some hb"
    and pb: "canonicalizeToBytes rt payload = Some pb"
    and eq: "jws = encodeBase64Url hb @ ''.'' @ encodeBase64Url pb @ ''.'' @
      encodeBase64Url (sign (utf8_encode (encodeBase64Url hb @ ''.'' @ encodeBase64Url pb)))"
    using jws by (auto simp: createJcsEd25519JwsWithSigner_def bind_eq_Some_conv split: if_splits option.splits)
  have ne: "hb \<noteq> []" "pb \<noteq> []"
    using hb pb canonicalize_nonempty num by (auto simp: canonicalizeToBytes_def utf8_encode_def)
  have "decodeJws rt jws = do {
       h \<leftarrow> json_parse rt hb; p \<leftarrow> json_parse rt pb;
       Some \<lparr>jws_header = h, jws_payload = p,
         jws_signing_input = utf8_encode (encodeBase64Url hb @ ''.'' @ encodeBase64Url pb),
         jws_signature = sign (utf8_encode (encodeBase64Url hb @ ''.'' @ encodeBase64Url pb))\<rparr> }"
    using ne sig
    by (simp add: decodeJws_def eq split_on_append split_on_free base64url_no_dot encodeBase64Url_empty)
  with hb pb show ?thesis by (rule that)
qed

text \<open>The canonical form of an object does not depend on the order of its properties.\<close>

lemma canonicalize_fields_map:
  "canonicalize_fields num kvs =
     (if \<exists>kv \<in> set kvs. canonicalize num (snd kv) = None then None
      else Some (map (\<lambda>(k, v). (k, the (canonicalize num v))) kvs))"
proof (induction kvs)
  case (Cons kv kvs)
  obtain k v where kv: "kv = (k, v)" by (cases kv)
  show ?case by (cases "canonicalize num v") (simp_all add: kv Cons.IH)
qed simp

lemma sort_key_mset_inj:
  assumes "mset xs = mset ys" "distinct (map f xs)"
  shows "sort_key f xs = sort_key f ys"
  by (rule sort_key_inj_key_eq) (use assms in \<open>simp_all add: distinct_map\<close>)

section \<open>Properties\<close>

text \<open>The canonical serialisation is independent of the order in which an object holds its properties,
  so a signature or content hash over it is too.\<close>

theorem canonicalize_order_independent:
  assumes "distinct (map fst kvs)" "mset kvs' = mset kvs"
  shows "canonicalize num (JObj kvs') = canonicalize num (JObj kvs)"
proof -
  have set: "set kvs' = set kvs" using assms(2) by (metis mset_eq_setD)
  let ?f = "\<lambda>(k, v). (k, the (canonicalize num v))"
  have "mset (map ?f kvs) = mset (map ?f kvs')" using assms(2) by simp
  moreover have "distinct (map fst (map ?f kvs))"
    using assms(1) by (simp add: comp_def case_prod_unfold)
  ultimately have "sort_key fst (map ?f kvs) = sort_key fst (map ?f kvs')"
    by (rule sort_key_mset_inj)
  then show ?thesis by (simp add: canonicalize_fields_map set)
qed

theorem canonicalize_order_independent_witness:
  "canonicalize (\<lambda>_. ''0'') (JObj [(''b'', JNull), (''a'', JBool True)]) =
   canonicalize (\<lambda>_. ''0'') (JObj [(''a'', JBool True), (''b'', JNull)])"
proof -
  have "distinct (map fst [(''a'', JBool True), (''b'', JNull)])" by simp
  moreover have "mset [(''b'', JNull), (''a'', JBool True)] = mset [(''a'', JBool True), (''b'', JNull)]" by simp
  ultimately show ?thesis by (rule canonicalize_order_independent)
qed

text \<open>What is signed is what is verified: a JWS created over a header and a payload decodes to the
  parses of exactly their canonical bytes, which have their properties in the order of the keys, with the signing input that was signed, and verifies
  under a key exactly when the verifier accepts the signature on that input.\<close>

theorem jws_create_verify:
  assumes jws: "createJcsEd25519JwsWithSigner rt header payload sign = Some jws"
    and num: "\<forall>r. number_text rt r \<noteq> []" and sig: "\<forall>m. sign m \<noteq> []"
    and parse: "\<forall>v b. v \<in> {header, payload} \<longrightarrow> canonicalizeToBytes rt v = Some b \<longrightarrow> json_parse rt b = Some (key_sorted v)"
  shows "\<exists>input. decodeJws rt jws = Some \<lparr>jws_header = key_sorted header, jws_payload = key_sorted payload,
            jws_signing_input = input, jws_signature = sign input\<rparr> \<and>
    (\<forall>key. verifyJwsWithPublicKey rt jws key =
       (if verify_ed25519 rt input (sign input) key = Some True then decodeJws rt jws else None))"
proof -
  obtain hb pb where hb: "canonicalizeToBytes rt header = Some hb" and pb: "canonicalizeToBytes rt payload = Some pb"
    and dec: "decodeJws rt jws = do {
       h \<leftarrow> json_parse rt hb; p \<leftarrow> json_parse rt pb;
       Some \<lparr>jws_header = h, jws_payload = p,
         jws_signing_input = utf8_encode (encodeBase64Url hb @ ''.'' @ encodeBase64Url pb),
         jws_signature = sign (utf8_encode (encodeBase64Url hb @ ''.'' @ encodeBase64Url pb))\<rparr> }"
    by (rule createJws_decode [OF jws num sig])
  let ?input = "utf8_encode (encodeBase64Url hb @ ''.'' @ encodeBase64Url pb)"
  have d: "decodeJws rt jws = Some \<lparr>jws_header = key_sorted header, jws_payload = key_sorted payload,
      jws_signing_input = ?input, jws_signature = sign ?input\<rparr>"
    using parse hb pb by (simp add: dec)
  have "jget ''alg'' header = Some (JStr ''EdDSA'')" "\<exists>kid. jget_str ''kid'' header = Some kid \<and> kid \<noteq> []"
    using jws by (auto simp: createJcsEd25519JwsWithSigner_def split: if_splits option.splits)
  moreover from this have "is_record header" using jget_record [of "''alg''" header] by simp
  ultimately have "verifyJwsWithPublicKey rt jws key =
      (if verify_ed25519 rt ?input (sign ?input) key = Some True then decodeJws rt jws else None)" for key
    by (auto simp: verifyJwsWithPublicKey_def d)
  with d show ?thesis by blast
qed

definition sample_runtime :: runtime where
  "sample_runtime = \<lparr>
     json_parse = (\<lambda>b.
       if b = utf8_encode (the (canonicalize (\<lambda>_. ''0'') (JObj [(''alg'', JStr ''EdDSA''), (''kid'', JStr ''k'')])))
       then Some (JObj [(''alg'', JStr ''EdDSA''), (''kid'', JStr ''k'')])
       else if b = utf8_encode ''null'' then Some JNull else None),
     number_text = (\<lambda>_. ''0''), valid_url = (\<lambda>_. True),
     verify_ed25519 = (\<lambda>m s k. Some (s = k @ m)), sha256 = (\<lambda>b. b)\<rparr>"

theorem jws_create_verify_witness:
  "\<exists>jws d. createJcsEd25519JwsWithSigner sample_runtime (JObj [(''alg'', JStr ''EdDSA''), (''kid'', JStr ''k'')]) JNull
     (\<lambda>m. [7] @ m) = Some jws \<and> verifyJwsWithPublicKey sample_runtime jws [7] = Some d \<and>
   jws_payload d = JNull \<and> verifyJwsWithPublicKey sample_runtime jws [8] = None"
proof -
  let ?h = "JObj [(''alg'', JStr ''EdDSA''), (''kid'', JStr ''k'')]"
  have hb: "canonicalize (\<lambda>_. ''0'') ?h \<noteq> None" by simp
  obtain jws where jws: "createJcsEd25519JwsWithSigner sample_runtime ?h JNull (\<lambda>m. [7] @ m) = Some jws"
    by (simp add: createJcsEd25519JwsWithSigner_def sample_runtime_def canonicalizeToBytes_def jget_str_def)
  have num: "\<forall>r. number_text sample_runtime r \<noteq> []" and sig: "\<forall>m. [7 :: 8 word] @ m \<noteq> []"
    by (simp_all add: sample_runtime_def)
  have parse: "\<forall>v b. v \<in> {?h, JNull} \<longrightarrow> canonicalizeToBytes sample_runtime v = Some b \<longrightarrow> json_parse sample_runtime b = Some (key_sorted v)"
  proof (intro allI impI)
    fix v b assume "v \<in> {?h, JNull}" and b: "canonicalizeToBytes sample_runtime v = Some b"
    moreover have "utf8_encode ''null'' \<noteq> utf8_encode (the (canonicalize (\<lambda>_. ''0'') ?h))"
      by code_simp
    ultimately have "json_parse sample_runtime b = Some v"
      by (auto simp: sample_runtime_def canonicalizeToBytes_def simp del: canonicalize.simps(6))
    moreover have "key_sorted v = v" using \<open>v \<in> {?h, JNull}\<close> by (auto simp: key_sorted_def)
    ultimately show "json_parse sample_runtime b = Some (key_sorted v)" by simp
  qed
  from jws_create_verify [OF jws num sig parse] obtain input where
    dec: "decodeJws sample_runtime jws = Some \<lparr>jws_header = key_sorted ?h, jws_payload = key_sorted JNull, jws_signing_input = input, jws_signature = [7] @ input\<rparr>"
    and ver: "\<forall>key. verifyJwsWithPublicKey sample_runtime jws key =
       (if verify_ed25519 sample_runtime input ([7] @ input) key = Some True then decodeJws sample_runtime jws else None)"
    by blast
  have "verify_ed25519 sample_runtime input ([7] @ input) [7] = Some True"
    and "verify_ed25519 sample_runtime input ([7] @ input) [8] \<noteq> Some True"
    by (simp_all add: sample_runtime_def)
  then show ?thesis using jws ver dec by (auto simp: key_sorted_def)
qed

end
