(* ===== verification/BrokerError.thy ===== *)
theory BrokerError
  imports Json
begin

text \<open>
  The closed catalogue of broker error codes and the \<^verbatim>\<open>error/1.0\<close> control frame:
  \<^verbatim>\<open>protocol/sync/broker-error.ts\<close> and \<^verbatim>\<open>protocol/sync/broker-control-frame.ts\<close>.
\<close>

datatype broker_error =
    DOC_NOT_FOUND | CAPABILITY_REQUIRED | CAPABILITY_INVALID | CAPABILITY_EXPIRED
  | CAPABILITY_GENERATION_STALE | SPACE_ALREADY_REGISTERED | AUTHOR_MISMATCH
  | PERSONAL_DOC_OWNER_MISMATCH | DEVICE_NOT_REGISTERED | DEVICE_REVOKED | DEVICE_ID_CONFLICT
  | SEQ_COLLISION_DETECTED | KEY_GENERATION_STALE | GENERATION_TAKEN | GENERATION_GAP
  | MALFORMED_MESSAGE | AUTH_INVALID | NONCE_REPLAY | RATE_LIMITED | INTERNAL_ERROR

definition KNOWN_BROKER_ERROR_CODES :: "(string \<times> broker_error) list" where
  "KNOWN_BROKER_ERROR_CODES =
    [(''DOC_NOT_FOUND'', DOC_NOT_FOUND),
     (''CAPABILITY_REQUIRED'', CAPABILITY_REQUIRED),
     (''CAPABILITY_INVALID'', CAPABILITY_INVALID),
     (''CAPABILITY_EXPIRED'', CAPABILITY_EXPIRED),
     (''CAPABILITY_GENERATION_STALE'', CAPABILITY_GENERATION_STALE),
     (''SPACE_ALREADY_REGISTERED'', SPACE_ALREADY_REGISTERED),
     (''AUTHOR_MISMATCH'', AUTHOR_MISMATCH),
     (''PERSONAL_DOC_OWNER_MISMATCH'', PERSONAL_DOC_OWNER_MISMATCH),
     (''DEVICE_NOT_REGISTERED'', DEVICE_NOT_REGISTERED),
     (''DEVICE_REVOKED'', DEVICE_REVOKED),
     (''DEVICE_ID_CONFLICT'', DEVICE_ID_CONFLICT),
     (''SEQ_COLLISION_DETECTED'', SEQ_COLLISION_DETECTED),
     (''KEY_GENERATION_STALE'', KEY_GENERATION_STALE),
     (''GENERATION_TAKEN'', GENERATION_TAKEN),
     (''GENERATION_GAP'', GENERATION_GAP),
     (''MALFORMED_MESSAGE'', MALFORMED_MESSAGE),
     (''AUTH_INVALID'', AUTH_INVALID),
     (''NONCE_REPLAY'', NONCE_REPLAY),
     (''RATE_LIMITED'', RATE_LIMITED),
     (''INTERNAL_ERROR'', INTERNAL_ERROR)]"

definition broker_error_of_text :: "string \<Rightarrow> broker_error option" where
  "broker_error_of_text s = map_of KNOWN_BROKER_ERROR_CODES s"

definition broker_error_text :: "broker_error \<Rightarrow> string" where
  "broker_error_text c = the (map_of (map (\<lambda>(s, e). (e, s)) KNOWN_BROKER_ERROR_CODES) c)"

definition isKnownBrokerErrorCode :: "json \<Rightarrow> bool" where
  "isKnownBrokerErrorCode v = (case v of JStr s \<Rightarrow> broker_error_of_text s \<noteq> None | _ \<Rightarrow> False)"

datatype client_action = RestoreCloneRecovery | RequestFreshCapabilityViaPeerContact | NoNormativeAction

definition classifyBrokerErrorClientAction :: "json \<Rightarrow> client_action option" where
  "classifyBrokerErrorClientAction v =
     (case Option.bind (jstr v) broker_error_of_text of
        None \<Rightarrow> None
      | Some SEQ_COLLISION_DETECTED \<Rightarrow> Some RestoreCloneRecovery
      | Some CAPABILITY_EXPIRED \<Rightarrow> Some RequestFreshCapabilityViaPeerContact
      | Some _ \<Rightarrow> Some NoNormativeAction)"

text \<open>
  \<^verbatim>\<open>value.trim().length === 0\<close>: the text consists of white space and line terminators of
  JavaScript, in their UTF-8 forms.
\<close>

fun blank :: "string \<Rightarrow> bool" where
  "blank [] \<longleftrightarrow> True"
| "blank (c # cs) \<longleftrightarrow>
     (if c \<in> {CHR 0x09, CHR 0x0A, CHR 0x0B, CHR 0x0C, CHR 0x0D, CHR 0x20} then blank cs
      else case cs of
        b # r \<Rightarrow>
          if c = CHR 0xC2 \<and> b = CHR 0xA0 then blank r
          else (case r of
            a # r' \<Rightarrow>
              (c = CHR 0xE1 \<and> b = CHR 0x9A \<and> a = CHR 0x80 \<or>
               c = CHR 0xE2 \<and> b = CHR 0x80 \<and>
                 (CHR 0x80 \<le> a \<and> a \<le> CHR 0x8A \<or> a = CHR 0xA8 \<or> a = CHR 0xA9 \<or> a = CHR 0xAF) \<or>
               c = CHR 0xE2 \<and> b = CHR 0x81 \<and> a = CHR 0x9F \<or>
               c = CHR 0xE3 \<and> b = CHR 0x80 \<and> a = CHR 0x80 \<or>
               c = CHR 0xEF \<and> b = CHR 0xBB \<and> a = CHR 0xBF) \<and> blank r'
          | [] \<Rightarrow> False)
      | [] \<Rightarrow> False)"

text \<open>A parsed body is the record it was read from.\<close>

definition parseBrokerErrorBody :: "json \<Rightarrow> (broker_error \<times> json) option" where
  "parseBrokerErrorBody v =
     (case (Option.bind (jget_str ''code'' v) broker_error_of_text, jget_str ''message'' v) of
        (Some code, Some msg) \<Rightarrow> if blank msg then None else Some (code, v)
      | _ \<Rightarrow> None)"

record error_frame =
  ef_thid :: "string option"
  ef_code :: broker_error
  ef_body :: json

definition parseBrokerErrorControlFrame :: "json \<Rightarrow> error_frame option" where
  "parseBrokerErrorControlFrame v =
     (if \<not> exact_keys [''type'', ''thid'', ''body''] v \<or> jget ''type'' v \<noteq> Some (JStr ''error/1.0'') then None
      else case jget ''thid'' v of
        Some JNull \<Rightarrow>
          map_option (\<lambda>(c, b). \<lparr>ef_thid = None, ef_code = c, ef_body = b\<rparr>)
            (Option.bind (jget ''body'' v) parseBrokerErrorBody)
      | Some (JStr t) \<Rightarrow>
          if t = [] then None
          else map_option (\<lambda>(c, b). \<lparr>ef_thid = Some t, ef_code = c, ef_body = b\<rparr>)
            (Option.bind (jget ''body'' v) parseBrokerErrorBody)
      | _ \<Rightarrow> None)"

definition createBrokerErrorControlFrame :: "string option \<Rightarrow> json \<Rightarrow> json option" where
  "createBrokerErrorControlFrame thid body =
     (let v = JObj [(''type'', JStr ''error/1.0''),
                    (''thid'', case thid of None \<Rightarrow> JNull | Some t \<Rightarrow> JStr t), (''body'', body)] in
      if parseBrokerErrorControlFrame v = None then None else Some v)"

lemma broker_error_text_of [simp]: "broker_error_of_text (broker_error_text c) = Some c"
  by (cases c) (simp_all add: broker_error_of_text_def broker_error_text_def KNOWN_BROKER_ERROR_CODES_def)

lemma broker_error_of_text_SomeD: "broker_error_of_text s = Some c \<Longrightarrow> s = broker_error_text c"
  by (auto simp: broker_error_of_text_def broker_error_text_def KNOWN_BROKER_ERROR_CODES_def split: if_splits)

interpretation error_code: codec broker_error_text broker_error_of_text
  by unfold_locales simp

section \<open>Properties\<close>

text \<open>An error frame carries its code faithfully: a frame built for a code, a thread id and a message
  that is not blank parses back to exactly them, and it is refused for an empty thread id or a
  blank message; a text outside the catalogue is never a code.\<close>

theorem error_frame_roundtrip:
  "(case createBrokerErrorControlFrame thid
      (JObj ((''code'', JStr (broker_error_text c)) # (''message'', JStr msg) # extra)) of
      None \<Rightarrow> blank msg \<or> thid = Some []
    | Some v \<Rightarrow> \<not> blank msg \<and> thid \<noteq> Some [] \<and> parseBrokerErrorControlFrame v = Some
        \<lparr>ef_thid = thid, ef_code = c,
         ef_body = JObj ((''code'', JStr (broker_error_text c)) # (''message'', JStr msg) # extra)\<rparr>) \<and>
   (isKnownBrokerErrorCode (JStr s) \<longleftrightarrow> (\<exists>c. s = broker_error_text c))"
proof
  show "isKnownBrokerErrorCode (JStr s) \<longleftrightarrow> (\<exists>c. s = broker_error_text c)"
    by (auto simp: isKnownBrokerErrorCode_def dest: broker_error_of_text_SomeD)
qed (cases thid; simp add: createBrokerErrorControlFrame_def Let_def parseBrokerErrorControlFrame_def
      parseBrokerErrorBody_def exact_keys_def jget_str_def)

end
