(* ===== verification/BrokerAuth.thy ===== *)
theory BrokerAuth
  imports Jws BrokerError
begin

text \<open>
  The challenge-response authentication of a device with the broker:
  \<^verbatim>\<open>broker-auth-nonce.ts\<close>, \<^verbatim>\<open>broker-auth-transcript.ts\<close>,
  \<^verbatim>\<open>broker-registration-control-frames.ts\<close> and \<^verbatim>\<open>broker-challenge-response-frame.ts\<close> of
  \<^verbatim>\<open>protocol/sync\<close>. A thrown \<^verbatim>\<open>Error\<close> of a parser is \<open>None\<close>.
\<close>

section \<open>Nonces\<close>

definition BROKER_AUTH_NONCE_BYTES :: nat where "BROKER_AUTH_NONCE_BYTES = 32"
definition BROKER_AUTH_NONCE_BASE64URL_LENGTH :: nat where "BROKER_AUTH_NONCE_BASE64URL_LENGTH = 43"
definition BROKER_AUTH_NONCE_RETENTION_MS :: int where
  "BROKER_AUTH_NONCE_RETENTION_MS = 24 * 60 * 60 * 1000"

definition formatBrokerChallengeNonce :: "bytes \<Rightarrow> string option" where
  "formatBrokerChallengeNonce bs =
     (if length bs \<noteq> BROKER_AUTH_NONCE_BYTES then None else Some (encodeBase64Url bs))"

text \<open>The base64url parser of nonces and signatures: length, alphabet, and canonical form.\<close>

definition canonical_b64url :: "nat \<Rightarrow> nat \<Rightarrow> string \<Rightarrow> bytes option" where
  "canonical_b64url chars len s =
     (if length s \<noteq> chars \<or> \<not> b64url_text s then None
      else case decodeBase64Url s of
        None \<Rightarrow> None
      | Some bs \<Rightarrow> if length bs \<noteq> len then None
                   else if encodeBase64Url bs \<noteq> s then None else Some bs)"

definition parseBrokerChallengeNonce :: "string \<Rightarrow> (string \<times> bytes) option" where
  "parseBrokerChallengeNonce s =
     map_option (Pair s)
       (canonical_b64url BROKER_AUTH_NONCE_BASE64URL_LENGTH BROKER_AUTH_NONCE_BYTES s)"

datatype nonce_decision = NonceAccept string int | NonceReplay string

definition decideBrokerChallengeNonceConsumption ::
  "string \<Rightarrow> string set \<Rightarrow> int \<Rightarrow> nonce_decision" where
  "decideBrokerChallengeNonceConsumption nonce consumed nowMs =
     (if nonce \<in> consumed then NonceReplay nonce
      else NonceAccept nonce (nowMs + BROKER_AUTH_NONCE_RETENTION_MS))"

section \<open>Registration frames\<close>

definition nonempty_str :: "json option \<Rightarrow> string option" where
  "nonempty_str v = (case v of Some (JStr s) \<Rightarrow> if s = [] then None else Some s | _ \<Rightarrow> None)"

definition uuid_str :: "json option \<Rightarrow> string option" where
  "uuid_str v = (case v of Some (JStr s) \<Rightarrow> if isCanonicalUuidV4 s then Some s else None | _ \<Rightarrow> None)"

definition is_frame :: "string \<Rightarrow> string list \<Rightarrow> json \<Rightarrow> bool" where
  "is_frame type keys v \<longleftrightarrow> exact_keys keys v \<and> jget ''type'' v = Some (JStr type)"

definition parseBrokerRegisterControlFrame :: "json \<Rightarrow> (string \<times> string) option" where
  "parseBrokerRegisterControlFrame v =
     (if \<not> is_frame ''register'' [''type'', ''did'', ''deviceId''] v then None
      else do {
        did \<leftarrow> nonempty_str (jget ''did'' v);
        deviceId \<leftarrow> uuid_str (jget ''deviceId'' v);
        Some (did, deviceId) })"

definition register_frame :: "string \<Rightarrow> string \<Rightarrow> json" where
  "register_frame did deviceId =
     JObj [(''type'', JStr ''register''), (''did'', JStr did), (''deviceId'', JStr deviceId)]"

definition createBrokerRegisterControlFrame :: "string \<Rightarrow> string \<Rightarrow> json option" where
  "createBrokerRegisterControlFrame did deviceId =
     map_option (\<lambda>(did, deviceId). register_frame did deviceId)
       (parseBrokerRegisterControlFrame (register_frame did deviceId))"

definition parseBrokerChallengeControlFrame :: "json \<Rightarrow> (string \<times> bytes) option" where
  "parseBrokerChallengeControlFrame v =
     (if \<not> is_frame ''challenge'' [''type'', ''nonce''] v then None
      else Option.bind (jget_str ''nonce'' v) parseBrokerChallengeNonce)"

definition challenge_frame :: "string \<Rightarrow> json" where
  "challenge_frame nonce = JObj [(''type'', JStr ''challenge''), (''nonce'', JStr nonce)]"

definition createBrokerChallengeControlFrame :: "bytes \<Rightarrow> json option" where
  "createBrokerChallengeControlFrame bs = do {
     nonce \<leftarrow> formatBrokerChallengeNonce bs;
     (n, _) \<leftarrow> parseBrokerChallengeControlFrame (challenge_frame nonce);
     Some (challenge_frame n) }"

definition parseBrokerRegisteredControlFrame :: "json \<Rightarrow> (string \<times> string \<times> bool) option" where
  "parseBrokerRegisteredControlFrame v =
     (if \<not> is_frame ''registered'' [''type'', ''did'', ''deviceId'', ''isNewDevice''] v then None
      else case jget ''isNewDevice'' v of
        Some (JBool b) \<Rightarrow> do {
          did \<leftarrow> nonempty_str (jget ''did'' v);
          deviceId \<leftarrow> uuid_str (jget ''deviceId'' v);
          Some (did, deviceId, b) }
      | _ \<Rightarrow> None)"

definition registered_frame :: "string \<Rightarrow> string \<Rightarrow> bool \<Rightarrow> json" where
  "registered_frame did deviceId isNew =
     JObj [(''type'', JStr ''registered''), (''did'', JStr did), (''deviceId'', JStr deviceId),
           (''isNewDevice'', JBool isNew)]"

definition createBrokerRegisteredControlFrame :: "string \<Rightarrow> string \<Rightarrow> bool \<Rightarrow> json option" where
  "createBrokerRegisteredControlFrame did deviceId isNew =
     map_option (\<lambda>(did, deviceId, b). registered_frame did deviceId b)
       (parseBrokerRegisteredControlFrame (registered_frame did deviceId isNew))"

section \<open>The transcript\<close>

record transcript =
  tr_did :: string
  tr_device :: string
  tr_nonce :: string

definition canonicalBrokerAuthTranscriptInput ::
  "json option \<Rightarrow> json option \<Rightarrow> json option \<Rightarrow> transcript option" where
  "canonicalBrokerAuthTranscriptInput did deviceId nonce = do {
     d \<leftarrow> nonempty_str did;
     dev \<leftarrow> uuid_str deviceId;
     n \<leftarrow> Option.bind nonce jstr;
     (c, _) \<leftarrow> parseBrokerChallengeNonce n;
     Some \<lparr>tr_did = d, tr_device = dev, tr_nonce = c\<rparr> }"

definition buildBrokerAuthTranscript ::
  "json option \<Rightarrow> json option \<Rightarrow> json option \<Rightarrow> transcript option" where
  "buildBrokerAuthTranscript did deviceId nonce = canonicalBrokerAuthTranscriptInput did deviceId nonce"

definition transcript_json :: "transcript \<Rightarrow> json" where
  "transcript_json t = JObj [(''protocol'', JStr ''wot/broker-auth/v1''), (''type'', JStr ''challenge-response''),
     (''did'', JStr (tr_did t)), (''deviceId'', JStr (tr_device t)), (''nonce'', JStr (tr_nonce t))]"

definition createBrokerAuthTranscriptSigningBytes :: "runtime \<Rightarrow> transcript \<Rightarrow> bytes option" where
  "createBrokerAuthTranscriptSigningBytes rt t = do {
     c \<leftarrow> canonicalBrokerAuthTranscriptInput (Some (JStr (tr_did t))) (Some (JStr (tr_device t))) (Some (JStr (tr_nonce t)));
     canonicalizeToBytes rt (transcript_json c) }"

text \<open>A pending challenge and a candidate response; \<open>Inl None\<close> is an exception.\<close>

record pending_challenge =
  pc_did :: string
  pc_device :: string
  pc_nonce :: string

definition pending_transcript :: "pending_challenge \<Rightarrow> transcript option" where
  "pending_transcript pc =
     canonicalBrokerAuthTranscriptInput (Some (JStr (pc_did pc))) (Some (JStr (pc_device pc))) (Some (JStr (pc_nonce pc)))"

definition classifyBrokerAuthChallengeResponseBinding ::
  "runtime \<Rightarrow> pending_challenge \<Rightarrow> json option \<Rightarrow> json option \<Rightarrow> json option \<Rightarrow> json option \<Rightarrow>
   (broker_error + transcript \<times> bytes) option" where
  "classifyBrokerAuthChallengeResponseBinding rt pc type did deviceId nonce =
     (case pending_transcript pc of
        None \<Rightarrow> None
      | Some p \<Rightarrow>
          (if type \<noteq> Some (JStr ''challenge-response'') then Some (Inl MALFORMED_MESSAGE)
           else case canonicalBrokerAuthTranscriptInput did deviceId nonce of
             None \<Rightarrow> Some (Inl MALFORMED_MESSAGE)
           | Some c \<Rightarrow>
               if tr_did c \<noteq> tr_did p \<or> tr_device c \<noteq> tr_device p \<or> tr_nonce c \<noteq> tr_nonce p
               then Some (Inl AUTH_INVALID)
               else map_option (\<lambda>b. Inr (c, b)) (createBrokerAuthTranscriptSigningBytes rt c)))"

section \<open>The challenge response\<close>

definition formatBrokerChallengeResponseSignature :: "bytes \<Rightarrow> string option" where
  "formatBrokerChallengeResponseSignature bs =
     (if length bs \<noteq> 64 then None else Some (encodeBase64Url bs))"

definition parseBrokerChallengeResponseSignature :: "json option \<Rightarrow> (string \<times> bytes) option" where
  "parseBrokerChallengeResponseSignature v = do {
     s \<leftarrow> Option.bind v jstr;
     map_option (Pair s) (canonical_b64url 86 64 s) }"

record challenge_response =
  cr_transcript :: transcript
  cr_signature :: string
  cr_signature_bytes :: bytes
  cr_signing_bytes :: bytes

definition parseBrokerChallengeResponseControlFrame :: "runtime \<Rightarrow> json \<Rightarrow> challenge_response option" where
  "parseBrokerChallengeResponseControlFrame rt v =
     (if \<not> is_frame ''challenge-response'' [''type'', ''did'', ''deviceId'', ''nonce'', ''signature''] v then None
      else do {
        (sig, sig_bytes) \<leftarrow> parseBrokerChallengeResponseSignature (jget ''signature'' v);
        t \<leftarrow> buildBrokerAuthTranscript (jget ''did'' v) (jget ''deviceId'' v) (jget ''nonce'' v);
        b \<leftarrow> createBrokerAuthTranscriptSigningBytes rt t;
        Some \<lparr>cr_transcript = t, cr_signature = sig, cr_signature_bytes = sig_bytes, cr_signing_bytes = b\<rparr> })"

definition challenge_response_frame :: "string \<Rightarrow> string \<Rightarrow> string \<Rightarrow> string \<Rightarrow> json" where
  "challenge_response_frame did deviceId nonce sig =
     JObj [(''type'', JStr ''challenge-response''), (''did'', JStr did), (''deviceId'', JStr deviceId),
           (''nonce'', JStr nonce), (''signature'', JStr sig)]"

definition createBrokerChallengeResponseControlFrame ::
  "runtime \<Rightarrow> string \<Rightarrow> string \<Rightarrow> string \<Rightarrow> bytes \<Rightarrow> json option" where
  "createBrokerChallengeResponseControlFrame rt did deviceId nonce signature = do {
     sig \<leftarrow> formatBrokerChallengeResponseSignature signature;
     p \<leftarrow> parseBrokerChallengeResponseControlFrame rt (challenge_response_frame did deviceId nonce sig);
     Some (challenge_response_frame (tr_did (cr_transcript p)) (tr_device (cr_transcript p))
       (tr_nonce (cr_transcript p)) (cr_signature p)) }"

text \<open>\<open>None\<close>: the verifier adapter (or the key check) throws, which the caller sees.\<close>

definition verifyBrokerChallengeResponseControlFrame ::
  "runtime \<Rightarrow> json \<Rightarrow> pending_challenge \<Rightarrow> bytes \<Rightarrow> (broker_error + challenge_response) option" where
  "verifyBrokerChallengeResponseControlFrame rt frame pc publicKey =
     (if length publicKey \<noteq> 32 then None
      else case parseBrokerChallengeResponseControlFrame rt frame of
        None \<Rightarrow> Some (Inl MALFORMED_MESSAGE)
      | Some parsed \<Rightarrow>
          let t = cr_transcript parsed in
          (case classifyBrokerAuthChallengeResponseBinding rt pc (jget ''type'' frame)
                  (Some (JStr (tr_did t))) (Some (JStr (tr_device t))) (Some (JStr (tr_nonce t))) of
             None \<Rightarrow> Some (Inl MALFORMED_MESSAGE)
           | Some (Inl e) \<Rightarrow> Some (Inl e)
           | Some (Inr (_, signing)) \<Rightarrow>
               (case verify_ed25519 rt signing (cr_signature_bytes parsed) publicKey of
                  None \<Rightarrow> None
                | Some ok \<Rightarrow> Some (if ok then Inr parsed else Inl AUTH_INVALID))))"

section \<open>Lemmas\<close>

lemma canonical_b64url_Some:
  "canonical_b64url chars len s = Some bs \<longleftrightarrow>
     s = encodeBase64Url bs \<and> length bs = len \<and> length s = chars \<and> b64url_text s"
proof (cases "decodeBase64Url s")
  case None
  then have "s \<noteq> encodeBase64Url bs" by auto
  then show ?thesis using None by (simp add: canonical_b64url_def)
next
  case (Some x)
  have "encodeBase64Url x = s \<Longrightarrow> x = bs \<longleftrightarrow> s = encodeBase64Url bs"
    using base64url.enc_inj [of x bs] by auto
  moreover have "s = encodeBase64Url bs \<Longrightarrow> x = bs" using Some by simp
  ultimately show ?thesis using Some by (auto simp: canonical_b64url_def simp del: decodeBase64Url_encode)
qed

lemma to_url_b64url: "c \<in> set base64_alphabet \<Longrightarrow> is_b64url_char (to_url c)"
proof -
  have "list_all (\<lambda>c. is_b64url_char (to_url c)) base64_alphabet" by code_simp
  then show "c \<in> set base64_alphabet \<Longrightarrow> ?thesis" unfolding list_all_iff by blast
qed

lemma b64url_text_encode: "bs \<noteq> [] \<Longrightarrow> b64url_text (encodeBase64Url bs)"
  using to_url_b64url [OF b64_core_alphabet [of _ bs]] encodeBase64Url_empty [of bs]
  by (auto simp: b64url_text_def list_all_iff encodeBase64Url_core)

lemma length_encodeBase64Url: "length (encodeBase64Url bs) = (length bs * 4 + 2) div 3"
  by (simp add: encodeBase64Url_core length_sextets)

lemma nonce_parse_iff:
  "parseBrokerChallengeNonce s = Some (c, bs) \<longleftrightarrow> c = s \<and> formatBrokerChallengeNonce bs = Some s"
proof -
  have "length bs = 32 \<Longrightarrow> length (encodeBase64Url bs) = 43 \<and> b64url_text (encodeBase64Url bs)"
    using b64url_text_encode [of bs] by (cases bs) (simp_all add: length_encodeBase64Url)
  then show ?thesis
    by (auto simp: parseBrokerChallengeNonce_def canonical_b64url_Some formatBrokerChallengeNonce_def
        BROKER_AUTH_NONCE_BASE64URL_LENGTH_def BROKER_AUTH_NONCE_BYTES_def)
qed

lemma nonempty_str_Some: "nonempty_str v = Some s \<longleftrightarrow> v = Some (JStr s) \<and> s \<noteq> []"
  by (auto simp: nonempty_str_def split: option.splits json.splits)

lemma uuid_str_Some: "uuid_str v = Some s \<longleftrightarrow> v = Some (JStr s) \<and> isCanonicalUuidV4 s"
  by (auto simp: uuid_str_def split: option.splits json.splits)

definition transcript_ok :: "transcript \<Rightarrow> bool" where
  "transcript_ok t \<longleftrightarrow> tr_did t \<noteq> [] \<and> isCanonicalUuidV4 (tr_device t) \<and>
     (\<exists>bs. formatBrokerChallengeNonce bs = Some (tr_nonce t))"

lemma canonical_input_Some:
  "canonicalBrokerAuthTranscriptInput did dev nonce = Some t \<longleftrightarrow>
     did = Some (JStr (tr_did t)) \<and> dev = Some (JStr (tr_device t)) \<and> nonce = Some (JStr (tr_nonce t)) \<and>
     transcript_ok t"
  by (auto simp: canonicalBrokerAuthTranscriptInput_def bind_eq_Some_conv nonempty_str_Some uuid_str_Some
      transcript_ok_def nonce_parse_iff dest!: jstr_SomeD)

lemma unat_of_char: "unat (of_char c :: 8 word) = of_char c"
proof -
  have "(of_char c :: 8 word) = word_of_nat (of_char c)" by (rule of_nat_of_char [symmetric])
  then show ?thesis by (simp only: unat_byte nat_of_char_less_256)
qed

lemma utf8_encode_inject [simp]: "utf8_encode s = utf8_encode t \<longleftrightarrow> s = t"
proof -
  have "inj (of_char :: char \<Rightarrow> 8 word)"
  proof (rule injI)
    fix c d :: char assume "(of_char c :: 8 word) = of_char d"
    then have "unat (of_char c :: 8 word) = unat (of_char d :: 8 word)" by simp
    then have "(of_char c :: nat) = of_char d" by (simp only: unat_of_char)
    then show "c = d" by (metis char_of_char)
  qed
  then show ?thesis by (simp add: utf8_encode_def inj_map_eq_map)
qed

text \<open>The signing bytes determine the transcript.\<close>

lemma transcript_bytes:
  "canonicalizeToBytes rt (transcript_json t) = Some (utf8_encode
     (''{'' @ json_quote ''deviceId'' @ '':'' @ json_quote (tr_device t) @ '','' @
      json_quote ''did'' @ '':'' @ json_quote (tr_did t) @ '','' @
      json_quote ''nonce'' @ '':'' @ json_quote (tr_nonce t) @ '','' @
      json_quote ''protocol'' @ '':'' @ json_quote ''wot/broker-auth/v1'' @ '','' @
      json_quote ''type'' @ '':'' @ json_quote ''challenge-response'' @ ''}''))"
  by (simp add: canonicalizeToBytes_def transcript_json_def)

lemma transcript_bytes_inject:
  "canonicalizeToBytes rt (transcript_json t) = canonicalizeToBytes rt' (transcript_json u) \<longleftrightarrow> t = u"
proof
  assume "canonicalizeToBytes rt (transcript_json t) = canonicalizeToBytes rt' (transcript_json u)"
  then show "t = u"
    by (cases t; cases u) (simp add: transcript_bytes json_quote_append_inject del: utf8_encode_append)
qed (simp add: transcript_bytes)

lemma signing_bytes_ok:
  "transcript_ok t \<Longrightarrow> createBrokerAuthTranscriptSigningBytes rt t = canonicalizeToBytes rt (transcript_json t)"
proof -
  assume ok: "transcript_ok t"
  have "canonicalBrokerAuthTranscriptInput (Some (JStr (tr_did t))) (Some (JStr (tr_device t)))
      (Some (JStr (tr_nonce t))) = Some t"
    using ok by (simp add: canonical_input_Some)
  then show ?thesis by (simp add: createBrokerAuthTranscriptSigningBytes_def)
qed

lemma classify_accepted:
  assumes "classifyBrokerAuthChallengeResponseBinding rt pc type did dev nonce = Some (Inr (t, b))"
  shows "pending_transcript pc = Some t \<and> transcript_ok t \<and> type = Some (JStr ''challenge-response'') \<and>
    canonicalizeToBytes rt (transcript_json t) = Some b"
proof -
  obtain p c where p: "pending_transcript pc = Some p"
    and ty: "type = Some (JStr ''challenge-response'')"
    and c: "canonicalBrokerAuthTranscriptInput did dev nonce = Some c"
    and eq: "tr_did c = tr_did p" "tr_device c = tr_device p" "tr_nonce c = tr_nonce p"
    and b: "createBrokerAuthTranscriptSigningBytes rt c = Some b" and t: "t = c"
    using assms by (auto simp: classifyBrokerAuthChallengeResponseBinding_def split: option.splits if_splits)
  have "c = p" using eq by (cases c; cases p) simp
  moreover have "transcript_ok c" using c by (simp add: canonical_input_Some)
  ultimately show ?thesis using p ty b t by (simp add: signing_bytes_ok)
qed

lemma classify_matching:
  assumes "pending_transcript pc = Some t"
  shows "classifyBrokerAuthChallengeResponseBinding rt pc (Some (JStr ''challenge-response''))
      (Some (JStr (tr_did t))) (Some (JStr (tr_device t))) (Some (JStr (tr_nonce t))) =
    map_option (\<lambda>b. Inr (t, b)) (canonicalizeToBytes rt (transcript_json t))"
proof -
  have ok: "transcript_ok t"
    using assms by (simp add: pending_transcript_def canonical_input_Some)
  then have "canonicalBrokerAuthTranscriptInput (Some (JStr (tr_did t))) (Some (JStr (tr_device t)))
      (Some (JStr (tr_nonce t))) = Some t"
    by (simp add: canonical_input_Some)
  then show ?thesis
    using assms ok by (simp add: classifyBrokerAuthChallengeResponseBinding_def signing_bytes_ok)
qed

section \<open>Properties\<close>

text \<open>A nonce has one accepted text: a text is accepted exactly when it is the unpadded base64url form of
  32 bytes, and it is its own canonical form, so a consumed nonce cannot come back in another
  spelling.\<close>

theorem nonce_one_spelling:
  "(parseBrokerChallengeNonce s = Some (c, bs) \<longleftrightarrow> c = s \<and> formatBrokerChallengeNonce bs = Some s) \<and>
   (formatBrokerChallengeNonce bs = Some s \<and> formatBrokerChallengeNonce bs' = Some s \<longrightarrow> bs = bs') \<and>
   (length bs = 32 \<longrightarrow> (\<exists>t. formatBrokerChallengeNonce bs = Some t \<and> parseBrokerChallengeNonce t = Some (t, bs)))"
  using base64url.enc_inj [of bs bs']
  by (auto simp: nonce_parse_iff formatBrokerChallengeNonce_def BROKER_AUTH_NONCE_BYTES_def)

theorem nonce_one_spelling_witness:
  "parseBrokerChallengeNonce (encodeBase64Url (replicate 32 7)) = Some (encodeBase64Url (replicate 32 7), replicate 32 7)"
  using nonce_one_spelling [of "encodeBase64Url (replicate 32 7)" "encodeBase64Url (replicate 32 7)" "replicate 32 7" "[]"]
  by (simp add: formatBrokerChallengeNonce_def BROKER_AUTH_NONCE_BYTES_def)

text \<open>What an accepted response consists of.\<close>

lemma challenge_response_parts:
  assumes "verifyBrokerChallengeResponseControlFrame rt frame pc key = Some (Inr r)"
  shows "length key = 32 \<and> cr_transcript r = \<lparr>tr_did = pc_did pc, tr_device = pc_device pc, tr_nonce = pc_nonce pc\<rparr> \<and>
    transcript_ok (cr_transcript r) \<and>
    jget ''did'' frame = Some (JStr (pc_did pc)) \<and> jget ''deviceId'' frame = Some (JStr (pc_device pc)) \<and>
    jget ''nonce'' frame = Some (JStr (pc_nonce pc)) \<and>
    (\<exists>b. canonicalizeToBytes rt (transcript_json (cr_transcript r)) = Some b \<and>
       verify_ed25519 rt b (cr_signature_bytes r) key = Some True \<and>
       (\<forall>t. canonicalizeToBytes rt (transcript_json t) = Some b \<longrightarrow> t = cr_transcript r))"
proof -
  obtain t b where parsed: "parseBrokerChallengeResponseControlFrame rt frame = Some r"
    and len: "length key = 32"
    and cl: "classifyBrokerAuthChallengeResponseBinding rt pc (jget ''type'' frame)
      (Some (JStr (tr_did (cr_transcript r)))) (Some (JStr (tr_device (cr_transcript r))))
      (Some (JStr (tr_nonce (cr_transcript r)))) = Some (Inr (t, b))"
    and ver: "verify_ed25519 rt b (cr_signature_bytes r) key = Some True"
    using assms
    by (auto simp: verifyBrokerChallengeResponseControlFrame_def Let_def split: option.splits sum.splits if_splits)
  note acc = classify_accepted [OF cl]
  have "buildBrokerAuthTranscript (jget ''did'' frame) (jget ''deviceId'' frame) (jget ''nonce'' frame) =
      Some (cr_transcript r)"
    using parsed by (auto simp: parseBrokerChallengeResponseControlFrame_def bind_eq_Some_conv split: if_splits)
  then have build: "jget ''did'' frame = Some (JStr (tr_did (cr_transcript r)))"
      "jget ''deviceId'' frame = Some (JStr (tr_device (cr_transcript r)))"
      "jget ''nonce'' frame = Some (JStr (tr_nonce (cr_transcript r)))" and ok: "transcript_ok (cr_transcript r)"
    by (auto simp: buildBrokerAuthTranscript_def canonical_input_Some)
  have "canonicalBrokerAuthTranscriptInput (Some (JStr (tr_did (cr_transcript r))))
      (Some (JStr (tr_device (cr_transcript r)))) (Some (JStr (tr_nonce (cr_transcript r)))) = Some (cr_transcript r)"
    using ok by (simp add: canonical_input_Some)
  then have t: "t = cr_transcript r"
    using cl by (auto simp: classifyBrokerAuthChallengeResponseBinding_def split: option.splits if_splits)
  have pc: "cr_transcript r = \<lparr>tr_did = pc_did pc, tr_device = pc_device pc, tr_nonce = pc_nonce pc\<rparr>"
    using acc t by (cases "cr_transcript r") (auto simp: pending_transcript_def canonical_input_Some)
  have bytes: "canonicalizeToBytes rt (transcript_json (cr_transcript r)) = Some b" using acc t by simp
  then have only: "\<forall>t. canonicalizeToBytes rt (transcript_json t) = Some b \<longrightarrow> t = cr_transcript r"
    by (metis transcript_bytes_inject)
  have fields: "jget ''did'' frame = Some (JStr (pc_did pc))" "jget ''deviceId'' frame = Some (JStr (pc_device pc))"
      "jget ''nonce'' frame = Some (JStr (pc_nonce pc))"
    using build unfolding pc by simp_all
  show ?thesis by (intro conjI exI [of _ b]) (fact len pc ok fields bytes ver only)+
qed

text \<open>An accepted challenge response proves the key for exactly the pending challenge: the pending
  DID, device and nonce are well formed, the frame carries them, and the verifier accepted the
  frame's signature on their canonical transcript, whose bytes no other transcript has.\<close>

theorem challenge_response_sound:
  assumes "verifyBrokerChallengeResponseControlFrame rt frame pc key = Some (Inr r)"
  shows "length key = 32 \<and> cr_transcript r = \<lparr>tr_did = pc_did pc, tr_device = pc_device pc, tr_nonce = pc_nonce pc\<rparr> \<and>
    transcript_ok (cr_transcript r) \<and>
    jget ''did'' frame = Some (JStr (pc_did pc)) \<and> jget ''deviceId'' frame = Some (JStr (pc_device pc)) \<and>
    jget ''nonce'' frame = Some (JStr (pc_nonce pc)) \<and>
    (\<exists>b. canonicalizeToBytes rt (transcript_json (cr_transcript r)) = Some b \<and>
       verify_ed25519 rt b (cr_signature_bytes r) key = Some True \<and>
       (\<forall>t. canonicalizeToBytes rt (transcript_json t) = Some b \<longrightarrow> t = cr_transcript r))"
  by (rule challenge_response_parts [OF assms])

definition sample_uuid :: string where
  "sample_uuid = ''01234567-89ab-4cde-8f01-23456789abcd''"

definition sample_nonce :: string where
  "sample_nonce = ''AAAAAAAAAAAAAAAAAAAAAAAAAAAAAAAAAAAAAAAAAAA''"

definition sample_signature :: string where
  "sample_signature = ''AAAAAAAAAAAAAAAAAAAAAAAAAAAAAAAAAAAAAAAAAAAAAAAAAAAAAAAAAAAAAAAAAAAAAAAAAAAAAAAAAAAAAA''"

lemma sample_codes:
  "encodeBase64Url (replicate 32 0) = sample_nonce" "encodeBase64Url (replicate 64 0) = sample_signature"
  "isCanonicalUuidV4 sample_uuid"
  by (code_simp, code_simp, code_simp)

lemma sample_parses:
  "parseBrokerChallengeNonce sample_nonce = Some (sample_nonce, replicate 32 0)"
  "parseBrokerChallengeResponseSignature (Some (JStr sample_signature)) = Some (sample_signature, replicate 64 0)"
proof -
  have "formatBrokerChallengeNonce (replicate 32 0) = Some sample_nonce"
    unfolding formatBrokerChallengeNonce_def BROKER_AUTH_NONCE_BYTES_def sample_codes(1) by simp
  then show "parseBrokerChallengeNonce sample_nonce = Some (sample_nonce, replicate 32 0)"
    by (simp only: nonce_parse_iff)
  have "b64url_text sample_signature" "length sample_signature = 86" by (code_simp, code_simp)
  then have "canonical_b64url 86 64 sample_signature = Some (replicate 64 0)"
    by (simp add: canonical_b64url_Some sample_codes(2))
  then show "parseBrokerChallengeResponseSignature (Some (JStr sample_signature)) = Some (sample_signature, replicate 64 0)"
    by (simp add: parseBrokerChallengeResponseSignature_def)
qed

definition accepting_runtime :: runtime where
  "accepting_runtime = \<lparr>json_parse = (\<lambda>_. None), number_text = (\<lambda>_. ''0''), valid_url = (\<lambda>_. True),
     verify_ed25519 = (\<lambda>m s k. Some (s = replicate 64 0)), sha256 = (\<lambda>b. b)\<rparr>"

definition sample_pending :: pending_challenge where
  "sample_pending = \<lparr>pc_did = ''did:key:a'', pc_device = sample_uuid, pc_nonce = sample_nonce\<rparr>"

lemma sample_pending_transcript:
  "pending_transcript sample_pending = Some \<lparr>tr_did = ''did:key:a'', tr_device = sample_uuid, tr_nonce = sample_nonce\<rparr>"
  by (auto simp: pending_transcript_def canonical_input_Some sample_pending_def transcript_ok_def sample_codes
      formatBrokerChallengeNonce_def BROKER_AUTH_NONCE_BYTES_def intro!: exI [of _ "replicate 32 0"])

lemma challenge_response_accepts:
  assumes pending: "pending_transcript pc = Some t" and sig: "length sig = 64" and key: "length key = 32"
    and bytes: "canonicalizeToBytes rt (transcript_json t) = Some b"
    and frame: "frame = challenge_response_frame (tr_did t) (tr_device t) (tr_nonce t) (encodeBase64Url sig)"
  shows "verifyBrokerChallengeResponseControlFrame rt frame pc key =
    (case verify_ed25519 rt b sig key of
       None \<Rightarrow> None
     | Some ok \<Rightarrow> Some (if ok then Inr \<lparr>cr_transcript = t, cr_signature = encodeBase64Url sig,
         cr_signature_bytes = sig, cr_signing_bytes = b\<rparr> else Inl AUTH_INVALID))"
proof -
  have ok: "transcript_ok t" using pending by (simp add: pending_transcript_def canonical_input_Some)
  have "sig \<noteq> []" using sig by auto
  then have "canonical_b64url 86 64 (encodeBase64Url sig) = Some sig"
    using sig b64url_text_encode [of sig] by (simp add: canonical_b64url_Some length_encodeBase64Url)
  then have s: "parseBrokerChallengeResponseSignature (Some (JStr (encodeBase64Url sig))) = Some (encodeBase64Url sig, sig)"
    by (simp add: parseBrokerChallengeResponseSignature_def)
  have t: "buildBrokerAuthTranscript (Some (JStr (tr_did t))) (Some (JStr (tr_device t))) (Some (JStr (tr_nonce t))) = Some t"
    using ok by (simp add: buildBrokerAuthTranscript_def canonical_input_Some)
  have parsed: "parseBrokerChallengeResponseControlFrame rt frame = Some \<lparr>cr_transcript = t,
      cr_signature = encodeBase64Url sig, cr_signature_bytes = sig, cr_signing_bytes = b\<rparr>"
    using s t signing_bytes_ok [OF ok, of rt] bytes
    by (simp add: frame parseBrokerChallengeResponseControlFrame_def challenge_response_frame_def
        is_frame_def exact_keys_def)
  have ty: "jget ''type'' frame = Some (JStr ''challenge-response'')"
    by (simp add: frame challenge_response_frame_def)
  show ?thesis
    using key classify_matching [OF pending, of rt] bytes
    by (simp add: verifyBrokerChallengeResponseControlFrame_def parsed ty split: option.splits)
qed

theorem challenge_response_sound_witness:
  "\<exists>r b. verifyBrokerChallengeResponseControlFrame accepting_runtime
      (challenge_response_frame ''did:key:a'' sample_uuid sample_nonce (encodeBase64Url (replicate 64 0)))
      sample_pending (replicate 32 1) = Some (Inr r) \<and>
    verify_ed25519 accepting_runtime b (cr_signature_bytes r) (replicate 32 1) = Some True"
proof -
  let ?t = "\<lparr>tr_did = ''did:key:a'', tr_device = sample_uuid, tr_nonce = sample_nonce\<rparr>"
  obtain b where b: "canonicalizeToBytes accepting_runtime (transcript_json ?t) = Some b"
    by (simp add: transcript_bytes)
  have "verifyBrokerChallengeResponseControlFrame accepting_runtime
      (challenge_response_frame ''did:key:a'' sample_uuid sample_nonce (encodeBase64Url (replicate 64 0)))
      sample_pending (replicate 32 1) = Some (Inr \<lparr>cr_transcript = ?t, cr_signature = encodeBase64Url (replicate 64 0),
        cr_signature_bytes = replicate 64 0, cr_signing_bytes = b\<rparr>)"
    using challenge_response_accepts [OF sample_pending_transcript, of "replicate 64 0" "replicate 32 1" accepting_runtime b]
      b by (simp add: accepting_runtime_def)
  with challenge_response_sound [OF this] show ?thesis by blast
qed

text \<open>The response a device builds for its pending challenge is parsed and matched: it is accepted when
  the verifier accepts its signature, refused with AUTH_INVALID when the verifier does not, and
  an exception of the verifier reaches the caller.\<close>

theorem challenge_response_complete:
  assumes pending: "pending_transcript pc = Some t" and sig: "length sig = 64" and key: "length key = 32"
  shows "createBrokerChallengeResponseControlFrame rt (pc_did pc) (pc_device pc) (pc_nonce pc) sig =
      Some (challenge_response_frame (pc_did pc) (pc_device pc) (pc_nonce pc) (encodeBase64Url sig)) \<and>
    (\<exists>b. canonicalizeToBytes rt (transcript_json t) = Some b \<and>
     verifyBrokerChallengeResponseControlFrame rt
       (challenge_response_frame (pc_did pc) (pc_device pc) (pc_nonce pc) (encodeBase64Url sig)) pc key =
     (case verify_ed25519 rt b sig key of
        None \<Rightarrow> None
      | Some ok \<Rightarrow> Some (if ok then Inr \<lparr>cr_transcript = t, cr_signature = encodeBase64Url sig,
          cr_signature_bytes = sig, cr_signing_bytes = b\<rparr> else Inl AUTH_INVALID)))"
proof -
  have t: "pc_did pc = tr_did t" "pc_device pc = tr_device t" "pc_nonce pc = tr_nonce t" and ok: "transcript_ok t"
    using pending by (simp_all add: pending_transcript_def canonical_input_Some)
  obtain b where b: "canonicalizeToBytes rt (transcript_json t) = Some b" by (simp add: transcript_bytes)
  have "sig \<noteq> []" using sig by auto
  then have "canonical_b64url 86 64 (encodeBase64Url sig) = Some sig"
    using sig b64url_text_encode [of sig] by (simp add: canonical_b64url_Some length_encodeBase64Url)
  moreover have "buildBrokerAuthTranscript (Some (JStr (tr_did t))) (Some (JStr (tr_device t))) (Some (JStr (tr_nonce t))) = Some t"
    using ok by (simp add: buildBrokerAuthTranscript_def canonical_input_Some)
  ultimately have "createBrokerChallengeResponseControlFrame rt (tr_did t) (tr_device t) (tr_nonce t) sig =
      Some (challenge_response_frame (tr_did t) (tr_device t) (tr_nonce t) (encodeBase64Url sig))"
    using sig signing_bytes_ok [OF ok, of rt] b
    by (simp add: createBrokerChallengeResponseControlFrame_def formatBrokerChallengeResponseSignature_def
        parseBrokerChallengeResponseControlFrame_def parseBrokerChallengeResponseSignature_def
        challenge_response_frame_def is_frame_def exact_keys_def)
  then show ?thesis
    using challenge_response_accepts [OF pending sig key b refl] b by (simp add: t)
qed

theorem challenge_response_complete_witness:
  "\<exists>r. verifyBrokerChallengeResponseControlFrame accepting_runtime
      (challenge_response_frame ''did:key:a'' sample_uuid sample_nonce (encodeBase64Url (replicate 64 1)))
      sample_pending (replicate 32 1) = Some (Inl AUTH_INVALID) \<and>
    verifyBrokerChallengeResponseControlFrame accepting_runtime
      (challenge_response_frame ''did:key:a'' sample_uuid sample_nonce (encodeBase64Url (replicate 64 0)))
      sample_pending (replicate 32 1) = Some (Inr r)"
proof -
  have len: "length (replicate 64 (1 :: 8 word)) = 64" "length (replicate 64 (0 :: 8 word)) = 64"
    "length (replicate 32 (1 :: 8 word)) = 32" by simp_all
  have "replicate 64 (1 :: 8 word) \<noteq> replicate 64 0" by simp
  then show ?thesis
    using challenge_response_complete [OF sample_pending_transcript len(1,3), of accepting_runtime]
      challenge_response_complete [OF sample_pending_transcript len(2,3), of accepting_runtime]
    by (auto simp: accepting_runtime_def sample_pending_def)
qed

end
