(* ===== verification/AdminFrames.thy ===== *)
theory AdminFrames
  imports BrokerAuth DocLog
begin

text \<open>
  The signed management frames of the broker: \<^verbatim>\<open>broker-admin-messages.ts\<close>
  (space-register, space-rotate, admin-add, admin-remove),
  \<^verbatim>\<open>broker-device-revoke-control-frame.ts\<close>, \<^verbatim>\<open>device-revocation-disposition.ts\<close>,
  \<^verbatim>\<open>broker-device-registration-disposition.ts\<close>,
  \<^verbatim>\<open>present-capability-control-frame.ts\<close> and \<^verbatim>\<open>control-frame-doc-id.ts\<close>. Each frame is a
  closed object \<^verbatim>\<open>{ type, <x>Jws }\<close> around a JWS whose payload is the claim. A parser that
  throws is \<open>None\<close>; a verification answers with an error code or the verified parts.
\<close>

section \<open>Frames and their payloads\<close>

record 'p signed_frame =
  sf_jws :: string
  sf_header :: json
  sf_payload :: 'p
  sf_signing :: bytes
  sf_signature :: bytes

definition header_object :: "json \<Rightarrow> bool" where
  "header_object h = (case h of JObj _ \<Rightarrow> True | JArr _ \<Rightarrow> True | _ \<Rightarrow> False)"

definition decodeInnerJws :: "runtime \<Rightarrow> string \<Rightarrow> decoded_jws option" where
  "decodeInnerJws rt s = do {
     d \<leftarrow> decodeJws rt s;
     if header_object (jws_header d) then Some d else None }"

definition frame_jws :: "string \<Rightarrow> string \<Rightarrow> json \<Rightarrow> string option" where
  "frame_jws type field v =
     (if \<not> is_frame type [''type'', field] v then None
      else case jget_str field v of
        None \<Rightarrow> None
      | Some s \<Rightarrow> if isCompactJws s then Some s else None)"

definition signed_frame_of :: "string \<Rightarrow> decoded_jws \<Rightarrow> 'p \<Rightarrow> 'p signed_frame" where
  "signed_frame_of s d p = \<lparr>sf_jws = s, sf_header = jws_header d, sf_payload = p,
     sf_signing = jws_signing_input d, sf_signature = jws_signature d\<rparr>"

definition parse_signed_frame ::
  "runtime \<Rightarrow> string \<Rightarrow> string \<Rightarrow> (json \<Rightarrow> 'p option) \<Rightarrow> json \<Rightarrow> 'p signed_frame option" where
  "parse_signed_frame rt type field payload v = do {
     s \<leftarrow> frame_jws type field v;
     d \<leftarrow> decodeInnerJws rt s;
     p \<leftarrow> payload (jws_payload d);
     Some (signed_frame_of s d p) }"

definition did_str :: "json option \<Rightarrow> string option" where
  "did_str v = do { s \<leftarrow> nonempty_str v; if strip_prefix ''did:'' s = None then None else Some s }"

fun did_list :: "json list \<Rightarrow> string list \<Rightarrow> string list option" where
  "did_list [] seen = Some []"
| "did_list (v # vs) seen =
     (case did_str (Some v) of
        None \<Rightarrow> None
      | Some d \<Rightarrow> if d \<in> set seen then None else map_option ((#) d) (did_list vs (d # seen)))"

definition parseAdminDids :: "json option \<Rightarrow> string list option" where
  "parseAdminDids v =
     (case v of Some (JArr xs) \<Rightarrow> if xs = [] then None else did_list xs [] | _ \<Rightarrow> None)"

definition safe_nat :: "json option \<Rightarrow> int option" where
  "safe_nat v = (case Option.bind v jint of None \<Rightarrow> None | Some n \<Rightarrow> if safe_seq n then Some n else None)"

record space_register =
  sr_space :: string
  sr_key :: string
  sr_admins :: "string list"

record space_rotate =
  rot_space :: string
  rot_key :: string
  rot_generation :: int

record admin_change =
  ac_space :: string
  ac_did :: string

definition parseSpaceRegisterPayload :: "json \<Rightarrow> space_register option" where
  "parseSpaceRegisterPayload v =
     (if \<not> is_frame ''space-register'' [''type'', ''spaceId'', ''spaceCapabilityVerificationKey'', ''adminDids''] v
      then None
      else do {
        s \<leftarrow> uuid_str (jget ''spaceId'' v);
        k \<leftarrow> nonempty_str (jget ''spaceCapabilityVerificationKey'' v);
        a \<leftarrow> parseAdminDids (jget ''adminDids'' v);
        Some \<lparr>sr_space = s, sr_key = k, sr_admins = a\<rparr> })"

definition parseSpaceRotatePayload :: "json \<Rightarrow> space_rotate option" where
  "parseSpaceRotatePayload v =
     (if \<not> is_frame ''space-rotate'' [''type'', ''spaceId'', ''newSpaceCapabilityVerificationKey'', ''newGeneration''] v
      then None
      else do {
        s \<leftarrow> uuid_str (jget ''spaceId'' v);
        k \<leftarrow> nonempty_str (jget ''newSpaceCapabilityVerificationKey'' v);
        g \<leftarrow> safe_nat (jget ''newGeneration'' v);
        Some \<lparr>rot_space = s, rot_key = k, rot_generation = g\<rparr> })"

definition parseAdminAddPayload :: "json \<Rightarrow> admin_change option" where
  "parseAdminAddPayload v =
     (if \<not> is_frame ''admin-add'' [''type'', ''spaceId'', ''newAdminDid''] v then None
      else do {
        s \<leftarrow> uuid_str (jget ''spaceId'' v);
        d \<leftarrow> did_str (jget ''newAdminDid'' v);
        Some \<lparr>ac_space = s, ac_did = d\<rparr> })"

definition parseAdminRemovePayload :: "json \<Rightarrow> admin_change option" where
  "parseAdminRemovePayload v =
     (if \<not> is_frame ''admin-remove'' [''type'', ''spaceId'', ''removedAdminDid''] v then None
      else do {
        s \<leftarrow> uuid_str (jget ''spaceId'' v);
        d \<leftarrow> did_str (jget ''removedAdminDid'' v);
        Some \<lparr>ac_space = s, ac_did = d\<rparr> })"

definition parseSpaceRegisterMessage :: "runtime \<Rightarrow> json \<Rightarrow> space_register signed_frame option" where
  "parseSpaceRegisterMessage rt v =
     parse_signed_frame rt ''space-register'' ''registrationJws'' parseSpaceRegisterPayload v"

definition parseSpaceRotateMessage :: "runtime \<Rightarrow> json \<Rightarrow> space_rotate signed_frame option" where
  "parseSpaceRotateMessage rt v =
     parse_signed_frame rt ''space-rotate'' ''rotationJws'' parseSpaceRotatePayload v"

definition parseAdminAddMessage :: "runtime \<Rightarrow> json \<Rightarrow> admin_change signed_frame option" where
  "parseAdminAddMessage rt v =
     parse_signed_frame rt ''admin-add'' ''adminChangeJws'' parseAdminAddPayload v"

definition parseAdminRemoveMessage :: "runtime \<Rightarrow> json \<Rightarrow> admin_change signed_frame option" where
  "parseAdminRemoveMessage rt v =
     parse_signed_frame rt ''admin-remove'' ''adminChangeJws'' parseAdminRemovePayload v"

section \<open>Verification\<close>

definition adminAuthHeaderKidDid :: "json \<Rightarrow> string option" where
  "adminAuthHeaderKidDid h =
     (if jget ''alg'' h \<noteq> Some (JStr ''EdDSA'') then None
      else case jget_str ''kid'' h of
        None \<Rightarrow> None
      | Some kid \<Rightarrow> if CHR ''#'' \<in> set kid then Some (didOrKidToDid kid) else None)"

definition finishVerification ::
  "runtime \<Rightarrow> 'p signed_frame \<Rightarrow> bytes \<Rightarrow> broker_error + 'p signed_frame" where
  "finishVerification rt f publicKey =
     (if verify_ed25519 rt (sf_signing f) (sf_signature f) publicKey = Some True then Inr f
      else Inl AUTH_INVALID)"

definition verifySpaceRegisterMessage ::
  "runtime \<Rightarrow> json \<Rightarrow> broker_error + space_register signed_frame" where
  "verifySpaceRegisterMessage rt frame =
     (case parseSpaceRegisterMessage rt frame of
        None \<Rightarrow> Inl MALFORMED_MESSAGE
      | Some f \<Rightarrow>
          (case adminAuthHeaderKidDid (sf_header f) of
             None \<Rightarrow> Inl AUTH_INVALID
           | Some kidDid \<Rightarrow>
               if kidDid \<notin> set (sr_admins (sf_payload f)) then Inl AUTH_INVALID
               else (case didKeyToPublicKeyBytes kidDid of
                 None \<Rightarrow> Inl AUTH_INVALID
               | Some key \<Rightarrow> finishVerification rt f key)))"

text \<open>\<open>None\<close>: the caller handed over no 32-byte key or an empty DID, and the code throws.\<close>

definition verifyAdminSignedFrame ::
  "runtime \<Rightarrow> (json \<Rightarrow> 'p signed_frame option) \<Rightarrow> json \<Rightarrow> string \<Rightarrow> bytes \<Rightarrow>
   (broker_error + 'p signed_frame) option" where
  "verifyAdminSignedFrame rt parse frame adminDid adminPublicKey =
     (if length adminPublicKey \<noteq> 32 \<or> adminDid = [] then None
      else Some (case parse frame of
        None \<Rightarrow> Inl MALFORMED_MESSAGE
      | Some f \<Rightarrow>
          if adminAuthHeaderKidDid (sf_header f) \<noteq> Some adminDid then Inl AUTH_INVALID
          else finishVerification rt f adminPublicKey))"

definition verifySpaceRotateMessage ::
  "runtime \<Rightarrow> json \<Rightarrow> string \<Rightarrow> bytes \<Rightarrow> (broker_error + space_rotate signed_frame) option" where
  "verifySpaceRotateMessage rt = verifyAdminSignedFrame rt (parseSpaceRotateMessage rt)"

definition verifyAdminAddMessage ::
  "runtime \<Rightarrow> json \<Rightarrow> string \<Rightarrow> bytes \<Rightarrow> (broker_error + admin_change signed_frame) option" where
  "verifyAdminAddMessage rt = verifyAdminSignedFrame rt (parseAdminAddMessage rt)"

definition verifyAdminRemoveMessage ::
  "runtime \<Rightarrow> json \<Rightarrow> string \<Rightarrow> bytes \<Rightarrow> (broker_error + admin_change signed_frame) option" where
  "verifyAdminRemoveMessage rt = verifyAdminSignedFrame rt (parseAdminRemoveMessage rt)"

section \<open>Creation\<close>

definition assertAdminKid :: "string \<Rightarrow> bool" where
  "assertAdminKid kid \<longleftrightarrow> CHR ''#'' \<in> set kid \<and> strip_prefix ''did:'' (didOrKidToDid kid) \<noteq> None"

definition admin_header :: "string \<Rightarrow> json" where
  "admin_header kid = JObj [(''alg'', JStr ''EdDSA''), (''kid'', JStr kid)]"

definition space_register_json :: "space_register \<Rightarrow> json" where
  "space_register_json p = JObj [(''type'', JStr ''space-register''), (''spaceId'', JStr (sr_space p)),
     (''spaceCapabilityVerificationKey'', JStr (sr_key p)), (''adminDids'', JArr (map JStr (sr_admins p)))]"

definition space_rotate_json :: "space_rotate \<Rightarrow> json" where
  "space_rotate_json p = JObj [(''type'', JStr ''space-rotate''), (''spaceId'', JStr (rot_space p)),
     (''newSpaceCapabilityVerificationKey'', JStr (rot_key p)), (''newGeneration'', JInt (rot_generation p))]"

definition admin_add_json :: "admin_change \<Rightarrow> json" where
  "admin_add_json p = JObj [(''type'', JStr ''admin-add''), (''spaceId'', JStr (ac_space p)),
     (''newAdminDid'', JStr (ac_did p))]"

definition admin_remove_json :: "admin_change \<Rightarrow> json" where
  "admin_remove_json p = JObj [(''type'', JStr ''admin-remove''), (''spaceId'', JStr (ac_space p)),
     (''removedAdminDid'', JStr (ac_did p))]"

definition jws_frame :: "string \<Rightarrow> string \<Rightarrow> string \<Rightarrow> json" where
  "jws_frame type field jws = JObj [(''type'', JStr type), (field, JStr jws)]"

definition createSpaceRegisterMessageWithSigner ::
  "runtime \<Rightarrow> space_register \<Rightarrow> string \<Rightarrow> (bytes \<Rightarrow> bytes) \<Rightarrow> json option" where
  "createSpaceRegisterMessageWithSigner rt options kid sign = do {
     p \<leftarrow> parseSpaceRegisterPayload (space_register_json options);
     if \<not> assertAdminKid kid \<or> didOrKidToDid kid \<notin> set (sr_admins p) then None
     else do {
       jws \<leftarrow> createJcsEd25519JwsWithSigner rt (admin_header kid) (space_register_json p) sign;
       Some (jws_frame ''space-register'' ''registrationJws'' jws) } }"

definition createSpaceRegisterMessage ::
  "runtime \<Rightarrow> (bytes \<Rightarrow> bytes \<Rightarrow> bytes) \<Rightarrow> space_register \<Rightarrow> string \<Rightarrow> bytes \<Rightarrow> json option" where
  "createSpaceRegisterMessage rt ed25519_sign options kid signingSeed =
     (if length signingSeed \<noteq> 32 then None
      else createSpaceRegisterMessageWithSigner rt options kid (ed25519_sign signingSeed))"

definition create_admin_frame ::
  "runtime \<Rightarrow> string \<Rightarrow> string \<Rightarrow> ('p \<Rightarrow> json) \<Rightarrow> (json \<Rightarrow> 'p option) \<Rightarrow> 'p \<Rightarrow> string \<Rightarrow> (bytes \<Rightarrow> bytes) \<Rightarrow> json option" where
  "create_admin_frame rt type field to_json parse options kid sign = do {
     p \<leftarrow> parse (to_json options);
     if \<not> assertAdminKid kid then None
     else do {
       jws \<leftarrow> createJcsEd25519JwsWithSigner rt (admin_header kid) (to_json p) sign;
       Some (jws_frame type field jws) } }"

definition createSpaceRotateMessageWithSigner ::
  "runtime \<Rightarrow> space_rotate \<Rightarrow> string \<Rightarrow> (bytes \<Rightarrow> bytes) \<Rightarrow> json option" where
  "createSpaceRotateMessageWithSigner rt =
     create_admin_frame rt ''space-rotate'' ''rotationJws'' space_rotate_json parseSpaceRotatePayload"

definition createSpaceRotateMessage ::
  "runtime \<Rightarrow> (bytes \<Rightarrow> bytes \<Rightarrow> bytes) \<Rightarrow> space_rotate \<Rightarrow> string \<Rightarrow> bytes \<Rightarrow> json option" where
  "createSpaceRotateMessage rt ed25519_sign options kid signingSeed =
     (if length signingSeed \<noteq> 32 then None
      else createSpaceRotateMessageWithSigner rt options kid (ed25519_sign signingSeed))"

definition createAdminAddMessage ::
  "runtime \<Rightarrow> (bytes \<Rightarrow> bytes \<Rightarrow> bytes) \<Rightarrow> admin_change \<Rightarrow> string \<Rightarrow> bytes \<Rightarrow> json option" where
  "createAdminAddMessage rt ed25519_sign options kid signingSeed =
     (if length signingSeed \<noteq> 32 then None
      else create_admin_frame rt ''admin-add'' ''adminChangeJws'' admin_add_json parseAdminAddPayload
             options kid (ed25519_sign signingSeed))"

definition createAdminRemoveMessageWithSigner ::
  "runtime \<Rightarrow> admin_change \<Rightarrow> string \<Rightarrow> (bytes \<Rightarrow> bytes) \<Rightarrow> json option" where
  "createAdminRemoveMessageWithSigner rt =
     create_admin_frame rt ''admin-remove'' ''adminChangeJws'' admin_remove_json parseAdminRemovePayload"

definition createAdminRemoveMessage ::
  "runtime \<Rightarrow> (bytes \<Rightarrow> bytes \<Rightarrow> bytes) \<Rightarrow> admin_change \<Rightarrow> string \<Rightarrow> bytes \<Rightarrow> json option" where
  "createAdminRemoveMessage rt ed25519_sign options kid signingSeed =
     (if length signingSeed \<noteq> 32 then None
      else createAdminRemoveMessageWithSigner rt options kid (ed25519_sign signingSeed))"

section \<open>Device revocation\<close>

record device_revoke =
  rv_did :: string
  rv_device :: string
  rv_at :: string

definition validateDeviceRevokePayload :: "json \<Rightarrow> device_revoke option" where
  "validateDeviceRevokePayload v =
     (if \<not> is_frame ''device-revoke'' [''type'', ''did'', ''deviceId'', ''revokedAt''] v then None
      else do {
        did \<leftarrow> nonempty_str (jget ''did'' v);
        dev \<leftarrow> uuid_str (jget ''deviceId'' v);
        at' \<leftarrow> jget_str ''revokedAt'' v;
        if valid_rfc3339 at' then Some \<lparr>rv_did = did, rv_device = dev, rv_at = at'\<rparr> else None })"

definition parseBrokerDeviceRevokeControlFrame :: "runtime \<Rightarrow> json \<Rightarrow> device_revoke signed_frame option" where
  "parseBrokerDeviceRevokeControlFrame rt v = do {
     s \<leftarrow> frame_jws ''device-revoke'' ''revocationJws'' v;
     d \<leftarrow> decodeJws rt s;
     p \<leftarrow> validateDeviceRevokePayload (jws_payload d);
     Some (signed_frame_of s d p) }"

definition createBrokerDeviceRevokeControlFrame :: "runtime \<Rightarrow> string \<Rightarrow> json option" where
  "createBrokerDeviceRevokeControlFrame rt jws =
     map_option (\<lambda>f. jws_frame ''device-revoke'' ''revocationJws'' (sf_jws f))
       (parseBrokerDeviceRevokeControlFrame rt (jws_frame ''device-revoke'' ''revocationJws'' jws))"

definition isDeviceRevokeAuthHeader :: "json \<Rightarrow> string \<Rightarrow> bool" where
  "isDeviceRevokeAuthHeader h payloadDid \<longleftrightarrow> adminAuthHeaderKidDid h = Some payloadDid"

text \<open>
  \<open>None\<close>: the code throws, for a key of the wrong size and for a header that is \<^verbatim>\<open>null\<close>,
  whose property it reads.
\<close>

definition verifyBrokerDeviceRevokeControlFrame ::
  "runtime \<Rightarrow> json \<Rightarrow> bytes \<Rightarrow> (broker_error + device_revoke signed_frame) option" where
  "verifyBrokerDeviceRevokeControlFrame rt frame publicKey =
     (if length publicKey \<noteq> 32 then None
      else case parseBrokerDeviceRevokeControlFrame rt frame of
        None \<Rightarrow> Some (Inl MALFORMED_MESSAGE)
      | Some f \<Rightarrow>
          if sf_header f = JNull then None
          else if \<not> isDeviceRevokeAuthHeader (sf_header f) (rv_did (sf_payload f))
          then Some (Inl AUTH_INVALID)
          else Some (finishVerification rt f publicKey))"

section \<open>Capability presentation\<close>

definition parsePresentCapabilityControlFrame :: "runtime \<Rightarrow> json \<Rightarrow> json signed_frame option" where
  "parsePresentCapabilityControlFrame rt v =
     parse_signed_frame rt ''present-capability'' ''capabilityJws'' Some v"

definition createPresentCapabilityControlFrame :: "runtime \<Rightarrow> string \<Rightarrow> json option" where
  "createPresentCapabilityControlFrame rt jws =
     map_option (\<lambda>f. jws_frame ''present-capability'' ''capabilityJws'' (sf_jws f))
       (parsePresentCapabilityControlFrame rt (jws_frame ''present-capability'' ''capabilityJws'' jws))"

definition controlFrameDocId :: "runtime \<Rightarrow> json \<Rightarrow> string option" where
  "controlFrameDocId rt frame =
     (case jget_str ''type'' frame of
        None \<Rightarrow> None
      | Some t \<Rightarrow>
          if t = ''present-capability'' then
            Option.bind (parsePresentCapabilityControlFrame rt frame) (\<lambda>f. jget_str ''spaceId'' (sf_payload f))
          else if t = ''space-register'' then
            map_option (\<lambda>f. sr_space (sf_payload f)) (parseSpaceRegisterMessage rt frame)
          else if t = ''space-rotate'' then
            map_option (\<lambda>f. rot_space (sf_payload f)) (parseSpaceRotateMessage rt frame)
          else if t = ''admin-add'' then
            map_option (\<lambda>f. ac_space (sf_payload f)) (parseAdminAddMessage rt frame)
          else if t = ''admin-remove'' then
            map_option (\<lambda>f. ac_space (sf_payload f)) (parseAdminRemoveMessage rt frame)
          else None)"

section \<open>Lemmas\<close>

lemma did_str_Some: "did_str v = Some d \<longleftrightarrow> v = Some (JStr d) \<and> (\<exists>r. strip_prefix ''did:'' d = Some r)"
  by (cases "d = []") (auto simp: did_str_def bind_eq_Some_conv nonempty_str_Some)

lemma did_list_Some:
  "did_list vs seen = Some ds \<longleftrightarrow>
     vs = map JStr ds \<and> distinct ds \<and> set ds \<inter> set seen = {} \<and>
     list_all (\<lambda>d. \<exists>r. strip_prefix ''did:'' d = Some r) ds"
proof (induction vs arbitrary: seen ds)
  case (Cons v vs)
  show ?case
  proof (cases "did_str (Some v)")
    case None
    then have "v \<noteq> JStr d \<or> strip_prefix ''did:'' d = None" for d
      using did_str_Some [of "Some v" d] by auto
    then show ?thesis using None by (cases ds) (auto simp del: strip_prefix.simps)
  next
    case (Some d)
    obtain r where v: "v = JStr d" and r: "strip_prefix ''did:'' d = Some r"
      using Some by (auto simp: did_str_Some)
    have step: "did_list (v # vs) seen =
        (if d \<in> set seen then None else map_option ((#) d) (did_list vs (d # seen)))"
      by (simp add: Some)
    show ?thesis
      unfolding step using r by (cases ds) (auto simp: v Cons.IH simp del: strip_prefix.simps)
  qed
qed auto

lemma parseAdminDids_Some:
  "parseAdminDids v = Some ds \<longleftrightarrow>
     v = Some (JArr (map JStr ds)) \<and> ds \<noteq> [] \<and> distinct ds \<and>
     list_all (\<lambda>d. \<exists>r. strip_prefix ''did:'' d = Some r) ds"
  by (auto simp: parseAdminDids_def did_list_Some split: option.splits json.splits)

lemma space_register_parse_json:
  "parseSpaceRegisterPayload (space_register_json x) = Some p \<Longrightarrow> p = x"
  by (auto simp: parseSpaceRegisterPayload_def space_register_json_def bind_eq_Some_conv uuid_str_Some
      nonempty_str_Some parseAdminDids_Some inj_map_eq_map inj_def split: if_splits)

lemma createJws_compact:
  assumes "createJcsEd25519JwsWithSigner rt header payload sign = Some jws"
    and num: "\<forall>r. number_text rt r \<noteq> []" and sig: "\<forall>m. sign m \<noteq> []"
  shows "isCompactJws jws"
proof -
  obtain hb pb where b: "canonicalizeToBytes rt header = Some hb" "canonicalizeToBytes rt payload = Some pb"
    and eq: "jws = encodeBase64Url hb @ ''.'' @ encodeBase64Url pb @ ''.'' @
      encodeBase64Url (sign (utf8_encode (encodeBase64Url hb @ ''.'' @ encodeBase64Url pb)))"
    using assms(1) by (auto simp: createJcsEd25519JwsWithSigner_def bind_eq_Some_conv split: if_splits option.splits)
  have "hb \<noteq> []" "pb \<noteq> []"
    using b canonicalize_nonempty num by (auto simp: canonicalizeToBytes_def utf8_encode_def)
  then show ?thesis
    using sig by (simp add: isCompactJws_def eq split_on_append split_on_free base64url_no_dot encodeBase64Url_empty)
qed

lemma key_sorted_admin_header [simp]: "key_sorted (admin_header kid) = admin_header kid"
  by (simp add: key_sorted_def admin_header_def)

text \<open>A frame around a created JWS parses to its header and payload.\<close>

lemma parse_created_frame:
  assumes jws: "createJcsEd25519JwsWithSigner rt (admin_header kid) payload sign = Some jws"
    and num: "\<forall>r. number_text rt r \<noteq> []" and sig: "\<forall>m. sign m \<noteq> []"
    and parse: "\<forall>v b. v \<in> {admin_header kid, payload} \<longrightarrow> canonicalizeToBytes rt v = Some b \<longrightarrow> json_parse rt b = Some (key_sorted v)"
    and payload: "p_of (key_sorted payload) = Some p" and field: "field \<noteq> ''type''"
  obtains input where "parse_signed_frame rt type field p_of (jws_frame type field jws) =
    Some \<lparr>sf_jws = jws, sf_header = admin_header kid, sf_payload = p, sf_signing = input, sf_signature = sign input\<rparr>"
proof -
  obtain hb pb where hb: "canonicalizeToBytes rt (admin_header kid) = Some hb" and pb: "canonicalizeToBytes rt payload = Some pb"
    and dec: "decodeJws rt jws = do {
       h \<leftarrow> json_parse rt hb; p \<leftarrow> json_parse rt pb;
       Some \<lparr>jws_header = h, jws_payload = p,
         jws_signing_input = utf8_encode (encodeBase64Url hb @ ''.'' @ encodeBase64Url pb),
         jws_signature = sign (utf8_encode (encodeBase64Url hb @ ''.'' @ encodeBase64Url pb))\<rparr> }"
    by (rule createJws_decode [OF jws num sig])
  let ?input = "utf8_encode (encodeBase64Url hb @ ''.'' @ encodeBase64Url pb)"
  have d: "decodeJws rt jws = Some \<lparr>jws_header = admin_header kid, jws_payload = key_sorted payload,
      jws_signing_input = ?input, jws_signature = sign ?input\<rparr>"
    using parse hb pb key_sorted_admin_header by (simp add: dec)
  have "frame_jws type field (jws_frame type field jws) = Some jws"
    using field createJws_compact [OF jws num sig]
    by (auto simp: frame_jws_def jws_frame_def is_frame_def exact_keys_def jget_str_def)
  then have "parse_signed_frame rt type field p_of (jws_frame type field jws) =
    Some \<lparr>sf_jws = jws, sf_header = admin_header kid, sf_payload = p, sf_signing = ?input, sf_signature = sign ?input\<rparr>"
    using payload d
    by (simp add: parse_signed_frame_def decodeInnerJws_def admin_header_def header_object_def signed_frame_of_def)
  then show ?thesis by (rule that)
qed

lemma admin_header_kid:
  "assertAdminKid kid \<Longrightarrow> adminAuthHeaderKidDid (admin_header kid) = Some (didOrKidToDid kid)"
  by (simp add: assertAdminKid_def adminAuthHeaderKidDid_def admin_header_def jget_str_def)

lemma parse_signed_frame_SomeD:
  assumes "parse_signed_frame rt type field p_of v = Some f"
  shows "jget ''type'' v = Some (JStr type) \<and> jget_str field v = Some (sf_jws f) \<and>
    (\<exists>d. decodeJws rt (sf_jws f) = Some d \<and> sf_header f = jws_header d \<and>
       sf_signing f = jws_signing_input d \<and> sf_signature f = jws_signature d \<and>
       p_of (jws_payload d) = Some (sf_payload f))"
  using assms
  by (auto simp: parse_signed_frame_def frame_jws_def decodeInnerJws_def bind_eq_Some_conv is_frame_def
      signed_frame_of_def split: if_splits option.splits)

lemma finish_Inr:
  "finishVerification rt f key = Inr g \<longleftrightarrow>
     g = f \<and> verify_ed25519 rt (sf_signing f) (sf_signature f) key = Some True"
  by (auto simp: finishVerification_def)

lemma verifyAdminSignedFrame_Inr:
  "verifyAdminSignedFrame rt parse frame did key = Some (Inr f) \<longleftrightarrow>
     length key = 32 \<and> did \<noteq> [] \<and> parse frame = Some f \<and> adminAuthHeaderKidDid (sf_header f) = Some did \<and>
     verify_ed25519 rt (sf_signing f) (sf_signature f) key = Some True"
  by (auto simp: verifyAdminSignedFrame_def finish_Inr split: option.splits if_splits)

section \<open>Concrete instances\<close>

text \<open>A runtime whose JSON parser reads the canonical texts of the given documents.\<close>

definition table_runtime :: "json list \<Rightarrow> (bytes \<Rightarrow> bytes \<Rightarrow> bytes \<Rightarrow> bool option) \<Rightarrow> runtime" where
  "table_runtime docs verify = \<lparr>
     json_parse = (\<lambda>b. map_option key_sorted (find (\<lambda>v. map_option utf8_encode (canonicalize (\<lambda>_. ''0'') v) = Some b) docs)),
     number_text = (\<lambda>_. ''0''), valid_url = (\<lambda>_. True), verify_ed25519 = verify, sha256 = (\<lambda>b. b)\<rparr>"

lemma table_runtime_simps [simp]:
  "number_text (table_runtime docs verify) = (\<lambda>_. ''0'')"
  "verify_ed25519 (table_runtime docs verify) = verify"
  by (simp_all add: table_runtime_def)

lemma table_runtime_parse:
  assumes "canonicalize (\<lambda>_. ''0'') u \<noteq> canonicalize (\<lambda>_. ''0'') v"
  shows "\<forall>x b. x \<in> {u, v} \<longrightarrow> canonicalizeToBytes (table_runtime [u, v] verify) x = Some b \<longrightarrow>
    json_parse (table_runtime [u, v] verify) b = Some (key_sorted x)"
  using assms by (auto simp: table_runtime_def canonicalizeToBytes_def)

definition sample_did :: string where
  "sample_did = the (publicKeyToDidKey (replicate 32 0))"

lemma sample_did:
  "publicKeyToDidKey (replicate 32 0) = Some sample_did" "CHR ''#'' \<notin> set sample_did"
  "\<exists>r. strip_prefix ''did:'' sample_did = Some r" "didKeyToPublicKeyBytes sample_did = Some (replicate 32 0)"
proof -
  obtain mb where mb: "ed25519PublicKeyToMultibase (replicate 32 0) = Some mb"
    by (simp add: ed25519PublicKeyToMultibase_def key_to_multibase_def PUBLIC_KEY_LENGTH_def)
  show did: "publicKeyToDidKey (replicate 32 0) = Some sample_did"
    by (simp add: sample_did_def publicKeyToDidKey_def mb)
  show "CHR ''#'' \<notin> set sample_did" by (rule publicKeyToDidKey_plain [OF did])
  show "\<exists>r. strip_prefix ''did:'' sample_did = Some r"
    by (simp add: sample_did_def publicKeyToDidKey_def mb)
  show "didKeyToPublicKeyBytes sample_did = Some (replicate 32 0)"
    by (rule didKeyToPublicKeyBytes_did [OF did])
qed

definition sample_kid :: string where
  "sample_kid = sample_did @ ''#sig-0''"

lemma sample_kid: "assertAdminKid sample_kid" "didOrKidToDid sample_kid = sample_did"
  "sample_kid \<noteq> []"
proof -
  show did: "didOrKidToDid sample_kid = sample_did"
    using didOrKidToDid_kid [OF sample_did(2)] by (simp add: sample_kid_def)
  show "assertAdminKid sample_kid"
    using sample_did(3) by (auto simp: assertAdminKid_def did) (simp add: sample_kid_def)
  show "sample_kid \<noteq> []" by (simp add: sample_kid_def)
qed

definition sample_registration :: space_register where
  "sample_registration = \<lparr>sr_space = sample_uuid, sr_key = ''key'', sr_admins = [sample_did]\<rparr>"

lemma parseSpaceRegisterPayload_sorted: "parseSpaceRegisterPayload (key_sorted v) = parseSpaceRegisterPayload v"
  by (simp add: parseSpaceRegisterPayload_def is_frame_def)

lemma parseSpaceRotatePayload_sorted: "parseSpaceRotatePayload (key_sorted v) = parseSpaceRotatePayload v"
  by (simp add: parseSpaceRotatePayload_def is_frame_def)

lemma validateDeviceRevokePayload_sorted: "validateDeviceRevokePayload (key_sorted v) = validateDeviceRevokePayload v"
  by (simp add: validateDeviceRevokePayload_def is_frame_def)

lemma sample_registration_parse:
  "parseSpaceRegisterPayload (space_register_json sample_registration) = Some sample_registration"
proof -
  have a: "parseAdminDids (Some (JArr [JStr sample_did])) = Some [sample_did]"
    using sample_did(3) by (simp add: parseAdminDids_Some)
  show ?thesis
    using a sample_codes(3)
    by (simp add: parseSpaceRegisterPayload_def space_register_json_def sample_registration_def is_frame_def
        exact_keys_def uuid_str_def nonempty_str_def)
qed

abbreviation fake_sign :: "bytes \<Rightarrow> bytes" where "fake_sign m \<equiv> [7] @ m"

definition sample_admin_runtime :: "json \<Rightarrow> (bytes \<Rightarrow> bool) \<Rightarrow> runtime" where
  "sample_admin_runtime payload ok =
     table_runtime [admin_header sample_kid, payload] (\<lambda>m s k. Some (ok k \<and> s = fake_sign m))"

lemma sample_texts:
  "\<exists>t. canonicalize num (admin_header kid) = Some (''{'' @ json_quote ''alg'' @ t)"
  "\<exists>t. canonicalize num (space_register_json sample_registration) = Some (''{'' @ json_quote ''adminDids'' @ t)"
  by (simp_all add: admin_header_def space_register_json_def sample_registration_def)

lemma sample_registration_texts:
  "canonicalize (\<lambda>_. ''0'') (admin_header kid) \<noteq>
   canonicalize (\<lambda>_. ''0'') (space_register_json sample_registration)"
  using sample_texts(1) [of "\<lambda>_. ''0''" kid] sample_texts(2) [of "\<lambda>_. ''0''"]
  by (auto simp: json_quote_append_inject)

lemma createJws_exists:
  assumes "kid \<noteq> []" "canonicalize (\<lambda>_. ''0'') payload \<noteq> None"
  shows "\<exists>jws. createJcsEd25519JwsWithSigner (sample_admin_runtime v ok) (admin_header kid) payload sign = Some jws"
  using assms
  by (auto simp: createJcsEd25519JwsWithSigner_def admin_header_def jget_str_def canonicalizeToBytes_def
      sample_admin_runtime_def)

text \<open>Any payload can be put into a frame that parses under the sample runtime.\<close>

lemma sample_frame:
  assumes payload: "p_of (key_sorted payload) = Some p" and field: "field \<noteq> ''type''"
    and canon: "canonicalize (\<lambda>_. ''0'') payload = Some (''{'' @ json_quote k @ t)" and k: "k \<noteq> ''alg''"
  obtains frame f where "parse_signed_frame (sample_admin_runtime payload ok) type field p_of frame = Some f"
    "sf_payload f = p" "sf_header f = admin_header sample_kid" "sf_signature f = fake_sign (sf_signing f)"
proof -
  let ?rt = "sample_admin_runtime payload ok"
  obtain jws where jws: "createJcsEd25519JwsWithSigner ?rt (admin_header sample_kid) payload fake_sign = Some jws"
    using createJws_exists [OF sample_kid(3)] canon by blast
  have rt: "\<forall>r. number_text ?rt r \<noteq> []" "\<forall>m. fake_sign m \<noteq> []" by (simp_all add: sample_admin_runtime_def)
  have "canonicalize (\<lambda>_. ''0'') (admin_header sample_kid) \<noteq> canonicalize (\<lambda>_. ''0'') payload"
    using sample_texts(1) [of "\<lambda>_. ''0''" sample_kid] canon k by (auto simp: json_quote_append_inject)
  then have parse: "\<forall>v b. v \<in> {admin_header sample_kid, payload} \<longrightarrow>
      canonicalizeToBytes ?rt v = Some b \<longrightarrow> json_parse ?rt b = Some (key_sorted v)"
    unfolding sample_admin_runtime_def by (rule table_runtime_parse)
  obtain input where f: "parse_signed_frame ?rt type field p_of (jws_frame type field jws) =
      Some \<lparr>sf_jws = jws, sf_header = admin_header sample_kid, sf_payload = p, sf_signing = input, sf_signature = fake_sign input\<rparr>"
    by (rule parse_created_frame [where type = type and p_of = p_of, OF jws rt parse payload field])
  show ?thesis by (rule that [OF f]) simp_all
qed

lemma sample_registration_created:
  "\<exists>frame. createSpaceRegisterMessageWithSigner
    (sample_admin_runtime (space_register_json sample_registration) ok) sample_registration sample_kid fake_sign = Some frame"
proof -
  have "sample_did \<in> set (sr_admins sample_registration)" by (simp add: sample_registration_def)
  moreover have "canonicalize (\<lambda>_. ''0'') (space_register_json sample_registration) \<noteq> None"
    using sample_texts(2) [of "\<lambda>_. ''0''"] by auto
  ultimately show ?thesis
    using createJws_exists [OF sample_kid(3)] sample_kid
    by (simp add: createSpaceRegisterMessageWithSigner_def sample_registration_parse bind_eq_Some_conv)
qed

section \<open>Properties\<close>

text \<open>A space registration is accepted only when the DID of the signing key id is one of the admins the
  signed payload names and the frame's signature verifies under that DID's own key; the payload
  names a canonical UUID, a non-empty key, and a non-empty list of distinct DIDs.\<close>

theorem space_register_sound:
  assumes "verifySpaceRegisterMessage rt frame = Inr f"
  shows "\<exists>d did key. jget ''type'' frame = Some (JStr ''space-register'') \<and>
    jget_str ''registrationJws'' frame = Some (sf_jws f) \<and> decodeJws rt (sf_jws f) = Some d \<and>
    adminAuthHeaderKidDid (jws_header d) = Some did \<and> did \<in> set (sr_admins (sf_payload f)) \<and>
    didKeyToPublicKeyBytes did = Some key \<and>
    verify_ed25519 rt (jws_signing_input d) (jws_signature d) key = Some True \<and>
    parseSpaceRegisterPayload (jws_payload d) = Some (sf_payload f) \<and>
    isCanonicalUuidV4 (sr_space (sf_payload f)) \<and> sr_key (sf_payload f) \<noteq> [] \<and> distinct (sr_admins (sf_payload f))"
proof -
  obtain did key where parsed: "parseSpaceRegisterMessage rt frame = Some f"
    and kid: "adminAuthHeaderKidDid (sf_header f) = Some did" "did \<in> set (sr_admins (sf_payload f))"
    and key: "didKeyToPublicKeyBytes did = Some key"
    and ver: "verify_ed25519 rt (sf_signing f) (sf_signature f) key = Some True"
    using assms
    by (auto simp: verifySpaceRegisterMessage_def finish_Inr split: option.splits if_splits)
  note fr = parse_signed_frame_SomeD [OF parsed [unfolded parseSpaceRegisterMessage_def]]
  then obtain d where d: "decodeJws rt (sf_jws f) = Some d" "sf_header f = jws_header d"
      "sf_signing f = jws_signing_input d" "sf_signature f = jws_signature d"
    and p: "parseSpaceRegisterPayload (jws_payload d) = Some (sf_payload f)" by blast
  have "isCanonicalUuidV4 (sr_space (sf_payload f)) \<and> sr_key (sf_payload f) \<noteq> [] \<and> distinct (sr_admins (sf_payload f))"
    using p
    by (cases "sf_payload f") (auto simp: parseSpaceRegisterPayload_def bind_eq_Some_conv uuid_str_Some nonempty_str_Some
        parseAdminDids_Some split: if_splits)
  with fr d p kid key ver show ?thesis by auto
qed

theorem space_register_sound_witness:
  "\<exists>frame f. verifySpaceRegisterMessage (sample_admin_runtime (space_register_json sample_registration) (\<lambda>_. True)) frame = Inr f \<and>
    sample_did \<in> set (sr_admins (sf_payload f))"
proof -
  let ?rt = "sample_admin_runtime (space_register_json sample_registration) (\<lambda>_. True)"
  obtain t where t: "canonicalize (\<lambda>_. ''0'') (space_register_json sample_registration) =
      Some (''{'' @ json_quote ''adminDids'' @ t)" using sample_texts(2) by blast
  obtain frame f where f: "parseSpaceRegisterMessage ?rt frame = Some f" "sf_payload f = sample_registration"
      "sf_header f = admin_header sample_kid" "sf_signature f = fake_sign (sf_signing f)"
    unfolding parseSpaceRegisterMessage_def
    by (rule sample_frame [where p_of = parseSpaceRegisterPayload and field = "''registrationJws''", OF parseSpaceRegisterPayload_sorted [THEN trans, OF sample_registration_parse] _ t]) simp_all
  have acc: "verifySpaceRegisterMessage ?rt frame = Inr f"
    using f sample_kid sample_did
    by (simp add: verifySpaceRegisterMessage_def admin_header_kid finishVerification_def sample_registration_def sample_admin_runtime_def)
  from space_register_sound [OF acc] obtain d did where
    "decodeJws ?rt (sf_jws f) = Some d" "adminAuthHeaderKidDid (jws_header d) = Some did" "did \<in> set (sr_admins (sf_payload f))" by blast
  moreover have "sr_admins (sf_payload f) = [sample_did]" by (simp add: f sample_registration_def)
  ultimately show ?thesis using acc by (intro exI [of _ frame] exI [of _ f]) simp
qed

text \<open>A space registration created with a key id of one of its admins verifies exactly when the created
  signature verifies under that admin's key; a wrong signature is refused with
  \<^verbatim>\<open>AUTH_INVALID\<close>. The JSON parser is required to read back what the canonical serialisation
  wrote, on the two objects at hand.\<close>

theorem space_register_create_verify:
  assumes create: "createSpaceRegisterMessageWithSigner rt options kid sign = Some frame"
    and num: "\<forall>r. number_text rt r \<noteq> []" and sig: "\<forall>m. sign m \<noteq> []"
    and parse: "\<forall>v b. v \<in> {admin_header kid, space_register_json options} \<longrightarrow>
      canonicalizeToBytes rt v = Some b \<longrightarrow> json_parse rt b = Some (key_sorted v)"
    and key: "didKeyToPublicKeyBytes (didOrKidToDid kid) = Some key"
  shows "\<exists>f. parseSpaceRegisterMessage rt frame = Some f \<and> sf_payload f = options \<and>
    sf_signature f = sign (sf_signing f) \<and>
    verifySpaceRegisterMessage rt frame =
      (if verify_ed25519 rt (sf_signing f) (sign (sf_signing f)) key = Some True then Inr f else Inl AUTH_INVALID)"
proof -
  obtain p jws where p: "parseSpaceRegisterPayload (space_register_json options) = Some p"
    and kid: "assertAdminKid kid" "didOrKidToDid kid \<in> set (sr_admins p)"
    and jws: "createJcsEd25519JwsWithSigner rt (admin_header kid) (space_register_json p) sign = Some jws"
    and frame: "frame = jws_frame ''space-register'' ''registrationJws'' jws"
    using create
    by (auto simp: createSpaceRegisterMessageWithSigner_def bind_eq_Some_conv split: if_splits)
  have eq: "p = options" using p by (rule space_register_parse_json)
  obtain input where "parseSpaceRegisterMessage rt frame =
      Some \<lparr>sf_jws = jws, sf_header = admin_header kid, sf_payload = options, sf_signing = input, sf_signature = sign input\<rparr>"
    using parse_created_frame [where p_of = parseSpaceRegisterPayload and field = "''registrationJws''" and
        type = "''space-register''", OF jws [unfolded eq] num sig parse parseSpaceRegisterPayload_sorted [THEN trans, OF p [unfolded eq]]]
    by (auto simp: frame parseSpaceRegisterMessage_def)
  then show ?thesis
    using kid key by (simp add: verifySpaceRegisterMessage_def admin_header_kid finishVerification_def eq)
qed

theorem space_register_create_verify_witness:
  "\<exists>frame f. verifySpaceRegisterMessage (sample_admin_runtime (space_register_json sample_registration) (\<lambda>k. k = replicate 32 0)) frame = Inr f \<and>
    sf_payload f = sample_registration \<and>
    verifySpaceRegisterMessage (sample_admin_runtime (space_register_json sample_registration) (\<lambda>k. k \<noteq> replicate 32 0)) frame = Inl AUTH_INVALID"
proof -
  let ?rt = "sample_admin_runtime (space_register_json sample_registration)"
  have rt: "\<forall>r. number_text (?rt ok) r \<noteq> []" "\<forall>m. fake_sign m \<noteq> []" for ok by (simp_all add: sample_admin_runtime_def)
  have parse: "\<forall>v b. v \<in> {admin_header sample_kid, space_register_json sample_registration} \<longrightarrow>
      canonicalizeToBytes (?rt ok) v = Some b \<longrightarrow> json_parse (?rt ok) b = Some (key_sorted v)" for ok
    unfolding sample_admin_runtime_def by (rule table_runtime_parse [OF sample_registration_texts])
  have same_bytes: "canonicalizeToBytes (?rt ok) v = canonicalizeToBytes (?rt ok') v" for ok v ok'
    by (simp add: canonicalizeToBytes_def sample_admin_runtime_def)
  have same_jws: "createJcsEd25519JwsWithSigner (?rt ok) h p z = createJcsEd25519JwsWithSigner (?rt ok') h p z" for ok h p z ok'
    by (simp only: createJcsEd25519JwsWithSigner_def same_bytes [of ok _ ok'])
  have same: "createSpaceRegisterMessageWithSigner (?rt ok) x y z = createSpaceRegisterMessageWithSigner (?rt ok') x y z" for ok ok' x y z
    by (simp only: createSpaceRegisterMessageWithSigner_def same_jws [of ok _ _ _ ok'])
  obtain frame where create: "createSpaceRegisterMessageWithSigner (?rt ok) sample_registration sample_kid fake_sign = Some frame" for ok
    using sample_registration_created same by metis
  have key: "didKeyToPublicKeyBytes (didOrKidToDid sample_kid) = Some (replicate 32 0)" by (simp add: sample_kid sample_did)
  show ?thesis
    using space_register_create_verify [OF create rt parse key, of "\<lambda>k. k = replicate 32 0"]
      space_register_create_verify [OF create rt parse key, of "\<lambda>k. k \<noteq> replicate 32 0"]
    by (auto simp: sample_admin_runtime_def)
qed

text \<open>A rotation is accepted only with a frame of type \<^verbatim>\<open>space-rotate\<close> whose key id belongs to the admin
  the caller resolved and whose signature verifies under that admin's key; its generation is a
  safe non-negative integer.\<close>

theorem space_rotate_sound:
  assumes "verifySpaceRotateMessage rt frame adminDid key = Some (Inr f)"
  shows "\<exists>d. jget ''type'' frame = Some (JStr ''space-rotate'') \<and>
    decodeJws rt (sf_jws f) = Some d \<and> adminAuthHeaderKidDid (jws_header d) = Some adminDid \<and>
    verify_ed25519 rt (jws_signing_input d) (jws_signature d) key = Some True \<and>
    parseSpaceRotatePayload (jws_payload d) = Some (sf_payload f) \<and>
    0 \<le> rot_generation (sf_payload f) \<and> rot_generation (sf_payload f) \<le> max_safe_integer"
proof -
  have v: "parseSpaceRotateMessage rt frame = Some f" "adminAuthHeaderKidDid (sf_header f) = Some adminDid"
      "verify_ed25519 rt (sf_signing f) (sf_signature f) key = Some True"
    using assms by (auto simp: verifySpaceRotateMessage_def verifyAdminSignedFrame_Inr)
  note fr = parse_signed_frame_SomeD [OF v(1) [unfolded parseSpaceRotateMessage_def]]
  then obtain d where d: "decodeJws rt (sf_jws f) = Some d" "sf_header f = jws_header d"
      "sf_signing f = jws_signing_input d" "sf_signature f = jws_signature d"
    and p: "parseSpaceRotatePayload (jws_payload d) = Some (sf_payload f)" by blast
  have "safe_seq (rot_generation (sf_payload f))"
    using p by (cases "sf_payload f") (auto simp: parseSpaceRotatePayload_def bind_eq_Some_conv safe_nat_def split: if_splits option.splits)
  with fr d p v show ?thesis by (auto simp: safe_seq_def safe_integer_def)
qed

definition sample_rotation :: space_rotate where
  "sample_rotation = \<lparr>rot_space = sample_uuid, rot_key = ''key'', rot_generation = 1\<rparr>"

theorem space_rotate_sound_witness:
  "\<exists>frame f. verifySpaceRotateMessage (sample_admin_runtime (space_rotate_json sample_rotation) (\<lambda>_. True))
      frame sample_did (replicate 32 0) = Some (Inr f) \<and> rot_generation (sf_payload f) \<le> max_safe_integer"
proof -
  let ?rt = "sample_admin_runtime (space_rotate_json sample_rotation) (\<lambda>_. True)"
  have "parseSpaceRotatePayload (space_rotate_json sample_rotation) = Some sample_rotation"
    using sample_codes(3)
    by (simp add: parseSpaceRotatePayload_def space_rotate_json_def sample_rotation_def is_frame_def exact_keys_def
        uuid_str_def nonempty_str_def safe_nat_def safe_seq_def safe_integer_def max_safe_integer_def)
  then have p: "parseSpaceRotatePayload (key_sorted (space_rotate_json sample_rotation)) = Some sample_rotation"
    by (simp only: parseSpaceRotatePayload_sorted)
  have "\<exists>t. canonicalize (\<lambda>_. ''0'') (space_rotate_json sample_rotation) = Some (''{'' @ json_quote ''newGeneration'' @ t)"
    by (simp add: space_rotate_json_def sample_rotation_def num_of_int_def)
  then obtain t where t: "canonicalize (\<lambda>_. ''0'') (space_rotate_json sample_rotation) =
      Some (''{'' @ json_quote ''newGeneration'' @ t)" by blast
  obtain frame f where f: "parseSpaceRotateMessage ?rt frame = Some f" "sf_payload f = sample_rotation"
      "sf_header f = admin_header sample_kid" "sf_signature f = fake_sign (sf_signing f)"
    unfolding parseSpaceRotateMessage_def
    by (rule sample_frame [where p_of = parseSpaceRotatePayload and field = "''rotationJws''", OF p _ t]) simp_all
  have "sample_did \<noteq> []" using sample_did(3) by auto
  then have acc: "verifySpaceRotateMessage ?rt frame sample_did (replicate 32 0) = Some (Inr f)"
    using f sample_kid
    by (simp add: verifySpaceRotateMessage_def verifyAdminSignedFrame_Inr admin_header_kid sample_admin_runtime_def)
  show ?thesis using space_rotate_sound [OF acc] acc by auto
qed

text \<open>A revocation is accepted only under the key of the DID it revokes a device of: the DID of the
  signing key id is the payload's DID.\<close>

theorem device_revoke_sound:
  assumes "verifyBrokerDeviceRevokeControlFrame rt frame key = Some (Inr f)"
  shows "\<exists>d. decodeJws rt (sf_jws f) = Some d \<and>
    adminAuthHeaderKidDid (jws_header d) = Some (rv_did (sf_payload f)) \<and>
    verify_ed25519 rt (jws_signing_input d) (jws_signature d) key = Some True \<and>
    validateDeviceRevokePayload (jws_payload d) = Some (sf_payload f) \<and>
    isCanonicalUuidV4 (rv_device (sf_payload f)) \<and> date_parse (rv_at (sf_payload f)) \<noteq> None"
proof -
  have v: "parseBrokerDeviceRevokeControlFrame rt frame = Some f"
      "adminAuthHeaderKidDid (sf_header f) = Some (rv_did (sf_payload f))"
      "verify_ed25519 rt (sf_signing f) (sf_signature f) key = Some True"
    using assms
    by (auto simp: verifyBrokerDeviceRevokeControlFrame_def isDeviceRevokeAuthHeader_def finish_Inr
        split: option.splits if_splits)
  then obtain d where d: "decodeJws rt (sf_jws f) = Some d" "sf_header f = jws_header d"
      "sf_signing f = jws_signing_input d" "sf_signature f = jws_signature d"
    and p: "validateDeviceRevokePayload (jws_payload d) = Some (sf_payload f)"
    by (auto simp: parseBrokerDeviceRevokeControlFrame_def bind_eq_Some_conv signed_frame_of_def)
  have "isCanonicalUuidV4 (rv_device (sf_payload f)) \<and> valid_rfc3339 (rv_at (sf_payload f))"
    using p by (cases "sf_payload f") (auto simp: validateDeviceRevokePayload_def bind_eq_Some_conv uuid_str_Some split: if_splits)
  with d p v show ?thesis by (auto simp: date_parse_valid)
qed

definition revoke_json :: "device_revoke \<Rightarrow> json" where
  "revoke_json r = JObj [(''type'', JStr ''device-revoke''), (''did'', JStr (rv_did r)),
     (''deviceId'', JStr (rv_device r)), (''revokedAt'', JStr (rv_at r))]"

definition sample_revocation :: device_revoke where
  "sample_revocation = \<lparr>rv_did = sample_did, rv_device = sample_uuid, rv_at = ''2026-01-02T03:04:05Z''\<rparr>"

theorem device_revoke_sound_witness:
  "\<exists>frame f. verifyBrokerDeviceRevokeControlFrame (sample_admin_runtime (revoke_json sample_revocation) (\<lambda>_. True))
      frame (replicate 32 0) = Some (Inr f) \<and> rv_did (sf_payload f) = sample_did \<and>
    date_parse (rv_at (sf_payload f)) \<noteq> None"
proof -
  let ?rt = "sample_admin_runtime (revoke_json sample_revocation) (\<lambda>_. True)"
  have "valid_rfc3339 ''2026-01-02T03:04:05Z''" by code_simp
  moreover have "sample_did \<noteq> []" using sample_did(3) by auto
  ultimately have "validateDeviceRevokePayload (revoke_json sample_revocation) = Some sample_revocation"
    using sample_codes(3)
    by (simp add: validateDeviceRevokePayload_def revoke_json_def sample_revocation_def is_frame_def exact_keys_def
        uuid_str_def nonempty_str_def jget_str_def)
  then have p: "validateDeviceRevokePayload (key_sorted (revoke_json sample_revocation)) = Some sample_revocation"
    by (simp only: validateDeviceRevokePayload_sorted)
  have "\<exists>t. canonicalize (\<lambda>_. ''0'') (revoke_json sample_revocation) = Some (''{'' @ json_quote ''deviceId'' @ t)"
    by (simp add: revoke_json_def sample_revocation_def)
  then obtain t where t: "canonicalize (\<lambda>_. ''0'') (revoke_json sample_revocation) =
      Some (''{'' @ json_quote ''deviceId'' @ t)" by blast
  obtain frame f where "parse_signed_frame ?rt ''device-revoke'' ''revocationJws'' validateDeviceRevokePayload frame = Some f"
      and f: "sf_payload f = sample_revocation" "sf_header f = admin_header sample_kid" "sf_signature f = fake_sign (sf_signing f)"
    by (rule sample_frame [where p_of = validateDeviceRevokePayload and field = "''revocationJws''" and type = "''device-revoke''", OF p _ t]) simp_all
  then have "parseBrokerDeviceRevokeControlFrame ?rt frame = Some f"
    by (auto simp: parse_signed_frame_def parseBrokerDeviceRevokeControlFrame_def decodeInnerJws_def
        bind_eq_Some_conv split: if_splits)
  then have acc: "verifyBrokerDeviceRevokeControlFrame ?rt frame (replicate 32 0) = Some (Inr f)"
    using f sample_kid
    by (simp add: verifyBrokerDeviceRevokeControlFrame_def isDeviceRevokeAuthHeader_def admin_header_kid
        sample_revocation_def finishVerification_def sample_admin_runtime_def)
      (simp add: admin_header_def)
  have "rv_did (sf_payload f) = sample_did" by (simp add: f sample_revocation_def)
  then show ?thesis
    using device_revoke_sound [OF acc] acc by (intro exI [of _ frame] exI [of _ f]) blast
qed

end
