(* ===== verification/Dispositions.thy ===== *)
theory Dispositions
  imports AdminFrames
begin

text \<open>
  The protocol's decisions on device registrations and revocations,
  \<^verbatim>\<open>protocol/sync/device-revocation-disposition.ts\<close> and
  \<^verbatim>\<open>protocol/sync/broker-device-registration-disposition.ts\<close>: pure functions from a device
  list to a verdict and a list of actions. The relay does not call them: it decides inside the
  transactions \<open>registerDevice\<close> and \<open>revokeDevice\<close>. The last section reads the store's devices as
  such a list and gives the actions their effect on it; \<^verbatim>\<open>RelayDevices\<close> compares the
  relay's handlers with the evaluators.
\<close>

record known_device =
  kd_did :: string
  kd_id :: string
  kd_status :: device_status
  kd_revoked_at :: "string option"

section \<open>Revocation\<close>

datatype revocation_action =
    MarkDeviceRevoked string string string
  | DeletePendingInboxMessages string string
  | PersistRevokedDeviceTombstone string string string

datatype revocation_disposition =
    RevocationAccepted string string string "revocation_action list"
  | RevocationIdempotent string string string
  | RevocationTombstone string string string "revocation_action list"
  | RevocationRejected "(string \<times> string) option" broker_error
  | NotForKnownDevice string string

definition markDeviceRevoked :: "device_revoke \<Rightarrow> revocation_action" where
  "markDeviceRevoked r = MarkDeviceRevoked (rv_did r) (rv_device r) (rv_at r)"

definition deletePendingInboxMessages :: "device_revoke \<Rightarrow> revocation_action" where
  "deletePendingInboxMessages r = DeletePendingInboxMessages (rv_did r) (rv_device r)"

text \<open>The loop over the device list; the state is \<open>exactDevice\<close> and \<open>hasForeignDeviceIdRecord\<close>.\<close>

fun scan_revocation ::
  "device_revoke \<Rightarrow> known_device list \<Rightarrow> known_device option \<times> bool \<Rightarrow> known_device option \<times> bool" where
  "scan_revocation r [] st = st"
| "scan_revocation r (k # ks) (exact, foreign) =
     (if kd_id k \<noteq> rv_device r then scan_revocation r ks (exact, foreign)
      else if kd_did k \<noteq> rv_did r then scan_revocation r ks (exact, True)
      else if kd_status k = Revoked then
        (case exact of
           None \<Rightarrow> scan_revocation r ks (Some k, foreign)
         | Some e \<Rightarrow> if kd_status e \<noteq> Revoked then scan_revocation r ks (Some k, foreign)
                     else scan_revocation r ks (exact, foreign))
      else (case exact of
           None \<Rightarrow> scan_revocation r ks (Some k, foreign)
         | Some e \<Rightarrow> scan_revocation r ks (exact, foreign)))"

definition evaluateDeviceRevocationDisposition ::
  "json \<Rightarrow> known_device list \<Rightarrow> revocation_disposition" where
  "evaluateDeviceRevocationDisposition decodedPayload deviceList =
     (case validateDeviceRevokePayload decodedPayload of
        None \<Rightarrow> RevocationRejected None MALFORMED_MESSAGE
      | Some r \<Rightarrow>
          (let (exact, foreign) = scan_revocation r deviceList (None, False) in
           if foreign then RevocationRejected (Some (rv_did r, rv_device r)) DEVICE_ID_CONFLICT
           else case exact of
             None \<Rightarrow> RevocationTombstone (rv_did r) (rv_device r) (rv_at r)
                 [PersistRevokedDeviceTombstone (rv_did r) (rv_device r) (rv_at r)]
           | Some e \<Rightarrow>
               if kd_status e = Revoked then
                 RevocationIdempotent (rv_did r) (rv_device r)
                   (case kd_revoked_at e of Some t \<Rightarrow> t | None \<Rightarrow> rv_at r)
               else RevocationAccepted (rv_did r) (rv_device r) (rv_at r)
                 [markDeviceRevoked r, deletePendingInboxMessages r]))"

definition classifyDeviceRevocationDisposition ::
  "device_revoke \<Rightarrow> known_device \<Rightarrow> revocation_disposition" where
  "classifyDeviceRevocationDisposition r k =
     (if rv_did r \<noteq> kd_did k \<or> rv_device r \<noteq> kd_id k then NotForKnownDevice (rv_did r) (rv_device r)
      else if kd_status k = Revoked then
        RevocationIdempotent (rv_did r) (rv_device r)
          (case kd_revoked_at k of Some t \<Rightarrow> t | None \<Rightarrow> rv_at r)
      else RevocationAccepted (rv_did r) (rv_device r) (rv_at r)
        [markDeviceRevoked r, deletePendingInboxMessages r])"

section \<open>Registration\<close>

datatype registration_action =
    PersistActiveDeviceRegistration string string
  | DeliverPendingInboxMessages string string

datatype registration_disposition =
    RegistrationRegistered bool "registration_action list"
  | RegistrationRejected broker_error

text \<open>The loop over the device list: (exact revoked, exact active, conflicting).\<close>

fun scan_registration :: "string \<Rightarrow> string \<Rightarrow> known_device list \<Rightarrow> bool \<times> bool \<Rightarrow> bool \<times> bool \<times> bool" where
  "scan_registration did dev [] (active, conflict) = (False, active, conflict)"
| "scan_registration did dev (k # ks) (active, conflict) =
     (if kd_id k \<noteq> dev then scan_registration did dev ks (active, conflict)
      else if kd_did k \<noteq> did then scan_registration did dev ks (active, True)
      else if kd_status k = Revoked then (True, active, conflict)
      else scan_registration did dev ks (True, conflict))"

definition evaluateBrokerDeviceRegistrationDisposition ::
  "string \<Rightarrow> string \<Rightarrow> known_device list \<Rightarrow> bool \<Rightarrow> registration_disposition" where
  "evaluateBrokerDeviceRegistrationDisposition did dev deviceList revocationWins =
     (let (revoked, active, conflict) = scan_registration did dev deviceList (False, False) in
      if revocationWins \<or> revoked then RegistrationRejected DEVICE_REVOKED
      else if conflict then RegistrationRejected DEVICE_ID_CONFLICT
      else if active then RegistrationRegistered False [DeliverPendingInboxMessages did dev]
      else RegistrationRegistered True
        [PersistActiveDeviceRegistration did dev, DeliverPendingInboxMessages did dev])"

section \<open>The broker's device list as they see it\<close>

definition known :: "device_row \<Rightarrow> known_device" where
  "known e = \<lparr>kd_did = dev_did e, kd_id = dev_id e, kd_status = dev_status e, kd_revoked_at = dev_revoked_at e\<rparr>"

definition known_devices :: "db \<Rightarrow> known_device list" where
  "known_devices d = map known (devices d)"

text \<open>What the actions mean for a device list; inbox actions leave it alone.\<close>

fun apply_revocation_action :: "revocation_action \<Rightarrow> known_device list \<Rightarrow> known_device list" where
  "apply_revocation_action (MarkDeviceRevoked did dev at') ks =
     row_update (\<lambda>k. kd_id k = dev \<and> kd_did k = did)
       (\<lambda>k. k\<lparr>kd_status := Revoked, kd_revoked_at := Some at'\<rparr>) ks"
| "apply_revocation_action (PersistRevokedDeviceTombstone did dev at') ks =
     ks @ [\<lparr>kd_did = did, kd_id = dev, kd_status = Revoked, kd_revoked_at = Some at'\<rparr>]"
| "apply_revocation_action (DeletePendingInboxMessages did dev) ks = ks"

fun apply_registration_action :: "registration_action \<Rightarrow> known_device list \<Rightarrow> known_device list" where
  "apply_registration_action (PersistActiveDeviceRegistration did dev) ks =
     ks @ [\<lparr>kd_did = did, kd_id = dev, kd_status = Active, kd_revoked_at = None\<rparr>]"
| "apply_registration_action (DeliverPendingInboxMessages did dev) ks = ks"

definition device_keys :: "db \<Rightarrow> bool" where
  "device_keys d \<longleftrightarrow> keys_distinct dev_id (devices d)"

lemma scan_revocation_absent:
  "rv_device r \<notin> kd_id ` set ks \<Longrightarrow> scan_revocation r ks st = st"
  by (induction r ks st rule: scan_revocation.induct) auto

lemma scan_registration_absent:
  "dev \<notin> kd_id ` set ks \<Longrightarrow> scan_registration did dev ks st = (False, st)"
  by (induction did dev ks st rule: scan_registration.induct) auto

lemma scan_revocation_keyed:
  assumes "keys_distinct kd_id ks"
  shows "scan_revocation r ks (None, False) =
    (case row_get kd_id (rv_device r) ks of
       None \<Rightarrow> (None, False)
     | Some k \<Rightarrow> if kd_did k \<noteq> rv_did r then (None, True) else (Some k, False))"
  using assms
proof (induction ks)
  case (Cons k ks)
  then show ?case by (auto simp: keys_distinct_def scan_revocation_absent)
qed simp

lemma scan_registration_keyed:
  assumes "keys_distinct kd_id ks"
  shows "scan_registration did dev ks (False, False) =
    (case row_get kd_id dev ks of
       None \<Rightarrow> (False, False, False)
     | Some k \<Rightarrow> if kd_did k \<noteq> did then (False, False, True)
                 else if kd_status k = Revoked then (True, False, False) else (False, True, False))"
  using assms
proof (induction ks)
  case (Cons k ks)
  then show ?case by (auto simp: keys_distinct_def scan_registration_absent)
qed simp

lemma known_devices_keyed:
  "device_keys d \<Longrightarrow> keys_distinct kd_id (known_devices d)"
  by (simp add: device_keys_def keys_distinct_def known_devices_def known_def comp_def)

lemma row_get_known: "row_get kd_id k (known_devices d) = map_option known (getDevice k d)"
proof -
  have "row_get kd_id k (map known rows) = map_option known (row_get dev_id k rows)" for rows
    by (induction rows) (simp_all add: known_def)
  then show ?thesis by (simp add: known_devices_def getDevice_def)
qed

lemma known_update:
  assumes "device_keys d" "getDevice dev d = Some e" "\<And>r. known (f r) = g (known r)"
  shows "map known (row_update (\<lambda>r. dev_id r = dev) f (devices d)) =
    row_update (\<lambda>k. kd_id k = dev \<and> kd_did k = dev_did e) g (known_devices d)"
proof -
  have only: "r = e" if r: "r \<in> set (devices d)" "dev_id r = dev" for r
  proof -
    have "row_get dev_id dev (devices d) = Some r"
      using r assms(1) by (simp add: row_get_Some_iff device_keys_def)
    then show ?thesis using assms(2) by (simp add: getDevice_def)
  qed
  have "known (if dev_id r = dev then f r else r) =
      (if kd_id (known r) = dev \<and> kd_did (known r) = dev_did e then g (known r) else known r)"
    if "r \<in> set (devices d)" for r
    using only [OF that] assms(3) by (cases "dev_id r = dev") (simp_all add: known_def)
  then show ?thesis by (simp add: row_update_def known_devices_def)
qed

lemma known_devices_upd [simp]:
  "known_devices (d\<lparr>devices := rows\<rparr>) = map known rows" "map known (devices d) = known_devices d"
  by (simp_all add: known_devices_def)

lemma known_touch:
  assumes "\<And>r. known (f r) = known r"
  shows "map known (row_update P f rows) = map known rows"
  using assms by (simp add: row_update_def comp_def if_distrib cong: if_cong)

lemma evaluate_registration_keyed:
  assumes "device_keys d"
  shows "evaluateBrokerDeviceRegistrationDisposition did dev (known_devices d) False =
    (case getDevice dev d of
       None \<Rightarrow> RegistrationRegistered True
         [PersistActiveDeviceRegistration did dev, DeliverPendingInboxMessages did dev]
     | Some e \<Rightarrow>
         if dev_did e \<noteq> did then RegistrationRejected DEVICE_ID_CONFLICT
         else if dev_status e = Revoked then RegistrationRejected DEVICE_REVOKED
         else RegistrationRegistered False [DeliverPendingInboxMessages did dev])"
  using known_devices_keyed [OF assms]
  by (simp add: evaluateBrokerDeviceRegistrationDisposition_def scan_registration_keyed row_get_known known_def
      split: option.splits)

lemma evaluate_revocation_keyed:
  assumes "device_keys d" "validateDeviceRevokePayload p = Some r"
  shows "evaluateDeviceRevocationDisposition p (known_devices d) =
    (case getDevice (rv_device r) d of
       None \<Rightarrow> RevocationTombstone (rv_did r) (rv_device r) (rv_at r)
         [PersistRevokedDeviceTombstone (rv_did r) (rv_device r) (rv_at r)]
     | Some e \<Rightarrow>
         if dev_did e \<noteq> rv_did r then RevocationRejected (Some (rv_did r, rv_device r)) DEVICE_ID_CONFLICT
         else classifyDeviceRevocationDisposition r (known e))"
proof -
  have "getDevice (rv_device r) d = Some e \<Longrightarrow> dev_id e = rv_device r" for e
    by (auto simp: getDevice_def dest: row_get_SomeD)
  then show ?thesis
    using known_devices_keyed [OF assms(1)] assms(2)
    by (auto simp: evaluateDeviceRevocationDisposition_def scan_revocation_keyed row_get_known
        classifyDeviceRevocationDisposition_def known_def split: option.splits)
qed

end
