(* ===== verification/Capability.thy ===== *)
theory Capability
  imports AdminFrames
begin

text \<open>
  Read and write capabilities for documents: \<^verbatim>\<open>protocol/sync/space-capability.ts\<close> (signed with a
  space's capability key, bound to its key generation) and
  \<^verbatim>\<open>protocol/sync/personal-doc-capability.ts\<close> (self-issued under the owner's identity key,
  generation 0). A thrown error is \<open>Inl\<close>: the broker tells only the expiry error, which both
  verifiers raise last, from the others. The verifier's clock is a number of milliseconds.
\<close>

datatype permission = Read | Write

record capability =
  cap_space :: string
  cap_audience :: string
  cap_permissions :: "permission list"
  cap_generation :: int
  cap_issued :: string
  cap_until :: string

datatype capability_error = CapabilityExpired | CapabilityInvalid

definition CAPABILITY_PAYLOAD_KEYS :: "string list" where
  "CAPABILITY_PAYLOAD_KEYS = [''audience'', ''generation'', ''issuedAt'', ''permissions'', ''spaceId'', ''type'', ''validUntil'']"

definition permission_of :: "json \<Rightarrow> permission option" where
  "permission_of v =
     (if v = JStr ''read'' then Some Read else if v = JStr ''write'' then Some Write else None)"

fun permission_list :: "json list \<Rightarrow> permission list \<Rightarrow> permission list option" where
  "permission_list [] seen = Some []"
| "permission_list (v # vs) seen =
     (case permission_of v of
        None \<Rightarrow> None
      | Some p \<Rightarrow> if p \<in> set seen then None else map_option ((#) p) (permission_list vs (p # seen)))"

definition assertCapabilityPermissions :: "json option \<Rightarrow> permission list option" where
  "assertCapabilityPermissions v =
     (case v of Some (JArr xs) \<Rightarrow> if xs = [] then None else permission_list xs [] | _ \<Rightarrow> None)"

definition rfc3339_str :: "json option \<Rightarrow> string option" where
  "rfc3339_str v = (case v of Some (JStr s) \<Rightarrow> if valid_rfc3339 s then Some s else None | _ \<Rightarrow> None)"

definition strict_did_str :: "json option \<Rightarrow> string option" where
  "strict_did_str v = (case v of Some (JStr s) \<Rightarrow> if strict_did s then Some s else None | _ \<Rightarrow> None)"

definition nonneg_integer :: "json option \<Rightarrow> int option" where
  "nonneg_integer v = (case Option.bind v jint of None \<Rightarrow> None | Some n \<Rightarrow> if n < 0 then None else Some n)"

text \<open>The payload check the two files share; they differ in the generations they admit.\<close>

definition capability_payload :: "(json option \<Rightarrow> int option) \<Rightarrow> json \<Rightarrow> capability option" where
  "capability_payload generation_of v =
     (if \<not> is_record v \<or> sort (jkeys v) \<noteq> CAPABILITY_PAYLOAD_KEYS then None
      else if jget ''type'' v \<noteq> Some (JStr ''capability'') then None
      else do {
        s \<leftarrow> uuid_str (jget ''spaceId'' v);
        a \<leftarrow> strict_did_str (jget ''audience'' v);
        p \<leftarrow> assertCapabilityPermissions (jget ''permissions'' v);
        g \<leftarrow> generation_of (jget ''generation'' v);
        i \<leftarrow> rfc3339_str (jget ''issuedAt'' v);
        u \<leftarrow> rfc3339_str (jget ''validUntil'' v);
        Some \<lparr>cap_space = s, cap_audience = a, cap_permissions = p, cap_generation = g,
              cap_issued = i, cap_until = u\<rparr> })"

definition assertSpaceCapabilityPayload :: "json \<Rightarrow> capability option" where
  "assertSpaceCapabilityPayload v = capability_payload nonneg_integer v"

definition PERSONAL_DOC_GENERATION :: int where "PERSONAL_DOC_GENERATION = 0"

definition personal_generation :: "json option \<Rightarrow> int option" where
  "personal_generation v = (if v = Some (JInt PERSONAL_DOC_GENERATION) then Some PERSONAL_DOC_GENERATION else None)"

definition assertPersonalDocCapabilityPayload :: "json \<Rightarrow> capability option" where
  "assertPersonalDocCapabilityPayload v = capability_payload personal_generation v"

definition capabilityKid :: "runtime \<Rightarrow> capability \<Rightarrow> string" where
  "capabilityKid rt c =
     ''wot:space:'' @ cap_space c @ ''#cap-'' @ number_text rt (of_int (cap_generation c))"

text \<open>What a verifier may require; an absent requirement is \<open>None\<close>.\<close>

record capability_context =
  expectedSpaceId :: "string option"
  expectedAudience :: "string option"
  expectedGeneration :: "int option"
  verifier_now :: "int option"

definition requires :: "'a option \<Rightarrow> 'a \<Rightarrow> bool" where
  "requires expected x = (case expected of None \<Rightarrow> True | Some e \<Rightarrow> x = e)"

definition capability_expired :: "capability \<Rightarrow> int option \<Rightarrow> bool" where
  "capability_expired c now =
     (case (now, date_parse (cap_until c)) of (Some n, Some t) \<Rightarrow> n \<ge> t | _ \<Rightarrow> False)"

definition assertSpaceCapabilityContext :: "capability \<Rightarrow> capability_context \<Rightarrow> capability_error + capability" where
  "assertSpaceCapabilityContext c ctx =
     (if \<not> requires (expectedSpaceId ctx) (cap_space c) then Inl CapabilityInvalid
      else if \<not> requires (expectedAudience ctx) (cap_audience c) then Inl CapabilityInvalid
      else if \<not> requires (expectedGeneration ctx) (cap_generation c) then Inl CapabilityInvalid
      else if capability_expired c (verifier_now ctx) then Inl CapabilityExpired
      else Inr c)"

definition assertPersonalDocCapabilityContext :: "capability \<Rightarrow> capability_context \<Rightarrow> capability_error + capability" where
  "assertPersonalDocCapabilityContext c ctx =
     (if \<not> requires (expectedSpaceId ctx) (cap_space c) then Inl CapabilityInvalid
      else if \<not> requires (expectedAudience ctx) (cap_audience c) then Inl CapabilityInvalid
      else if capability_expired c (verifier_now ctx) then Inl CapabilityExpired
      else Inr c)"

definition capability_typ :: json where "capability_typ = JStr ''wot-capability+jwt''"

definition verifySpaceCapabilityJws ::
  "runtime \<Rightarrow> string \<Rightarrow> bytes \<Rightarrow> capability_context \<Rightarrow> capability_error + capability" where
  "verifySpaceCapabilityJws rt jws publicKey ctx =
     (case verifyJwsWithPublicKey rt jws publicKey of
        None \<Rightarrow> Inl CapabilityInvalid
      | Some d \<Rightarrow>
          if jget ''typ'' (jws_header d) \<noteq> Some capability_typ then Inl CapabilityInvalid
          else (case assertSpaceCapabilityPayload (jws_payload d) of
            None \<Rightarrow> Inl CapabilityInvalid
          | Some c \<Rightarrow>
              if jget_str ''kid'' (jws_header d) \<noteq> Some (capabilityKid rt c) then Inl CapabilityInvalid
              else assertSpaceCapabilityContext c ctx))"

definition self_issued :: "string \<Rightarrow> capability \<Rightarrow> bool" where
  "self_issued kid c \<longleftrightarrow> CHR ''#'' \<in> set kid \<and> didOrKidToDid kid = cap_audience c"

definition verifyPersonalDocCapabilityJws ::
  "runtime \<Rightarrow> string \<Rightarrow> bytes \<Rightarrow> capability_context \<Rightarrow> capability_error + capability" where
  "verifyPersonalDocCapabilityJws rt jws publicKey ctx =
     (case verifyJwsWithPublicKey rt jws publicKey of
        None \<Rightarrow> Inl CapabilityInvalid
      | Some d \<Rightarrow>
          if jget ''typ'' (jws_header d) \<noteq> Some capability_typ then Inl CapabilityInvalid
          else (case (assertPersonalDocCapabilityPayload (jws_payload d), jget_str ''kid'' (jws_header d)) of
            (Some c, Some kid) \<Rightarrow>
              if \<not> self_issued kid c then Inl CapabilityInvalid
              else assertPersonalDocCapabilityContext c ctx
          | _ \<Rightarrow> Inl CapabilityInvalid))"

section \<open>Issuing\<close>

definition permission_json :: "permission \<Rightarrow> json" where
  "permission_json p = JStr (case p of Read \<Rightarrow> ''read'' | Write \<Rightarrow> ''write'')"

definition capability_json :: "capability \<Rightarrow> json" where
  "capability_json c = JObj [(''type'', JStr ''capability''), (''spaceId'', JStr (cap_space c)),
     (''audience'', JStr (cap_audience c)), (''permissions'', JArr (map permission_json (cap_permissions c))),
     (''generation'', JInt (cap_generation c)), (''issuedAt'', JStr (cap_issued c)),
     (''validUntil'', JStr (cap_until c))]"

definition capability_header :: "string \<Rightarrow> json" where
  "capability_header kid = JObj [(''alg'', JStr ''EdDSA''), (''kid'', JStr kid), (''typ'', capability_typ)]"

definition createSpaceCapabilityJws ::
  "runtime \<Rightarrow> (bytes \<Rightarrow> bytes \<Rightarrow> bytes) \<Rightarrow> capability \<Rightarrow> bytes \<Rightarrow> string option" where
  "createSpaceCapabilityJws rt ed25519_sign c signingSeed =
     (if assertSpaceCapabilityPayload (capability_json c) = None then None
      else createJcsEd25519Jws rt ed25519_sign (capability_header (capabilityKid rt c)) (capability_json c) signingSeed)"

definition createPersonalDocCapabilityJwsWithSigner ::
  "runtime \<Rightarrow> capability \<Rightarrow> string \<Rightarrow> (bytes \<Rightarrow> bytes) \<Rightarrow> string option" where
  "createPersonalDocCapabilityJwsWithSigner rt c kid sign =
     (if assertPersonalDocCapabilityPayload (capability_json c) = None \<or> \<not> self_issued kid c then None
      else createJcsEd25519JwsWithSigner rt (capability_header kid) (capability_json c) sign)"

definition createPersonalDocCapabilityJws ::
  "runtime \<Rightarrow> (bytes \<Rightarrow> bytes \<Rightarrow> bytes) \<Rightarrow> capability \<Rightarrow> string \<Rightarrow> bytes \<Rightarrow> string option" where
  "createPersonalDocCapabilityJws rt ed25519_sign c kid signingSeed =
     (if assertPersonalDocCapabilityPayload (capability_json c) = None \<or> \<not> self_issued kid c then None
      else createJcsEd25519Jws rt ed25519_sign (capability_header kid) (capability_json c) signingSeed)"

section \<open>Lemmas\<close>

lemma permission_of_json [simp]: "permission_of (permission_json p) = Some p"
  by (cases p) (simp_all add: permission_of_def permission_json_def)

lemma permission_of_Some: "permission_of v = Some p \<longleftrightarrow> v = permission_json p"
  by (cases p) (auto simp: permission_of_def permission_json_def)

lemma permission_list_Some:
  "permission_list vs seen = Some ps \<longleftrightarrow> vs = map permission_json ps \<and> distinct ps \<and> set ps \<inter> set seen = {}"
proof (induction vs arbitrary: seen ps)
  case (Cons v vs)
  show ?case
  proof (cases "permission_of v")
    case None
    then have "v \<noteq> permission_json p" for p by auto
    then show ?thesis using None by (cases ps) auto
  next
    case (Some p)
    then have v: "v = permission_json p" by (simp add: permission_of_Some)
    have "permission_json p = permission_json q \<longleftrightarrow> p = q" for q
      by (metis option.inject permission_of_json)
    then show ?thesis by (cases ps) (auto simp: v Cons.IH)
  qed
qed auto

lemma assertCapabilityPermissions_Some:
  "assertCapabilityPermissions v = Some ps \<longleftrightarrow> v = Some (JArr (map permission_json ps)) \<and> ps \<noteq> [] \<and> distinct ps"
  by (auto simp: assertCapabilityPermissions_def permission_list_Some split: option.splits json.splits)

lemma rfc3339_str_Some: "rfc3339_str v = Some s \<longleftrightarrow> v = Some (JStr s) \<and> valid_rfc3339 s"
  by (auto simp: rfc3339_str_def split: option.splits json.splits)

lemma strict_did_str_Some: "strict_did_str v = Some s \<longleftrightarrow> v = Some (JStr s) \<and> strict_did s"
  by (auto simp: strict_did_str_def split: option.splits json.splits)

lemma nonneg_integer_Some: "nonneg_integer v = Some n \<longleftrightarrow> v = Some (JInt n) \<and> 0 \<le> n"
  by (auto simp: nonneg_integer_def bind_eq_Some_conv dest!: jint_SomeD split: option.splits if_splits)

lemma capability_payload_SomeD:
  assumes "capability_payload gen v = Some c"
  shows "isCanonicalUuidV4 (cap_space c) \<and> strict_did (cap_audience c) \<and> cap_permissions c \<noteq> [] \<and>
    distinct (cap_permissions c) \<and> gen (jget ''generation'' v) = Some (cap_generation c) \<and>
    (\<exists>t. date_parse (cap_issued c) = Some t) \<and> (\<exists>t. date_parse (cap_until c) = Some t) \<and>
    jget_str ''spaceId'' v = Some (cap_space c)"
  using assms
  by (auto simp: capability_payload_def bind_eq_Some_conv uuid_str_Some strict_did_str_Some
      assertCapabilityPermissions_Some rfc3339_str_Some date_parse_valid jget_str_def split: if_splits)

lemma context_Inr:
  "assertSpaceCapabilityContext c ctx = Inr d \<longleftrightarrow> d = c \<and> requires (expectedSpaceId ctx) (cap_space c) \<and>
     requires (expectedAudience ctx) (cap_audience c) \<and> requires (expectedGeneration ctx) (cap_generation c) \<and>
     \<not> capability_expired c (verifier_now ctx)"
  "assertPersonalDocCapabilityContext c ctx = Inr d \<longleftrightarrow> d = c \<and> requires (expectedSpaceId ctx) (cap_space c) \<and>
     requires (expectedAudience ctx) (cap_audience c) \<and> \<not> capability_expired c (verifier_now ctx)"
  by (auto simp: assertSpaceCapabilityContext_def assertPersonalDocCapabilityContext_def)

lemma verifySpaceCapability_Inr:
  "verifySpaceCapabilityJws rt jws key ctx = Inr c \<longleftrightarrow>
   (\<exists>d. verifyJwsWithPublicKey rt jws key = Some d \<and> jget ''typ'' (jws_header d) = Some capability_typ \<and>
      assertSpaceCapabilityPayload (jws_payload d) = Some c \<and>
      jget_str ''kid'' (jws_header d) = Some (capabilityKid rt c) \<and> assertSpaceCapabilityContext c ctx = Inr c)"
  by (auto simp: verifySpaceCapabilityJws_def context_Inr split: option.splits if_splits)

lemma verifyPersonalDocCapability_Inr:
  "verifyPersonalDocCapabilityJws rt jws key ctx = Inr c \<longleftrightarrow>
   (\<exists>d kid. verifyJwsWithPublicKey rt jws key = Some d \<and> jget ''typ'' (jws_header d) = Some capability_typ \<and>
      assertPersonalDocCapabilityPayload (jws_payload d) = Some c \<and>
      jget_str ''kid'' (jws_header d) = Some kid \<and> self_issued kid c \<and> assertPersonalDocCapabilityContext c ctx = Inr c)"
  by (auto simp: verifyPersonalDocCapabilityJws_def context_Inr split: option.splits if_splits)

section \<open>What the broker relies on\<close>

text \<open>
  The contract between a capability verifier and the broker that caches its result: an accepted
  capability was signed, is about the requested document and the authenticated DID, has not
  expired, and waiting can only make it expire.
\<close>

locale capability_verifier =
  fixes verify :: "string \<Rightarrow> string \<Rightarrow> int \<Rightarrow> string \<Rightarrow> capability_error + capability"
    and signed :: "string \<Rightarrow> bool"
  assumes signed: "verify docId did now jws = Inr c \<Longrightarrow> signed jws"
    and bound: "verify docId did now jws = Inr c \<Longrightarrow> cap_space c = docId \<and> cap_audience c = did"
    and permissions: "verify docId did now jws = Inr c \<Longrightarrow> cap_permissions c \<noteq> [] \<and> distinct (cap_permissions c)"
    and fresh: "verify docId did now jws = Inr c \<Longrightarrow> \<exists>t. date_parse (cap_until c) = Some t \<and> now < t"
    and waiting: "verify docId did now jws = Inr c \<Longrightarrow> date_parse (cap_until c) = Some t \<Longrightarrow>
      verify docId did now' jws = (if now' < t then Inr c else Inl CapabilityExpired)"
begin

lemma not_transferable:
  "verify docId did now jws = Inr c \<Longrightarrow> verify docId' did' now' jws = Inr c \<Longrightarrow> docId' = docId \<and> did' = did"
  using bound by metis

lemma never_after_expiry:
  assumes "verify docId did now jws = Inr c" "verify docId did now' jws = Inr c'"
  shows "c' = c"
proof -
  obtain t where "date_parse (cap_until c) = Some t" using fresh [OF assms(1)] by blast
  from waiting [OF assms(1) this, of now'] assms(2) show ?thesis by (auto split: if_splits)
qed

lemma expires:
  assumes "verify docId did now jws = Inr c"
  obtains t where "date_parse (cap_until c) = Some t" "now < t"
    "\<forall>now' \<ge> t. verify docId did now' jws = Inl CapabilityExpired"
proof -
  obtain t where t: "date_parse (cap_until c) = Some t" "now < t" using fresh [OF assms] by blast
  moreover have "\<forall>now' \<ge> t. verify docId did now' jws = Inl CapabilityExpired"
    using waiting [OF assms t(1)] by simp
  ultimately show ?thesis by (rule that)
qed

end

text \<open>The two contexts the broker asks with.\<close>

definition space_context :: "string \<Rightarrow> string \<Rightarrow> int \<Rightarrow> int \<Rightarrow> capability_context" where
  "space_context docId did generation now = \<lparr>expectedSpaceId = Some docId, expectedAudience = Some did,
     expectedGeneration = Some generation, verifier_now = Some now\<rparr>"

definition personal_context :: "string \<Rightarrow> string \<Rightarrow> int \<Rightarrow> capability_context" where
  "personal_context docId did now = \<lparr>expectedSpaceId = Some docId, expectedAudience = Some did,
     expectedGeneration = None, verifier_now = Some now\<rparr>"

lemma context_simps [simp]:
  "expectedSpaceId (space_context docId did g now) = Some docId"
  "expectedAudience (space_context docId did g now) = Some did"
  "expectedGeneration (space_context docId did g now) = Some g"
  "verifier_now (space_context docId did g now) = Some now"
  "expectedSpaceId (personal_context docId did now) = Some docId"
  "expectedAudience (personal_context docId did now) = Some did"
  "verifier_now (personal_context docId did now) = Some now"
  "requires (Some e) x = (x = e)" "requires None x"
  by (simp_all add: space_context_def personal_context_def requires_def)

lemma capability_expired_until: "date_parse (cap_until c) = Some t \<Longrightarrow> capability_expired c (Some now) \<longleftrightarrow> t \<le> now"
  by (simp add: capability_expired_def)

lemma accepted_payload:
  "assertSpaceCapabilityPayload v = Some c \<Longrightarrow> cap_permissions c \<noteq> [] \<and> distinct (cap_permissions c) \<and>
     (\<exists>t. date_parse (cap_until c) = Some t)"
  "assertPersonalDocCapabilityPayload v = Some c \<Longrightarrow> cap_permissions c \<noteq> [] \<and> distinct (cap_permissions c) \<and>
     (\<exists>t. date_parse (cap_until c) = Some t)"
  using capability_payload_SomeD unfolding assertSpaceCapabilityPayload_def assertPersonalDocCapabilityPayload_def
  by blast+

interpretation space_path: capability_verifier
  "\<lambda>docId did now jws. verifySpaceCapabilityJws rt jws key (space_context docId did g now)"
  "\<lambda>jws. verifyJwsWithPublicKey rt jws key \<noteq> None" for rt key g
proof
  fix docId did now jws c
  assume acc: "verifySpaceCapabilityJws rt jws key (space_context docId did g now) = Inr c"
  then obtain d where d: "verifyJwsWithPublicKey rt jws key = Some d" "jget ''typ'' (jws_header d) = Some capability_typ"
      "assertSpaceCapabilityPayload (jws_payload d) = Some c" "jget_str ''kid'' (jws_header d) = Some (capabilityKid rt c)"
    and ctx: "assertSpaceCapabilityContext c (space_context docId did g now) = Inr c"
    by (auto simp: verifySpaceCapability_Inr)
  note pl = accepted_payload(1) [OF d(3)]
  show "verifyJwsWithPublicKey rt jws key \<noteq> None" by (simp add: d)
  show "cap_space c = docId \<and> cap_audience c = did" using ctx by (simp add: context_Inr)
  show "cap_permissions c \<noteq> [] \<and> distinct (cap_permissions c)" using pl by blast
  show "\<exists>t. date_parse (cap_until c) = Some t \<and> now < t"
    using pl ctx by (auto simp: context_Inr capability_expired_until)
  fix t now' assume "date_parse (cap_until c) = Some t"
  then show "verifySpaceCapabilityJws rt jws key (space_context docId did g now') =
      (if now' < t then Inr c else Inl CapabilityExpired)"
    using ctx by (auto simp: verifySpaceCapabilityJws_def d assertSpaceCapabilityContext_def capability_expired_until split: if_splits)
qed

interpretation personal_path: capability_verifier
  "\<lambda>docId did now jws. verifyPersonalDocCapabilityJws rt jws key (personal_context docId did now)"
  "\<lambda>jws. verifyJwsWithPublicKey rt jws key \<noteq> None" for rt key
proof
  fix docId did now jws c
  assume acc: "verifyPersonalDocCapabilityJws rt jws key (personal_context docId did now) = Inr c"
  then obtain d kid where d: "verifyJwsWithPublicKey rt jws key = Some d" "jget ''typ'' (jws_header d) = Some capability_typ"
      "assertPersonalDocCapabilityPayload (jws_payload d) = Some c" "jget_str ''kid'' (jws_header d) = Some kid" "self_issued kid c"
    and ctx: "assertPersonalDocCapabilityContext c (personal_context docId did now) = Inr c"
    by (auto simp: verifyPersonalDocCapability_Inr)
  note pl = accepted_payload(2) [OF d(3)]
  show "verifyJwsWithPublicKey rt jws key \<noteq> None" by (simp add: d)
  show "cap_space c = docId \<and> cap_audience c = did" using ctx by (simp add: context_Inr)
  show "cap_permissions c \<noteq> [] \<and> distinct (cap_permissions c)" using pl by blast
  show "\<exists>t. date_parse (cap_until c) = Some t \<and> now < t"
    using pl ctx by (auto simp: context_Inr capability_expired_until)
  fix t now' assume "date_parse (cap_until c) = Some t"
  then show "verifyPersonalDocCapabilityJws rt jws key (personal_context docId did now') =
      (if now' < t then Inr c else Inl CapabilityExpired)"
    using ctx by (auto simp: verifyPersonalDocCapabilityJws_def d assertPersonalDocCapabilityContext_def capability_expired_until split: if_splits)
qed

lemma capability_parse_json: "capability_payload gen (capability_json c) = Some d \<Longrightarrow>
  gen (Some (JInt (cap_generation c))) = Some (cap_generation c) \<Longrightarrow> d = c"
proof -
  have inj: "map permission_json ps = map permission_json qs \<Longrightarrow> ps = qs" for ps qs
    by (metis map_injective inj_def option.inject permission_of_json)
  assume "capability_payload gen (capability_json c) = Some d"
    and "gen (Some (JInt (cap_generation c))) = Some (cap_generation c)"
  then show ?thesis
    by (cases c) (auto simp: capability_payload_def capability_json_def bind_eq_Some_conv uuid_str_Some strict_did_str_Some
        assertCapabilityPermissions_Some rfc3339_str_Some split: if_splits dest!: inj)
qed

lemma space_payload_json:
  "assertSpaceCapabilityPayload (capability_json c) = Some d \<Longrightarrow> d = c"
proof -
  assume a: "assertSpaceCapabilityPayload (capability_json c) = Some d"
  then have "nonneg_integer (Some (JInt (cap_generation c))) = Some (cap_generation d)"
    using capability_payload_SomeD [OF a [unfolded assertSpaceCapabilityPayload_def]]
    by (simp add: capability_json_def)
  then have "nonneg_integer (Some (JInt (cap_generation c))) = Some (cap_generation c)"
    by (auto simp: nonneg_integer_Some)
  then show "d = c" using a capability_parse_json unfolding assertSpaceCapabilityPayload_def by blast
qed

lemma capability_payload_sorted: "capability_payload gen (key_sorted v) = capability_payload gen v"
  by (simp add: capability_payload_def)

lemma key_sorted_capability_header [simp]: "key_sorted (capability_header kid) = capability_header kid"
  by (simp add: key_sorted_def capability_header_def)

lemma issued_capability_verifies:
  assumes create: "createSpaceCapabilityJws rt ed25519_sign c seed = Some jws"
    and num: "\<forall>r. number_text rt r \<noteq> []" and sig: "\<forall>m. ed25519_sign seed m \<noteq> []"
    and parse: "\<forall>v b. v \<in> {capability_header (capabilityKid rt c), capability_json c} \<longrightarrow>
      canonicalizeToBytes rt v = Some b \<longrightarrow> json_parse rt b = Some (key_sorted v)"
    and key: "\<forall>m. verify_ed25519 rt m (ed25519_sign seed m) key = Some True"
  shows "verifySpaceCapabilityJws rt jws key ctx = assertSpaceCapabilityContext c ctx"
proof -
  let ?h = "capability_header (capabilityKid rt c)"
  obtain c' where valid: "assertSpaceCapabilityPayload (capability_json c) = Some c'"
    and jws: "createJcsEd25519JwsWithSigner rt ?h (capability_json c) (ed25519_sign seed) = Some jws"
    using create by (auto simp: createSpaceCapabilityJws_def createJcsEd25519Jws_def split: if_splits)
  have c: "assertSpaceCapabilityPayload (capability_json c) = Some c"
    using valid space_payload_json [OF valid] by simp
  obtain hb pb where hb: "canonicalizeToBytes rt ?h = Some hb" "canonicalizeToBytes rt (capability_json c) = Some pb"
    and dec: "decodeJws rt jws = do {
       h \<leftarrow> json_parse rt hb; p \<leftarrow> json_parse rt pb;
       Some \<lparr>jws_header = h, jws_payload = p,
         jws_signing_input = utf8_encode (encodeBase64Url hb @ ''.'' @ encodeBase64Url pb),
         jws_signature = ed25519_sign seed (utf8_encode (encodeBase64Url hb @ ''.'' @ encodeBase64Url pb))\<rparr> }"
    by (rule createJws_decode [OF jws num sig])
  have parsed: "json_parse rt hb = Some ?h" "json_parse rt pb = Some (key_sorted (capability_json c))"
    using hb parse key_sorted_capability_header by auto
  have "\<exists>d. verifyJwsWithPublicKey rt jws key = Some d \<and> jws_header d = ?h \<and> jws_payload d = key_sorted (capability_json c)"
    using key by (simp add: verifyJwsWithPublicKey_def dec parsed capability_header_def jget_str_def capabilityKid_def)
  then obtain d where d: "verifyJwsWithPublicKey rt jws key = Some d" "jws_header d = ?h" "jws_payload d = key_sorted (capability_json c)"
    by blast
  have "assertSpaceCapabilityPayload (key_sorted (capability_json c)) = Some c"
    using c by (simp add: assertSpaceCapabilityPayload_def capability_payload_sorted)
  then show ?thesis
    by (simp add: verifySpaceCapabilityJws_def d) (simp add: capability_header_def capability_typ_def jget_str_def)
qed

section \<open>A concrete capability\<close>

definition sample_capability :: capability where
  "sample_capability = \<lparr>cap_space = sample_uuid, cap_audience = ''did:key:a'', cap_permissions = [Read, Write],
     cap_generation = 0, cap_issued = ''2026-01-01T00:00:00Z'', cap_until = ''1970-01-01T00:00:10Z''\<rparr>"

definition capability_runtime :: "string \<Rightarrow> runtime" where
  "capability_runtime kid = table_runtime [capability_header kid, capability_json sample_capability]
     (\<lambda>m s k. Some (s = k @ m))"

lemma sample_capability_facts:
  "valid_rfc3339 ''2026-01-01T00:00:00Z''" "valid_rfc3339 ''1970-01-01T00:00:10Z''"
  "date_parse ''1970-01-01T00:00:10Z'' = Some 10000" "strict_did ''did:key:a''"
  by (code_simp, code_simp, code_simp, code_simp)

lemma sample_capability_payload:
  "nonneg_integer (Some (JInt 0)) = Some 0"
  "gen (Some (JInt 0)) = Some 0 \<Longrightarrow> capability_payload gen (capability_json sample_capability) = Some sample_capability"
proof -
  have perms: "assertCapabilityPermissions (Some (JArr [permission_json Read, permission_json Write])) = Some [Read, Write]"
    by (simp add: assertCapabilityPermissions_Some)
  have keys: "sort [''type'', ''spaceId'', ''audience'', ''permissions'', ''generation'', ''issuedAt'', ''validUntil''] = CAPABILITY_PAYLOAD_KEYS"
    by code_simp
  show "nonneg_integer (Some (JInt 0)) = Some 0" by (simp add: nonneg_integer_Some)
  show "gen (Some (JInt 0)) = Some 0 \<Longrightarrow> capability_payload gen (capability_json sample_capability) = Some sample_capability"
    using keys sample_codes(3)
    by (simp add: capability_payload_def capability_json_def sample_capability_def perms uuid_str_def
        strict_did_str_def rfc3339_str_def sample_capability_facts)
qed

lemma sample_capability_texts:
  "\<exists>t. canonicalize (\<lambda>_. ''0'') (capability_header kid) = Some (''{'' @ json_quote ''alg'' @ t)"
  "\<exists>t. canonicalize (\<lambda>_. ''0'') (capability_json sample_capability) = Some (''{'' @ json_quote ''audience'' @ t)"
  by (simp_all add: capability_header_def capability_typ_def capability_json_def sample_capability_def
      permission_json_def num_of_int_def)

lemma capability_header_simps:
  "jget ''alg'' (capability_header kid) = Some (JStr ''EdDSA'')"
  "jget_str ''kid'' (capability_header kid) = Some kid"
  by (simp_all add: capability_header_def jget_str_def)

lemma sample_capability_parse:
  "\<forall>v b. v \<in> {capability_header kid, capability_json sample_capability} \<longrightarrow>
     canonicalizeToBytes (capability_runtime kid) v = Some b \<longrightarrow> json_parse (capability_runtime kid) b = Some (key_sorted v)"
  unfolding capability_runtime_def
proof (rule table_runtime_parse)
  show "canonicalize (\<lambda>_. ''0'') (capability_header kid) \<noteq> canonicalize (\<lambda>_. ''0'') (capability_json sample_capability)"
    using sample_capability_texts(1) [of kid] sample_capability_texts(2) by (auto simp: json_quote_append_inject)
qed

definition sample_space_kid :: string where
  "sample_space_kid = ''wot:space:'' @ sample_uuid @ ''#cap-0''"

abbreviation prefix_sign :: "bytes \<Rightarrow> bytes \<Rightarrow> bytes" where "prefix_sign seed m \<equiv> seed @ m"

lemma capability_runtime_simps:
  "number_text (capability_runtime kid) = (\<lambda>_. ''0'')"
  "verify_ed25519 (capability_runtime kid) m s k = Some (s = k @ m)"
  by (simp_all add: capability_runtime_def)

lemma sample_capability_issued:
  "\<exists>jws. createSpaceCapabilityJws (capability_runtime sample_space_kid) prefix_sign sample_capability (replicate 32 7) = Some jws"
proof -
  have "capabilityKid (capability_runtime sample_space_kid) sample_capability = sample_space_kid"
    by (simp add: capabilityKid_def sample_space_kid_def sample_capability_def capability_runtime_simps)
  moreover have "sample_space_kid \<noteq> []" by (simp add: sample_space_kid_def)
  ultimately show ?thesis
    using sample_capability_texts(1) [of sample_space_kid] sample_capability_texts(2)
    by (auto simp: createSpaceCapabilityJws_def assertSpaceCapabilityPayload_def sample_capability_payload
        createJcsEd25519Jws_def createJcsEd25519JwsWithSigner_def capability_header_simps
        canonicalizeToBytes_def capability_runtime_simps)
qed

lemma sample_space_capability_kid:
  "capabilityKid (capability_runtime kid) sample_capability = sample_space_kid"
  by (simp add: capabilityKid_def sample_space_kid_def sample_capability_def capability_runtime_simps)

lemma issued_sample_verifies:
  assumes "createSpaceCapabilityJws (capability_runtime sample_space_kid) prefix_sign sample_capability (replicate 32 7) = Some jws"
  shows "verifySpaceCapabilityJws (capability_runtime sample_space_kid) jws (replicate 32 7) ctx =
    assertSpaceCapabilityContext sample_capability ctx"
  by (rule issued_capability_verifies [OF assms])
    (use sample_capability_parse [of sample_space_kid] in
      \<open>simp_all add: capability_runtime_simps sample_space_capability_kid\<close>)

definition sample_owner_kid :: string where
  "sample_owner_kid = ''did:key:a#k''"

lemma sample_personal_issued:
  obtains jws where "createPersonalDocCapabilityJws (capability_runtime sample_owner_kid) prefix_sign
      sample_capability sample_owner_kid (replicate 32 7) = Some jws"
    "verifyPersonalDocCapabilityJws (capability_runtime sample_owner_kid) jws (replicate 32 7)
      (personal_context sample_uuid ''did:key:a'' 5) = Inr sample_capability"
proof -
  let ?rt = "capability_runtime sample_owner_kid"
  have payload: "assertPersonalDocCapabilityPayload (capability_json sample_capability) = Some sample_capability"
    unfolding assertPersonalDocCapabilityPayload_def
    by (rule sample_capability_payload(2)) (simp add: personal_generation_def PERSONAL_DOC_GENERATION_def)
  then have sorted_payload: "assertPersonalDocCapabilityPayload (key_sorted (capability_json sample_capability)) = Some sample_capability"
    by (simp add: assertPersonalDocCapabilityPayload_def capability_payload_sorted)
  have own: "self_issued sample_owner_kid sample_capability"
    by (simp add: self_issued_def sample_owner_kid_def sample_capability_def didOrKidToDid_def)
  have ne: "sample_owner_kid \<noteq> []" by (simp add: sample_owner_kid_def)
  then obtain jws where jws: "createJcsEd25519JwsWithSigner ?rt (capability_header sample_owner_kid)
      (capability_json sample_capability) (prefix_sign (replicate 32 7)) = Some jws"
    using sample_capability_texts(1) [of sample_owner_kid] sample_capability_texts(2)
    by (auto simp: createJcsEd25519JwsWithSigner_def capability_header_simps canonicalizeToBytes_def capability_runtime_simps)
  have rt: "\<forall>r. number_text ?rt r \<noteq> []" "\<forall>m. prefix_sign (replicate 32 7) m \<noteq> []"
    by (simp_all add: capability_runtime_simps)
  obtain hb pb where hb: "canonicalizeToBytes ?rt (capability_header sample_owner_kid) = Some hb"
      "canonicalizeToBytes ?rt (capability_json sample_capability) = Some pb"
    and dec: "decodeJws ?rt jws = do {
       h \<leftarrow> json_parse ?rt hb; p \<leftarrow> json_parse ?rt pb;
       Some \<lparr>jws_header = h, jws_payload = p,
         jws_signing_input = utf8_encode (encodeBase64Url hb @ ''.'' @ encodeBase64Url pb),
         jws_signature = prefix_sign (replicate 32 7) (utf8_encode (encodeBase64Url hb @ ''.'' @ encodeBase64Url pb))\<rparr> }"
    by (rule createJws_decode [OF jws rt])
  have parsed: "json_parse ?rt hb = Some (capability_header sample_owner_kid)"
      "json_parse ?rt pb = Some (key_sorted (capability_json sample_capability))"
    using hb sample_capability_parse [of sample_owner_kid] by auto
  have "verifyPersonalDocCapabilityJws ?rt jws (replicate 32 7) (personal_context sample_uuid ''did:key:a'' 5) = Inr sample_capability"
    using own sorted_payload ne
    by (simp add: verifyPersonalDocCapabilityJws_def verifyJwsWithPublicKey_def dec parsed capability_header_simps
        capability_runtime_simps context_Inr capability_expired_def)
      (simp add: capability_header_def sample_capability_def sample_capability_facts)
  with jws show ?thesis
    by (intro that [of jws]) (simp_all add: createPersonalDocCapabilityJws_def payload own createJcsEd25519Jws_def)
qed

section \<open>Properties\<close>

text \<open>C37: A space capability is accepted only when its JWS verifies under the space's key, its signed
  payload is for the requested space, audience and generation, its key id names exactly that
  space and generation, and it has not expired; from its expiry time on it is reported as
  expired.\<close>

theorem space_capability_sound:
  assumes "verifySpaceCapabilityJws rt jws key (space_context docId did g now) = Inr c"
  shows "\<exists>d t. verifyJwsWithPublicKey rt jws key = Some d \<and>
    assertSpaceCapabilityPayload (jws_payload d) = Some c \<and>
    jget_str ''kid'' (jws_header d) = Some (''wot:space:'' @ docId @ ''#cap-'' @ number_text rt (of_int g)) \<and>
    cap_space c = docId \<and> cap_audience c = did \<and> cap_generation c = g \<and> 0 \<le> g \<and>
    cap_permissions c \<noteq> [] \<and> date_parse (cap_until c) = Some t \<and> now < t \<and>
    (\<forall>now' \<ge> t. verifySpaceCapabilityJws rt jws key (space_context docId did g now') = Inl CapabilityExpired)"
proof -
  obtain d where d: "verifyJwsWithPublicKey rt jws key = Some d"
      "assertSpaceCapabilityPayload (jws_payload d) = Some c" "jget_str ''kid'' (jws_header d) = Some (capabilityKid rt c)"
    and ctx: "cap_space c = docId" "cap_audience c = did" "cap_generation c = g"
    using assms by (auto simp: verifySpaceCapability_Inr context_Inr)
  obtain t where t: "date_parse (cap_until c) = Some t" "now < t"
      "\<forall>now' \<ge> t. verifySpaceCapabilityJws rt jws key (space_context docId did g now') = Inl CapabilityExpired"
    by (rule space_path.expires [OF assms])
  have "0 \<le> cap_generation c"
    using capability_payload_SomeD [OF d(2) [unfolded assertSpaceCapabilityPayload_def]]
    by (simp add: nonneg_integer_Some)
  then show ?thesis
    using d ctx t space_path.permissions [OF assms] by (auto simp: capabilityKid_def)
qed

theorem space_capability_sound_witness:
  "\<exists>jws. verifySpaceCapabilityJws (capability_runtime sample_space_kid) jws (replicate 32 7)
      (space_context sample_uuid ''did:key:a'' 0 5) = Inr sample_capability \<and>
    verifySpaceCapabilityJws (capability_runtime sample_space_kid) jws (replicate 32 7)
      (space_context sample_uuid ''did:key:a'' 0 10000) = Inl CapabilityExpired"
proof -
  let ?rt = "capability_runtime sample_space_kid"
  obtain jws where jws: "createSpaceCapabilityJws ?rt prefix_sign sample_capability (replicate 32 7) = Some jws"
    using sample_capability_issued by blast
  have acc: "verifySpaceCapabilityJws ?rt jws (replicate 32 7) (space_context sample_uuid ''did:key:a'' 0 5) = Inr sample_capability"
    using issued_sample_verifies [OF jws] sample_capability_facts(3)
    by (simp add: context_Inr capability_expired_def sample_capability_def)
  obtain t where t: "date_parse (cap_until sample_capability) = Some t"
      "\<forall>now' \<ge> t. verifySpaceCapabilityJws ?rt jws (replicate 32 7) (space_context sample_uuid ''did:key:a'' 0 now') = Inl CapabilityExpired"
    using space_capability_sound [OF acc] by blast
  have "t = 10000" using t(1) sample_capability_facts(3) by (simp add: sample_capability_def)
  then show ?thesis using acc t(2) by auto
qed

text \<open>A personal-document capability is accepted only from the owner itself: the JWS verifies under the
  authenticated DID's key, its key id belongs to that DID, which is the audience, the generation
  is 0, and the audience of an accepted capability cannot be another DID.\<close>

theorem personal_capability_self_issued:
  assumes "verifyPersonalDocCapabilityJws rt jws key (personal_context docId did now) = Inr c"
  shows "\<exists>d kid t. verifyJwsWithPublicKey rt jws key = Some d \<and>
    assertPersonalDocCapabilityPayload (jws_payload d) = Some c \<and>
    jget_str ''kid'' (jws_header d) = Some kid \<and> CHR ''#'' \<in> set kid \<and> didOrKidToDid kid = did \<and>
    cap_space c = docId \<and> cap_audience c = did \<and> cap_generation c = 0 \<and>
    date_parse (cap_until c) = Some t \<and> now < t \<and>
    (\<forall>doc' did' now'. verifyPersonalDocCapabilityJws rt jws key (personal_context doc' did' now') = Inr c \<longrightarrow>
       doc' = docId \<and> did' = did \<and> now' < t)"
proof -
  obtain d kid where d: "verifyJwsWithPublicKey rt jws key = Some d"
      "assertPersonalDocCapabilityPayload (jws_payload d) = Some c" "jget_str ''kid'' (jws_header d) = Some kid" "self_issued kid c"
    and ctx: "cap_space c = docId" "cap_audience c = did"
    using assms by (auto simp: verifyPersonalDocCapability_Inr context_Inr)
  obtain t where t: "date_parse (cap_until c) = Some t" "now < t"
    using personal_path.fresh [OF assms] by blast
  have "doc' = docId \<and> did' = did \<and> now' < t"
    if "verifyPersonalDocCapabilityJws rt jws key (personal_context doc' did' now') = Inr c" for doc' did' now'
    using personal_path.not_transferable [OF assms that] personal_path.fresh [OF that] t(1) by simp
  moreover have "cap_generation c = 0"
    using capability_payload_SomeD [OF d(2) [unfolded assertPersonalDocCapabilityPayload_def]]
    by (auto simp: personal_generation_def PERSONAL_DOC_GENERATION_def split: if_splits)
  ultimately show ?thesis using d ctx t by (auto simp: self_issued_def)
qed

theorem personal_capability_self_issued_witness:
  "\<exists>jws. verifyPersonalDocCapabilityJws (capability_runtime sample_owner_kid) jws (replicate 32 7)
      (personal_context sample_uuid ''did:key:a'' 5) = Inr sample_capability \<and>
    verifyPersonalDocCapabilityJws (capability_runtime sample_owner_kid) jws (replicate 32 7)
      (personal_context sample_uuid ''did:key:b'' 5) \<noteq> Inr sample_capability"
proof -
  let ?rt = "capability_runtime sample_owner_kid"
  obtain jws where acc: "verifyPersonalDocCapabilityJws ?rt jws (replicate 32 7)
      (personal_context sample_uuid ''did:key:a'' 5) = Inr sample_capability"
    by (rule sample_personal_issued)
  from personal_capability_self_issued [OF acc]
  have "verifyPersonalDocCapabilityJws ?rt jws (replicate 32 7) (personal_context doc' did' now') = Inr sample_capability \<longrightarrow>
      did' = ''did:key:a''" for doc' did' now' by blast
  then have "verifyPersonalDocCapabilityJws ?rt jws (replicate 32 7)
      (personal_context sample_uuid ''did:key:b'' 5) \<noteq> Inr sample_capability" by fastforce
  with acc show ?thesis by blast
qed

text \<open>A space capability issued with the space's signing key is accepted for exactly its space,
  audience and generation and until exactly its expiry time: for any other request it is
  invalid, and afterwards it is expired.\<close>

theorem space_capability_create_verify:
  assumes create: "createSpaceCapabilityJws rt ed25519_sign c seed = Some jws"
    and num: "\<forall>r. number_text rt r \<noteq> []" and sig: "\<forall>m. ed25519_sign seed m \<noteq> []"
    and parse: "\<forall>v b. v \<in> {capability_header (capabilityKid rt c), capability_json c} \<longrightarrow>
      canonicalizeToBytes rt v = Some b \<longrightarrow> json_parse rt b = Some (key_sorted v)"
    and key: "\<forall>m. verify_ed25519 rt m (ed25519_sign seed m) key = Some True"
  shows "verifySpaceCapabilityJws rt jws key (space_context docId did g now) =
    (if (docId, did, g) \<noteq> (cap_space c, cap_audience c, cap_generation c) then Inl CapabilityInvalid
     else if capability_expired c (Some now) then Inl CapabilityExpired else Inr c)"
  unfolding issued_capability_verifies [OF create num sig parse key]
  by (auto simp: assertSpaceCapabilityContext_def)

theorem space_capability_create_verify_witness:
  "\<exists>jws. createSpaceCapabilityJws (capability_runtime sample_space_kid) prefix_sign sample_capability (replicate 32 7) = Some jws \<and>
    verifySpaceCapabilityJws (capability_runtime sample_space_kid) jws (replicate 32 7)
      (space_context sample_uuid ''did:key:a'' 0 9999) = Inr sample_capability \<and>
    verifySpaceCapabilityJws (capability_runtime sample_space_kid) jws (replicate 32 7)
      (space_context sample_uuid ''did:key:a'' 1 9999) = Inl CapabilityInvalid"
proof -
  let ?rt = "capability_runtime sample_space_kid"
  obtain jws where jws: "createSpaceCapabilityJws ?rt prefix_sign sample_capability (replicate 32 7) = Some jws"
    using sample_capability_issued by blast
  have rt: "\<forall>r. number_text ?rt r \<noteq> []" "\<forall>m. prefix_sign (replicate 32 7) m \<noteq> []"
      "\<forall>m. verify_ed25519 ?rt m (prefix_sign (replicate 32 7) m) (replicate 32 7) = Some True"
    by (simp_all add: capability_runtime_simps)
  have parse: "\<forall>v b. v \<in> {capability_header (capabilityKid ?rt sample_capability), capability_json sample_capability} \<longrightarrow>
      canonicalizeToBytes ?rt v = Some b \<longrightarrow> json_parse ?rt b = Some (key_sorted v)"
    using sample_capability_parse [of sample_space_kid] by (simp add: sample_space_capability_kid)
  note ver = space_capability_create_verify [OF jws rt(1,2) parse rt(3)]
  show ?thesis
    using jws sample_capability_facts(3) by (auto simp: ver capability_expired_def sample_capability_def)
qed

end
