(* ===== verification/JsonText.thy ===== *)
theory JsonText
  imports Formats
begin

text \<open>
  A reader of JSON texts that keeps the properties of an object in the order of the text: flat objects
  of strings and natural numbers, which is what the signed headers and log entries are. It reads the
  canonical form of such an object back with its properties in the order of the keys, so it can stand
  for the JSON parser of the runtime, a parameter of the model, where one is asked for.
\<close>

section \<open>Digits\<close>

lemma is_digit_code: "is_digit c \<longleftrightarrow> 48 \<le> (of_char c :: nat) \<and> (of_char c :: nat) \<le> 57"
  by (simp add: is_digit_def less_eq_char_def)

lemma digit_char: "n < 10 \<Longrightarrow> is_digit (char_of (48 + n :: nat))"
  by (simp add: is_digit_code of_char_digit)

lemma nat_text_digits: "list_all is_digit (nat_text n)"
proof (induction n rule: nat_text.induct)
  case (1 n)
  then show ?case
    using digit_char [of "n mod 10"] digit_char [of n] by (subst nat_text.simps) simp
qed

lemma nat_text_not_empty: "nat_text n \<noteq> []"
  by (subst nat_text.simps) simp

section \<open>The reader\<close>

definition read_value :: "string \<Rightarrow> (json \<times> string) option" where
  "read_value s =
     (case s of
        [] \<Rightarrow> None
      | c # r \<Rightarrow>
          if c = CHR 0x22 then map_option (\<lambda>(t, u). (JStr t, u)) (read_quoted r)
          else if is_digit c then Some (JInt (int (nat_of_text 0 (takeWhile is_digit s))), dropWhile is_digit s)
          else None)"

text \<open>The fields after the opening brace; the fuel is the number of characters, more than the fields.\<close>

fun read_fields :: "nat \<Rightarrow> string \<Rightarrow> ((string \<times> json) list \<times> string) option" where
  "read_fields 0 s = None"
| "read_fields (Suc n) s =
     (case s of
        c # r \<Rightarrow>
          if c \<noteq> CHR 0x22 then None
          else (case read_quoted r of
            Some (k, x # t) \<Rightarrow>
              if x \<noteq> CHR '':'' then None
              else (case read_value t of
                Some (v, y # u) \<Rightarrow>
                  if y = CHR ''}'' then Some ([(k, v)], u)
                  else if y = CHR '','' then map_option (\<lambda>(kvs, w). ((k, v) # kvs, w)) (read_fields n u)
                  else None
              | _ \<Rightarrow> None)
          | _ \<Rightarrow> None)
      | [] \<Rightarrow> None)"

definition read_object :: "string \<Rightarrow> json option" where
  "read_object s =
     (case s of
        c # r \<Rightarrow>
          if c \<noteq> CHR ''{'' then None
          else (case read_fields (length r) r of Some (kvs, []) \<Rightarrow> Some (JObj kvs) | _ \<Rightarrow> None)
      | [] \<Rightarrow> None)"

section \<open>It reads canonical texts\<close>

definition plain_value :: "json \<Rightarrow> bool" where
  "plain_value v \<longleftrightarrow> (\<exists>s. v = JStr s) \<or> (\<exists>n. v = JInt (int n) \<and> n < 10 ^ 21)"

lemma read_value_text:
  assumes "plain_value v" "c \<noteq> CHR 0x22" "\<not> is_digit c"
  shows "\<exists>t. canonicalize (js_number_text other) v = Some t \<and> read_value (t @ c # r) = Some (v, c # r)"
  using assms(1) unfolding plain_value_def
proof (elim disjE exE conjE)
  fix s assume "v = JStr s"
  then show ?thesis by (simp add: read_value_def json_quote_def read_quoted_escaped)
next
  fix n :: nat assume v: "v = JInt (int n)" and n: "n < 10 ^ 21"
  have t: "canonicalize (js_number_text other) v = Some (nat_text n)"
  proof -
    have "rat_of_nat n < 10 ^ 21" using n by (metis of_nat_less_iff of_nat_numeral of_nat_power)
    then show ?thesis by (simp add: v num_of_int_def js_number_text_def int_text_def)
  qed
  obtain d ds where d: "nat_text n = d # ds" using nat_text_not_empty by (cases "nat_text n") auto
  have digits: "list_all is_digit (d # ds)" using nat_text_digits [of n] d by simp
  then have quote: "d \<noteq> CHR 0x22" by (auto simp: is_digit_code)
  have "takeWhile is_digit (d # ds @ c # r) = d # ds" "dropWhile is_digit (d # ds @ c # r) = c # r"
    using digits assms(3) by (simp_all add: list_all_iff)
  then have "read_value (nat_text n @ c # r) = Some (v, c # r)"
    using digits quote nat_of_text_nat_text [of n] by (simp add: read_value_def d v)
  then show ?thesis using t by blast
qed

lemma read_fields_text:
  assumes "kvs \<noteq> []" "list_all (\<lambda>(k, v). plain_value v) kvs" "length kvs \<le> n"
  shows "\<exists>kts. canonicalize_fields (js_number_text other) kvs = Some kts \<and> map fst kts = map fst kvs \<and>
    read_fields n (join '','' (map (\<lambda>(k, t). json_quote k @ '':'' @ t) kts) @ CHR ''}'' # r) = Some (kvs, r)"
  using assms
proof (induction kvs arbitrary: n)
  case (Cons kv kvs)
  obtain k v where kv: "kv = (k, v)" by (cases kv)
  obtain m where n: "n = Suc m" using Cons.prems(3) by (cases n) auto
  have v: "plain_value v" using Cons.prems(2) by (simp add: kv)
  have seps: "CHR ''}'' \<noteq> CHR 0x22" "\<not> is_digit CHR ''}''" "CHR '','' \<noteq> CHR 0x22" "\<not> is_digit CHR '',''"
    by (simp_all add: is_digit_code)
  show ?case
  proof (cases kvs)
    case Nil
    obtain t where "canonicalize (js_number_text other) v = Some t" "read_value (t @ CHR ''}'' # r) = Some (v, CHR ''}'' # r)"
      using read_value_text [OF v seps(1,2)] by blast
    then show ?thesis by (simp add: kv n Nil json_quote_def read_quoted_escaped)
  next
    case (Cons kv' kvs')
    then obtain kts where kts: "canonicalize_fields (js_number_text other) kvs = Some kts" "map fst kts = map fst kvs"
      and rest: "read_fields m (join '','' (map (\<lambda>(k, t). json_quote k @ '':'' @ t) kts) @ CHR ''}'' # r) = Some (kvs, r)"
      using Cons.IH [of m] Cons.prems n by auto
    obtain p ps where ts: "kts = p # ps" using kts(2) Cons by (cases kts) auto
    obtain t where "canonicalize (js_number_text other) v = Some t"
        "\<And>q. read_value (t @ CHR '','' # q) = Some (v, CHR '','' # q)"
      using read_value_text [OF v seps(3,4)] by (metis option.inject)
    then show ?thesis
      using kts rest [unfolded ts] by (simp add: kv n ts) (simp add: json_quote_def read_quoted_escaped)
  qed
qed simp

lemma canonicalize_fields_sorted:
  assumes "canonicalize_fields num kvs = Some kts"
  shows "canonicalize_fields num (sort_key fst kvs) = Some (sort_key fst kts)"
proof -
  have ins: "canonicalize_fields num (insort_key fst (k, v) kvs) = Some (insort_key fst (k, t) kts)"
    if "canonicalize_fields num kvs = Some kts" "canonicalize num v = Some t" for k v t kvs kts
    using that
  proof (induction kvs arbitrary: kts)
    case (Cons kv kvs)
    then show ?case by (cases kv) (auto simp: bind_eq_Some_conv)
  qed simp
  show ?thesis
    using assms
  proof (induction kvs arbitrary: kts)
    case (Cons kv kvs)
    then show ?case using ins by (cases kv) (auto simp: bind_eq_Some_conv)
  qed simp
qed

lemma read_object_canonical:
  assumes "kvs \<noteq> []" "list_all (\<lambda>(k, v). plain_value v) kvs" "canonicalize (js_number_text other) (JObj kvs) = Some t"
  shows "read_object t = Some (key_sorted (JObj kvs))"
proof -
  obtain kts where kts: "canonicalize_fields (js_number_text other) kvs = Some kts"
    and t: "t = ''{'' @ join '','' (map (\<lambda>(k, t). json_quote k @ '':'' @ t) (sort_key fst kts)) @ ''}''"
    using assms(3) by auto
  let ?body = "join '','' (map (\<lambda>(k, t). json_quote k @ '':'' @ t) (sort_key fst kts))"
  have "length kts \<le> length (?body @ ''}'')"
  proof -
    have "length xs \<le> length (join '','' xs)" if "[] \<notin> set xs" for xs
      using that by (induction "'',''" xs rule: join.induct) (auto simp: Suc_le_eq)
    moreover have "[] \<notin> set (map (\<lambda>(k, t). json_quote k @ '':'' @ t) (sort_key fst kts))" by auto
    ultimately have "length (map (\<lambda>(k, t). json_quote k @ '':'' @ t) (sort_key fst kts)) \<le> length ?body" by blast
    then show ?thesis by simp
  qed
  moreover have "length kts = length kvs" using kts by (induction kvs arbitrary: kts) (auto simp: bind_eq_Some_conv)
  ultimately have len: "length (sort_key fst kvs) \<le> length (?body @ ''}'')" by simp
  have "sort_key fst kvs \<noteq> []" "list_all (\<lambda>(k, v). plain_value v) (sort_key fst kvs)"
    using assms(1,2) by (simp_all add: list_all_iff flip: set_empty)
  from read_fields_text [OF this len, of other "[]"] canonicalize_fields_sorted [OF kts]
  have "read_fields (length (?body @ ''}'')) (?body @ ''}'') = Some (sort_key fst kvs, [])" by auto
  then show ?thesis by (simp add: read_object_def t key_sorted_def)
qed

end
