(* ===== verification/Messages.thy ===== *)
theory Messages
  imports Capability SeqConsistency JsonText
begin

text \<open>
  The message bodies of the sync protocol: plaintext envelopes and membership messages
  (\<^verbatim>\<open>membership-messages.ts\<close>), log entries (\<^verbatim>\<open>log-entry.ts\<close>), catch-up requests and
  responses (\<^verbatim>\<open>sync-messages.ts\<close>), acknowledgements (\<^verbatim>\<open>ack-message.ts\<close>) and the encrypted
  inbox envelope (\<^verbatim>\<open>messaging/inbox-message.ts\<close>). An assertion function is its truth value,
  or its result as an option where later code reads the checked fields. The constructor
  \<^verbatim>\<open>URL\<close> is the runtime's \<open>valid_url\<close>.
\<close>

section \<open>Field checks\<close>

definition loose_did_str :: "json option \<Rightarrow> bool" where
  "loose_did_str v = (case v of Some (JStr s) \<Rightarrow> loose_did s | _ \<Rightarrow> False)"

definition assertDidArray :: "bool \<Rightarrow> json option \<Rightarrow> bool" where
  "assertDidArray allowEmpty v =
     (case v of
        Some (JArr xs) \<Rightarrow> (allowEmpty \<or> xs \<noteq> []) \<and> list_all (\<lambda>x. loose_did_str (Some x)) xs
      | _ \<Rightarrow> False)"

definition is_uuid :: "json option \<Rightarrow> bool" where
  "is_uuid v \<longleftrightarrow> uuid_str v \<noteq> None"

definition optional_uuid :: "json option \<Rightarrow> bool" where
  "optional_uuid v \<longleftrightarrow> v = None \<or> is_uuid v"

definition is_nonneg_integer :: "json option \<Rightarrow> bool" where
  "is_nonneg_integer v \<longleftrightarrow> nonneg_integer v \<noteq> None"

definition assertUri :: "runtime \<Rightarrow> json option \<Rightarrow> bool" where
  "assertUri rt v = (case v of Some (JStr s) \<Rightarrow> valid_url rt s | _ \<Rightarrow> False)"

definition assertUriArray :: "runtime \<Rightarrow> json option \<Rightarrow> bool" where
  "assertUriArray rt v =
     (case v of Some (JArr xs) \<Rightarrow> xs \<noteq> [] \<and> list_all (\<lambda>x. assertUri rt (Some x)) xs | _ \<Rightarrow> False)"

definition assertBase64UrlLike :: "json option \<Rightarrow> bool" where
  "assertBase64UrlLike v = (case v of Some (JStr s) \<Rightarrow> b64url_text s | _ \<Rightarrow> False)"

definition assertCompactJwsLike :: "json option \<Rightarrow> bool" where
  "assertCompactJwsLike v =
     (case v of
        Some (JStr s) \<Rightarrow> (let parts = split_on CHR ''.'' s in length parts = 3 \<and> list_all b64url_text parts)
      | _ \<Rightarrow> False)"

definition assertJwsCompactString :: "json option \<Rightarrow> bool" where
  "assertJwsCompactString v = (case v of Some (JStr s) \<Rightarrow> jws_compact_segments s | _ \<Rightarrow> False)"

definition is_record_at :: "string \<Rightarrow> json \<Rightarrow> bool" where
  "is_record_at k v = (case jget k v of Some b \<Rightarrow> is_record b | None \<Rightarrow> False)"

section \<open>Plaintext envelopes\<close>

definition DIDCOMM_PLAINTEXT_TYP :: json where
  "DIDCOMM_PLAINTEXT_TYP = JStr ''application/didcomm-plain+json''"

definition message_type :: "string \<Rightarrow> string" where
  "message_type name = ''https://web-of-trust.de/protocols/'' @ name @ ''/1.0''"

definition SPACE_INVITE_MESSAGE_TYPE :: string where "SPACE_INVITE_MESSAGE_TYPE = message_type ''space-invite''"
definition MEMBER_UPDATE_MESSAGE_TYPE :: string where "MEMBER_UPDATE_MESSAGE_TYPE = message_type ''member-update''"
definition KEY_ROTATION_MESSAGE_TYPE :: string where "KEY_ROTATION_MESSAGE_TYPE = message_type ''key-rotation''"
definition LOG_ENTRY_MESSAGE_TYPE :: string where "LOG_ENTRY_MESSAGE_TYPE = message_type ''log-entry''"
definition SYNC_REQUEST_MESSAGE_TYPE :: string where "SYNC_REQUEST_MESSAGE_TYPE = message_type ''sync-request''"
definition SYNC_RESPONSE_MESSAGE_TYPE :: string where "SYNC_RESPONSE_MESSAGE_TYPE = message_type ''sync-response''"
definition ACK_MESSAGE_TYPE :: string where "ACK_MESSAGE_TYPE = message_type ''ack''"
definition INBOX_MESSAGE_TYPE :: string where "INBOX_MESSAGE_TYPE = message_type ''inbox''"

definition assertPlaintextMessage :: "runtime \<Rightarrow> json \<Rightarrow> bool" where
  "assertPlaintextMessage rt v \<longleftrightarrow>
     is_record v \<and> is_uuid (jget ''id'' v) \<and> jget ''typ'' v = Some DIDCOMM_PLAINTEXT_TYP \<and>
     assertUri rt (jget ''type'' v) \<and> loose_did_str (jget ''from'' v) \<and>
     (jget ''to'' v = None \<or> assertDidArray False (jget ''to'' v)) \<and>
     is_nonneg_integer (jget ''created_time'' v) \<and> optional_uuid (jget ''thid'' v) \<and>
     optional_uuid (jget ''pthid'' v) \<and> is_record_at ''body'' v"

record message_options =
  mo_id :: string
  mo_type :: string
  mo_from :: string
  mo_to :: "string list option"
  mo_created :: int
  mo_thid :: "string option"
  mo_pthid :: "string option"
  mo_body :: json

definition plaintext_json :: "message_options \<Rightarrow> json" where
  "plaintext_json m = JObj ([(''id'', JStr (mo_id m)), (''typ'', DIDCOMM_PLAINTEXT_TYP), (''type'', JStr (mo_type m)),
     (''from'', JStr (mo_from m)), (''created_time'', JInt (mo_created m)), (''body'', mo_body m)]
     @ (case mo_to m of None \<Rightarrow> [] | Some t \<Rightarrow> [(''to'', JArr (map JStr t))])
     @ (case mo_thid m of None \<Rightarrow> [] | Some t \<Rightarrow> [(''thid'', JStr t)])
     @ (case mo_pthid m of None \<Rightarrow> [] | Some t \<Rightarrow> [(''pthid'', JStr t)]))"

definition createPlaintextMessage :: "runtime \<Rightarrow> message_options \<Rightarrow> json option" where
  "createPlaintextMessage rt m =
     (let v = plaintext_json m in if assertPlaintextMessage rt v then Some v else None)"

section \<open>Membership messages\<close>

text \<open>The envelope part the three checks share; \<^verbatim>\<open>to\<close> is required.\<close>

definition membership_envelope :: "string \<Rightarrow> json \<Rightarrow> bool" where
  "membership_envelope type v \<longleftrightarrow>
     is_record v \<and> jget ''typ'' v = Some DIDCOMM_PLAINTEXT_TYP \<and> jget ''type'' v = Some (JStr type) \<and>
     is_uuid (jget ''id'' v) \<and> loose_did_str (jget ''from'' v) \<and> assertDidArray False (jget ''to'' v) \<and>
     is_nonneg_integer (jget ''created_time'' v) \<and> optional_uuid (jget ''thid'' v) \<and> optional_uuid (jget ''pthid'' v)"

definition content_key_generation :: "json \<Rightarrow> int option" where
  "content_key_generation v =
     (if no_extra_keys [''generation'', ''key''] v \<and> assertBase64UrlLike (jget ''key'' v)
      then nonneg_integer (jget ''generation'' v) else None)"

fun content_key_generations :: "json list \<Rightarrow> int list option" where
  "content_key_generations [] = Some []"
| "content_key_generations (v # vs) = do {
     g \<leftarrow> content_key_generation v; gs \<leftarrow> content_key_generations vs; Some (g # gs) }"

definition assertSpaceContentKeys :: "json option \<Rightarrow> int list option" where
  "assertSpaceContentKeys v =
     (case v of Some (JArr xs) \<Rightarrow> if xs = [] then None else content_key_generations xs | _ \<Rightarrow> None)"

definition assertSpaceInviteBody :: "runtime \<Rightarrow> json \<Rightarrow> bool" where
  "assertSpaceInviteBody rt v \<longleftrightarrow>
     no_extra_keys [''spaceId'', ''brokerUrls'', ''currentKeyGeneration'', ''spaceContentKeys'',
       ''spaceCapabilitySigningKey'', ''adminDids'', ''capability''] v \<and>
     is_uuid (jget ''spaceId'' v) \<and> assertUriArray rt (jget ''brokerUrls'' v) \<and>
     (case (nonneg_integer (jget ''currentKeyGeneration'' v), assertSpaceContentKeys (jget ''spaceContentKeys'' v)) of
        (Some g, Some gs) \<Rightarrow> g = Max (set gs)
      | _ \<Rightarrow> False) \<and>
     assertBase64UrlLike (jget ''spaceCapabilitySigningKey'' v) \<and> assertDidArray True (jget ''adminDids'' v) \<and>
     assertCompactJwsLike (jget ''capability'' v)"

definition assertMemberUpdateBody :: "json \<Rightarrow> bool" where
  "assertMemberUpdateBody v \<longleftrightarrow>
     no_extra_keys [''spaceId'', ''action'', ''memberDid'', ''effectiveKeyGeneration'', ''reason''] v \<and>
     is_uuid (jget ''spaceId'' v) \<and> jget ''action'' v \<in> {Some (JStr ''added''), Some (JStr ''removed'')} \<and>
     loose_did_str (jget ''memberDid'' v) \<and> is_nonneg_integer (jget ''effectiveKeyGeneration'' v) \<and>
     (jget ''reason'' v = None \<or> jget_str ''reason'' v \<noteq> None)"

definition assertKeyRotationBody :: "json \<Rightarrow> bool" where
  "assertKeyRotationBody v \<longleftrightarrow>
     no_extra_keys [''spaceId'', ''generation'', ''spaceContentKey'', ''spaceCapabilitySigningKey'', ''capability''] v \<and>
     is_uuid (jget ''spaceId'' v) \<and> is_nonneg_integer (jget ''generation'' v) \<and>
     assertBase64UrlLike (jget ''spaceContentKey'' v) \<and> assertBase64UrlLike (jget ''spaceCapabilitySigningKey'' v) \<and>
     assertCompactJwsLike (jget ''capability'' v)"

definition body_ok :: "(json \<Rightarrow> bool) \<Rightarrow> json \<Rightarrow> bool" where
  "body_ok check v = (case jget ''body'' v of Some b \<Rightarrow> check b | None \<Rightarrow> False)"

definition assertSpaceInviteMessage :: "runtime \<Rightarrow> json \<Rightarrow> bool" where
  "assertSpaceInviteMessage rt v \<longleftrightarrow>
     membership_envelope SPACE_INVITE_MESSAGE_TYPE v \<and> body_ok (assertSpaceInviteBody rt) v"

definition assertMemberUpdateMessage :: "json \<Rightarrow> bool" where
  "assertMemberUpdateMessage v \<longleftrightarrow>
     membership_envelope MEMBER_UPDATE_MESSAGE_TYPE v \<and> body_ok assertMemberUpdateBody v"

definition assertKeyRotationMessage :: "json \<Rightarrow> bool" where
  "assertKeyRotationMessage v \<longleftrightarrow>
     membership_envelope KEY_ROTATION_MESSAGE_TYPE v \<and> body_ok assertKeyRotationBody v"

section \<open>Log entries\<close>

record log_entry =
  le_seq :: int
  le_device :: string
  le_doc :: string
  le_author_kid :: string
  le_generation :: int
  le_data :: string
  le_timestamp :: string

definition NONCE_LENGTH :: nat where "NONCE_LENGTH = 12"
definition AES_GCM_TAG_LENGTH :: nat where "AES_GCM_TAG_LENGTH = 16"

definition did_url_str :: "json option \<Rightarrow> string option" where
  "did_url_str v = (case v of Some (JStr s) \<Rightarrow> if did_url s then Some s else None | _ \<Rightarrow> None)"

definition assertEncryptedLogEntryData :: "json option \<Rightarrow> string option" where
  "assertEncryptedLogEntryData v =
     (case v of
        Some (JStr s) \<Rightarrow>
          if \<not> isValidBase64UrlSegment s then None
          else (case decodeBase64Url s of
            None \<Rightarrow> None
          | Some bs \<Rightarrow> if length bs \<le> NONCE_LENGTH + AES_GCM_TAG_LENGTH then None else Some s)
      | _ \<Rightarrow> None)"

definition assertDateTime :: "json option \<Rightarrow> string option" where
  "assertDateTime v = (case v of Some (JStr s) \<Rightarrow> if valid_log_timestamp s then Some s else None | _ \<Rightarrow> None)"

definition assertLogEntryPayload :: "json \<Rightarrow> log_entry option" where
  "assertLogEntryPayload v =
     (if \<not> no_extra_keys [''seq'', ''deviceId'', ''docId'', ''authorKid'', ''keyGeneration'', ''data'', ''timestamp''] v
      then None
      else do {
        n \<leftarrow> nonneg_integer (jget ''seq'' v);
        dev \<leftarrow> uuid_str (jget ''deviceId'' v);
        doc \<leftarrow> uuid_str (jget ''docId'' v);
        kid \<leftarrow> did_url_str (jget ''authorKid'' v);
        g \<leftarrow> nonneg_integer (jget ''keyGeneration'' v);
        dat \<leftarrow> assertEncryptedLogEntryData (jget ''data'' v);
        ts \<leftarrow> assertDateTime (jget ''timestamp'' v);
        Some \<lparr>le_seq = n, le_device = dev, le_doc = doc, le_author_kid = kid, le_generation = g,
              le_data = dat, le_timestamp = ts\<rparr> })"

definition log_entry_json :: "log_entry \<Rightarrow> json" where
  "log_entry_json e = JObj [(''seq'', JInt (le_seq e)), (''deviceId'', JStr (le_device e)), (''docId'', JStr (le_doc e)),
     (''authorKid'', JStr (le_author_kid e)), (''keyGeneration'', JInt (le_generation e)),
     (''data'', JStr (le_data e)), (''timestamp'', JStr (le_timestamp e))]"

definition createLogEntryJwsWithSigner :: "runtime \<Rightarrow> log_entry \<Rightarrow> (bytes \<Rightarrow> bytes) \<Rightarrow> string option" where
  "createLogEntryJwsWithSigner rt e sign =
     (if assertLogEntryPayload (log_entry_json e) = None then None
      else createJcsEd25519JwsWithSigner rt (admin_header (le_author_kid e)) (log_entry_json e) sign)"

definition createLogEntryJws ::
  "runtime \<Rightarrow> (bytes \<Rightarrow> bytes \<Rightarrow> bytes) \<Rightarrow> log_entry \<Rightarrow> bytes \<Rightarrow> string option" where
  "createLogEntryJws rt ed25519_sign e signingSeed =
     (if assertLogEntryPayload (log_entry_json e) = None then None
      else createJcsEd25519Jws rt ed25519_sign (admin_header (le_author_kid e)) (log_entry_json e) signingSeed)"

definition verifyLogEntryJws :: "runtime \<Rightarrow> string \<Rightarrow> log_entry option" where
  "verifyLogEntryJws rt jws = do {
     d \<leftarrow> decodeJws rt jws;
     (if jget ''alg'' (jws_header d) \<noteq> Some (JStr ''EdDSA'') then None
      else do {
        kid \<leftarrow> nonempty_str (jget ''kid'' (jws_header d));
        key \<leftarrow> didKeyToPublicKeyBytes kid;
        _ \<leftarrow> verifyJwsWithPublicKey rt jws key;
        e \<leftarrow> assertLogEntryPayload (jws_payload d);
        if le_author_kid e \<noteq> kid then None else Some e }) }"

definition assertLogEntryMessageBody :: "json \<Rightarrow> bool" where
  "assertLogEntryMessageBody v \<longleftrightarrow> no_extra_keys [''entry''] v \<and> assertJwsCompactString (jget ''entry'' v)"

definition assertLogEntryMessage :: "runtime \<Rightarrow> json \<Rightarrow> bool" where
  "assertLogEntryMessage rt v \<longleftrightarrow>
     assertPlaintextMessage rt v \<and> jget ''type'' v = Some (JStr LOG_ENTRY_MESSAGE_TYPE) \<and>
     assertDidArray False (jget ''to'' v) \<and> body_ok assertLogEntryMessageBody v"

definition createLogEntryMessage :: "runtime \<Rightarrow> message_options \<Rightarrow> string \<Rightarrow> json option" where
  "createLogEntryMessage rt m entry = do {
     v \<leftarrow> createPlaintextMessage rt (m\<lparr>mo_type := LOG_ENTRY_MESSAGE_TYPE, mo_body := JObj [(''entry'', JStr entry)]\<rparr>);
     if assertLogEntryMessage rt v then Some v else None }"

section \<open>Catch-up\<close>

definition head_entry :: "string \<times> json \<Rightarrow> (string \<times> int) option" where
  "head_entry kv = (if isCanonicalUuidV4 (fst kv)
     then map_option (Pair (fst kv)) (safe_nat (Some (snd kv))) else None)"

fun head_entries :: "(string \<times> json) list \<Rightarrow> heads option" where
  "head_entries [] = Some []"
| "head_entries (kv # kvs) = do { h \<leftarrow> head_entry kv; hs \<leftarrow> head_entries kvs; Some (h # hs) }"

definition assertSyncMessageHeads :: "json option \<Rightarrow> heads option" where
  "assertSyncMessageHeads v = (case v of Some (JObj kvs) \<Rightarrow> head_entries kvs | _ \<Rightarrow> None)"

record sync_request =
  sq_doc :: string
  sq_heads :: heads
  sq_limit :: "int option"

definition assertSyncRequestBody :: "json \<Rightarrow> sync_request option" where
  "assertSyncRequestBody v =
     (if \<not> no_extra_keys [''docId'', ''heads'', ''limit''] v then None
      else do {
        doc \<leftarrow> uuid_str (jget ''docId'' v);
        hs \<leftarrow> assertSyncMessageHeads (jget ''heads'' v);
        (case jget ''limit'' v of
           None \<Rightarrow> Some \<lparr>sq_doc = doc, sq_heads = hs, sq_limit = None\<rparr>
         | Some l \<Rightarrow> map_option (\<lambda>n. \<lparr>sq_doc = doc, sq_heads = hs, sq_limit = Some n\<rparr>) (safe_nat (Some l))) })"

definition assertSyncRequestMessage :: "runtime \<Rightarrow> json \<Rightarrow> sync_request option" where
  "assertSyncRequestMessage rt v =
     (if assertPlaintextMessage rt v \<and> jget ''type'' v = Some (JStr SYNC_REQUEST_MESSAGE_TYPE)
      then Option.bind (jget ''body'' v) assertSyncRequestBody else None)"

definition createSyncRequestMessage :: "runtime \<Rightarrow> message_options \<Rightarrow> json option" where
  "createSyncRequestMessage rt m = do {
     v \<leftarrow> createPlaintextMessage rt (m\<lparr>mo_type := SYNC_REQUEST_MESSAGE_TYPE\<rparr>);
     if assertSyncRequestMessage rt v = None then None else Some v }"

record sync_response =
  sy_doc :: string
  sy_entries :: "string list"
  sy_heads :: heads
  sy_truncated :: bool

fun compact_strings :: "json list \<Rightarrow> string list option" where
  "compact_strings [] = Some []"
| "compact_strings (v # vs) =
     (if assertJwsCompactString (Some v)
      then do { s \<leftarrow> jstr v; ss \<leftarrow> compact_strings vs; Some (s # ss) } else None)"

definition assertSyncResponseBody :: "json \<Rightarrow> sync_response option" where
  "assertSyncResponseBody v =
     (if \<not> no_extra_keys [''docId'', ''entries'', ''heads'', ''truncated''] v then None
      else do {
        doc \<leftarrow> uuid_str (jget ''docId'' v);
        es \<leftarrow> Option.bind (Option.bind (jget ''entries'' v) jarr) compact_strings;
        hs \<leftarrow> assertSyncMessageHeads (jget ''heads'' v);
        (case jget ''truncated'' v of
           Some (JBool b) \<Rightarrow> Some \<lparr>sy_doc = doc, sy_entries = es, sy_heads = hs, sy_truncated = b\<rparr>
         | _ \<Rightarrow> None) })"

definition sync_response_body_json :: "sync_response \<Rightarrow> json" where
  "sync_response_body_json r = JObj [(''docId'', JStr (sy_doc r)), (''entries'', JArr (map JStr (sy_entries r))),
     (''heads'', JObj (map (\<lambda>(d, n). (d, JInt n)) (sy_heads r))), (''truncated'', JBool (sy_truncated r))]"

definition assertSyncResponseMessage :: "runtime \<Rightarrow> json \<Rightarrow> sync_response option" where
  "assertSyncResponseMessage rt v =
     (if assertPlaintextMessage rt v \<and> jget ''type'' v = Some (JStr SYNC_RESPONSE_MESSAGE_TYPE) \<and> jget ''thid'' v \<noteq> None
      then Option.bind (jget ''body'' v) assertSyncResponseBody else None)"

definition createSyncResponseMessage :: "runtime \<Rightarrow> message_options \<Rightarrow> json option" where
  "createSyncResponseMessage rt m = do {
     v \<leftarrow> createPlaintextMessage rt (m\<lparr>mo_type := SYNC_RESPONSE_MESSAGE_TYPE\<rparr>);
     if assertSyncResponseMessage rt v = None then None else Some v }"

section \<open>Acknowledgements\<close>

definition assertAckMessageBody :: "json \<Rightarrow> bool" where
  "assertAckMessageBody v \<longleftrightarrow> is_record v \<and> is_uuid (jget ''messageId'' v)"

text \<open>The acknowledged message id.\<close>

definition assertAckMessage :: "runtime \<Rightarrow> json \<Rightarrow> string option" where
  "assertAckMessage rt v =
     (if assertPlaintextMessage rt v \<and> jget ''type'' v = Some (JStr ACK_MESSAGE_TYPE) \<and>
         jget ''thid'' v \<noteq> None \<and> body_ok assertAckMessageBody v \<and>
         jget ''thid'' v = Option.bind (jget ''body'' v) (jget ''messageId'')
      then jget_str ''thid'' v else None)"

definition createAckMessage :: "runtime \<Rightarrow> message_options \<Rightarrow> json option" where
  "createAckMessage rt m = do {
     v \<leftarrow> createPlaintextMessage rt (m\<lparr>mo_type := ACK_MESSAGE_TYPE\<rparr>);
     if assertAckMessage rt v = None then None else Some v }"

section \<open>The encrypted inbox envelope\<close>

definition ENCRYPTED_INBOX_MESSAGE_TYPES :: "string list" where
  "ENCRYPTED_INBOX_MESSAGE_TYPES =
     [INBOX_MESSAGE_TYPE, SPACE_INVITE_MESSAGE_TYPE, MEMBER_UPDATE_MESSAGE_TYPE, KEY_ROTATION_MESSAGE_TYPE]"

definition isEncryptedInboxMessageType :: "string \<Rightarrow> bool" where
  "isEncryptedInboxMessageType t \<longleftrightarrow> t \<in> set ENCRYPTED_INBOX_MESSAGE_TYPES"

definition INBOX_ECIES_BODY_FIELDS :: "string list" where
  "INBOX_ECIES_BODY_FIELDS = [''epk'', ''nonce'', ''ciphertext'']"

definition assertInboxEncryptedBody :: "json \<Rightarrow> bool" where
  "assertInboxEncryptedBody v \<longleftrightarrow> is_record v \<and> list_all (\<lambda>f. assertBase64UrlLike (jget f v)) INBOX_ECIES_BODY_FIELDS"

definition assertEncryptedInboxEnvelope :: "runtime \<Rightarrow> string \<Rightarrow> json \<Rightarrow> bool" where
  "assertEncryptedInboxEnvelope rt expectedType v \<longleftrightarrow>
     assertPlaintextMessage rt v \<and> jget ''type'' v = Some (JStr expectedType) \<and>
     (case jget ''to'' v of Some (JArr xs) \<Rightarrow> xs \<noteq> [] | _ \<Rightarrow> False) \<and> body_ok assertInboxEncryptedBody v"

fun extractInboxExtensionFields :: "json \<Rightarrow> (string \<times> json) list" where
  "extractInboxExtensionFields (JObj kvs) = filter (\<lambda>kv. fst kv \<notin> set INBOX_ECIES_BODY_FIELDS) kvs"
| "extractInboxExtensionFields _ = []"

section \<open>Lemmas\<close>

lemma did_url_str_Some: "did_url_str v = Some s \<longleftrightarrow> v = Some (JStr s) \<and> did_url s"
  by (auto simp: did_url_str_def split: option.splits json.splits)

lemma assertDateTime_Some: "assertDateTime v = Some s \<longleftrightarrow> v = Some (JStr s) \<and> valid_log_timestamp s"
  by (auto simp: assertDateTime_def split: option.splits json.splits)

lemma assertEncryptedLogEntryData_Some:
  "assertEncryptedLogEntryData v = Some s \<longleftrightarrow> v = Some (JStr s) \<and> isValidBase64UrlSegment s \<and>
     (\<exists>bs. decodeBase64Url s = Some bs \<and> 28 < length bs)"
  by (auto simp: assertEncryptedLogEntryData_def NONCE_LENGTH_def AES_GCM_TAG_LENGTH_def
      split: option.splits json.splits)

definition log_entry_ok :: "log_entry \<Rightarrow> bool" where
  "log_entry_ok e \<longleftrightarrow> 0 \<le> le_seq e \<and> isCanonicalUuidV4 (le_device e) \<and> isCanonicalUuidV4 (le_doc e) \<and>
     did_url (le_author_kid e) \<and> 0 \<le> le_generation e \<and> isValidBase64UrlSegment (le_data e) \<and>
     (\<exists>bs. decodeBase64Url (le_data e) = Some bs \<and> 28 < length bs) \<and> valid_log_timestamp (le_timestamp e)"

lemma assertLogEntryPayload_ok: "assertLogEntryPayload v = Some e \<Longrightarrow> log_entry_ok e"
  by (auto simp: assertLogEntryPayload_def bind_eq_Some_conv nonneg_integer_Some uuid_str_Some did_url_str_Some
      assertEncryptedLogEntryData_Some assertDateTime_Some log_entry_ok_def split: if_splits)

lemma log_entry_keys:
  "no_extra_keys [''seq'', ''deviceId'', ''docId'', ''authorKid'', ''keyGeneration'', ''data'', ''timestamp''] (log_entry_json e)"
  by (simp add: no_extra_keys_def log_entry_json_def)

lemma assertLogEntryPayload_json:
  "assertLogEntryPayload (log_entry_json e) = (if log_entry_ok e then Some e else None)"
proof -
  have fields: "jget ''seq'' (log_entry_json e) = Some (JInt (le_seq e))"
    "jget ''deviceId'' (log_entry_json e) = Some (JStr (le_device e))"
    "jget ''docId'' (log_entry_json e) = Some (JStr (le_doc e))"
    "jget ''authorKid'' (log_entry_json e) = Some (JStr (le_author_kid e))"
    "jget ''keyGeneration'' (log_entry_json e) = Some (JInt (le_generation e))"
    "jget ''data'' (log_entry_json e) = Some (JStr (le_data e))"
    "jget ''timestamp'' (log_entry_json e) = Some (JStr (le_timestamp e))"
    for e by (simp_all add: log_entry_json_def)
  have "assertLogEntryPayload (log_entry_json e) = Some x \<longleftrightarrow> x = e \<and> log_entry_ok e" for x
    by (cases x; cases e)
      (auto simp: assertLogEntryPayload_def log_entry_keys bind_eq_Some_conv fields nonneg_integer_Some uuid_str_Some
        did_url_str_Some assertEncryptedLogEntryData_Some assertDateTime_Some log_entry_ok_def)
  then show ?thesis by (cases "assertLogEntryPayload (log_entry_json e)") auto
qed

lemma safe_nat_Some: "safe_nat v = Some n \<longleftrightarrow> v = Some (JInt n) \<and> safe_seq n"
  by (auto simp: safe_nat_def bind_eq_Some_conv dest!: jint_SomeD split: option.splits if_splits)

lemma head_entries_json:
  "head_entries (map (\<lambda>(d, n). (d, JInt n)) hs) =
     (if list_all (\<lambda>(d, n). isCanonicalUuidV4 d \<and> safe_seq n) hs then Some hs else None)"
proof (induction hs)
  case (Cons h hs)
  obtain d n where h: "h = (d, n)" by (cases h)
  have "safe_nat (Some (JInt n)) = (if safe_seq n then Some n else None)"
    by (simp add: safe_nat_def)
  then have "head_entry (d, JInt n) = (if isCanonicalUuidV4 d \<and> safe_seq n then Some (d, n) else None)"
    by (simp add: head_entry_def)
  then show ?case using Cons.IH by (simp add: h)
qed simp

lemma compact_strings_json:
  "compact_strings (map JStr ss) = (if list_all jws_compact_segments ss then Some ss else None)"
  by (induction ss) (simp_all add: assertJwsCompactString_def)

definition sync_response_ok :: "sync_response \<Rightarrow> bool" where
  "sync_response_ok r \<longleftrightarrow> isCanonicalUuidV4 (sy_doc r) \<and> list_all jws_compact_segments (sy_entries r) \<and>
     list_all (\<lambda>(d, n). isCanonicalUuidV4 d \<and> safe_seq n) (sy_heads r)"

lemma sync_response_keys:
  "no_extra_keys [''docId'', ''entries'', ''heads'', ''truncated''] (sync_response_body_json r)"
  by (simp add: no_extra_keys_def sync_response_body_json_def)

lemma assertSyncResponseBody_json:
  "assertSyncResponseBody (sync_response_body_json r) = (if sync_response_ok r then Some r else None)"
proof -
  have f: "jget ''docId'' (sync_response_body_json r) = Some (JStr (sy_doc r))"
    "jget ''entries'' (sync_response_body_json r) = Some (JArr (map JStr (sy_entries r)))"
    "jget ''heads'' (sync_response_body_json r) = Some (JObj (map (\<lambda>(d, n). (d, JInt n)) (sy_heads r)))"
    "jget ''truncated'' (sync_response_body_json r) = Some (JBool (sy_truncated r))"
    by (simp_all add: sync_response_body_json_def)
  show ?thesis
    by (simp add: assertSyncResponseBody_def sync_response_keys f uuid_str_def compact_strings_json
        assertSyncMessageHeads_def head_entries_json sync_response_ok_def)
qed

lemma assertLogEntryPayload_sorted: "assertLogEntryPayload (key_sorted v) = assertLogEntryPayload v"
  by (simp add: assertLogEntryPayload_def)

lemma created_entry_verifies:
  assumes create: "createLogEntryJwsWithSigner rt e sign = Some jws"
    and num: "\<forall>r. number_text rt r \<noteq> []" and sig: "\<forall>m. sign m \<noteq> []"
    and parse: "\<forall>v b. v \<in> {admin_header (le_author_kid e), log_entry_json e} \<longrightarrow>
      canonicalizeToBytes rt v = Some b \<longrightarrow> json_parse rt b = Some (key_sorted v)"
    and key: "didKeyToPublicKeyBytes (le_author_kid e) = Some key"
    and ver: "\<forall>m. verify_ed25519 rt m (sign m) key = Some ok"
  shows "verifyLogEntryJws rt jws = (if ok then Some e else None)"
proof -
  have e: "assertLogEntryPayload (log_entry_json e) = Some e"
    and jws: "createJcsEd25519JwsWithSigner rt (admin_header (le_author_kid e)) (log_entry_json e) sign = Some jws"
    using create by (auto simp: createLogEntryJwsWithSigner_def assertLogEntryPayload_json split: if_splits)
  obtain hb pb where hb: "canonicalizeToBytes rt (admin_header (le_author_kid e)) = Some hb"
      "canonicalizeToBytes rt (log_entry_json e) = Some pb"
    and dec: "decodeJws rt jws = do {
       h \<leftarrow> json_parse rt hb; p \<leftarrow> json_parse rt pb;
       Some \<lparr>jws_header = h, jws_payload = p,
         jws_signing_input = utf8_encode (encodeBase64Url hb @ ''.'' @ encodeBase64Url pb),
         jws_signature = sign (utf8_encode (encodeBase64Url hb @ ''.'' @ encodeBase64Url pb))\<rparr> }"
    by (rule createJws_decode [OF jws num sig])
  have parsed: "json_parse rt hb = Some (admin_header (le_author_kid e))" "json_parse rt pb = Some (key_sorted (log_entry_json e))"
    using hb parse by auto
  have payload: "assertLogEntryPayload (key_sorted (log_entry_json e)) = Some e"
    using e by (simp only: assertLogEntryPayload_sorted)
  have kid: "jget ''kid'' (admin_header k) = Some (JStr k)" "jget ''alg'' (admin_header k) = Some (JStr ''EdDSA'')"
      "jget_str ''kid'' (admin_header k) = Some k" "is_record (admin_header k)" for k
    by (simp_all add: admin_header_def jget_str_def)
  have "le_author_kid e \<noteq> []"
    using jws by (auto simp: createJcsEd25519JwsWithSigner_def kid split: if_splits)
  then show ?thesis
    using ver key payload by (simp add: verifyLogEntryJws_def verifyJwsWithPublicKey_def dec parsed kid nonempty_str_def)
qed

section \<open>A concrete entry\<close>

lemma dot_prefix_plain:
  "list_all (\<lambda>c. c \<notin> set [CHR 0x0A, CHR 0x0D, CHR 0xE2]) s \<Longrightarrow> dot_prefix s = s"
  by (induction s) auto

lemma sample_kid_url: "did_url sample_kid"
proof -
  obtain mb where mb: "ed25519PublicKeyToMultibase (replicate 32 0) = Some mb"
    and did: "sample_did = ''did:key:'' @ mb"
    using sample_did(1) by (auto simp: publicKeyToDidKey_def)
  obtain t where t: "mb = CHR ''z'' # encodeBase58 t"
    using mb by (auto simp: ed25519PublicKeyToMultibase_def key_to_multibase_def split: if_splits)
  let ?rest = "CHR ''z'' # encodeBase58 t @ ''#sig-0''"
  have "list_all (\<lambda>c. c \<notin> set [CHR 0x0A, CHR 0x0D, CHR 0xE2]) (encodeBase58 t)"
    using base58_text_plain [of _ t] by (auto simp: list_all_iff)
  then have p: "dot_prefix ?rest = ?rest" by (intro dot_prefix_plain) simp
  have r: "did_rest sample_kid = Some ?rest"
    by (simp add: did_rest_def sample_kid_def did t is_lower_def is_digit_def)
  let ?i = "length (encodeBase58 t) + 1"
  have "?rest ! ?i = CHR ''#''" "?i \<in> set [1..<length ?rest - 1]" by (simp_all add: nth_append)
  then show ?thesis
    unfolding did_url_def r option.case Let_def p list_ex_iff by blast
qed

definition sample_entry :: log_entry where
  "sample_entry = \<lparr>le_seq = 3, le_device = sample_uuid, le_doc = sample_uuid, le_author_kid = sample_kid,
     le_generation = 0, le_data = sample_nonce, le_timestamp = ''2026-01-02T03:04:05Z''\<rparr>"

lemma sample_entry_ok: "log_entry_ok sample_entry"
proof -
  have "isValidBase64UrlSegment sample_nonce" "valid_log_timestamp ''2026-01-02T03:04:05Z''"
    by (code_simp, code_simp)
  moreover have "decodeBase64Url sample_nonce = Some (replicate 32 0)"
    using decodeBase64Url_encode [of "replicate 32 0"] by (simp only: sample_codes)
  ultimately show ?thesis
    using sample_codes(3) sample_kid_url by (simp add: log_entry_ok_def sample_entry_def)
qed

text \<open>A runtime with a JSON reader for such objects, and a verifier that accepts or refuses.\<close>

definition entry_runtime :: "bool \<Rightarrow> runtime" where
  "entry_runtime ok = \<lparr>json_parse = (\<lambda>b. read_object (map (\<lambda>w. char_of (unat w)) b)), number_text = js_number_text (\<lambda>_. ''0''),
     valid_url = (\<lambda>_. True), verify_ed25519 = (\<lambda>m s k. Some (ok \<and> s = fake_sign m)), sha256 = (\<lambda>b. b)\<rparr>"

lemma entry_runtime_simps [simp]:
  "number_text (entry_runtime ok) = js_number_text (\<lambda>_. ''0'')"
  "verify_ed25519 (entry_runtime ok) m s k = Some (ok \<and> s = fake_sign m)"
  by (simp_all add: entry_runtime_def)

lemma number_text_not_empty: "\<forall>r. js_number_text (\<lambda>_. ''0'') r \<noteq> []"
  by (simp add: js_number_text_def int_text_def nat_text_not_empty)

lemma entry_parse:
  assumes "log_entry_ok e" "le_seq e < 10 ^ 21" "le_generation e < 10 ^ 21"
  shows "\<forall>v b. v \<in> {admin_header (le_author_kid e), log_entry_json e} \<longrightarrow>
     canonicalizeToBytes (entry_runtime ok) v = Some b \<longrightarrow> json_parse (entry_runtime ok) b = Some (key_sorted v)"
proof (intro allI impI)
  fix v b
  assume v: "v \<in> {admin_header (le_author_kid e), log_entry_json e}"
    and b: "canonicalizeToBytes (entry_runtime ok) v = Some b"
  obtain t where t: "canonicalize (js_number_text (\<lambda>_. ''0'')) v = Some t" "b = utf8_encode t"
    using b by (auto simp: canonicalizeToBytes_def)
  have num: "plain_value (JInt n)" if "0 \<le> n" "n < 10 ^ 21" for n
    unfolding plain_value_def using that by (intro disjI2 exI [of _ "nat n"]) (simp add: nat_less_iff)
  have str: "plain_value (JStr s)" for s by (simp add: plain_value_def)
  have "0 \<le> le_seq e" "0 \<le> le_generation e" using assms(1) by (simp_all add: log_entry_ok_def)
  with v num assms(2,3) str obtain kvs where kvs: "v = JObj kvs" "kvs \<noteq> []" "list_all (\<lambda>(k, v). plain_value v) kvs"
    by (auto simp: admin_header_def log_entry_json_def)
  have "char_of (unat (of_char c :: 8 word)) = c" for c :: char by (simp only: unat_of_char char_of_char)
  then have "map (\<lambda>w. char_of (unat w)) b = t" by (simp add: t(2) utf8_encode_def comp_def)
  then show "json_parse (entry_runtime ok) b = Some (key_sorted v)"
    using read_object_canonical [OF kvs(2,3)] t(1) by (simp add: entry_runtime_def kvs(1))
qed

lemma sample_entry_parse:
  "\<forall>v b. v \<in> {admin_header (le_author_kid sample_entry), log_entry_json sample_entry} \<longrightarrow>
     canonicalizeToBytes (entry_runtime ok) v = Some b \<longrightarrow> json_parse (entry_runtime ok) b = Some (key_sorted v)"
  by (rule entry_parse [OF sample_entry_ok]) (simp_all add: sample_entry_def)

lemma entry_created:
  assumes "log_entry_ok e" "le_author_kid e \<noteq> []"
  shows "\<exists>jws. \<forall>ok. createLogEntryJwsWithSigner (entry_runtime ok) e fake_sign = Some jws"
proof -
  have kid: "jget ''alg'' (admin_header k) = Some (JStr ''EdDSA'')" "jget_str ''kid'' (admin_header k) = Some k" for k
    by (simp_all add: admin_header_def jget_str_def)
  obtain hb pb where "\<And>ok. canonicalizeToBytes (entry_runtime ok) (admin_header (le_author_kid e)) = Some hb"
      "\<And>ok. canonicalizeToBytes (entry_runtime ok) (log_entry_json e) = Some pb"
    by (simp add: canonicalizeToBytes_def admin_header_def log_entry_json_def num_of_int_def)
  then show ?thesis
    using assms by (simp add: createLogEntryJwsWithSigner_def assertLogEntryPayload_json createJcsEd25519JwsWithSigner_def kid)
qed

section \<open>Properties\<close>

text \<open>A log entry is accepted only from its author: the JWS verifies under the key of the DID that its
  signed \<^verbatim>\<open>authorKid\<close> names, the header's key id is that \<^verbatim>\<open>authorKid\<close>, and the entry is well formed
  (UUIDs, non-negative numbers, at least one byte of ciphertext, a valid timestamp).\<close>

theorem log_entry_sound:
  assumes "verifyLogEntryJws rt jws = Some e"
  shows "\<exists>d key. decodeJws rt jws = Some d \<and> jget_str ''kid'' (jws_header d) = Some (le_author_kid e) \<and>
    didKeyToPublicKeyBytes (le_author_kid e) = Some key \<and>
    verify_ed25519 rt (jws_signing_input d) (jws_signature d) key = Some True \<and>
    assertLogEntryPayload (jws_payload d) = Some e \<and> log_entry_ok e"
proof -
  obtain d kid key where d: "decodeJws rt jws = Some d" "nonempty_str (jget ''kid'' (jws_header d)) = Some kid"
      "didKeyToPublicKeyBytes kid = Some key" "assertLogEntryPayload (jws_payload d) = Some e" "le_author_kid e = kid"
    and ver: "verifyJwsWithPublicKey rt jws key \<noteq> None"
    using assms by (auto simp: verifyLogEntryJws_def bind_eq_Some_conv split: if_splits)
  have "verify_ed25519 rt (jws_signing_input d) (jws_signature d) key = Some True"
    using ver d(1) by (auto simp: verifyJwsWithPublicKey_def bind_eq_Some_conv split: if_splits option.splits)
  then show ?thesis
    using d assertLogEntryPayload_ok [OF d(4)] by (auto simp: jget_str_def nonempty_str_Some)
qed

lemma sample_entry_key: "didKeyToPublicKeyBytes (le_author_kid sample_entry) = Some (replicate 32 0)"
  using sample_did(4) sample_kid(2) didOrKidToDid_did [OF sample_did(2)]
  by (simp add: sample_entry_def didKeyToPublicKeyBytes_def)

lemma sample_entry_verifies:
  obtains jws where "\<forall>ok. createLogEntryJwsWithSigner (entry_runtime ok) sample_entry fake_sign = Some jws"
    "verifyLogEntryJws (entry_runtime True) jws = Some sample_entry"
proof -
  have kid: "le_author_kid sample_entry = sample_kid" by (simp add: sample_entry_def)
  obtain jws where jws: "\<forall>ok. createLogEntryJwsWithSigner (entry_runtime ok) sample_entry fake_sign = Some jws"
    using entry_created [OF sample_entry_ok] sample_kid(3) kid by auto
  have rt: "\<forall>r. number_text (entry_runtime True) r \<noteq> []" "\<forall>m. fake_sign m \<noteq> []"
    and ver: "\<forall>m. verify_ed25519 (entry_runtime True) m (fake_sign m) (replicate 32 0) = Some True"
    by (simp_all add: number_text_not_empty)
  have "verifyLogEntryJws (entry_runtime True) jws = (if True then Some sample_entry else None)"
    by (rule created_entry_verifies [OF jws [rule_format] rt sample_entry_parse sample_entry_key ver])
  then show ?thesis by (intro that [OF jws]) simp
qed

theorem log_entry_sound_witness:
  "\<exists>jws. verifyLogEntryJws (entry_runtime True) jws = Some sample_entry \<and>
     didKeyToPublicKeyBytes (le_author_kid sample_entry) \<noteq> None"
proof -
  obtain jws where acc: "verifyLogEntryJws (entry_runtime True) jws = Some sample_entry"
    by (rule sample_entry_verifies)
  show ?thesis using log_entry_sound [OF acc] acc by blast
qed

text \<open>C40: A log entry created under its author's key reads back as the same entry, if the JSON parser reads
  the two canonical texts back (with their properties in the order of the keys, as written); a
  signature that does not verify under that key is refused.\<close>

theorem log_entry_create_verify:
  assumes create: "createLogEntryJwsWithSigner rt e sign = Some jws"
    and num: "\<forall>r. number_text rt r \<noteq> []" and sig: "\<forall>m. sign m \<noteq> []"
    and parse: "\<forall>v b. v \<in> {admin_header (le_author_kid e), log_entry_json e} \<longrightarrow>
      canonicalizeToBytes rt v = Some b \<longrightarrow> json_parse rt b = Some (key_sorted v)"
    and key: "didKeyToPublicKeyBytes (le_author_kid e) = Some key"
    and ver: "\<forall>m. verify_ed25519 rt m (sign m) key = Some ok"
  shows "verifyLogEntryJws rt jws = (if ok then Some e else None)"
  by (rule created_entry_verifies [OF assms])

theorem log_entry_create_verify_witness:
  "\<exists>jws. createLogEntryJwsWithSigner (entry_runtime True) sample_entry fake_sign = Some jws \<and>
    verifyLogEntryJws (entry_runtime True) jws = Some sample_entry \<and>
    verifyLogEntryJws (entry_runtime False) jws = None"
proof -
  obtain jws where jws: "createLogEntryJwsWithSigner (entry_runtime ok) sample_entry fake_sign = Some jws" for ok
    by (rule sample_entry_verifies) blast
  have rt: "\<forall>r. number_text (entry_runtime ok) r \<noteq> []" "\<forall>m. fake_sign m \<noteq> []"
    and ver: "\<forall>m. verify_ed25519 (entry_runtime ok) m (fake_sign m) (replicate 32 0) = Some ok" for ok
    by (simp_all add: number_text_not_empty)
  have "verifyLogEntryJws (entry_runtime ok) jws = (if ok then Some sample_entry else None)" for ok
    by (rule log_entry_create_verify [OF jws rt sample_entry_parse sample_entry_key ver])
  then show ?thesis using jws by simp
qed

text \<open>The checker of catch-up responses reads back exactly the well-formed ones: a UUID document,
  compact JWS entries, and heads that map UUID devices to safe sequence numbers; every other
  response is refused.\<close>

theorem sync_response_roundtrip:
  "assertSyncResponseBody (sync_response_body_json r) = (if sync_response_ok r then Some r else None)"
  by (rule assertSyncResponseBody_json)

end
