(* ===== verification/RelayState.thy ===== *)
theory RelayState
  imports Store Messages
begin

text \<open>
  The state of \<^verbatim>\<open>RelayServer\<close> (\<^verbatim>\<open>packages/wot-relay/src/relay.ts\<close>) and its bookkeeping: sockets and
  sessions, pending and consumed challenges, the capability scopes cached per socket, the frames it
  sends and the counters of \<^verbatim>\<open>metrics.ts\<close> it bumps.

  A WebSocket is a number. The durable part is the database of \<open>Tables\<close>. Everything a handler does is
  a state transformer; the frames sent and the counters bumped are the \<open>trace\<close>, in order. Frame texts
  for humans, time stamps of receipts and the client hint are left out. What the handlers take from
  outside is the \<open>env\<close>: the runtime of \<open>Jws\<close> and what the SQLite driver binds for the JSON value of an
  envelope's \<^verbatim>\<open>id\<close> (\<open>None\<close> where it throws). Clocks and randomness are the \<open>inputs\<close> of an event.
\<close>

section \<open>Environment, frames and counters\<close>

type_synonym ws = nat

record env =
  env_rt :: runtime
  bind_text :: "json \<Rightarrow> string option"

record inputs =
  in_date :: int
  in_now :: int
  in_nonce :: bytes
  in_uuid :: string

datatype wire_code = Code broker_error | NOT_REGISTERED | MISSING_RECIPIENT

datatype receipt_status = Accepted | Delivered

datatype frame =
    ErrorFrame "json option" wire_code
  | GapFrame string int
  | ReceiptFrame json receipt_status
  | ChallengeFrame json
  | RegisteredFrame json nat
  | MessageFrame json
  | PongFrame

datatype reject_code = RejectCode broker_error | OTHER

datatype counter =
    IngestOk | IngestReject reject_code | ReceiptSent receipt_status | ErrorFrameSent
  | RawWsConnect | WsConnect | WsDisconnect | InboxEnqueued | InboxDelivered nat | AckApplied

datatype effect = Sent ws frame | Counted counter

definition INGEST_REJECT_CODES :: "broker_error list" where
  "INGEST_REJECT_CODES =
     [MALFORMED_MESSAGE, AUTH_INVALID, DEVICE_REVOKED, PERSONAL_DOC_OWNER_MISMATCH, CAPABILITY_EXPIRED,
      CAPABILITY_REQUIRED, DEVICE_NOT_REGISTERED, AUTHOR_MISMATCH, KEY_GENERATION_STALE, SEQ_COLLISION_DETECTED]"

definition toIngestRejectCode :: "broker_error \<Rightarrow> reject_code" where
  "toIngestRejectCode c = (if c \<in> set INGEST_REJECT_CODES then RejectCode c else OTHER)"

section \<open>State\<close>

text \<open>The \<^verbatim>\<open>readyState\<close> of a socket; after its close event a socket is gone.\<close>

datatype ready_state = Open | Closing | Gone

datatype scope_path = SpacePath | PersonalPath

record scope =
  sc_permissions :: "permission list"
  sc_generation :: int
  sc_path :: scope_path
  sc_until :: "int option"

record open_challenge =
  oc_challenge :: pending_challenge
  oc_created :: int

record admin_signer =
  as_space :: string
  as_did :: string
  as_key :: bytes

text \<open>
  An \<^verbatim>\<open>async\<close> handler is cut at its \<^verbatim>\<open>await\<close>: a task is the rest of a handler with the values it
  has read before.
\<close>

datatype task =
    TChallenge ws json open_challenge
  | TRevoke ws json bytes
  | TSpaceRegister ws json
  | TSpaceRotate ws json admin_signer
  | TAdminAdd ws json string admin_signer
  | TAdminRemove ws json string admin_signer bool
  | TPresentSpace ws string string bytes int capability_context
  | TPresentPersonal ws string string string bytes capability_context
  | TLogVerify ws json string
  | TLogHash ws json string log_entry

record relay =
  sockets :: "ws \<Rightarrow> ready_state option"
  connections :: "string \<Rightarrow> ws list option"
  socketToDid :: "ws \<Rightarrow> string option"
  socketToDeviceId :: "ws \<Rightarrow> string option"
  socketToScopes :: "ws \<Rightarrow> string \<Rightarrow> scope option"
  pendingChallenges :: "ws \<Rightarrow> open_challenge option"
  consumedNonces :: "string \<Rightarrow> int option"
  r_db :: db
  tasks :: "task list"
  trace :: "effect list"

definition initial_relay :: relay where
  "initial_relay = \<lparr>sockets = (\<lambda>_. None), connections = (\<lambda>_. None), socketToDid = (\<lambda>_. None),
     socketToDeviceId = (\<lambda>_. None), socketToScopes = (\<lambda>_ _. None), pendingChallenges = (\<lambda>_. None),
     consumedNonces = (\<lambda>_. None), r_db = empty_db, tasks = [], trace = []\<rparr>"

section \<open>Sending\<close>

definition bump :: "counter \<Rightarrow> relay \<Rightarrow> relay" where
  "bump c s = s\<lparr>trace := trace s @ [Counted c]\<rparr>"

text \<open>The counter hook of \<^verbatim>\<open>sendTo\<close> looks at the frame types \<^verbatim>\<open>receipt\<close> and \<^verbatim>\<open>error\<close>; \<open>GapFrame\<close> has the type \<^verbatim>\<open>error/1.0\<close>.\<close>

fun frame_counter :: "frame \<Rightarrow> effect list" where
  "frame_counter (ReceiptFrame _ st) = [Counted (ReceiptSent st)]"
| "frame_counter (ErrorFrame _ _) = [Counted ErrorFrameSent]"
| "frame_counter _ = []"

definition sendTo :: "ws \<Rightarrow> frame \<Rightarrow> relay \<Rightarrow> relay" where
  "sendTo ws f s =
     (if sockets s ws = Some Open then s\<lparr>trace := trace s @ frame_counter f @ [Sent ws f]\<rparr> else s)"

abbreviation reject :: "ws \<Rightarrow> broker_error \<Rightarrow> relay \<Rightarrow> relay" where
  "reject ws code \<equiv> sendTo ws (ErrorFrame None (Code code))"

abbreviation reject_thid :: "ws \<Rightarrow> json \<Rightarrow> broker_error \<Rightarrow> relay \<Rightarrow> relay" where
  "reject_thid ws thid code \<equiv> sendTo ws (ErrorFrame (Some thid) (Code code))"

abbreviation delivered :: "ws \<Rightarrow> json \<Rightarrow> relay \<Rightarrow> relay" where
  "delivered ws messageId \<equiv> sendTo ws (ReceiptFrame messageId Delivered)"

definition sendInternalError :: "ws \<Rightarrow> string option \<Rightarrow> relay \<Rightarrow> relay" where
  "sendInternalError ws thid = sendTo ws (ErrorFrame (map_option JStr thid) (Code INTERNAL_ERROR))"

definition discardAck :: "ws \<Rightarrow> relay \<Rightarrow> relay" where
  "discardAck ws = reject ws MALFORMED_MESSAGE"

definition await :: "task \<Rightarrow> relay \<Rightarrow> relay" where
  "await t s = s\<lparr>tasks := tasks s @ [t]\<rparr>"

definition dismiss_challenge :: "ws \<Rightarrow> relay \<Rightarrow> relay" where
  "dismiss_challenge ws s = s\<lparr>pendingChallenges := (pendingChallenges s)(ws := None)\<rparr>"

section \<open>Sessions\<close>

text \<open>\<^verbatim>\<open>this.socketToDid.get(ws)\<close> as a condition: the empty string is no session.\<close>

definition session_did :: "ws \<Rightarrow> relay \<Rightarrow> string option" where
  "session_did ws s = (case socketToDid s ws of Some d \<Rightarrow> if d = [] then None else Some d | None \<Rightarrow> None)"

definition did_sockets :: "string \<Rightarrow> relay \<Rightarrow> ws list" where
  "did_sockets did s = (case connections s did of Some l \<Rightarrow> l | None \<Rightarrow> [])"

definition bind_socket :: "ws \<Rightarrow> string \<Rightarrow> string \<Rightarrow> relay \<Rightarrow> relay" where
  "bind_socket ws did deviceId s =
     (let l = did_sockets did s in
      s\<lparr>connections := (connections s)(did := Some (if ws \<in> set l then l else l @ [ws])),
        socketToDid := (socketToDid s)(ws := Some did),
        socketToDeviceId := (socketToDeviceId s)(ws := Some deviceId)\<rparr>)"

definition handleClose :: "ws \<Rightarrow> relay \<Rightarrow> relay" where
  "handleClose ws s =
     (let s1 = s\<lparr>sockets := (sockets s)(ws := Some Gone),
                pendingChallenges := (pendingChallenges s)(ws := None),
                socketToScopes := (socketToScopes s)(ws := (\<lambda>_. None))\<rparr> in
      case session_did ws s1 of
        None \<Rightarrow> s1
      | Some did \<Rightarrow>
          let s2 = bump WsDisconnect s1;
              rest = filter (\<lambda>w. w \<noteq> ws) (did_sockets did s2) in
          s2\<lparr>connections := (connections s2)(did := (if rest = [] then None else Some rest)),
             socketToDid := (socketToDid s2)(ws := None),
             socketToDeviceId := (socketToDeviceId s2)(ws := None)\<rparr>)"

text \<open>\<^verbatim>\<open>wss.on('connection')\<close>\<close>

definition handleConnection :: "ws \<Rightarrow> relay \<Rightarrow> relay" where
  "handleConnection ws s = bump RawWsConnect (s\<lparr>sockets := (sockets s)(ws := Some Open)\<rparr>)"

section \<open>Consumed challenge nonces\<close>

definition pruneConsumedChallengeNonces :: "int \<Rightarrow> relay \<Rightarrow> relay" where
  "pruneConsumedChallengeNonces nowMs s =
     s\<lparr>consumedNonces := (\<lambda>n. case consumedNonces s n of
         Some expiresAt \<Rightarrow> if expiresAt \<le> nowMs then None else Some expiresAt
       | None \<Rightarrow> None)\<rparr>"

definition isConsumedChallengeNonce :: "string \<Rightarrow> relay \<Rightarrow> bool" where
  "isConsumedChallengeNonce nonce s \<longleftrightarrow> consumedNonces s nonce \<noteq> None"

definition rememberConsumedChallengeNonce :: "string \<Rightarrow> int \<Rightarrow> relay \<Rightarrow> relay" where
  "rememberConsumedChallengeNonce nonce until s = s\<lparr>consumedNonces := (consumedNonces s)(nonce := Some until)\<rparr>"

section \<open>Capability scopes\<close>

definition cacheScope :: "ws \<Rightarrow> string \<Rightarrow> scope \<Rightarrow> relay \<Rightarrow> relay" where
  "cacheScope ws docId sc s =
     s\<lparr>socketToScopes := (socketToScopes s)(ws := (socketToScopes s ws)(docId := Some sc))\<rparr>"

definition getScope :: "ws \<Rightarrow> string \<Rightarrow> relay \<Rightarrow> scope option" where
  "getScope ws docId s = socketToScopes s ws docId"

definition dropScope :: "ws \<Rightarrow> string \<Rightarrow> relay \<Rightarrow> relay" where
  "dropScope ws docId s =
     s\<lparr>socketToScopes := (socketToScopes s)(ws := (socketToScopes s ws)(docId := None))\<rparr>"

datatype scope_check = ScopeGranted | ScopeExpired | ScopeMissing

definition scope_expired :: "int \<Rightarrow> scope \<Rightarrow> bool" where
  "scope_expired now sc = (case sc_until sc of Some t \<Rightarrow> now \<ge> t | None \<Rightarrow> False)"

definition checkScope :: "inputs \<Rightarrow> ws \<Rightarrow> string \<Rightarrow> permission \<Rightarrow> relay \<Rightarrow> scope_check \<times> relay" where
  "checkScope i ws docId p s =
     (case getScope ws docId s of
        None \<Rightarrow> (ScopeMissing, s)
      | Some sc \<Rightarrow>
          if scope_expired (in_now i) sc then (ScopeExpired, dropScope ws docId s)
          else (if p \<in> set (sc_permissions sc) then ScopeGranted else ScopeMissing, s))"

text \<open>Drops the scopes of a document that satisfy \<open>P\<close>, on every socket.\<close>

definition drop_scopes :: "string \<Rightarrow> (scope \<Rightarrow> bool) \<Rightarrow> relay \<Rightarrow> relay" where
  "drop_scopes docId P s =
     s\<lparr>socketToScopes := (\<lambda>ws. (socketToScopes s ws)(docId :=
         (case socketToScopes s ws docId of
            Some sc \<Rightarrow> if P sc then None else Some sc
          | None \<Rightarrow> None)))\<rparr>"

definition invalidatePersonalScopesForDoc :: "string \<Rightarrow> relay \<Rightarrow> relay" where
  "invalidatePersonalScopesForDoc docId = drop_scopes docId (\<lambda>sc. sc_path sc = PersonalPath)"

definition invalidateStaleScopesForDoc :: "string \<Rightarrow> int \<Rightarrow> relay \<Rightarrow> relay" where
  "invalidateStaleScopesForDoc docId newGeneration = drop_scopes docId (\<lambda>sc. sc_generation sc < newGeneration)"

end
