(* ===== verification/RelayHandlers.thy ===== *)
theory RelayHandlers
  imports RelayState
begin

text \<open>
  The message handlers of \<^verbatim>\<open>RelayServer\<close> (\<^verbatim>\<open>packages/wot-relay/src/relay.ts\<close>), one definition per
  method, the part after an \<^verbatim>\<open>await\<close> as a definition of its own (suffix \<open>_done\<close>). A thrown error
  ends in an \<open>INTERNAL_ERROR\<close> frame, as the dispatcher does with it, and keeps what the handler has
  already done; a transaction that throws changes nothing.
\<close>

section \<open>Authentication\<close>

definition CHALLENGE_TIMEOUT_MS :: int where "CHALLENGE_TIMEOUT_MS = 30000"

definition handleRegister :: "env \<Rightarrow> inputs \<Rightarrow> ws \<Rightarrow> json \<Rightarrow> relay \<Rightarrow> relay" where
  "handleRegister en i ws raw s =
     (if socketToDid s ws \<noteq> None then reject ws AUTH_INVALID s
      else case parseBrokerRegisterControlFrame raw of
        None \<Rightarrow> reject ws MALFORMED_MESSAGE s
      | Some (did, deviceId) \<Rightarrow>
          if didKeyToPublicKeyBytes did = None then reject ws MALFORMED_MESSAGE s
          else (case createBrokerChallengeControlFrame (in_nonce i) of
            None \<Rightarrow> sendInternalError ws None s
          | Some challenge \<Rightarrow>
              sendTo ws (ChallengeFrame challenge)
                (s\<lparr>pendingChallenges := (pendingChallenges s)(ws := Some
                    \<lparr>oc_challenge = \<lparr>pc_did = did, pc_device = deviceId, pc_nonce = the (jget_str ''nonce'' challenge)\<rparr>,
                     oc_created = in_date i\<rparr>)\<rparr>)))"

definition deliver_queued :: "ws \<Rightarrow> string \<Rightarrow> string \<Rightarrow> relay \<Rightarrow> relay" where
  "deliver_queued ws did deviceId s =
     (let (pending, d) = deliverOnConnect did deviceId (r_db s);
          s1 = fold (\<lambda>e. sendTo ws (MessageFrame e)) pending (s\<lparr>r_db := d\<rparr>) in
      if pending = [] then s1 else bump (InboxDelivered (length pending)) s1)"

definition completeRegistration :: "inputs \<Rightarrow> ws \<Rightarrow> string \<Rightarrow> string \<Rightarrow> relay \<Rightarrow> relay" where
  "completeRegistration i ws did deviceId s =
     (if socketToDid s ws \<noteq> None then reject ws AUTH_INVALID s
      else case registerDevice did deviceId (in_date i) (r_db s) of
        Inl _ \<Rightarrow> sendInternalError ws None s
      | Inr (DevIdConflict, d) \<Rightarrow> reject ws DEVICE_ID_CONFLICT (s\<lparr>r_db := d\<rparr>)
      | Inr (DevRevoked, d) \<Rightarrow> reject ws DEVICE_REVOKED (s\<lparr>r_db := d\<rparr>)
      | Inr (DevRegistered isNew, d) \<Rightarrow>
          let s1 = bump WsConnect (bind_socket ws did deviceId (s\<lparr>r_db := d\<rparr>)) in
          (case createBrokerRegisteredControlFrame did deviceId isNew of
             None \<Rightarrow> sendInternalError ws None s1
           | Some f \<Rightarrow>
               deliver_queued ws did deviceId
                 (sendTo ws (RegisteredFrame f (length (did_sockets did s1) - 1)) s1)))"

definition tryGetChallengeResponseNonce :: "env \<Rightarrow> json \<Rightarrow> string option" where
  "tryGetChallengeResponseNonce en raw =
     map_option (\<lambda>p. tr_nonce (cr_transcript p)) (parseBrokerChallengeResponseControlFrame (env_rt en) raw)"

definition handleChallengeResponse :: "env \<Rightarrow> inputs \<Rightarrow> ws \<Rightarrow> json \<Rightarrow> relay \<Rightarrow> relay" where
  "handleChallengeResponse en i ws raw s =
     (let candidate = tryGetChallengeResponseNonce en raw;
          s1 = (if candidate = None then s else pruneConsumedChallengeNonces (in_date i) s) in
      if (case candidate of Some n \<Rightarrow> isConsumedChallengeNonce n s1 | None \<Rightarrow> False)
      then reject ws NONCE_REPLAY (dismiss_challenge ws s1)
      else case pendingChallenges s1 ws of
        None \<Rightarrow> reject ws AUTH_INVALID s1
      | Some pending \<Rightarrow>
          if in_date i - oc_created pending > CHALLENGE_TIMEOUT_MS
          then reject ws AUTH_INVALID (dismiss_challenge ws s1)
          else if didKeyToPublicKeyBytes (pc_did (oc_challenge pending)) = None
          then reject ws MALFORMED_MESSAGE (dismiss_challenge ws s1)
          else await (TChallenge ws raw pending) s1)"

definition handleChallengeResponse_done ::
  "env \<Rightarrow> inputs \<Rightarrow> ws \<Rightarrow> json \<Rightarrow> open_challenge \<Rightarrow> relay \<Rightarrow> relay" where
  "handleChallengeResponse_done en i ws raw pending s =
     (case verifyBrokerChallengeResponseControlFrame (env_rt en) raw (oc_challenge pending)
             (the (didKeyToPublicKeyBytes (pc_did (oc_challenge pending)))) of
        None \<Rightarrow> sendInternalError ws None (dismiss_challenge ws s)
      | Some (Inl code) \<Rightarrow> reject ws code (dismiss_challenge ws s)
      | Some (Inr f) \<Rightarrow>
          let t = cr_transcript f;
              s1 = pruneConsumedChallengeNonces (in_date i) s in
          (case decideBrokerChallengeNonceConsumption (tr_nonce t) {n. isConsumedChallengeNonce n s1} (in_date i) of
             NonceReplay _ \<Rightarrow> reject ws NONCE_REPLAY (dismiss_challenge ws s1)
           | NonceAccept n until \<Rightarrow>
               completeRegistration i ws (tr_did t) (tr_device t)
                 (rememberConsumedChallengeNonce n until (dismiss_challenge ws s1))))"

section \<open>Device revocation\<close>

definition handleDeviceRevoke :: "env \<Rightarrow> ws \<Rightarrow> json \<Rightarrow> relay \<Rightarrow> relay" where
  "handleDeviceRevoke en ws raw s =
     (case parseBrokerDeviceRevokeControlFrame (env_rt en) raw of
        None \<Rightarrow> reject ws MALFORMED_MESSAGE s
      | Some f \<Rightarrow>
          (case didKeyToPublicKeyBytes (rv_did (sf_payload f)) of
             None \<Rightarrow> reject ws AUTH_INVALID s
           | Some key \<Rightarrow> await (TRevoke ws raw key) s))"

definition handleDeviceRevoke_done :: "env \<Rightarrow> inputs \<Rightarrow> ws \<Rightarrow> json \<Rightarrow> bytes \<Rightarrow> relay \<Rightarrow> relay" where
  "handleDeviceRevoke_done en i ws raw key s =
     (case verifyBrokerDeviceRevokeControlFrame (env_rt en) raw key of
        None \<Rightarrow> sendInternalError ws None s
      | Some (Inl code) \<Rightarrow> reject ws code s
      | Some (Inr f) \<Rightarrow>
          let p = sf_payload f in
          (case revokeDevice (rv_did p) (rv_device p) (rv_at p) (in_date i) (r_db s) of
             Inl _ \<Rightarrow> sendInternalError ws None s
           | Inr (RevDidMismatch, d) \<Rightarrow> reject ws AUTH_INVALID (s\<lparr>r_db := d\<rparr>)
           | Inr (_, d) \<Rightarrow>
               delivered ws (JStr (rv_device p))
                 (s\<lparr>r_db := deleteForDevice (rv_device p) (in_now i) DEFAULT_INACTIVE_MS d\<rparr>)))"

section \<open>Spaces and their admins\<close>

definition handleSpaceRegister :: "env \<Rightarrow> ws \<Rightarrow> json \<Rightarrow> relay \<Rightarrow> relay" where
  "handleSpaceRegister en ws raw s =
     (if parseSpaceRegisterMessage (env_rt en) raw = None then reject ws MALFORMED_MESSAGE s
      else await (TSpaceRegister ws raw) s)"

definition header_kid :: "json \<Rightarrow> string" where
  "header_kid h = (case jget_str ''kid'' h of Some k \<Rightarrow> k | None \<Rightarrow> [])"

definition handleSpaceRegister_done :: "env \<Rightarrow> inputs \<Rightarrow> ws \<Rightarrow> json \<Rightarrow> relay \<Rightarrow> relay" where
  "handleSpaceRegister_done en i ws raw s =
     (case verifySpaceRegisterMessage (env_rt en) raw of
        Inl code \<Rightarrow> reject ws code s
      | Inr f \<Rightarrow>
          let p = sf_payload f in
          (case registerSpace (sr_space p) (sr_key p) (sr_admins p)
                  (didOrKidToDid (header_kid (sf_header f))) (in_date i) (r_db s) of
             Inl _ \<Rightarrow> sendInternalError ws None s
           | Inr (PersonalOwnerConflict, d) \<Rightarrow> reject ws PERSONAL_DOC_OWNER_MISMATCH (s\<lparr>r_db := d\<rparr>)
           | Inr (SpaceConflict, d) \<Rightarrow> reject ws SPACE_ALREADY_REGISTERED (s\<lparr>r_db := d\<rparr>)
           | Inr (SpaceRegistered, d) \<Rightarrow>
               delivered ws (JStr (sr_space p)) (invalidatePersonalScopesForDoc (sr_space p) (s\<lparr>r_db := d\<rparr>))
           | Inr (SpaceIdempotent, d) \<Rightarrow> delivered ws (JStr (sr_space p)) (s\<lparr>r_db := d\<rparr>)))"

text \<open>\<open>Inl\<close>: the error frame to send, with its \<^verbatim>\<open>thid\<close>.\<close>

definition resolveAdminSigner :: "env \<Rightarrow> string \<Rightarrow> db \<Rightarrow> (json option \<times> broker_error) + admin_signer" where
  "resolveAdminSigner en innerJws d =
     (case decodeJws (env_rt en) innerJws of
        None \<Rightarrow> Inl (None, MALFORMED_MESSAGE)
      | Some decoded \<Rightarrow>
          (case (jget_str ''spaceId'' (jws_payload decoded), jget_str ''kid'' (jws_header decoded)) of
             (Some spaceId, Some kid) \<Rightarrow>
               if \<not> isSpaceRegistered spaceId d then Inl (Some (JStr spaceId), DOC_NOT_FOUND)
               else if didOrKidToDid kid \<notin> set (getSpaceAdmins spaceId d)
               then Inl (Some (JStr spaceId), AUTH_INVALID)
               else (case didKeyToPublicKeyBytes (didOrKidToDid kid) of
                 None \<Rightarrow> Inl (Some (JStr spaceId), AUTH_INVALID)
               | Some key \<Rightarrow> Inr \<lparr>as_space = spaceId, as_did = didOrKidToDid kid, as_key = key\<rparr>)
           | _ \<Rightarrow> Inl (None, MALFORMED_MESSAGE)))"

definition with_admin_signer :: "env \<Rightarrow> ws \<Rightarrow> string \<Rightarrow> (admin_signer \<Rightarrow> task) \<Rightarrow> relay \<Rightarrow> relay" where
  "with_admin_signer en ws innerJws next s =
     (case resolveAdminSigner en innerJws (r_db s) of
        Inl (thid, code) \<Rightarrow> sendTo ws (ErrorFrame thid (Code code)) s
      | Inr signer \<Rightarrow> await (next signer) s)"

definition handleSpaceRotate :: "env \<Rightarrow> ws \<Rightarrow> json \<Rightarrow> relay \<Rightarrow> relay" where
  "handleSpaceRotate en ws raw s =
     (case parseSpaceRotateMessage (env_rt en) raw of
        None \<Rightarrow> reject ws MALFORMED_MESSAGE s
      | Some f \<Rightarrow> with_admin_signer en ws (sf_jws f) (TSpaceRotate ws raw) s)"

definition handleSpaceRotate_done :: "env \<Rightarrow> ws \<Rightarrow> json \<Rightarrow> admin_signer \<Rightarrow> relay \<Rightarrow> relay" where
  "handleSpaceRotate_done en ws raw signer s =
     (case verifySpaceRotateMessage (env_rt en) raw (as_did signer) (as_key signer) of
        None \<Rightarrow> sendInternalError ws (Some (as_space signer)) s
      | Some (Inl code) \<Rightarrow> reject_thid ws (JStr (as_space signer)) code s
      | Some (Inr f) \<Rightarrow>
          let spaceId = rot_space (sf_payload f); g = rot_generation (sf_payload f); key = rot_key (sf_payload f) in
          (case getSpace spaceId (r_db s) of
             None \<Rightarrow> reject_thid ws (JStr spaceId) AUTH_INVALID s
           | Some (current_key, current) \<Rightarrow>
               if g = current then
                 (if key = current_key then delivered ws (JStr spaceId) s
                  else reject_thid ws (JStr spaceId) GENERATION_TAKEN s)
               else if g < current then reject_thid ws (JStr spaceId) GENERATION_TAKEN s
               else if g > current + 1 then sendTo ws (GapFrame spaceId current) s
               else delivered ws (JStr spaceId)
                 (invalidateStaleScopesForDoc spaceId g (s\<lparr>r_db := rotateSpace spaceId key g (r_db s)\<rparr>))))"

definition handleAdminAdd :: "env \<Rightarrow> ws \<Rightarrow> json \<Rightarrow> relay \<Rightarrow> relay" where
  "handleAdminAdd en ws raw s =
     (case parseAdminAddMessage (env_rt en) raw of
        None \<Rightarrow> reject ws MALFORMED_MESSAGE s
      | Some f \<Rightarrow> with_admin_signer en ws (sf_jws f) (TAdminAdd ws raw (ac_space (sf_payload f))) s)"

definition handleAdminAdd_done :: "env \<Rightarrow> ws \<Rightarrow> json \<Rightarrow> string \<Rightarrow> admin_signer \<Rightarrow> relay \<Rightarrow> relay" where
  "handleAdminAdd_done en ws raw parsed_space signer s =
     (case verifyAdminAddMessage (env_rt en) raw (as_did signer) (as_key signer) of
        None \<Rightarrow> sendInternalError ws (Some (as_space signer)) s
      | Some (Inl code) \<Rightarrow> reject_thid ws (JStr parsed_space) code s
      | Some (Inr f) \<Rightarrow>
          let p = sf_payload f in
          delivered ws (JStr (ac_space p)) (s\<lparr>r_db := addAdmin (ac_space p) (ac_did p) (r_db s)\<rparr>))"

definition handleAdminRemove :: "env \<Rightarrow> ws \<Rightarrow> json \<Rightarrow> relay \<Rightarrow> relay" where
  "handleAdminRemove en ws raw s =
     (case parseAdminRemoveMessage (env_rt en) raw of
        None \<Rightarrow> reject ws MALFORMED_MESSAGE s
      | Some f \<Rightarrow>
          let spaceId = ac_space (sf_payload f);
              claimed = (case jget_str ''kid'' (sf_header f) of Some kid \<Rightarrow> didOrKidToDid kid | None \<Rightarrow> []);
              selfRetry = (claimed = ac_did (sf_payload f) \<and> claimed \<notin> set (getSpaceAdmins spaceId (r_db s))) in
          if selfRetry then
            (case didKeyToPublicKeyBytes claimed of
               None \<Rightarrow> reject_thid ws (JStr spaceId) AUTH_INVALID s
             | Some key \<Rightarrow>
                 await (TAdminRemove ws raw spaceId \<lparr>as_space = spaceId, as_did = claimed, as_key = key\<rparr> True) s)
          else with_admin_signer en ws (sf_jws f) (\<lambda>signer. TAdminRemove ws raw spaceId signer False) s)"

definition handleAdminRemove_done ::
  "env \<Rightarrow> ws \<Rightarrow> json \<Rightarrow> string \<Rightarrow> admin_signer \<Rightarrow> bool \<Rightarrow> relay \<Rightarrow> relay" where
  "handleAdminRemove_done en ws raw parsed_space signer selfRetry s =
     (case verifyAdminRemoveMessage (env_rt en) raw (as_did signer) (as_key signer) of
        None \<Rightarrow> sendInternalError ws (Some (as_space signer)) s
      | Some (Inl code) \<Rightarrow> reject_thid ws (JStr parsed_space) code s
      | Some (Inr f) \<Rightarrow>
          let p = sf_payload f in
          delivered ws (JStr (ac_space p))
            (if selfRetry then s else s\<lparr>r_db := removeAdmin (ac_space p) (ac_did p) (r_db s)\<rparr>))"

end
