(* ===== verification/RelayRouting.thy ===== *)
theory RelayRouting
  imports RelayHandlers
begin

text \<open>
  Capabilities and traffic of \<^verbatim>\<open>RelayServer\<close> (\<^verbatim>\<open>packages/wot-relay/src/relay.ts\<close>): the handlers
  of \<^verbatim>\<open>present-capability\<close>, of the envelopes inside \<^verbatim>\<open>send\<close> (log entries, catch-up requests, inbox
  messages, acknowledgements) and of the legacy \<^verbatim>\<open>ack\<close> frame.
\<close>

section \<open>Presenting a capability\<close>

definition parsePresentCapabilityFrame :: "json \<Rightarrow> string option" where
  "parsePresentCapabilityFrame raw =
     (if length (jkeys raw) \<noteq> 2 \<or> jget ''type'' raw \<noteq> Some (JStr ''present-capability'') then None
      else nonempty_str (jget ''capabilityJws'' raw))"

definition tryDecodeCapabilityDocId :: "env \<Rightarrow> string \<Rightarrow> string option" where
  "tryDecodeCapabilityDocId en jws =
     Option.bind (decodeJws (env_rt en) jws) (\<lambda>d. jget_str ''spaceId'' (jws_payload d))"

definition tryDecodeCapabilityGeneration :: "env \<Rightarrow> string \<Rightarrow> jsnum option" where
  "tryDecodeCapabilityGeneration en jws =
     (case decodeJws (env_rt en) jws of
        Some d \<Rightarrow> (case jget ''generation'' (jws_payload d) of Some (JNum x) \<Rightarrow> Some x | _ \<Rightarrow> None)
      | None \<Rightarrow> None)"

definition sendCapabilityVerifyError :: "ws \<Rightarrow> capability_error \<Rightarrow> relay \<Rightarrow> relay" where
  "sendCapabilityVerifyError ws e =
     reject ws (case e of CapabilityExpired \<Rightarrow> CAPABILITY_EXPIRED | CapabilityInvalid \<Rightarrow> CAPABILITY_INVALID)"

definition sendCapabilityReceipt :: "ws \<Rightarrow> string \<Rightarrow> relay \<Rightarrow> relay" where
  "sendCapabilityReceipt ws docId = delivered ws (JStr docId)"

definition capability_scope :: "capability \<Rightarrow> int \<Rightarrow> scope_path \<Rightarrow> scope" where
  "capability_scope c g path = \<lparr>sc_permissions = cap_permissions c, sc_generation = g, sc_path = path,
     sc_until = date_parse (cap_until c)\<rparr>"

definition presentSpaceCapability :: "env \<Rightarrow> inputs \<Rightarrow> ws \<Rightarrow> string \<Rightarrow> string \<Rightarrow> string \<Rightarrow> relay \<Rightarrow> relay" where
  "presentSpaceCapability en i ws socketDid docId jws s =
     (case getSpace docId (r_db s) of
        None \<Rightarrow> reject ws CAPABILITY_INVALID s
      | Some (verificationKey, generation) \<Rightarrow>
          if (case tryDecodeCapabilityGeneration en jws of Some x \<Rightarrow> x < num_of_int generation | None \<Rightarrow> False)
          then reject ws CAPABILITY_GENERATION_STALE s
          else (case decodeBase64Url verificationKey of
            None \<Rightarrow> sendCapabilityVerifyError ws CapabilityInvalid s
          | Some key \<Rightarrow>
              await (TPresentSpace ws docId jws key generation
                (space_context docId socketDid generation (in_now i))) s))"

definition presentSpaceCapability_done ::
  "env \<Rightarrow> ws \<Rightarrow> string \<Rightarrow> string \<Rightarrow> bytes \<Rightarrow> int \<Rightarrow> capability_context \<Rightarrow> relay \<Rightarrow> relay" where
  "presentSpaceCapability_done en ws docId jws key generation ctx s =
     (case verifySpaceCapabilityJws (env_rt en) jws key ctx of
        Inl e \<Rightarrow> sendCapabilityVerifyError ws e s
      | Inr c \<Rightarrow> sendCapabilityReceipt ws docId (cacheScope ws docId (capability_scope c generation SpacePath) s))"

definition presentPersonalCapability :: "inputs \<Rightarrow> ws \<Rightarrow> string \<Rightarrow> string \<Rightarrow> string \<Rightarrow> relay \<Rightarrow> relay" where
  "presentPersonalCapability i ws socketDid docId jws s =
     (case didKeyToPublicKeyBytes socketDid of
        None \<Rightarrow> reject ws CAPABILITY_INVALID s
      | Some key \<Rightarrow>
          await (TPresentPersonal ws docId socketDid jws key (personal_context docId socketDid (in_now i))) s)"

definition presentPersonalCapability_done ::
  "env \<Rightarrow> inputs \<Rightarrow> ws \<Rightarrow> string \<Rightarrow> string \<Rightarrow> string \<Rightarrow> bytes \<Rightarrow> capability_context \<Rightarrow> relay \<Rightarrow> relay" where
  "presentPersonalCapability_done en i ws docId socketDid jws key ctx s =
     (case verifyPersonalDocCapabilityJws (env_rt en) jws key ctx of
        Inl e \<Rightarrow> sendCapabilityVerifyError ws e s
      | Inr c \<Rightarrow>
          (case claimPersonalDocOwner docId socketDid (in_date i) (r_db s) of
             Inl _ \<Rightarrow> sendInternalError ws None s
           | Inr (OwnerConflict, d) \<Rightarrow> reject ws PERSONAL_DOC_OWNER_MISMATCH (s\<lparr>r_db := d\<rparr>)
           | Inr (_, d) \<Rightarrow>
               sendCapabilityReceipt ws docId
                 (cacheScope ws docId (capability_scope c 0 PersonalPath) (s\<lparr>r_db := d\<rparr>))))"

definition handlePresentCapability :: "env \<Rightarrow> inputs \<Rightarrow> ws \<Rightarrow> json \<Rightarrow> relay \<Rightarrow> relay" where
  "handlePresentCapability en i ws raw s =
     (case parsePresentCapabilityFrame raw of
        None \<Rightarrow> reject ws MALFORMED_MESSAGE s
      | Some jws \<Rightarrow>
          (case socketToDid s ws of
             None \<Rightarrow> sendTo ws (ErrorFrame None NOT_REGISTERED) s
           | Some did \<Rightarrow>
               (case tryDecodeCapabilityDocId en jws of
                  None \<Rightarrow> reject ws CAPABILITY_INVALID s
                | Some docId \<Rightarrow>
                    if isSpaceRegistered docId (r_db s) then presentSpaceCapability en i ws did docId jws s
                    else presentPersonalCapability i ws did docId jws s)))"

section \<open>Log entries\<close>

definition active_session :: "ws \<Rightarrow> relay \<Rightarrow> string option" where
  "active_session ws s =
     (case (socketToDid s ws, socketToDeviceId s ws) of
        (Some did, Some dev) \<Rightarrow> if isActive did dev (r_db s) then Some did else None
      | _ \<Rightarrow> None)"

text \<open>The check \<^verbatim>\<open>T-CHECK\<close>: a personal document that somebody else owns.\<close>

definition owned_by_other :: "string \<Rightarrow> string \<Rightarrow> relay \<Rightarrow> bool" where
  "owned_by_other docId did s \<longleftrightarrow>
     \<not> isSpaceRegistered docId (r_db s) \<and>
     (case getPersonalDocOwner docId (r_db s) of Some owner \<Rightarrow> owner \<noteq> did | None \<Rightarrow> False)"

definition envelope_id :: "json \<Rightarrow> json" where
  "envelope_id e = (case jget ''id'' e of None \<Rightarrow> JStr ''unknown'' | Some JNull \<Rightarrow> JStr ''unknown'' | Some v \<Rightarrow> v)"

definition ingest_reject :: "ws \<Rightarrow> json \<Rightarrow> broker_error \<Rightarrow> relay \<Rightarrow> relay" where
  "ingest_reject ws messageId code s = reject_thid ws messageId code (bump (IngestReject (RejectCode code)) s)"

definition scope_error :: "scope_check \<Rightarrow> broker_error" where
  "scope_error c = (if c = ScopeExpired then CAPABILITY_EXPIRED else CAPABILITY_REQUIRED)"

definition below_generation :: "log_entry \<Rightarrow> db \<Rightarrow> bool" where
  "below_generation e d =
     (case getSpace (le_doc e) d of Some (_, current) \<Rightarrow> le_generation e < current | None \<Rightarrow> False)"

text \<open>Up to the first \<^verbatim>\<open>await\<close> the handler does nothing; then it verifies and runs its gates.\<close>

definition handleLogEntry_verified :: "inputs \<Rightarrow> ws \<Rightarrow> json \<Rightarrow> string \<Rightarrow> log_entry \<Rightarrow> relay \<Rightarrow> relay" where
  "handleLogEntry_verified i ws envelope jws e s =
     (let messageId = envelope_id envelope in
      case active_session ws s of
        None \<Rightarrow> ingest_reject ws messageId DEVICE_REVOKED s
      | Some did \<Rightarrow>
          if owned_by_other (le_doc e) did s then ingest_reject ws messageId PERSONAL_DOC_OWNER_MISMATCH s
          else let (granted, s1) = checkScope i ws (le_doc e) Write s in
            if granted \<noteq> ScopeGranted then ingest_reject ws messageId (scope_error granted) s1
            else (case didForDevice (le_device e) (r_db s1) of
              None \<Rightarrow> ingest_reject ws messageId DEVICE_NOT_REGISTERED s1
            | Some owner \<Rightarrow>
                if owner \<noteq> didOrKidToDid (le_author_kid e) then ingest_reject ws messageId AUTHOR_MISMATCH s1
                else if below_generation e (r_db s1) then ingest_reject ws messageId KEY_GENERATION_STALE s1
                else await (TLogHash ws envelope jws e) s1))"

definition handleLogEntry :: "env \<Rightarrow> inputs \<Rightarrow> ws \<Rightarrow> json \<Rightarrow> string \<Rightarrow> relay \<Rightarrow> relay" where
  "handleLogEntry en i ws envelope jws s =
     (case verifyLogEntryJws (env_rt en) jws of
        None \<Rightarrow> reject ws AUTH_INVALID (bump (IngestReject (RejectCode AUTH_INVALID)) s)
      | Some e \<Rightarrow> handleLogEntry_verified i ws envelope jws e s)"

definition hashPayload :: "env \<Rightarrow> log_entry \<Rightarrow> string option" where
  "hashPayload en e =
     map_option (\<lambda>b. bytesToHex (sha256 (env_rt en) b)) (canonicalizeToBytes (env_rt en) (log_entry_json e))"

definition entry_append :: "string \<Rightarrow> log_entry \<Rightarrow> string \<Rightarrow> entry_params" where
  "entry_append hash e jws = \<lparr>ep_doc = le_doc e, ep_device = le_device e, ep_seq = le_seq e, ep_hash = hash,
     ep_jws = jws, ep_generation = Some (le_generation e)\<rparr>"

fun string_items :: "json list \<Rightarrow> string list" where
  "string_items [] = []"
| "string_items (JStr x # vs) = x # string_items vs"
| "string_items (_ # vs) = string_items vs"

definition envelope_recipients :: "json \<Rightarrow> string list" where
  "envelope_recipients e = (case jget ''to'' e of Some (JArr xs) \<Rightarrow> string_items xs | _ \<Rightarrow> [])"

definition broadcast :: "ws \<Rightarrow> json \<Rightarrow> relay \<Rightarrow> relay" where
  "broadcast ws envelope s =
     fold (\<lambda>w. sendTo w (MessageFrame envelope))
       (filter (\<lambda>w. w \<noteq> ws) (concat (map (\<lambda>did. did_sockets did s) (envelope_recipients envelope)))) s"

text \<open>\<^verbatim>\<open>catch\<close> of the dispatcher of log entries.\<close>

definition ingest_failed :: "ws \<Rightarrow> relay \<Rightarrow> relay" where
  "ingest_failed ws s = sendInternalError ws None (bump (IngestReject OTHER) s)"

definition handleLogEntry_hashed :: "env \<Rightarrow> inputs \<Rightarrow> ws \<Rightarrow> json \<Rightarrow> string \<Rightarrow> log_entry \<Rightarrow> relay \<Rightarrow> relay" where
  "handleLogEntry_hashed en i ws envelope jws e s =
     (let messageId = envelope_id envelope in
      case hashPayload en e of
        None \<Rightarrow> ingest_failed ws s
      | Some hash \<Rightarrow>
          (case appendEntry (entry_append hash e jws) (in_date i) (r_db s) of
             Inl _ \<Rightarrow> ingest_failed ws s
           | Inr (KeyGenerationStale, d) \<Rightarrow> ingest_reject ws messageId KEY_GENERATION_STALE (s\<lparr>r_db := d\<rparr>)
           | Inr (SeqCollision, d) \<Rightarrow>
               reject_thid ws messageId SEQ_COLLISION_DETECTED
                 (bump (IngestReject (toIngestRejectCode SEQ_COLLISION_DETECTED)) (s\<lparr>r_db := d\<rparr>))
           | Inr (IdempotentEntry, d) \<Rightarrow> delivered ws messageId (bump IngestOk (s\<lparr>r_db := d\<rparr>))
           | Inr (AcceptedEntry, d) \<Rightarrow>
               delivered ws messageId (broadcast ws envelope (bump IngestOk (s\<lparr>r_db := d\<rparr>)))))"

section \<open>Catch-up\<close>

definition RELAY_SYNC_FROM_DID :: string where
  "RELAY_SYNC_FROM_DID = ''did:key:z6MkrelayBrokerSyncResponderPlaceholder0000000000''"

definition sync_page :: "sync_request \<Rightarrow> db \<Rightarrow> sync_response" where
  "sync_page q d =
     (let limit = (case sq_limit q of None \<Rightarrow> 100 | Some n \<Rightarrow> n);
          (es, truncated) = getSinceWithTruncation (sq_doc q) (sq_heads q) (Some limit) d in
      \<lparr>sy_doc = sq_doc q, sy_entries = es, sy_heads = getHeads (sq_doc q) d, sy_truncated = truncated\<rparr>)"

definition sync_reply :: "env \<Rightarrow> inputs \<Rightarrow> json \<Rightarrow> sync_response \<Rightarrow> json option" where
  "sync_reply en i envelope page = createSyncResponseMessage (env_rt en)
     \<lparr>mo_id = in_uuid i, mo_type = SYNC_RESPONSE_MESSAGE_TYPE, mo_from = RELAY_SYNC_FROM_DID, mo_to = None,
      mo_created = in_date i div 1000, mo_thid = jget_str ''id'' envelope, mo_pthid = None,
      mo_body = sync_response_body_json page\<rparr>"

definition handleSyncRequest :: "env \<Rightarrow> inputs \<Rightarrow> ws \<Rightarrow> json \<Rightarrow> relay \<Rightarrow> relay" where
  "handleSyncRequest en i ws envelope s =
     (case active_session ws s of
        None \<Rightarrow> reject ws DEVICE_REVOKED s
      | Some did \<Rightarrow>
          (case assertSyncRequestMessage (env_rt en) envelope of
             None \<Rightarrow> reject ws MALFORMED_MESSAGE s
           | Some q \<Rightarrow>
               if owned_by_other (sq_doc q) did s then reject ws PERSONAL_DOC_OWNER_MISMATCH s
               else let (granted, s1) = checkScope i ws (sq_doc q) Read s in
                 if granted \<noteq> ScopeGranted then reject ws (scope_error granted) s1
                 else (case sync_reply en i envelope (sync_page q (r_db s1)) of
                   None \<Rightarrow> sendInternalError ws None s1
                 | Some response \<Rightarrow> sendTo ws (MessageFrame response) s1)))"

section \<open>Acknowledgements\<close>

definition isDidcommMessage :: "json \<Rightarrow> bool" where
  "isDidcommMessage v \<longleftrightarrow> is_record v \<and> jget ''typ'' v = Some DIDCOMM_PLAINTEXT_TYP"

definition inbox_channel :: "json \<Rightarrow> bool" where
  "inbox_channel v \<longleftrightarrow> isDidcommMessage v \<and>
     (case jget_str ''type'' v of Some t \<Rightarrow> isEncryptedInboxMessageType t | None \<Rightarrow> False)"

definition handleAck :: "ws \<Rightarrow> string \<Rightarrow> relay \<Rightarrow> relay" where
  "handleAck ws messageId s =
     (case session_did ws s of
        None \<Rightarrow> s
      | Some did \<Rightarrow>
          (case getByMessageId messageId (r_db s) of
             None \<Rightarrow> s
           | Some (toDid, envelope) \<Rightarrow>
               if inbox_channel envelope then discardAck ws s
               else if toDid \<noteq> did then discardAck ws s
               else s))"

definition handleInboxAckEnvelope :: "env \<Rightarrow> inputs \<Rightarrow> ws \<Rightarrow> string \<Rightarrow> json \<Rightarrow> relay \<Rightarrow> relay" where
  "handleInboxAckEnvelope en i ws ackingDid envelope s =
     (case assertAckMessage (env_rt en) envelope of
        None \<Rightarrow> discardAck ws s
      | Some messageId \<Rightarrow>
          if (case getByMessageId messageId (r_db s) of
                None \<Rightarrow> False
              | Some (toDid, referenced) \<Rightarrow> toDid \<noteq> ackingDid \<or> \<not> inbox_channel referenced)
          then discardAck ws s
          else delivered ws (envelope_id envelope)
            (case socketToDeviceId s ws of
               None \<Rightarrow> s
             | Some deviceId \<Rightarrow>
                 let (applied, d) = ackDevice messageId deviceId (in_now i) DEFAULT_INACTIVE_MS (r_db s);
                     s1 = s\<lparr>r_db := d\<rparr> in
                 if applied then bump AckApplied s1 else s1))"

section \<open>The inbox channel and \<^verbatim>\<open>send\<close>\<close>

definition first_recipient :: "json \<Rightarrow> string option" where
  "first_recipient e = (case jget ''to'' e of Some (JArr (JStr d # _)) \<Rightarrow> if d = [] then None else Some d | _ \<Rightarrow> None)"

definition inbox_message_id :: "inputs \<Rightarrow> json \<Rightarrow> json" where
  "inbox_message_id i e =
     (case jget ''id'' e of None \<Rightarrow> JStr (''unknown-'' @ in_uuid i) | Some JNull \<Rightarrow> JStr (''unknown-'' @ in_uuid i) | Some v \<Rightarrow> v)"

definition inbox_targets :: "inputs \<Rightarrow> string \<Rightarrow> string \<Rightarrow> string \<Rightarrow> string \<Rightarrow> db \<Rightarrow> delivery_disposition" where
  "inbox_targets i messageId senderDid senderDevice toDid d =
     computeBrokerInboxDeliveryTargets messageId (senderDid, senderDevice) toDid
       (map (\<lambda>dev. \<lparr>id_did = toDid, id_device = dev, id_status = Active\<rparr>)
         (effectiveActiveDeviceIdsForDid toDid (in_now i) DEFAULT_INACTIVE_MS d))"

definition live_sockets :: "string \<Rightarrow> string list \<Rightarrow> relay \<Rightarrow> ws list" where
  "live_sockets toDid targets s =
     filter (\<lambda>w. case socketToDeviceId s w of Some dev \<Rightarrow> dev \<in> set targets | None \<Rightarrow> False) (did_sockets toDid s)"

definition route_inbox ::
  "env \<Rightarrow> inputs \<Rightarrow> ws \<Rightarrow> string \<Rightarrow> string \<Rightarrow> string \<Rightarrow> json \<Rightarrow> relay \<Rightarrow> relay" where
  "route_inbox en i ws senderDid senderDevice toDid envelope s =
     (let messageId = inbox_message_id i envelope in
      case bind_text en messageId of
        None \<Rightarrow> sendInternalError ws None s
      | Some m \<Rightarrow>
          let disposition = inbox_targets i m senderDid senderDevice toDid (r_db s);
              targets = map ie_device (dd_targets disposition) in
          (case enqueueFanout \<lparr>fi_message = m, fi_to = toDid, fi_envelope = envelope, fi_targets = targets,
                   fi_excluded = map_option snd (dd_excluded disposition)\<rparr> (in_now i) (r_db s) of
             Inl _ \<Rightarrow> sendInternalError ws None s
           | Inr (EnqCollision, d) \<Rightarrow> reject ws MALFORMED_MESSAGE (s\<lparr>r_db := d\<rparr>)
           | Inr (fanout, d) \<Rightarrow>
               let s1 = (if fanout = EnqInserted then bump InboxEnqueued (s\<lparr>r_db := d\<rparr>) else s\<lparr>r_db := d\<rparr>);
                   live = live_sockets toDid targets s1;
                   s2 = fold (\<lambda>w. sendTo w (MessageFrame envelope)) live s1;
                   s3 = (if live = [] then s2 else bump (InboxDelivered (length live)) s2) in
               sendTo ws (ReceiptFrame messageId (if live = [] then Accepted else Delivered)) s3))"

definition didcomm_of_type :: "string \<Rightarrow> json \<Rightarrow> bool" where
  "didcomm_of_type t e \<longleftrightarrow> jget ''typ'' e = Some DIDCOMM_PLAINTEXT_TYP \<and> jget ''type'' e = Some (JStr t)"

definition relay_whitelisted :: "json \<Rightarrow> bool" where
  "relay_whitelisted e \<longleftrightarrow> jget ''typ'' e = Some DIDCOMM_PLAINTEXT_TYP \<and>
     (case jget_str ''type'' e of Some t \<Rightarrow> isEncryptedInboxMessageType t | None \<Rightarrow> False)"

definition tryParseLogEntryJws :: "env \<Rightarrow> json \<Rightarrow> string option" where
  "tryParseLogEntryJws en e =
     (if assertLogEntryMessage (env_rt en) e then Option.bind (jget ''body'' e) (jget_str ''entry'') else None)"

definition isParsableSyncRequest :: "env \<Rightarrow> json \<Rightarrow> bool" where
  "isParsableSyncRequest en e \<longleftrightarrow> assertSyncRequestMessage (env_rt en) e \<noteq> None"

definition handleInboxSend :: "env \<Rightarrow> inputs \<Rightarrow> ws \<Rightarrow> string \<Rightarrow> json \<Rightarrow> relay \<Rightarrow> relay" where
  "handleInboxSend en i ws senderDid envelope s =
     (if \<not> relay_whitelisted envelope
      then reject ws MALFORMED_MESSAGE (bump (IngestReject (RejectCode MALFORMED_MESSAGE)) s)
      else case socketToDeviceId s ws of
        None \<Rightarrow> reject ws DEVICE_REVOKED s
      | Some senderDevice \<Rightarrow>
          if \<not> isActive senderDid senderDevice (r_db s) then reject ws DEVICE_REVOKED s
          else (case first_recipient envelope of
            None \<Rightarrow> sendTo ws (ErrorFrame None MISSING_RECIPIENT) s
          | Some toDid \<Rightarrow> route_inbox en i ws senderDid senderDevice toDid envelope s))"

definition handleSend :: "env \<Rightarrow> inputs \<Rightarrow> ws \<Rightarrow> json \<Rightarrow> relay \<Rightarrow> relay" where
  "handleSend en i ws envelope s =
     (case session_did ws s of
        None \<Rightarrow> sendTo ws (ErrorFrame None NOT_REGISTERED) s
      | Some senderDid \<Rightarrow>
          if didcomm_of_type ACK_MESSAGE_TYPE envelope then handleInboxAckEnvelope en i ws senderDid envelope s
          else if didcomm_of_type LOG_ENTRY_MESSAGE_TYPE envelope \<and> tryParseLogEntryJws en envelope \<noteq> None
          then await (TLogVerify ws envelope (the (tryParseLogEntryJws en envelope))) s
          else if didcomm_of_type SYNC_REQUEST_MESSAGE_TYPE envelope \<and> isParsableSyncRequest en envelope
          then handleSyncRequest en i ws envelope s
          else handleInboxSend en i ws senderDid envelope s)"

end
