(* ===== verification/Relay.thy ===== *)
theory Relay
  imports RelayRouting
begin

text \<open>
  The dispatcher of \<^verbatim>\<open>RelayServer\<close> and the server as a transition system. One step is one callback of
  the event loop: a connection, a message, a close event, the continuation of a handler whose \<^verbatim>\<open>await\<close>
  is settled, or the retention sweep. JavaScript runs a callback to completion, so steps are atomic;
  settled continuations may run in any order (\<open>Resumed n\<close> takes the \<open>n\<close>-th task), which includes every
  order the runtime can choose.
\<close>

section \<open>Dispatch\<close>

text \<open>\<^verbatim>\<open>String(value)\<close> of a JSON value; an object whose own \<^verbatim>\<open>toString\<close> hides the built-in one has no text.\<close>

fun js_string :: "(rat \<Rightarrow> string) \<Rightarrow> json \<Rightarrow> string option"
  and js_items :: "(rat \<Rightarrow> string) \<Rightarrow> json list \<Rightarrow> string list option" where
  "js_string num JNull = Some ''null''"
| "js_string num (JBool b) = Some (if b then ''true'' else ''false'')"
| "js_string num (JNum NegInf) = Some ''-Infinity''"
| "js_string num (JNum PosInf) = Some ''Infinity''"
| "js_string num (JNum (Fin r)) = Some (num r)"
| "js_string num (JStr s) = Some s"
| "js_string num (JArr vs) = map_option (join '','') (js_items num vs)"
| "js_string num (JObj kvs) = (if ''toString'' \<in> set (map fst kvs) then None else Some ''[object Object]'')"
| "js_items num [] = Some []"
| "js_items num (v # vs) = do {
     x \<leftarrow> (if v = JNull then Some [] else js_string num v); xs \<leftarrow> js_items num vs; Some (x # xs) }"

definition nullish_or :: "json \<Rightarrow> json option \<Rightarrow> json" where
  "nullish_or d v = (case v of None \<Rightarrow> d | Some JNull \<Rightarrow> d | Some x \<Rightarrow> x)"

definition handleMessage :: "env \<Rightarrow> inputs \<Rightarrow> ws \<Rightarrow> json \<Rightarrow> relay \<Rightarrow> relay" where
  "handleMessage en i ws msg s =
     (case msg of
        JObj _ \<Rightarrow>
          (case jget_str ''type'' msg of
             None \<Rightarrow> reject ws MALFORMED_MESSAGE s
           | Some t \<Rightarrow>
               if t = ''register'' then handleRegister en i ws msg s
               else if t = ''challenge-response'' then handleChallengeResponse en i ws msg s
               else if t = ''send'' then handleSend en i ws (nullish_or (JObj []) (jget ''envelope'' msg)) s
               else if t = ''ack'' then
                 (case js_string (number_text (env_rt en)) (nullish_or (JStr []) (jget ''messageId'' msg)) of
                    None \<Rightarrow> sendInternalError ws None s
                  | Some messageId \<Rightarrow> handleAck ws messageId s)
               else if t = ''device-revoke'' then handleDeviceRevoke en ws msg s
               else if t = ''space-register'' then handleSpaceRegister en ws msg s
               else if t = ''space-rotate'' then handleSpaceRotate en ws msg s
               else if t = ''admin-add'' then handleAdminAdd en ws msg s
               else if t = ''admin-remove'' then handleAdminRemove en ws msg s
               else if t = ''present-capability'' then handlePresentCapability en i ws msg s
               else if t = ''ping'' then sendTo ws PongFrame s
               else reject ws MALFORMED_MESSAGE s)
      | _ \<Rightarrow> reject ws MALFORMED_MESSAGE s)"

definition receiveMessage :: "env \<Rightarrow> inputs \<Rightarrow> ws \<Rightarrow> bytes \<Rightarrow> relay \<Rightarrow> relay" where
  "receiveMessage en i ws data s =
     (case json_parse (env_rt en) data of
        None \<Rightarrow> reject ws MALFORMED_MESSAGE s
      | Some msg \<Rightarrow> handleMessage en i ws msg s)"

fun runTask :: "env \<Rightarrow> inputs \<Rightarrow> task \<Rightarrow> relay \<Rightarrow> relay" where
  "runTask en i (TChallenge ws raw pending) s = handleChallengeResponse_done en i ws raw pending s"
| "runTask en i (TRevoke ws raw key) s = handleDeviceRevoke_done en i ws raw key s"
| "runTask en i (TSpaceRegister ws raw) s = handleSpaceRegister_done en i ws raw s"
| "runTask en i (TSpaceRotate ws raw signer) s = handleSpaceRotate_done en ws raw signer s"
| "runTask en i (TAdminAdd ws raw sp signer) s = handleAdminAdd_done en ws raw sp signer s"
| "runTask en i (TAdminRemove ws raw sp signer retry) s = handleAdminRemove_done en ws raw sp signer retry s"
| "runTask en i (TPresentSpace ws docId jws key g ctx) s = presentSpaceCapability_done en ws docId jws key g ctx s"
| "runTask en i (TPresentPersonal ws docId did jws key ctx) s =
     presentPersonalCapability_done en i ws docId did jws key ctx s"
| "runTask en i (TLogVerify ws envelope jws) s = handleLogEntry en i ws envelope jws s"
| "runTask en i (TLogHash ws envelope jws e) s = handleLogEntry_hashed en i ws envelope jws e s"

definition remove_nth :: "nat \<Rightarrow> 'a list \<Rightarrow> 'a list" where
  "remove_nth n xs = take n xs @ drop (Suc n) xs"

definition resumeTask :: "env \<Rightarrow> inputs \<Rightarrow> nat \<Rightarrow> relay \<Rightarrow> relay" where
  "resumeTask en i n s = runTask en i (tasks s ! n) (s\<lparr>tasks := remove_nth n (tasks s)\<rparr>)"

text \<open>The sweep of \<^verbatim>\<open>startInboxRetentionSweep\<close>.\<close>

definition sweep :: "inputs \<Rightarrow> relay \<Rightarrow> relay" where
  "sweep i s = s\<lparr>r_db := snd (collectGarbage (in_now i) DEFAULT_TTL_MS DEFAULT_INACTIVE_MS (r_db s))\<rparr>"

section \<open>The server as a transition system\<close>

datatype event =
    Connected ws | Received ws bytes | CloseStarted ws | Closed ws | Resumed nat | Swept

inductive relay_step :: "env \<Rightarrow> relay \<Rightarrow> event \<times> inputs \<Rightarrow> relay \<Rightarrow> bool" for en where
  on_connect: "sockets s ws = None \<Longrightarrow> relay_step en s (Connected ws, i) (handleConnection ws s)"
| on_message: "sockets s ws = Some Open \<or> sockets s ws = Some Closing \<Longrightarrow>
     relay_step en s (Received ws data, i) (receiveMessage en i ws data s)"
| on_closing: "sockets s ws = Some Open \<Longrightarrow>
     relay_step en s (CloseStarted ws, i) (s\<lparr>sockets := (sockets s)(ws := Some Closing)\<rparr>)"
| on_close: "sockets s ws = Some Open \<or> sockets s ws = Some Closing \<Longrightarrow>
     relay_step en s (Closed ws, i) (handleClose ws s)"
| on_resume: "n < length (tasks s) \<Longrightarrow> relay_step en s (Resumed n, i) (resumeTask en i n s)"
| on_sweep: "relay_step en s (Swept, i) (sweep i s)"

inductive_simps relay_step_simps:
  "relay_step en s (Connected ws, i) s'"
  "relay_step en s (Received ws data, i) s'"
  "relay_step en s (CloseStarted ws, i) s'"
  "relay_step en s (Closed ws, i) s'"
  "relay_step en s (Resumed n, i) s'"
  "relay_step en s (Swept, i) s'"

text \<open>The same as a function, for running the model: \<open>None\<close> where no such event is possible.\<close>

definition attached :: "ws \<Rightarrow> relay \<Rightarrow> bool" where
  "attached ws s \<longleftrightarrow> sockets s ws = Some Open \<or> sockets s ws = Some Closing"

fun exec :: "env \<Rightarrow> event \<times> inputs \<Rightarrow> relay \<Rightarrow> relay option" where
  "exec en (Connected ws, i) s = (if sockets s ws = None then Some (handleConnection ws s) else None)"
| "exec en (Received ws data, i) s = (if attached ws s then Some (receiveMessage en i ws data s) else None)"
| "exec en (CloseStarted ws, i) s =
     (if sockets s ws = Some Open then Some (s\<lparr>sockets := (sockets s)(ws := Some Closing)\<rparr>) else None)"
| "exec en (Closed ws, i) s = (if attached ws s then Some (handleClose ws s) else None)"
| "exec en (Resumed n, i) s = (if n < length (tasks s) then Some (resumeTask en i n s) else None)"
| "exec en (Swept, i) s = Some (sweep i s)"

lemma relay_step_exec: "relay_step en s e s' \<longleftrightarrow> exec en e s = Some s'"
  by (cases "(en, e, s)" rule: exec.cases) (auto simp: relay_step_simps attached_def)

fun exec_all :: "env \<Rightarrow> (event \<times> inputs) list \<Rightarrow> relay \<Rightarrow> relay option" where
  "exec_all en [] s = Some s"
| "exec_all en (e # es) s = Option.bind (exec en e s) (exec_all en es)"

lemma run_relay_iff: "run (relay_step en) s es s' \<longleftrightarrow> exec_all en es s = Some s'"
proof (induction es arbitrary: s)
  case Nil
  show ?case by (auto intro: run.intros elim: run_NilE)
next
  case (Cons e es)
  show ?case
    by (auto simp: Cons.IH [symmetric] relay_step_exec bind_eq_Some_conv elim!: run_ConsE
        intro: run.intros)
qed

end
