(* ===== verification/RelayFacts.thy ===== *)
theory RelayFacts
  imports Relay
begin

text \<open>
  What each handler of the relay touches: the parts of the state it leaves alone, the tasks it adds and
  what it does to the database. The properties of \<open>RelaySafety\<close> rest on these.
\<close>

named_theorems relay_frame "what a state transformer of the relay leaves alone"

section \<open>Primitives\<close>

lemma sendTo_frame [simp]:
  "sockets (sendTo ws f s) = sockets s" "connections (sendTo ws f s) = connections s"
  "socketToDid (sendTo ws f s) = socketToDid s" "socketToDeviceId (sendTo ws f s) = socketToDeviceId s"
  "socketToScopes (sendTo ws f s) = socketToScopes s" "pendingChallenges (sendTo ws f s) = pendingChallenges s"
  "consumedNonces (sendTo ws f s) = consumedNonces s" "r_db (sendTo ws f s) = r_db s" "tasks (sendTo ws f s) = tasks s"
  by (simp_all add: sendTo_def)

lemma bump_frame [simp]:
  "sockets (bump c s) = sockets s" "connections (bump c s) = connections s"
  "socketToDid (bump c s) = socketToDid s" "socketToDeviceId (bump c s) = socketToDeviceId s"
  "socketToScopes (bump c s) = socketToScopes s" "pendingChallenges (bump c s) = pendingChallenges s"
  "consumedNonces (bump c s) = consumedNonces s" "r_db (bump c s) = r_db s" "tasks (bump c s) = tasks s"
  by (simp_all add: bump_def)

lemma await_frame [simp]:
  "sockets (await t s) = sockets s" "connections (await t s) = connections s"
  "socketToDid (await t s) = socketToDid s" "socketToDeviceId (await t s) = socketToDeviceId s"
  "socketToScopes (await t s) = socketToScopes s" "pendingChallenges (await t s) = pendingChallenges s"
  "consumedNonces (await t s) = consumedNonces s" "r_db (await t s) = r_db s"
  "tasks (await t s) = tasks s @ [t]" "trace (await t s) = trace s"
  by (simp_all add: await_def)

lemma dismiss_frame [simp]:
  "sockets (dismiss_challenge ws s) = sockets s" "connections (dismiss_challenge ws s) = connections s"
  "socketToDid (dismiss_challenge ws s) = socketToDid s" "socketToDeviceId (dismiss_challenge ws s) = socketToDeviceId s"
  "socketToScopes (dismiss_challenge ws s) = socketToScopes s" "consumedNonces (dismiss_challenge ws s) = consumedNonces s"
  "r_db (dismiss_challenge ws s) = r_db s" "tasks (dismiss_challenge ws s) = tasks s" "trace (dismiss_challenge ws s) = trace s"
  by (simp_all add: dismiss_challenge_def)

lemma fold_sendTo_frame [simp]:
  "sockets (fold (\<lambda>w. sendTo (to w) (f w)) ws s) = sockets s"
  "connections (fold (\<lambda>w. sendTo (to w) (f w)) ws s) = connections s"
  "socketToDid (fold (\<lambda>w. sendTo (to w) (f w)) ws s) = socketToDid s"
  "socketToDeviceId (fold (\<lambda>w. sendTo (to w) (f w)) ws s) = socketToDeviceId s"
  "socketToScopes (fold (\<lambda>w. sendTo (to w) (f w)) ws s) = socketToScopes s"
  "pendingChallenges (fold (\<lambda>w. sendTo (to w) (f w)) ws s) = pendingChallenges s"
  "consumedNonces (fold (\<lambda>w. sendTo (to w) (f w)) ws s) = consumedNonces s"
  "r_db (fold (\<lambda>w. sendTo (to w) (f w)) ws s) = r_db s"
  "tasks (fold (\<lambda>w. sendTo (to w) (f w)) ws s) = tasks s"
  by (induction ws arbitrary: s) simp_all

lemma errors_frame [simp]:
  "sendInternalError ws thid s = sendTo ws (ErrorFrame (map_option JStr thid) (Code INTERNAL_ERROR)) s"
  "discardAck ws s = reject ws MALFORMED_MESSAGE s"
  "ingest_reject ws m code s = reject_thid ws m code (bump (IngestReject (RejectCode code)) s)"
  "ingest_failed ws s = sendTo ws (ErrorFrame None (Code INTERNAL_ERROR)) (bump (IngestReject OTHER) s)"
  "sendCapabilityVerifyError ws e s =
     reject ws (case e of CapabilityExpired \<Rightarrow> CAPABILITY_EXPIRED | CapabilityInvalid \<Rightarrow> CAPABILITY_INVALID) s"
  "sendCapabilityReceipt ws d s = delivered ws (JStr d) s"
  by (simp_all add: sendInternalError_def discardAck_def ingest_reject_def ingest_failed_def
      sendCapabilityVerifyError_def sendCapabilityReceipt_def)

lemma scopes_frame [simp]:
  "sockets (cacheScope ws d sc s) = sockets s" "connections (cacheScope ws d sc s) = connections s"
  "socketToDid (cacheScope ws d sc s) = socketToDid s" "socketToDeviceId (cacheScope ws d sc s) = socketToDeviceId s"
  "consumedNonces (cacheScope ws d sc s) = consumedNonces s" "r_db (cacheScope ws d sc s) = r_db s"
  "tasks (cacheScope ws d sc s) = tasks s" "pendingChallenges (cacheScope ws d sc s) = pendingChallenges s"
  "sockets (drop_scopes d P s) = sockets s" "connections (drop_scopes d P s) = connections s"
  "socketToDid (drop_scopes d P s) = socketToDid s" "socketToDeviceId (drop_scopes d P s) = socketToDeviceId s"
  "consumedNonces (drop_scopes d P s) = consumedNonces s" "r_db (drop_scopes d P s) = r_db s"
  "tasks (drop_scopes d P s) = tasks s" "pendingChallenges (drop_scopes d P s) = pendingChallenges s"
  "sockets (dropScope ws d s) = sockets s" "connections (dropScope ws d s) = connections s"
  "socketToDid (dropScope ws d s) = socketToDid s" "socketToDeviceId (dropScope ws d s) = socketToDeviceId s"
  "consumedNonces (dropScope ws d s) = consumedNonces s" "r_db (dropScope ws d s) = r_db s"
  "tasks (dropScope ws d s) = tasks s" "pendingChallenges (dropScope ws d s) = pendingChallenges s"
  by (simp_all add: cacheScope_def drop_scopes_def dropScope_def)

lemma checkScope_cases:
  obtains "checkScope i ws d p s = (ScopeGranted, s)" | "checkScope i ws d p s = (ScopeMissing, s)"
  | "checkScope i ws d p s = (ScopeExpired, dropScope ws d s)"
proof -
  have "checkScope i ws d p s \<in> {(ScopeGranted, s), (ScopeMissing, s), (ScopeExpired, dropScope ws d s)}"
    by (simp add: checkScope_def split: option.split)
  then show thesis using that by auto
qed

text \<open>The part of the state that only sessions change, and its frame.\<close>

definition session_part :: "relay \<Rightarrow> _" where
  "session_part s = (sockets s, connections s, socketToDid s, socketToDeviceId s)"

lemma session_part_update [simp]:
  "session_part (s\<lparr>r_db := d\<rparr>) = session_part s" "session_part (s\<lparr>trace := tr\<rparr>) = session_part s" "session_part (s\<lparr>tasks := ts\<rparr>) = session_part s"
  "session_part (s\<lparr>pendingChallenges := pc\<rparr>) = session_part s" "session_part (s\<lparr>consumedNonces := cn\<rparr>) = session_part s"
  "session_part (sendTo ws f s) = session_part s" "session_part (bump c s) = session_part s"
  "session_part (await t s) = session_part s" "session_part (dismiss_challenge ws s) = session_part s"
  "session_part (fold (\<lambda>w. sendTo (to w) (g w)) ws' s) = session_part s"
  "session_part (cacheScope ws docId sc s) = session_part s" "session_part (drop_scopes docId P s) = session_part s"
  "session_part (dropScope ws docId s) = session_part s"
  by (simp_all add: session_part_def)

section \<open>Handlers\<close>

lemma handleLogEntry_verified_frame [simp]:
  "session_part (handleLogEntry_verified i ws envelope jws e s) = session_part s"
  "consumedNonces (handleLogEntry_verified i ws envelope jws e s) = consumedNonces s"
  "pendingChallenges (handleLogEntry_verified i ws envelope jws e s) = pendingChallenges s"
  "r_db (handleLogEntry_verified i ws envelope jws e s) = r_db s"
  by (cases rule: checkScope_cases [of i ws "le_doc e" Write s];
      simp add: handleLogEntry_verified_def Let_def split: option.split)+

lemma handleLogEntry_frame [simp]:
  "session_part (handleLogEntry en i ws envelope jws s) = session_part s"
  "consumedNonces (handleLogEntry en i ws envelope jws s) = consumedNonces s"
  "pendingChallenges (handleLogEntry en i ws envelope jws s) = pendingChallenges s"
  "r_db (handleLogEntry en i ws envelope jws s) = r_db s"
  by (simp_all add: handleLogEntry_def split: option.split)

lemma handleSyncRequest_frame [simp]:
  "session_part (handleSyncRequest en i ws envelope s) = session_part s"
  "consumedNonces (handleSyncRequest en i ws envelope s) = consumedNonces s"
  "pendingChallenges (handleSyncRequest en i ws envelope s) = pendingChallenges s"
  "r_db (handleSyncRequest en i ws envelope s) = r_db s"
  "tasks (handleSyncRequest en i ws envelope s) = tasks s"
proof -
  have "session_part (handleSyncRequest en i ws envelope s) = session_part s \<and>
    consumedNonces (handleSyncRequest en i ws envelope s) = consumedNonces s \<and>
    pendingChallenges (handleSyncRequest en i ws envelope s) = pendingChallenges s \<and>
    r_db (handleSyncRequest en i ws envelope s) = r_db s \<and> tasks (handleSyncRequest en i ws envelope s) = tasks s"
  proof (cases "assertSyncRequestMessage (env_rt en) envelope")
    case (Some q)
    then show ?thesis
      by (cases rule: checkScope_cases [of i ws "sq_doc q" Read s])
        (simp_all add: handleSyncRequest_def split: option.split)
  qed (simp add: handleSyncRequest_def split: option.split)
  then show "session_part (handleSyncRequest en i ws envelope s) = session_part s"
    "consumedNonces (handleSyncRequest en i ws envelope s) = consumedNonces s"
    "pendingChallenges (handleSyncRequest en i ws envelope s) = pendingChallenges s"
    "r_db (handleSyncRequest en i ws envelope s) = r_db s"
    "tasks (handleSyncRequest en i ws envelope s) = tasks s"
    by simp_all
qed

lemma broadcast_frame [simp]:
  "session_part (broadcast ws envelope s) = session_part s" "consumedNonces (broadcast ws envelope s) = consumedNonces s"
  "pendingChallenges (broadcast ws envelope s) = pendingChallenges s" "r_db (broadcast ws envelope s) = r_db s"
  "tasks (broadcast ws envelope s) = tasks s" "sockets (broadcast ws envelope s) = sockets s"
  "socketToScopes (broadcast ws envelope s) = socketToScopes s"
  by (simp_all add: broadcast_def)

lemma handleLogEntry_hashed_frame [simp]:
  "session_part (handleLogEntry_hashed en i ws envelope jws e s) = session_part s"
  "consumedNonces (handleLogEntry_hashed en i ws envelope jws e s) = consumedNonces s"
  "pendingChallenges (handleLogEntry_hashed en i ws envelope jws e s) = pendingChallenges s"
  "socketToScopes (handleLogEntry_hashed en i ws envelope jws e s) = socketToScopes s"
  "tasks (handleLogEntry_hashed en i ws envelope jws e s) = tasks s"
  by (simp_all add: handleLogEntry_hashed_def Let_def split: option.split sum.split append_result.split prod.split)

lemma handleInboxAckEnvelope_frame [simp]:
  "session_part (handleInboxAckEnvelope en i ws did envelope s) = session_part s"
  "consumedNonces (handleInboxAckEnvelope en i ws did envelope s) = consumedNonces s"
  "pendingChallenges (handleInboxAckEnvelope en i ws did envelope s) = pendingChallenges s"
  "tasks (handleInboxAckEnvelope en i ws did envelope s) = tasks s"
  by (simp_all add: handleInboxAckEnvelope_def Let_def split: option.split prod.split)

lemma handleAck_frame [simp]:
  "session_part (handleAck ws m s) = session_part s" "consumedNonces (handleAck ws m s) = consumedNonces s"
  "pendingChallenges (handleAck ws m s) = pendingChallenges s" "r_db (handleAck ws m s) = r_db s" "tasks (handleAck ws m s) = tasks s"
  by (simp_all add: handleAck_def split: option.split prod.split)

lemma route_inbox_frame [simp]:
  "session_part (route_inbox en i ws did dev to envelope s) = session_part s"
  "consumedNonces (route_inbox en i ws did dev to envelope s) = consumedNonces s"
  "pendingChallenges (route_inbox en i ws did dev to envelope s) = pendingChallenges s"
  "tasks (route_inbox en i ws did dev to envelope s) = tasks s"
  by (simp_all add: route_inbox_def Let_def split: option.split sum.split enqueue_result.split prod.split)

lemma handleInboxSend_frame [simp]:
  "session_part (handleInboxSend en i ws did envelope s) = session_part s"
  "consumedNonces (handleInboxSend en i ws did envelope s) = consumedNonces s"
  "pendingChallenges (handleInboxSend en i ws did envelope s) = pendingChallenges s"
  "tasks (handleInboxSend en i ws did envelope s) = tasks s"
  by (simp_all add: handleInboxSend_def split: option.split)

lemma handleSend_frame [simp]:
  "session_part (handleSend en i ws envelope s) = session_part s"
  "consumedNonces (handleSend en i ws envelope s) = consumedNonces s"
  "pendingChallenges (handleSend en i ws envelope s) = pendingChallenges s"
  by (simp_all add: handleSend_def split: option.split)

lemma with_admin_signer_frame [simp]:
  "session_part (with_admin_signer en ws jws t s) = session_part s"
  "consumedNonces (with_admin_signer en ws jws t s) = consumedNonces s"
  "pendingChallenges (with_admin_signer en ws jws t s) = pendingChallenges s"
  "r_db (with_admin_signer en ws jws t s) = r_db s"
  by (simp_all add: with_admin_signer_def split: sum.split prod.split)

lemma management_frame [simp]:
  "session_part (handleDeviceRevoke en ws raw s) = session_part s"
  "consumedNonces (handleDeviceRevoke en ws raw s) = consumedNonces s"
  "r_db (handleDeviceRevoke en ws raw s) = r_db s"
  "session_part (handleSpaceRegister en ws raw s) = session_part s"
  "consumedNonces (handleSpaceRegister en ws raw s) = consumedNonces s"
  "r_db (handleSpaceRegister en ws raw s) = r_db s"
  "session_part (handleSpaceRotate en ws raw s) = session_part s"
  "consumedNonces (handleSpaceRotate en ws raw s) = consumedNonces s"
  "r_db (handleSpaceRotate en ws raw s) = r_db s"
  "session_part (handleAdminAdd en ws raw s) = session_part s"
  "consumedNonces (handleAdminAdd en ws raw s) = consumedNonces s"
  "r_db (handleAdminAdd en ws raw s) = r_db s"
  "session_part (handleAdminRemove en ws raw s) = session_part s"
  "consumedNonces (handleAdminRemove en ws raw s) = consumedNonces s"
  "r_db (handleAdminRemove en ws raw s) = r_db s"
  by (simp_all add: handleDeviceRevoke_def handleSpaceRegister_def handleSpaceRotate_def handleAdminAdd_def
      handleAdminRemove_def Let_def split: option.split)

lemma management_done_frame [simp]:
  "session_part (handleDeviceRevoke_done en i ws raw key s) = session_part s"
  "consumedNonces (handleDeviceRevoke_done en i ws raw key s) = consumedNonces s"
  "tasks (handleDeviceRevoke_done en i ws raw key s) = tasks s"
  "session_part (handleSpaceRegister_done en i ws raw s) = session_part s"
  "consumedNonces (handleSpaceRegister_done en i ws raw s) = consumedNonces s"
  "tasks (handleSpaceRegister_done en i ws raw s) = tasks s"
  "session_part (handleSpaceRotate_done en ws raw signer s) = session_part s"
  "consumedNonces (handleSpaceRotate_done en ws raw signer s) = consumedNonces s"
  "tasks (handleSpaceRotate_done en ws raw signer s) = tasks s"
  "session_part (handleAdminAdd_done en ws raw sp signer s) = session_part s"
  "consumedNonces (handleAdminAdd_done en ws raw sp signer s) = consumedNonces s"
  "tasks (handleAdminAdd_done en ws raw sp signer s) = tasks s"
  "session_part (handleAdminRemove_done en ws raw sp signer retry s) = session_part s"
  "consumedNonces (handleAdminRemove_done en ws raw sp signer retry s) = consumedNonces s"
  "tasks (handleAdminRemove_done en ws raw sp signer retry s) = tasks s"
  by (simp_all add: handleDeviceRevoke_done_def handleSpaceRegister_done_def handleSpaceRotate_done_def
      handleAdminAdd_done_def handleAdminRemove_done_def invalidatePersonalScopesForDoc_def
      invalidateStaleScopesForDoc_def Let_def
      split: option.split sum.split prod.split device_revocation.split space_registration.split)

lemma present_frame [simp]:
  "session_part (handlePresentCapability en i ws raw s) = session_part s"
  "consumedNonces (handlePresentCapability en i ws raw s) = consumedNonces s"
  "r_db (handlePresentCapability en i ws raw s) = r_db s"
  by (simp_all add: handlePresentCapability_def presentSpaceCapability_def presentPersonalCapability_def
      split: option.split prod.split)

lemma present_done_frame [simp]:
  "session_part (presentSpaceCapability_done en ws docId jws key g ctx s) = session_part s"
  "consumedNonces (presentSpaceCapability_done en ws docId jws key g ctx s) = consumedNonces s"
  "r_db (presentSpaceCapability_done en ws docId jws key g ctx s) = r_db s"
  "tasks (presentSpaceCapability_done en ws docId jws key g ctx s) = tasks s"
  "session_part (presentPersonalCapability_done en i ws docId did jws key ctx s) = session_part s"
  "consumedNonces (presentPersonalCapability_done en i ws docId did jws key ctx s) = consumedNonces s"
  "tasks (presentPersonalCapability_done en i ws docId did jws key ctx s) = tasks s"
  by (simp_all add: presentSpaceCapability_done_def presentPersonalCapability_done_def
      split: sum.split prod.split owner_claim.split)

lemma prune_frame [simp]:
  "session_part (pruneConsumedChallengeNonces n s) = session_part s"
  "r_db (pruneConsumedChallengeNonces n s) = r_db s" "tasks (pruneConsumedChallengeNonces n s) = tasks s"
  "sockets (pruneConsumedChallengeNonces n s) = sockets s" "trace (pruneConsumedChallengeNonces n s) = trace s"
  "socketToDid (pruneConsumedChallengeNonces n s) = socketToDid s"
  "pendingChallenges (pruneConsumedChallengeNonces n s) = pendingChallenges s"
  "session_part (rememberConsumedChallengeNonce m t s) = session_part s"
  "r_db (rememberConsumedChallengeNonce m t s) = r_db s" "tasks (rememberConsumedChallengeNonce m t s) = tasks s"
  "sockets (rememberConsumedChallengeNonce m t s) = sockets s" "trace (rememberConsumedChallengeNonce m t s) = trace s"
  "socketToDid (rememberConsumedChallengeNonce m t s) = socketToDid s"
  by (simp_all add: pruneConsumedChallengeNonces_def rememberConsumedChallengeNonce_def session_part_def)

lemma handleRegister_frame [simp]:
  "session_part (handleRegister en i ws raw s) = session_part s"
  "consumedNonces (handleRegister en i ws raw s) = consumedNonces s"
  "r_db (handleRegister en i ws raw s) = r_db s" "tasks (handleRegister en i ws raw s) = tasks s"
  by (simp_all add: handleRegister_def split: option.split prod.split)

lemma handleChallengeResponse_frame [simp]:
  "session_part (handleChallengeResponse en i ws raw s) = session_part s"
  "r_db (handleChallengeResponse en i ws raw s) = r_db s"
  by (simp_all add: handleChallengeResponse_def Let_def split: option.split)

lemma deliver_queued_frame [simp]:
  "session_part (deliver_queued ws did dev s) = session_part s"
  "consumedNonces (deliver_queued ws did dev s) = consumedNonces s"
  "tasks (deliver_queued ws did dev s) = tasks s"
  "r_db (deliver_queued ws did dev s) = snd (deliverOnConnect did dev (r_db s))"
  by (simp_all add: deliver_queued_def Let_def split: prod.split)

lemma bind_socket_frame [simp]:
  "sockets (bind_socket ws did dev s) = sockets s" "consumedNonces (bind_socket ws did dev s) = consumedNonces s"
  "r_db (bind_socket ws did dev s) = r_db s" "tasks (bind_socket ws did dev s) = tasks s"
  "socketToDid (bind_socket ws did dev s) = (socketToDid s)(ws := Some did)"
  "socketToDeviceId (bind_socket ws did dev s) = (socketToDeviceId s)(ws := Some dev)"
  "socketToScopes (bind_socket ws did dev s) = socketToScopes s" "trace (bind_socket ws did dev s) = trace s"
  by (simp_all add: bind_socket_def Let_def)

lemma completeRegistration_frame [simp]:
  "consumedNonces (completeRegistration i ws did dev s) = consumedNonces s"
  "tasks (completeRegistration i ws did dev s) = tasks s"
  by (simp_all add: completeRegistration_def Let_def split: sum.split prod.split device_registration.split option.split)

lemma handleChallengeResponse_done_tasks [simp]: "tasks (handleChallengeResponse_done en i ws raw pending s) = tasks s"
  by (simp add: handleChallengeResponse_done_def Let_def split: option.split sum.split nonce_decision.split)

section \<open>The database\<close>

text \<open>
  A handler acts on the database by transactions only; \<open>reaches False\<close> means that none of them is an
  ingest into the log.
\<close>

fun is_append :: "store_op \<Rightarrow> bool" where
  "is_append (OpAppend _ _) \<longleftrightarrow> True"
| "is_append _ \<longleftrightarrow> False"

definition reaches :: "bool \<Rightarrow> db \<Rightarrow> db \<Rightarrow> bool" where
  "reaches A d d' \<longleftrightarrow> (\<exists>ops. run store_step d ops d' \<and> (A \<or> list_all (\<lambda>op. \<not> is_append op) ops))"

lemma reaches_refl [simp]: "reaches A d d"
  unfolding reaches_def by (rule exI [of _ "[]"]) (simp add: run_nil)

lemma reaches_step: "store_step d op d' \<Longrightarrow> A \<or> \<not> is_append op \<Longrightarrow> reaches A d d'"
  unfolding reaches_def by (rule exI [of _ "[op]"]) (auto intro: run.intros)

lemma reaches_trans [trans]: "reaches A a b \<Longrightarrow> reaches A b c \<Longrightarrow> reaches A a c"
  unfolding reaches_def by (metis list_all_append run_append)

lemma reaches_weaken: "reaches False a b \<Longrightarrow> reaches A a b"
  unfolding reaches_def by blast

lemma reaches_run: "reaches A d d' \<Longrightarrow> \<exists>ops. run store_step d ops d'"
  unfolding reaches_def by blast

lemma reaches_tx:
  "registerDevice did dev now d = Inr (x1, d') \<Longrightarrow> reaches A d d'"
  "revokeDevice did dev revAt now d = Inr (x2, d') \<Longrightarrow> reaches A d d'"
  "registerSpace sp key admins signer now d = Inr (x3, d') \<Longrightarrow> reaches A d d'"
  "claimPersonalDocOwner docId did now d = Inr (x4, d') \<Longrightarrow> reaches A d d'"
  "appendEntry p now d = Inr (x5, d') \<Longrightarrow> reaches True d d'"
  "enqueueFanout fi now d = Inr (x6, d') \<Longrightarrow> reaches A d d'"
  "ackDevice m dev now inactive d = (b, d') \<Longrightarrow> reaches A d d'"
  using reaches_step [OF step_register [of d did dev now]] reaches_step [OF step_revoke [of d did dev revAt now]]
    reaches_step [OF step_space [of d sp key admins signer now]] reaches_step [OF step_claim [of d docId did now]]
    reaches_step [OF step_append [of d p now]] reaches_step [OF step_enqueue [of d fi now]]
    reaches_step [OF step_ack [of d m dev now inactive]]
  by (simp_all add: after_def)

lemma reaches_deliver [simp]: "reaches A d (snd (deliverOnConnect did dev d))"
  by (rule reaches_step [OF step_deliver]) simp

text \<open>What any transactions keep: rows, owners and revocations of devices, registered spaces.\<close>

lemma store_step_spaces:
  assumes "store_step d op d'" "db_ok d" "isSpaceRegistered k d"
  shows "isSpaceRegistered k d'"
proof -
  from assms(1) show ?thesis
  proof (cases rule: store_step.cases)
    case (step_append p now)
    then show ?thesis
      using assms(3) appendEntry_doc_log [of p now d]
      by (cases "appendEntry p now d") (auto simp: after_def isSpaceRegistered_def)
  next
    case (step_space s key admins signer now)
    moreover have "registry_ok d" using assms(2) by (simp add: db_ok_def)
    ultimately show ?thesis
      using assms(3) by (cases "getSpace k d"; cases "getSpace s d")
        (auto simp: registerSpace_eq after_def isSpaceRegistered_getSpace getSpace_registered_space)
  next
    case (step_rotate g s key)
    then show ?thesis using assms(3) by (simp add: isSpaceRegistered_getSpace getSpace_rotateSpace)
  qed (use assms(3) in \<open>auto simp: registerDevice_eq revokeDevice_eq claimPersonalDocOwner_eq addAdmin_def removeAdmin_def
      isSpaceRegistered_def inbox_same [unfolded same_store_def] split: option.splits\<close>)
qed

lemma run_spaces: "run store_step d ops d' \<Longrightarrow> db_ok d \<Longrightarrow> isSpaceRegistered k d \<Longrightarrow> isSpaceRegistered k d'"
  by (induction rule: run.induct) (auto intro: store_step_spaces store.inv_step)

lemma store_step_no_append:
  assumes "store_step d op d'" "\<not> is_append op"
  shows "doc_log d' = doc_log d"
  using assms
  by (cases rule: store_step.cases) (auto simp: registerDevice_eq revokeDevice_eq claimPersonalDocOwner_eq rotateSpace_def
      addAdmin_def removeAdmin_def inbox_same [unfolded same_store_def after_def] registerSpace_def Let_def after_def
      split: option.splits)

lemma reaches_no_append: "reaches False d d' \<Longrightarrow> doc_log d' = doc_log d"
proof -
  have "run store_step d ops d' \<Longrightarrow> list_all (\<lambda>op. \<not> is_append op) ops \<Longrightarrow> doc_log d' = doc_log d" for ops
    by (induction rule: run.induct) (auto dest: store_step_no_append)
  then show "reaches False d d' \<Longrightarrow> ?thesis" by (auto simp: reaches_def)
qed

lemma reaches_keeps:
  assumes "reaches A d d'"
  shows "device_kept d d'" "db_ok d \<Longrightarrow> db_ok d'" "db_ok d \<Longrightarrow> isSpaceRegistered k d \<Longrightarrow> isSpaceRegistered k d'"
  using reaches_run [OF assms] by (auto intro: run_devices store.run_inv run_spaces)

section \<open>Transactions of the handlers\<close>

lemma completeRegistration_reaches: "reaches False (r_db s) (r_db (completeRegistration i ws did dev s))"
  by (auto simp: completeRegistration_def Let_def split: sum.split prod.split device_registration.split option.split
      intro: reaches_tx reaches_trans [OF reaches_tx(1) reaches_deliver])

lemma handleChallengeResponse_done_reaches:
  "reaches False (r_db s) (r_db (handleChallengeResponse_done en i ws raw pending s))"
  using completeRegistration_reaches
  by (simp add: handleChallengeResponse_done_def Let_def split: option.split sum.split nonce_decision.split)
    (metis dismiss_frame(7) prune_frame(2,9))

lemma reaches_deleteForDevice: "reaches A a b \<Longrightarrow> reaches A a (deleteForDevice dev now inactive b)"
  by (rule reaches_trans [OF _ reaches_step [OF step_delete]]) simp_all

lemma handleDeviceRevoke_done_reaches: "reaches False (r_db s) (r_db (handleDeviceRevoke_done en i ws raw key s))"
  by (auto simp: handleDeviceRevoke_done_def Let_def
      split: option.split sum.split prod.split device_revocation.split intro: reaches_tx reaches_deleteForDevice)

lemma handleSpaceRegister_done_reaches: "reaches False (r_db s) (r_db (handleSpaceRegister_done en i ws raw s))"
  by (auto simp: handleSpaceRegister_done_def Let_def invalidatePersonalScopesForDoc_def
      split: sum.split prod.split space_registration.split intro: reaches_tx)

lemma presentPersonalCapability_done_reaches:
  "reaches False (r_db s) (r_db (presentPersonalCapability_done en i ws docId did jws key ctx s))"
  by (auto simp: presentPersonalCapability_done_def split: sum.split prod.split owner_claim.split intro: reaches_tx)

lemma handleLogEntry_hashed_reaches: "reaches True (r_db s) (r_db (handleLogEntry_hashed en i ws envelope jws e s))"
  by (auto simp: handleLogEntry_hashed_def Let_def split: option.split sum.split append_result.split prod.split
      intro: reaches_tx)

lemma handleInboxAckEnvelope_reaches: "reaches False (r_db s) (r_db (handleInboxAckEnvelope en i ws did envelope s))"
  by (auto simp: handleInboxAckEnvelope_def Let_def split: option.split prod.split intro: reaches_tx)

lemma route_inbox_reaches: "reaches False (r_db s) (r_db (route_inbox en i ws did dev to envelope s))"
  by (auto simp: route_inbox_def Let_def split: option.split sum.split enqueue_result.split prod.split
      intro: reaches_tx)

lemma handleSend_reaches: "reaches False (r_db s) (r_db (handleSend en i ws envelope s))"
  by (simp add: handleSend_def handleInboxSend_def handleInboxAckEnvelope_reaches route_inbox_reaches split: option.split)

lemma sweep_reaches: "reaches False (r_db s) (r_db (sweep i s))"
  by (simp add: sweep_def reaches_step [OF step_gc])

text \<open>The two tasks that need more: the generation and the space come from the verified payload.\<close>

lemma verifyAdminSignedFrame_parsed:
  "verifyAdminSignedFrame rt parse frame did key = Some (Inr f) \<Longrightarrow> parse frame = Some f"
  by (auto simp: verifyAdminSignedFrame_def finishVerification_def split: if_splits option.splits)

lemma parse_rotate_generation: "parseSpaceRotateMessage rt raw = Some f \<Longrightarrow> 0 \<le> rot_generation (sf_payload f)"
  by (auto simp: parseSpaceRotateMessage_def parse_signed_frame_def signed_frame_of_def parseSpaceRotatePayload_def
      safe_nat_def safe_seq_def bind_eq_Some_conv split: if_splits option.splits)

lemma handleSpaceRotate_done_reaches: "reaches False (r_db s) (r_db (handleSpaceRotate_done en ws raw signer s))"
proof -
  have "verifySpaceRotateMessage (env_rt en) raw did key = Some (Inr f) \<Longrightarrow>
      reaches False d (rotateSpace (rot_space (sf_payload f)) (rot_key (sf_payload f)) (rot_generation (sf_payload f)) d)"
    for f d did key
    unfolding verifySpaceRotateMessage_def
    by (rule reaches_step [OF step_rotate], rule parse_rotate_generation, erule verifyAdminSignedFrame_parsed) simp
  then show ?thesis
    by (auto simp: handleSpaceRotate_done_def Let_def invalidateStaleScopesForDoc_def
        split: option.split sum.split prod.split)
qed

lemma handleAdminAdd_done_reaches:
  assumes "\<And>f. parseAdminAddMessage (env_rt en) raw = Some f \<Longrightarrow> isSpaceRegistered (ac_space (sf_payload f)) (r_db s)"
  shows "reaches False (r_db s) (r_db (handleAdminAdd_done en ws raw sp signer s))"
proof -
  have "verifyAdminAddMessage (env_rt en) raw did key = Some (Inr f) \<Longrightarrow>
      reaches False (r_db s) (addAdmin (ac_space (sf_payload f)) (ac_did (sf_payload f)) (r_db s))" for f did key
    unfolding verifyAdminAddMessage_def
    by (rule reaches_step [OF step_add], rule assms, erule verifyAdminSignedFrame_parsed) simp
  then show ?thesis
    by (auto simp: handleAdminAdd_done_def Let_def split: option.split sum.split)
qed

lemma handleAdminRemove_done_reaches: "reaches False (r_db s) (r_db (handleAdminRemove_done en ws raw sp signer retry s))"
  by (auto simp: handleAdminRemove_done_def Let_def split: option.split sum.split intro: reaches_step [OF step_remove])

section \<open>Dispatch\<close>

text \<open>Case analysis over the dispatcher, for properties of its result.\<close>

lemma handleMessage_rule:
  assumes "\<And>f. P (sendTo ws f s)"
    and "P (handleRegister en i ws msg s)" "P (handleChallengeResponse en i ws msg s)"
    and "\<And>e. P (handleSend en i ws e s)" "\<And>m. P (handleAck ws m s)"
    and "P (handleDeviceRevoke en ws msg s)" "P (handleSpaceRegister en ws msg s)"
    and "P (handleSpaceRotate en ws msg s)" "P (handleAdminAdd en ws msg s)"
    and "P (handleAdminRemove en ws msg s)" "P (handlePresentCapability en i ws msg s)"
  shows "P (handleMessage en i ws msg s)"
  using assms by (cases msg) (simp_all add: handleMessage_def split: option.split)

lemma receiveMessage_rule:
  assumes "\<And>f. P (sendTo ws f s)" "\<And>msg. P (handleMessage en i ws msg s)"
  shows "P (receiveMessage en i ws data s)"
  by (simp add: receiveMessage_def assms split: option.split)

lemma handleSend_rule:
  assumes "\<And>f. P (sendTo ws f s)" "\<And>did. P (handleInboxAckEnvelope en i ws did envelope s)"
    and "\<And>jws. P (await (TLogVerify ws envelope jws) s)" "P (handleSyncRequest en i ws envelope s)"
    and "\<And>did. P (handleInboxSend en i ws did envelope s)"
  shows "P (handleSend en i ws envelope s)"
  by (simp add: handleSend_def assms split: option.split)

lemma receiveMessage_frame [simp]:
  "session_part (receiveMessage en i ws data s) = session_part s"
  by (rule receiveMessage_rule, simp, rule handleMessage_rule) simp_all

lemma receiveMessage_reaches: "reaches False (r_db s) (r_db (receiveMessage en i ws data s))"
  by (rule receiveMessage_rule, simp, rule handleMessage_rule) (simp_all add: handleSend_reaches)

end
