(* ===== verification/RelayExample.thy ===== *)
theory RelayExample
  imports RelayFacts
begin

text \<open>
  A concrete session with the relay, used to show that its properties are not empty: a device registers,
  answers its challenge, presents a capability for its personal document and stores a log entry. The
  runtime accepts every signature and parses a few fixed texts.
\<close>

definition demo_entry :: "int \<Rightarrow> log_entry" where
  "demo_entry n = sample_entry\<lparr>le_seq := n\<rparr>"

definition demo_capability :: capability where
  "demo_capability = sample_capability\<lparr>cap_audience := sample_did\<rparr>"

definition demo_envelope :: json where
  "demo_envelope = plaintext_json \<lparr>mo_id = sample_uuid, mo_type = LOG_ENTRY_MESSAGE_TYPE, mo_from = ''did:key:a'',
     mo_to = Some [''did:key:a''], mo_created = 0, mo_thid = None, mo_pthid = None,
     mo_body = JObj [(''entry'', JStr ''AA.AQ.Ag'')]\<rparr>"

definition demo_request :: json where
  "demo_request = plaintext_json \<lparr>mo_id = sample_uuid, mo_type = SYNC_REQUEST_MESSAGE_TYPE, mo_from = ''did:key:a'',
     mo_to = None, mo_created = 0, mo_thid = None, mo_pthid = None,
     mo_body = JObj [(''docId'', JStr sample_uuid), (''heads'', JObj [])]\<rparr>"

definition demo_rotation :: json where
  "demo_rotation = JObj [(''type'', JStr ''space-rotate''), (''rotationJws'', JStr ''AA.Bg.Ag'')]"

definition demo_revocation :: json where
  "demo_revocation = JObj [(''type'', JStr ''device-revoke''), (''revocationJws'', JStr ''AA.Bw.Ag'')]"

definition demo_texts :: "int \<Rightarrow> (bytes \<times> json) list" where
  "demo_texts n =
     [([0], admin_header sample_kid), ([1], log_entry_json (demo_entry n)),
      ([3], capability_header sample_kid), ([4], capability_json demo_capability),
      ([10], register_frame sample_did sample_uuid),
      ([11], challenge_response_frame sample_did sample_uuid sample_nonce sample_signature),
      ([12], JObj [(''type'', JStr ''present-capability''), (''capabilityJws'', JStr ''Aw.BA.Ag'')]),
      ([13], JObj [(''type'', JStr ''send''), (''envelope'', demo_envelope)]),
      ([5], capability_header sample_space_kid), ([6], space_rotate_json sample_rotation),
      ([7], revoke_json sample_revocation), ([14], demo_revocation)]"

definition demo_runtime :: "int \<Rightarrow> runtime" where
  "demo_runtime n = \<lparr>json_parse = map_of (demo_texts n), number_text = (\<lambda>_. ''0''), valid_url = (\<lambda>_. True),
     verify_ed25519 = (\<lambda>_ _ _. Some True), sha256 = (\<lambda>_. [0])\<rparr>"

definition demo_env :: "int \<Rightarrow> env" where
  "demo_env n = \<lparr>env_rt = demo_runtime n, bind_text = jstr\<rparr>"

definition demo_in :: inputs where
  "demo_in = \<lparr>in_date = 0, in_now = 5, in_nonce = replicate 32 0, in_uuid = sample_uuid\<rparr>"

lemma demo_simps [simp]:
  "env_rt (demo_env n) = demo_runtime n" "verify_ed25519 (demo_runtime n) m s k = Some True"
  "number_text (demo_runtime n) = (\<lambda>_. ''0'')" "valid_url (demo_runtime n) u" "sha256 (demo_runtime n) b = [0]"
  "in_date demo_in = 0" "in_now demo_in = 5" "in_nonce demo_in = replicate 32 0" "in_uuid demo_in = sample_uuid"
  by (simp_all add: demo_env_def demo_runtime_def demo_in_def)

lemma demo_parse:
  "json_parse (demo_runtime n) [0] = Some (admin_header sample_kid)"
  "json_parse (demo_runtime n) [1] = Some (log_entry_json (demo_entry n))"
  "json_parse (demo_runtime n) [3] = Some (capability_header sample_kid)"
  "json_parse (demo_runtime n) [4] = Some (capability_json demo_capability)"
  "json_parse (demo_runtime n) [10] = Some (register_frame sample_did sample_uuid)"
  "json_parse (demo_runtime n) [11] = Some (challenge_response_frame sample_did sample_uuid sample_nonce sample_signature)"
  "json_parse (demo_runtime n) [12] =
     Some (JObj [(''type'', JStr ''present-capability''), (''capabilityJws'', JStr ''Aw.BA.Ag'')])"
  "json_parse (demo_runtime n) [13] = Some (JObj [(''type'', JStr ''send''), (''envelope'', demo_envelope)])"
  "json_parse (demo_runtime n) [5] = Some (capability_header sample_space_kid)"
  "json_parse (demo_runtime n) [6] = Some (space_rotate_json sample_rotation)"
  "json_parse (demo_runtime n) [7] = Some (revoke_json sample_revocation)"
  "json_parse (demo_runtime n) [14] = Some demo_revocation"
  by (simp_all add: demo_runtime_def demo_texts_def)

lemma demo_segments:
  "split_on CHR ''.'' ''AA.AQ.Ag'' = [''AA'', ''AQ'', ''Ag'']" "split_on CHR ''.'' ''Aw.BA.Ag'' = [''Aw'', ''BA'', ''Ag'']"
  "decodeBase64Url ''AA'' = Some [0]" "decodeBase64Url ''AQ'' = Some [1]" "decodeBase64Url ''Ag'' = Some [2]"
  "decodeBase64Url ''Aw'' = Some [3]" "decodeBase64Url ''BA'' = Some [4]"
  "split_on CHR ''.'' ''AA.Bg.Ag'' = [''AA'', ''Bg'', ''Ag'']" "split_on CHR ''.'' ''BQ.BA.Ag'' = [''BQ'', ''BA'', ''Ag'']"
  "decodeBase64Url ''BQ'' = Some [5]" "decodeBase64Url ''Bg'' = Some [6]"
  "split_on CHR ''.'' ''AA.Bw.Ag'' = [''AA'', ''Bw'', ''Ag'']" "decodeBase64Url ''Bw'' = Some [7]"
  by code_simp+

lemma demo_decode:
  "decodeJws (demo_runtime n) ''AA.AQ.Ag'' = Some \<lparr>jws_header = admin_header sample_kid,
     jws_payload = log_entry_json (demo_entry n), jws_signing_input = utf8_encode ''AA.AQ'', jws_signature = [2]\<rparr>"
  "decodeJws (demo_runtime n) ''Aw.BA.Ag'' = Some \<lparr>jws_header = capability_header sample_kid,
     jws_payload = capability_json demo_capability, jws_signing_input = utf8_encode ''Aw.BA'', jws_signature = [2]\<rparr>"
  "decodeJws (demo_runtime n) ''AA.Bg.Ag'' = Some \<lparr>jws_header = admin_header sample_kid,
     jws_payload = space_rotate_json sample_rotation, jws_signing_input = utf8_encode ''AA.Bg'', jws_signature = [2]\<rparr>"
  "decodeJws (demo_runtime n) ''BQ.BA.Ag'' = Some \<lparr>jws_header = capability_header sample_space_kid,
     jws_payload = capability_json demo_capability, jws_signing_input = utf8_encode ''BQ.BA'', jws_signature = [2]\<rparr>"
  "decodeJws (demo_runtime n) ''AA.Bw.Ag'' = Some \<lparr>jws_header = admin_header sample_kid,
     jws_payload = revoke_json sample_revocation, jws_signing_input = utf8_encode ''AA.Bw'', jws_signature = [2]\<rparr>"
  unfolding decodeJws_def demo_segments by (simp_all add: demo_segments demo_parse)

lemma demo_entry_verifies:
  assumes "0 \<le> n"
  shows "verifyLogEntryJws (demo_runtime n) ''AA.AQ.Ag'' = Some (demo_entry n)"
proof -
  have kid: "jget ''kid'' (admin_header k) = Some (JStr k)" "jget ''alg'' (admin_header k) = Some (JStr ''EdDSA'')"
      "jget_str ''kid'' (admin_header k) = Some k" "is_record (admin_header k)" for k
    by (simp_all add: admin_header_def jget_str_def)
  have ok: "log_entry_ok (demo_entry n)" using assms sample_entry_ok by (simp add: log_entry_ok_def demo_entry_def)
  have "didKeyToPublicKeyBytes sample_kid = Some (replicate 32 0)"
    using sample_did(4) sample_kid(2) didOrKidToDid_did [OF sample_did(2)] by (simp add: didKeyToPublicKeyBytes_def)
  moreover have "le_author_kid (demo_entry n) = sample_kid" by (simp add: demo_entry_def sample_entry_def)
  ultimately show ?thesis
    using sample_kid(3) ok by (simp add: verifyLogEntryJws_def verifyJwsWithPublicKey_def demo_decode kid nonempty_str_def
        assertLogEntryPayload_json)
qed

lemma did_segment_plain: "list_all (\<lambda>c. c \<noteq> CHR ''%'' \<and> is_id_char c) s \<Longrightarrow> did_segment_chars s"
  by (induction s) auto

lemma sample_did_strict: "strict_did sample_did"
proof -
  obtain mb where mb: "ed25519PublicKeyToMultibase (replicate 32 0) = Some mb" and did: "sample_did = ''did:key:'' @ mb"
    using sample_did(1) by (auto simp: publicKeyToDidKey_def)
  obtain t where t: "mb = CHR ''z'' # encodeBase58 t"
    using mb by (auto simp: ed25519PublicKeyToMultibase_def key_to_multibase_def split: if_splits)
  have "list_all (\<lambda>c. c \<noteq> CHR ''%'' \<and> c \<noteq> CHR '':'' \<and> is_id_char c) BASE58_ALPHABET" by code_simp
  then have chars: "list_all (\<lambda>c. c \<noteq> CHR ''%'' \<and> c \<noteq> CHR '':'' \<and> is_id_char c) (encodeBase58 t)"
    using base58_text_alphabet [of _ t] by (auto simp: list_all_iff)
  have "CHR '':'' \<notin> set (CHR ''z'' # encodeBase58 t)" using chars by (auto simp: list_all_iff)
  then have split: "split_on CHR '':'' (CHR ''z'' # encodeBase58 t) = [CHR ''z'' # encodeBase58 t]" by (rule split_on_free)
  have "did_segment_chars (CHR ''z'' # encodeBase58 t)"
    by (rule did_segment_plain) (use chars in \<open>auto simp: list_all_iff is_id_char_def is_lower_def\<close>)
  moreover have "did_rest sample_did = Some (CHR ''z'' # encodeBase58 t)"
    by (simp add: did_rest_def did t is_lower_def is_digit_def)
  ultimately show ?thesis by (simp only: strict_did_def option.case split) simp
qed

lemma demo_capability_verifies:
  "verifyPersonalDocCapabilityJws (demo_runtime n) ''Aw.BA.Ag'' key (personal_context sample_uuid sample_did 5) = Inr demo_capability"
proof -
  have perms: "assertCapabilityPermissions (Some (JArr [permission_json Read, permission_json Write])) = Some [Read, Write]"
    by (simp add: assertCapabilityPermissions_Some)
  have keys: "sort [''type'', ''spaceId'', ''audience'', ''permissions'', ''generation'', ''issuedAt'', ''validUntil''] = CAPABILITY_PAYLOAD_KEYS"
    by code_simp
  have "assertPersonalDocCapabilityPayload (capability_json demo_capability) = Some demo_capability"
    using keys sample_codes(3) sample_did_strict
    by (simp add: assertPersonalDocCapabilityPayload_def capability_payload_def capability_json_def demo_capability_def
        sample_capability_def perms uuid_str_def strict_did_str_def rfc3339_str_def sample_capability_facts
        personal_generation_def PERSONAL_DOC_GENERATION_def)
  moreover have "self_issued sample_kid demo_capability"
    by (simp add: self_issued_def sample_kid demo_capability_def) (simp add: sample_kid_def)
  ultimately show ?thesis
    using sample_kid(3) by (simp add: verifyPersonalDocCapabilityJws_def verifyJwsWithPublicKey_def demo_decode capability_header_simps
        context_Inr capability_expired_def)
     (simp add: capability_header_def demo_capability_def sample_capability_def sample_capability_facts)
qed

section \<open>The session\<close>

definition demo_device :: device_row where
  "demo_device = \<lparr>dev_did = sample_did, dev_id = sample_uuid, dev_first_seen = 0, dev_last_seen = 0,
     dev_status = Active, dev_revoked_at = None\<rparr>"

definition demo_pending :: open_challenge where
  "demo_pending = \<lparr>oc_challenge = \<lparr>pc_did = sample_did, pc_device = sample_uuid, pc_nonce = sample_nonce\<rparr>, oc_created = 0\<rparr>"

definition demo_response :: json where
  "demo_response = challenge_response_frame sample_did sample_uuid sample_nonce sample_signature"

lemma sample_did_nonempty: "sample_did \<noteq> []"
  using sample_did(3) by auto

lemma demo_register:
  "parseBrokerRegisterControlFrame (register_frame sample_did sample_uuid) = Some (sample_did, sample_uuid)"
  using sample_did_nonempty sample_codes(3)
  by (simp add: parseBrokerRegisterControlFrame_def register_frame_def is_frame_def exact_keys_def nonempty_str_def uuid_str_def)

lemma demo_challenge: "createBrokerChallengeControlFrame (replicate 32 0) = Some (challenge_frame sample_nonce)"
  using sample_parses(1)
  by (simp add: createBrokerChallengeControlFrame_def formatBrokerChallengeNonce_def BROKER_AUTH_NONCE_BYTES_def
      sample_codes parseBrokerChallengeControlFrame_def challenge_frame_def is_frame_def exact_keys_def jget_str_def)

lemma demo_pending_transcript:
  "pending_transcript (oc_challenge demo_pending) = Some \<lparr>tr_did = sample_did, tr_device = sample_uuid, tr_nonce = sample_nonce\<rparr>"
  using sample_did_nonempty sample_codes(3) sample_parses(1)
  by (simp add: pending_transcript_def demo_pending_def canonicalBrokerAuthTranscriptInput_def nonempty_str_def uuid_str_def)

lemma demo_response_verifies:
  obtains f where "verifyBrokerChallengeResponseControlFrame (demo_runtime n) demo_response (oc_challenge demo_pending)
      (replicate 32 0) = Some (Inr f)"
    "cr_transcript f = \<lparr>tr_did = sample_did, tr_device = sample_uuid, tr_nonce = sample_nonce\<rparr>"
proof -
  let ?t = "\<lparr>tr_did = sample_did, tr_device = sample_uuid, tr_nonce = sample_nonce\<rparr>"
  obtain b where b: "canonicalizeToBytes (demo_runtime n) (transcript_json ?t) = Some b" by (simp add: transcript_bytes)
  have "demo_response = challenge_response_frame (tr_did ?t) (tr_device ?t) (tr_nonce ?t) (encodeBase64Url (replicate 64 0))"
    by (simp add: demo_response_def sample_codes)
  from challenge_response_accepts [OF demo_pending_transcript _ _ b this, of "replicate 32 0"] show ?thesis
    by (simp add: that)
qed

lemma demo_response_nonce: "tryGetChallengeResponseNonce (demo_env n) demo_response = Some sample_nonce"
proof -
  let ?t = "\<lparr>tr_did = sample_did, tr_device = sample_uuid, tr_nonce = sample_nonce\<rparr>"
  obtain b where b: "createBrokerAuthTranscriptSigningBytes (demo_runtime n) ?t = Some b"
    using transcript_bytes [of "demo_runtime n" ?t] sample_did_nonempty sample_codes(3) sample_parses(1)
    by (auto simp: createBrokerAuthTranscriptSigningBytes_def canonicalBrokerAuthTranscriptInput_def nonempty_str_def uuid_str_def)
  have "buildBrokerAuthTranscript (Some (JStr sample_did)) (Some (JStr sample_uuid)) (Some (JStr sample_nonce)) = Some ?t"
    using sample_did_nonempty sample_codes(3) sample_parses(1)
    by (simp add: buildBrokerAuthTranscript_def canonicalBrokerAuthTranscriptInput_def nonempty_str_def uuid_str_def)
  then show ?thesis
    using b sample_parses(2)
    by (simp add: tryGetChallengeResponseNonce_def parseBrokerChallengeResponseControlFrame_def demo_response_def
        challenge_response_frame_def is_frame_def exact_keys_def)
qed

text \<open>The first three events: connected, challenged, and answering.\<close>

definition demo_challenged :: relay where
  "demo_challenged = sendTo 0 (ChallengeFrame (challenge_frame sample_nonce))
     ((handleConnection 0 initial_relay)\<lparr>pendingChallenges := (\<lambda>_. None)(0 := Some demo_pending)\<rparr>)"

lemma demo_challenged: "exec_all (demo_env n) [(Connected 0, demo_in), (Received 0 [10], demo_in)] initial_relay = Some demo_challenged"
proof -
  have "handleMessage (demo_env n) demo_in 0 (register_frame sample_did sample_uuid) (handleConnection 0 initial_relay) = demo_challenged"
    using demo_register sample_did(4)
    by (simp add: handleMessage_def register_frame_def jget_str_def)
      (simp add: handleRegister_def demo_register [unfolded register_frame_def] demo_challenge demo_challenged_def
        demo_pending_def challenge_frame_def jget_str_def handleConnection_def initial_relay_def)
  then show ?thesis
    by (simp add: receiveMessage_def demo_parse attached_def handleConnection_def initial_relay_def)
qed

lemma prune_empty: "consumedNonces s = (\<lambda>_. None) \<Longrightarrow> pruneConsumedChallengeNonces t s = s"
  by (simp add: pruneConsumedChallengeNonces_def)

lemma demo_challenged_simps [simp]:
  "sockets demo_challenged = (\<lambda>_. None)(0 := Some Open)" "socketToDid demo_challenged = (\<lambda>_. None)"
  "socketToDeviceId demo_challenged = (\<lambda>_. None)" "socketToScopes demo_challenged = (\<lambda>_ _. None)"
  "pendingChallenges demo_challenged = (\<lambda>_. None)(0 := Some demo_pending)" "consumedNonces demo_challenged = (\<lambda>_. None)"
  "r_db demo_challenged = empty_db" "tasks demo_challenged = []" "connections demo_challenged = (\<lambda>_. None)"
  by (simp_all add: demo_challenged_def handleConnection_def initial_relay_def)

definition demo_answering :: relay where
  "demo_answering = await (TChallenge 0 demo_response demo_pending) demo_challenged"

lemma demo_answering: "exec (demo_env n) (Received 0 [11], demo_in) demo_challenged = Some demo_answering"
proof -
  have "handleMessage (demo_env n) demo_in 0 demo_response demo_challenged =
      handleChallengeResponse (demo_env n) demo_in 0 demo_response demo_challenged"
    by (simp add: handleMessage_def demo_response_def challenge_response_frame_def jget_str_def)
  then have "handleMessage (demo_env n) demo_in 0 demo_response demo_challenged = demo_answering"
    using sample_did(4) by (simp add: handleChallengeResponse_def demo_response_nonce prune_empty isConsumedChallengeNonce_def
        demo_pending_def CHALLENGE_TIMEOUT_MS_def demo_answering_def)
  then show ?thesis
    by (simp add: receiveMessage_def demo_parse attached_def demo_response_def [symmetric])
qed

definition demo_db :: db where
  "demo_db = empty_db\<lparr>devices := [demo_device]\<rparr>"

lemma demo_db_register: "registerDevice sample_did sample_uuid 0 empty_db = Inr (DevRegistered True, demo_db)"
  by (simp add: registerDevice_def empty_db_def demo_db_def demo_device_def row_insert_def)

lemma demo_db_deliver: "deliverOnConnect did dev demo_db = ([], demo_db)"
  by (simp add: deliverOnConnect_def mint_entries_def pending_envelopes_def messages_in_order_def demo_db_def empty_db_def)

text \<open>The device is logged in.\<close>

lemma demo_registered:
  obtains s where "exec (demo_env n) (Resumed 0, demo_in) demo_answering = Some s"
    "sockets s 0 = Some Open" "socketToDid s 0 = Some sample_did" "socketToDeviceId s 0 = Some sample_uuid"
    "consumedNonces s sample_nonce = Some 86400000" "r_db s = demo_db" "tasks s = []"
proof -
  obtain f where ver: "verifyBrokerChallengeResponseControlFrame (demo_runtime n) demo_response (oc_challenge demo_pending)
      (replicate 32 0) = Some (Inr f)"
    and t: "cr_transcript f = \<lparr>tr_did = sample_did, tr_device = sample_uuid, tr_nonce = sample_nonce\<rparr>"
    by (rule demo_response_verifies)
  have frame: "createBrokerRegisteredControlFrame sample_did sample_uuid True = Some (registered_frame sample_did sample_uuid True)"
    using sample_did_nonempty sample_codes(3)
    by (simp add: createBrokerRegisteredControlFrame_def parseBrokerRegisteredControlFrame_def registered_frame_def
        is_frame_def exact_keys_def nonempty_str_def uuid_str_def)
  have key: "didKeyToPublicKeyBytes (pc_did (oc_challenge demo_pending)) = Some (replicate 32 0)"
    using sample_did(4) by (simp add: demo_pending_def)
  let ?a = "demo_answering\<lparr>tasks := []\<rparr>"
  let ?b = "rememberConsumedChallengeNonce sample_nonce 86400000 (dismiss_challenge 0 ?a)"
  let ?c = "bump WsConnect (bind_socket 0 sample_did sample_uuid (?b\<lparr>r_db := demo_db\<rparr>))"
  let ?r = "completeRegistration demo_in 0 sample_did sample_uuid ?b"
  have base [simp]: "consumedNonces demo_answering = (\<lambda>_. None)" "r_db demo_answering = empty_db"
      "socketToDid demo_answering = (\<lambda>_. None)" "sockets demo_answering = (\<lambda>_. None)(0 := Some Open)"
      "socketToDeviceId demo_answering = (\<lambda>_. None)" "tasks demo_answering = [TChallenge 0 demo_response demo_pending]"
    by (simp_all add: demo_answering_def)
  have "isConsumedChallengeNonce m ?a \<longleftrightarrow> False" for m by (simp add: isConsumedChallengeNonce_def)
  then have run: "handleChallengeResponse_done (demo_env n) demo_in 0 demo_response demo_pending ?a = ?r"
    by (simp add: handleChallengeResponse_done_def ver key t prune_empty decideBrokerChallengeNonceConsumption_def
        BROKER_AUTH_NONCE_RETENTION_MS_def)
  have s: "?r = deliver_queued 0 sample_did sample_uuid
      (sendTo 0 (RegisteredFrame (registered_frame sample_did sample_uuid True) (length (did_sockets sample_did ?c) - 1)) ?c)"
    by (simp add: completeRegistration_def demo_db_register frame Let_def)
  have part: "session_part ?r = session_part ?c" by (simp only: s deliver_queued_frame session_part_update)
  have "r_db ?r = demo_db" by (simp add: s demo_db_deliver)
  moreover have "consumedNonces ?b sample_nonce = Some 86400000" by (simp add: rememberConsumedChallengeNonce_def)
  then have "tasks ?r = []" "consumedNonces ?r sample_nonce = Some 86400000" by simp_all
  moreover have "sockets ?r 0 = Some Open" "socketToDid ?r 0 = Some sample_did" "socketToDeviceId ?r 0 = Some sample_uuid"
    using part by (simp_all add: session_part_def)
  moreover have "exec (demo_env n) (Resumed 0, demo_in) demo_answering = Some ?r"
    using run by (simp add: resumeTask_def remove_nth_def)
  ultimately show thesis using that by blast
qed

definition demo_session :: "db \<Rightarrow> relay \<Rightarrow> bool" where
  "demo_session d s \<longleftrightarrow> sockets s 0 = Some Open \<and> socketToDid s 0 = Some sample_did \<and>
     socketToDeviceId s 0 = Some sample_uuid \<and> r_db s = d \<and> tasks s = []"

lemma demo_session_part:
  "demo_session d s \<Longrightarrow> session_part s' = session_part s \<Longrightarrow> r_db s' = d' \<Longrightarrow> tasks s' = [] \<Longrightarrow> demo_session d' s'"
  by (simp add: demo_session_def session_part_def)

definition demo_owned_db :: db where
  "demo_owned_db = demo_db\<lparr>owners := [\<lparr>own_doc = sample_uuid, own_did = sample_did, own_claimed = 0\<rparr>]\<rparr>"

definition demo_scope :: scope where
  "demo_scope = \<lparr>sc_permissions = [Read, Write], sc_generation = 0, sc_path = PersonalPath, sc_until = Some 10000\<rparr>"

text \<open>Its capability for its personal document is accepted: the document is its own, and the scope is cached.\<close>

lemma demo_presented:
  assumes "demo_session demo_db s"
  obtains s' where "exec_all (demo_env n) [(Received 0 [12], demo_in), (Resumed 0, demo_in)] s = Some s'"
    "demo_session demo_owned_db s'" "socketToScopes s' 0 sample_uuid = Some demo_scope"
proof -
  let ?jws = "''Aw.BA.Ag''" and ?ctx = "personal_context sample_uuid sample_did 5" and ?key = "replicate 32 0 :: bytes"
  let ?raw = "JObj [(''type'', JStr ''present-capability''), (''capabilityJws'', JStr ?jws)]"
  let ?m = "await (TPresentPersonal 0 sample_uuid sample_did ?jws ?key ?ctx) s"
  let ?r = "presentPersonalCapability_done (demo_env n) demo_in 0 sample_uuid sample_did ?jws ?key ?ctx (?m\<lparr>tasks := []\<rparr>)"
  have doc: "tryDecodeCapabilityDocId (demo_env n) ?jws = Some sample_uuid"
    by (simp add: tryDecodeCapabilityDocId_def demo_decode capability_json_def jget_str_def demo_capability_def sample_capability_def)
  have "handleMessage (demo_env n) demo_in 0 ?raw s = ?m"
    using assms sample_did(4)
    by (simp add: handleMessage_def jget_str_def handlePresentCapability_def parsePresentCapabilityFrame_def nonempty_str_def
        demo_session_def doc isSpaceRegistered_def demo_db_def empty_db_def presentPersonalCapability_def)
  then have one: "exec (demo_env n) (Received 0 [12], demo_in) s = Some ?m"
    using assms by (simp add: receiveMessage_def demo_parse attached_def demo_session_def)
  have two: "exec (demo_env n) (Resumed 0, demo_in) ?m = Some ?r"
    using assms by (simp add: resumeTask_def remove_nth_def demo_session_def)
  have claim: "claimPersonalDocOwner sample_uuid sample_did 0 demo_db = Inr (OwnerClaimed, demo_owned_db)"
    by (simp add: claimPersonalDocOwner_def demo_db_def empty_db_def row_insert_def demo_owned_db_def)
  have r: "?r = delivered 0 (JStr sample_uuid) (cacheScope 0 sample_uuid demo_scope (?m\<lparr>tasks := [], r_db := demo_owned_db\<rparr>))"
    using assms claim by (simp add: presentPersonalCapability_done_def demo_capability_verifies demo_session_def)
      (simp add: capability_scope_def demo_scope_def demo_capability_def sample_capability_def sample_capability_facts)
  have "demo_session demo_owned_db ?r"
    using demo_session_part [OF assms, of ?r] by (simp add: r)
  moreover have "socketToScopes ?r 0 sample_uuid = Some demo_scope" by (simp add: r) (simp add: cacheScope_def)
  ultimately show thesis using that one two by simp
qed

lemma demo_envelope_parses: "tryParseLogEntryJws (demo_env n) demo_envelope = Some ''AA.AQ.Ag''"
proof -
  have "jws_compact_segments ''AA.AQ.Ag''" "loose_did ''did:key:a''" by (code_simp, code_simp)
  moreover have "nonneg_integer (Some (JInt 0)) = Some 0" by (simp add: nonneg_integer_Some)
  ultimately have "assertLogEntryMessage (demo_runtime n) demo_envelope"
    using sample_codes(3)
    by (simp add: assertLogEntryMessage_def assertPlaintextMessage_def demo_envelope_def plaintext_json_def is_uuid_def
        uuid_str_def assertUri_def loose_did_str_def assertDidArray_def is_nonneg_integer_def optional_uuid_def
        is_record_at_def body_ok_def assertLogEntryMessageBody_def no_extra_keys_def assertJwsCompactString_def)
  then show ?thesis
    by (simp add: tryParseLogEntryJws_def demo_envelope_def plaintext_json_def jget_str_def)
qed

lemma demo_sent:
  assumes "demo_session d s"
  shows "exec (demo_env n) (Received 0 [13], demo_in) s = Some (await (TLogVerify 0 demo_envelope ''AA.AQ.Ag'') s)"
proof -
  have "ACK_MESSAGE_TYPE \<noteq> LOG_ENTRY_MESSAGE_TYPE" by code_simp
  then have "\<not> didcomm_of_type ACK_MESSAGE_TYPE demo_envelope" "didcomm_of_type LOG_ENTRY_MESSAGE_TYPE demo_envelope"
    by (simp_all add: didcomm_of_type_def demo_envelope_def plaintext_json_def)
  moreover have env: "nullish_or d (Some demo_envelope) = demo_envelope" for d
    by (simp add: nullish_or_def demo_envelope_def plaintext_json_def)
  ultimately have "handleMessage (demo_env n) demo_in 0 (JObj [(''type'', JStr ''send''), (''envelope'', demo_envelope)]) s =
      await (TLogVerify 0 demo_envelope ''AA.AQ.Ag'') s"
    using assms sample_did_nonempty
    by (simp add: handleMessage_def jget_str_def handleSend_def session_did_def demo_session_def demo_envelope_parses
        env)
  then show ?thesis
    using assms by (simp add: receiveMessage_def demo_parse attached_def demo_session_def)
qed

definition demo_row :: "int \<Rightarrow> log_row" where
  "demo_row n = log_row_of (entry_append ''00'' (demo_entry n) ''AA.AQ.Ag'') 0"

lemma demo_hash: "hashPayload (demo_env n) (demo_entry n) = Some ''00''"
proof -
  obtain t where "canonicalize (\<lambda>_. ''0'') (log_entry_json (demo_entry n)) = Some t"
    by (simp add: log_entry_json_def num_of_int_def)
  moreover have "bytesToHex [0] = ''00''" by code_simp
  ultimately show ?thesis by (simp add: hashPayload_def canonicalizeToBytes_def)
qed

text \<open>The entry passes the gates and waits for its hash, and is then stored if its number is a safe integer.\<close>

lemma demo_gates:
  assumes "0 \<le> n" "demo_session demo_owned_db s" "socketToScopes s 0 sample_uuid = Some demo_scope"
  shows "exec (demo_env n) (Resumed 0, demo_in) (await (TLogVerify 0 demo_envelope ''AA.AQ.Ag'') s) =
    Some (await (TLogHash 0 demo_envelope ''AA.AQ.Ag'' (demo_entry n)) s)"
proof -
  have entry: "le_doc (demo_entry n) = sample_uuid" "le_device (demo_entry n) = sample_uuid" "le_author_kid (demo_entry n) = sample_kid"
    by (simp_all add: demo_entry_def sample_entry_def)
  have act: "isActive sample_did sample_uuid demo_owned_db" "didForDevice sample_uuid demo_owned_db = Some sample_did"
      "isSpaceRegistered sample_uuid demo_owned_db \<longleftrightarrow> False" "getPersonalDocOwner sample_uuid demo_owned_db = Some sample_did"
      "getSpace sample_uuid demo_owned_db = None"
    by (simp_all add: isActive_def didForDevice_def isSpaceRegistered_def getPersonalDocOwner_def getSpace_def demo_owned_db_def
        demo_db_def demo_device_def empty_db_def)
  let ?s = "s\<lparr>tasks := []\<rparr>"
  have facts: "active_session 0 ?s = Some sample_did" "\<not> owned_by_other sample_uuid sample_did ?s"
      "checkScope demo_in 0 sample_uuid Write ?s = (ScopeGranted, ?s)" "\<not> below_generation (demo_entry n) (r_db ?s)"
    using assms(2,3) act entry by (simp_all add: active_session_def owned_by_other_def checkScope_def getScope_def demo_scope_def
        scope_expired_def below_generation_def demo_session_def)
  have "handleLogEntry (demo_env n) demo_in 0 demo_envelope ''AA.AQ.Ag'' ?s = await (TLogHash 0 demo_envelope ''AA.AQ.Ag'' (demo_entry n)) ?s"
    using facts act sample_kid(2) assms(2)
    by (simp add: handleLogEntry_def demo_entry_verifies [OF assms(1)] handleLogEntry_verified_def entry demo_session_def)
  moreover have eq: "s\<lparr>tasks := []\<rparr> = s" using assms(2) by (simp add: demo_session_def)
  ultimately show ?thesis using assms(2) by (simp add: resumeTask_def remove_nth_def await_def demo_session_def eq)
qed

lemma demo_stored:
  assumes n: "safe_seq n" and s: "demo_session demo_owned_db s"
  obtains s' where "exec (demo_env n) (Resumed 0, demo_in) (await (TLogHash 0 demo_envelope ''AA.AQ.Ag'' (demo_entry n)) s) = Some s'"
    "demo_session (demo_owned_db\<lparr>doc_log := [demo_row n]\<rparr>) s'"
proof -
  let ?s = "s\<lparr>tasks := []\<rparr>"
  let ?r = "handleLogEntry_hashed (demo_env n) demo_in 0 demo_envelope ''AA.AQ.Ag'' (demo_entry n) ?s"
  have "appendEntry (entry_append ''00'' (demo_entry n) ''AA.AQ.Ag'') 0 demo_owned_db =
      Inr (AcceptedEntry, demo_owned_db\<lparr>doc_log := [demo_row n]\<rparr>)"
    using n by (subst appendEntry_new)
      (simp_all add: entry_append_def demo_entry_def getContentHash_def generation_stale_def getSpace_def demo_owned_db_def
        demo_db_def empty_db_def demo_row_def)
  then have db: "r_db ?r = demo_owned_db\<lparr>doc_log := [demo_row n]\<rparr>"
    using s by (simp add: handleLogEntry_hashed_def demo_hash demo_session_def Let_def)
  have "exec (demo_env n) (Resumed 0, demo_in) (await (TLogHash 0 demo_envelope ''AA.AQ.Ag'' (demo_entry n)) s) = Some ?r"
    using s by (simp add: resumeTask_def remove_nth_def await_def demo_session_def)
  moreover have "demo_session (demo_owned_db\<lparr>doc_log := [demo_row n]\<rparr>) ?r"
    using demo_session_part [OF s, of ?r] db by simp
  ultimately show thesis by (rule that)
qed

text \<open>The whole run.\<close>

definition demo_events :: "(event \<times> inputs) list" where
  "demo_events = map (\<lambda>e. (e, demo_in)) [Connected 0, Received 0 [10], Received 0 [11], Resumed 0,
     Received 0 [12], Resumed 0, Received 0 [13], Resumed 0, Resumed 0]"

lemma exec_all_append: "exec_all en (xs @ ys) s = Option.bind (exec_all en xs s) (exec_all en ys)"
  by (induction xs arbitrary: s) (simp_all add: bind_eq_Some_conv split: bind_splits)

lemma demo_last_step:
  assumes "safe_seq n"
  obtains s s' where "exec_all (demo_env n) (take 8 demo_events) initial_relay = Some s"
    "exec (demo_env n) (Resumed 0, demo_in) s = Some s'" "r_db s = demo_owned_db" "r_db s' = demo_owned_db\<lparr>doc_log := [demo_row n]\<rparr>"
    "tasks s = [TLogHash 0 demo_envelope ''AA.AQ.Ag'' (demo_entry n)]"
    "demo_session (demo_owned_db\<lparr>doc_log := [demo_row n]\<rparr>) s'"
proof -
  have n: "0 \<le> n" using assms by (simp add: safe_seq_def)
  obtain s1 where s1: "exec (demo_env n) (Resumed 0, demo_in) demo_answering = Some s1" "demo_session demo_db s1"
    by (rule demo_registered [of n]) (simp add: demo_session_def)
  obtain s2 where s2: "exec_all (demo_env n) [(Received 0 [12], demo_in), (Resumed 0, demo_in)] s1 = Some s2"
      "demo_session demo_owned_db s2" "socketToScopes s2 0 sample_uuid = Some demo_scope"
    by (rule demo_presented [OF s1(2)])
  let ?s = "await (TLogHash 0 demo_envelope ''AA.AQ.Ag'' (demo_entry n)) s2"
  obtain s3 where s3: "exec (demo_env n) (Resumed 0, demo_in) ?s = Some s3" "demo_session (demo_owned_db\<lparr>doc_log := [demo_row n]\<rparr>) s3"
    by (rule demo_stored [OF assms s2(2)])
  have parts: "take 8 demo_events = [(Connected 0, demo_in), (Received 0 [10], demo_in)] @ [(Received 0 [11], demo_in), (Resumed 0, demo_in)]
      @ [(Received 0 [12], demo_in), (Resumed 0, demo_in)] @ [(Received 0 [13], demo_in), (Resumed 0, demo_in)]"
    by (simp add: demo_events_def)
  have auth: "exec_all (demo_env n) [(Received 0 [11], demo_in), (Resumed 0, demo_in)] demo_challenged = Some s1"
    using demo_answering [of n] s1(1) by simp
  have ingest: "exec_all (demo_env n) [(Received 0 [13], demo_in), (Resumed 0, demo_in)] s2 = Some ?s"
    using demo_sent [OF s2(2), of n] demo_gates [OF n s2(2,3)] by simp
  have "exec_all (demo_env n) (take 8 demo_events) initial_relay = Some ?s"
    unfolding parts exec_all_append demo_challenged Option.bind.simps auth s2(1) ingest ..
  then show thesis
    using s3 s2(2) by (intro that [of ?s s3]) (simp_all add: demo_session_def)
qed

lemma demo_run:
  assumes "safe_seq n"
  obtains s where "exec_all (demo_env n) demo_events initial_relay = Some s"
    "demo_session (demo_owned_db\<lparr>doc_log := [demo_row n]\<rparr>) s"
proof -
  obtain s s' where s: "exec_all (demo_env n) (take 8 demo_events) initial_relay = Some s"
      "exec (demo_env n) (Resumed 0, demo_in) s = Some s'" "demo_session (demo_owned_db\<lparr>doc_log := [demo_row n]\<rparr>) s'"
    by (rule demo_last_step [OF assms])
  have "demo_events = take 8 demo_events @ [(Resumed 0, demo_in)]" by (simp add: demo_events_def)
  then have "exec_all (demo_env n) demo_events initial_relay = exec_all (demo_env n) (take 8 demo_events @ [(Resumed 0, demo_in)]) initial_relay"
    by simp
  then have "exec_all (demo_env n) demo_events initial_relay = Some s'"
    unfolding exec_all_append s(1) Option.bind.simps using s(2) by simp
  then show thesis using s(3) by (rule that)
qed

section \<open>Further frames of the example\<close>

lemma demo_space_capability_verifies:
  "verifySpaceCapabilityJws (demo_runtime n) ''BQ.BA.Ag'' key (space_context sample_uuid sample_did 0 5) = Inr demo_capability"
proof -
  have perms: "assertCapabilityPermissions (Some (JArr [permission_json Read, permission_json Write])) = Some [Read, Write]"
    by (simp add: assertCapabilityPermissions_Some)
  have keys: "sort [''type'', ''spaceId'', ''audience'', ''permissions'', ''generation'', ''issuedAt'', ''validUntil''] = CAPABILITY_PAYLOAD_KEYS"
    by code_simp
  have "assertSpaceCapabilityPayload (capability_json demo_capability) = Some demo_capability"
    using keys sample_codes(3) sample_did_strict
    by (simp add: assertSpaceCapabilityPayload_def capability_payload_def capability_json_def demo_capability_def
        sample_capability_def perms uuid_str_def strict_did_str_def rfc3339_str_def sample_capability_facts sample_capability_payload(1))
  moreover have "capabilityKid (demo_runtime n) demo_capability = sample_space_kid"
    by (simp add: capabilityKid_def sample_space_kid_def demo_capability_def sample_capability_def)
  moreover have "sample_space_kid \<noteq> []" by (simp add: sample_space_kid_def)
  ultimately show ?thesis
    by (simp add: verifySpaceCapabilityJws_def verifyJwsWithPublicKey_def demo_decode capability_header_simps
        context_Inr capability_expired_def)
     (simp add: capability_header_def demo_capability_def sample_capability_def sample_capability_facts)
qed

lemma demo_rotation_verifies:
  obtains f where "verifySpaceRotateMessage (demo_runtime n) demo_rotation sample_did (replicate 32 0) = Some (Inr f)"
    "sf_payload f = sample_rotation"
proof -
  have p: "parseSpaceRotatePayload (space_rotate_json sample_rotation) = Some sample_rotation"
    using sample_codes(3)
    by (simp add: parseSpaceRotatePayload_def space_rotate_json_def sample_rotation_def is_frame_def exact_keys_def
        uuid_str_def nonempty_str_def safe_nat_def safe_seq_def safe_integer_def max_safe_integer_def)
  have c: "isCompactJws ''AA.Bg.Ag''" by code_simp
  obtain f where f: "parseSpaceRotateMessage (demo_runtime n) demo_rotation = Some f" "sf_payload f = sample_rotation"
      "sf_header f = admin_header sample_kid"
    using c p by (auto simp: parseSpaceRotateMessage_def parse_signed_frame_def frame_jws_def demo_rotation_def is_frame_def
        exact_keys_def jget_str_def decodeInnerJws_def demo_decode signed_frame_of_def header_object_def admin_header_def)
  then show thesis
    using that [OF _ f(2)] sample_did_nonempty sample_kid
    by (simp add: verifySpaceRotateMessage_def verifyAdminSignedFrame_Inr admin_header_kid)
qed

lemma demo_revocation_verifies:
  obtains f where "verifyBrokerDeviceRevokeControlFrame (demo_runtime n) demo_revocation (replicate 32 0) = Some (Inr f)"
    "parseBrokerDeviceRevokeControlFrame (demo_runtime n) demo_revocation = Some f" "sf_payload f = sample_revocation"
proof -
  have "valid_rfc3339 ''2026-01-02T03:04:05Z''" by code_simp
  then have p: "validateDeviceRevokePayload (revoke_json sample_revocation) = Some sample_revocation"
    using sample_codes(3) sample_did_nonempty
    by (simp add: validateDeviceRevokePayload_def revoke_json_def sample_revocation_def is_frame_def exact_keys_def
        uuid_str_def nonempty_str_def jget_str_def)
  have c: "isCompactJws ''AA.Bw.Ag''" by code_simp
  obtain f where f: "parseBrokerDeviceRevokeControlFrame (demo_runtime n) demo_revocation = Some f"
      "sf_payload f = sample_revocation" "sf_header f = admin_header sample_kid"
    using c p by (auto simp: parseBrokerDeviceRevokeControlFrame_def frame_jws_def demo_revocation_def is_frame_def
        exact_keys_def jget_str_def demo_decode signed_frame_of_def)
  then have "verifyBrokerDeviceRevokeControlFrame (demo_runtime n) demo_revocation (replicate 32 0) = Some (Inr f)"
    using sample_kid
    by (simp add: verifyBrokerDeviceRevokeControlFrame_def isDeviceRevokeAuthHeader_def admin_header_kid
        sample_revocation_def finishVerification_def)
      (simp add: admin_header_def)
  then show thesis using f by (intro that [of f])
qed

text \<open>A logged-in device revokes itself.\<close>

lemma demo_revoked:
  assumes "demo_session demo_db s"
  obtains s' where "exec_all (demo_env n) [(Received 0 [14], demo_in), (Resumed 0, demo_in)] s = Some s'"
    "session_part s' = session_part s" "deviceRevoked sample_uuid (r_db s')" "tasks s' = []"
proof -
  let ?m = "await (TRevoke 0 demo_revocation (replicate 32 0)) s"
  let ?r = "handleDeviceRevoke_done (demo_env n) demo_in 0 demo_revocation (replicate 32 0) (?m\<lparr>tasks := []\<rparr>)"
  obtain f where f: "verifyBrokerDeviceRevokeControlFrame (demo_runtime n) demo_revocation (replicate 32 0) = Some (Inr f)"
      "parseBrokerDeviceRevokeControlFrame (demo_runtime n) demo_revocation = Some f" "sf_payload f = sample_revocation"
    by (rule demo_revocation_verifies)
  have p: "rv_did (sf_payload f) = sample_did" "rv_device (sf_payload f) = sample_uuid"
    by (simp_all add: f(3) sample_revocation_def)
  have "handleMessage (demo_env n) demo_in 0 demo_revocation s = handleDeviceRevoke (demo_env n) 0 demo_revocation s"
    by (simp add: handleMessage_def demo_revocation_def jget_str_def)
  then have "handleMessage (demo_env n) demo_in 0 demo_revocation s = ?m"
    using f(2) p sample_did(4) by (simp add: handleDeviceRevoke_def)
  then have one: "exec (demo_env n) (Received 0 [14], demo_in) s = Some ?m"
    using assms by (simp add: receiveMessage_def demo_parse attached_def demo_session_def)
  have two: "exec (demo_env n) (Resumed 0, demo_in) ?m = Some ?r"
    using assms by (simp add: resumeTask_def remove_nth_def demo_session_def)
  let ?row = "demo_device\<lparr>dev_status := Revoked, dev_revoked_at := Some (rv_at sample_revocation), dev_last_seen := 0\<rparr>"
  have rev: "revokeDevice sample_did sample_uuid (rv_at (sf_payload f)) 0 demo_db = Inr (RevRevoked, demo_db\<lparr>devices := [?row]\<rparr>)"
    by (simp add: revokeDevice_def demo_db_def demo_device_def empty_db_def row_get_def row_update_def f(3))
  have del: "deleteForDevice sample_uuid 5 DEFAULT_INACTIVE_MS (demo_db\<lparr>devices := [?row]\<rparr>) = demo_db\<lparr>devices := [?row]\<rparr>"
    by (simp add: deleteForDevice_def demo_db_def empty_db_def row_delete_def)
  have r: "?r = delivered 0 (JStr sample_uuid) (?m\<lparr>tasks := [], r_db := demo_db\<lparr>devices := [?row]\<rparr>\<rparr>)"
    using f p rev del assms by (simp add: handleDeviceRevoke_done_def demo_session_def)
  have "deviceRevoked sample_uuid (r_db ?r)"
    by (simp add: r) (simp add: deviceRevoked_def row_get_def demo_device_def getDevice_def)
  moreover have "session_part ?r = session_part s" "tasks ?r = []" by (simp_all add: r)
  ultimately show thesis using that one two by simp
qed

lemma demo_request_parses:
  "assertSyncRequestMessage (demo_runtime n) demo_request = Some \<lparr>sq_doc = sample_uuid, sq_heads = [], sq_limit = None\<rparr>"
proof -
  have "loose_did ''did:key:a''" by code_simp
  moreover have "nonneg_integer (Some (JInt 0)) = Some 0" by (simp add: nonneg_integer_Some)
  ultimately have "assertPlaintextMessage (demo_runtime n) demo_request"
    using sample_codes(3)
    by (simp add: assertPlaintextMessage_def demo_request_def plaintext_json_def is_uuid_def
        uuid_str_def assertUri_def loose_did_str_def is_nonneg_integer_def optional_uuid_def is_record_at_def)
  then show ?thesis
    using sample_codes(3)
    by (simp add: assertSyncRequestMessage_def assertSyncRequestBody_def no_extra_keys_def uuid_str_def assertSyncMessageHeads_def)
      (simp add: demo_request_def plaintext_json_def assertSyncRequestBody_def no_extra_keys_def uuid_str_def assertSyncMessageHeads_def)
qed

lemma demo_reply:
  assumes "sync_response_ok page"
  obtains m where "sync_reply (demo_env n) demo_in demo_request page = Some m"
proof -
  let ?v = "plaintext_json \<lparr>mo_id = sample_uuid, mo_type = SYNC_RESPONSE_MESSAGE_TYPE, mo_from = RELAY_SYNC_FROM_DID, mo_to = None,
      mo_created = 0, mo_thid = Some sample_uuid, mo_pthid = None, mo_body = sync_response_body_json page\<rparr>"
  have id: "jget_str ''id'' demo_request = Some sample_uuid" by (simp add: demo_request_def plaintext_json_def jget_str_def)
  have "loose_did RELAY_SYNC_FROM_DID" by code_simp
  moreover have "nonneg_integer (Some (JInt 0)) = Some 0" by (simp add: nonneg_integer_Some)
  ultimately have "assertPlaintextMessage (demo_runtime n) ?v"
    using sample_codes(3)
    by (simp add: assertPlaintextMessage_def plaintext_json_def is_uuid_def uuid_str_def assertUri_def loose_did_str_def
        is_nonneg_integer_def optional_uuid_def is_record_at_def sync_response_body_json_def)
  moreover from this have "assertSyncResponseMessage (demo_runtime n) ?v = Some page"
    using assms assertSyncResponseBody_json [of page]
    by (simp add: assertSyncResponseMessage_def) (simp add: plaintext_json_def id)
  ultimately have "sync_reply (demo_env n) demo_in demo_request page = Some ?v"
    by (simp add: sync_reply_def createSyncResponseMessage_def createPlaintextMessage_def id)
  then show thesis by (rule that)
qed

end
