(* ===== verification/RelaySafety.thy ===== *)
theory RelaySafety
  imports RelayExample
begin

text \<open>
  Properties of the relay server as a transition system: what it does to the database, what it stores in
  the log and for whom, who is logged in, who may read, and what it answers.
\<close>

section \<open>The invariant\<close>

text \<open>A stored row is a verified log entry, stored under its own coordinates and hash, by the owner of its device.\<close>

definition row_authentic :: "env \<Rightarrow> db \<Rightarrow> log_row \<Rightarrow> bool" where
  "row_authentic en d r \<longleftrightarrow>
     (case verifyLogEntryJws (env_rt en) (log_jws r) of
        None \<Rightarrow> False
      | Some e \<Rightarrow> log_doc r = le_doc e \<and> log_device r = le_device e \<and> log_seq r = le_seq e \<and>
          hashPayload en e = Some (log_hash r) \<and>
          didForDevice (log_device r) d = Some (didOrKidToDid (le_author_kid e)))"

text \<open>What a pending continuation relies on.\<close>

fun task_ok :: "env \<Rightarrow> db \<Rightarrow> task \<Rightarrow> bool" where
  "task_ok en d (TChallenge ws raw pending) \<longleftrightarrow> didKeyToPublicKeyBytes (pc_did (oc_challenge pending)) \<noteq> None"
| "task_ok en d (TAdminAdd ws raw sp signer) \<longleftrightarrow>
     (case parseAdminAddMessage (env_rt en) raw of
        Some f \<Rightarrow> isSpaceRegistered (ac_space (sf_payload f)) d
      | None \<Rightarrow> True)"
| "task_ok en d (TLogHash ws envelope jws e) \<longleftrightarrow>
     verifyLogEntryJws (env_rt en) jws = Some e \<and>
     didForDevice (le_device e) d = Some (didOrKidToDid (le_author_kid e))"
| "task_ok en d _ \<longleftrightarrow> True"

definition relay_ok :: "env \<Rightarrow> relay \<Rightarrow> bool" where
  "relay_ok en s \<longleftrightarrow> db_ok (r_db s) \<and> list_all (task_ok en (r_db s)) (tasks s) \<and>
     list_all (row_authentic en (r_db s)) (doc_log (r_db s))"

lemma task_ok_reaches: "reaches A d d' \<Longrightarrow> db_ok d \<Longrightarrow> task_ok en d t \<Longrightarrow> task_ok en d' t"
  by (cases "(en, d, t)" rule: task_ok.cases)
    (auto simp: device_kept_def split: option.splits dest: reaches_keeps(1,3))

lemma row_authentic_reaches: "reaches A d d' \<Longrightarrow> row_authentic en d r \<Longrightarrow> row_authentic en d' r"
  by (auto simp: row_authentic_def device_kept_def split: option.splits dest: reaches_keeps(1))

section \<open>The tasks a message creates\<close>

lemma parse_signed_payload:
  assumes "parse_signed_frame rt type field payload v = Some f"
  obtains d where "decodeJws rt (sf_jws f) = Some d" "payload (jws_payload d) = Some (sf_payload f)"
  using assms by (auto simp: parse_signed_frame_def signed_frame_of_def decodeInnerJws_def bind_eq_Some_conv split: if_splits)

lemma handleAdminAdd_tasks:
  assumes "list_all (task_ok en (r_db s)) (tasks s)"
  shows "list_all (task_ok en (r_db s)) (tasks (handleAdminAdd en ws raw s))"
proof (cases "parseAdminAddMessage (env_rt en) raw")
  case (Some f)
  obtain d where d: "decodeJws (env_rt en) (sf_jws f) = Some d" "parseAdminAddPayload (jws_payload d) = Some (sf_payload f)"
    using Some by (auto simp: parseAdminAddMessage_def elim: parse_signed_payload)
  have "jget_str ''spaceId'' (jws_payload d) = Some (ac_space (sf_payload f))"
    using d(2) by (cases "sf_payload f")
      (auto simp: parseAdminAddPayload_def bind_eq_Some_conv uuid_str_Some jget_str_def split: if_splits)
  then show ?thesis
    using assms by (simp add: handleAdminAdd_def Some with_admin_signer_def resolveAdminSigner_def d(1)
        split: option.split sum.split prod.split)
qed (simp add: handleAdminAdd_def assms)

text \<open>Everything else a message leaves behind needs no invariant.\<close>

definition tasks_grow :: "env \<Rightarrow> relay \<Rightarrow> relay \<Rightarrow> bool" where
  "tasks_grow en s s' \<longleftrightarrow> (\<exists>ts. tasks s' = tasks s @ ts \<and> (\<forall>d. list_all (task_ok en d) ts))"

lemma tasks_grow_same: "tasks s' = tasks s \<Longrightarrow> tasks_grow en s s'"
  unfolding tasks_grow_def by (rule exI [of _ "[]"]) simp

lemma tasks_grow_await: "tasks s' = tasks s @ [t] \<Longrightarrow> \<forall>d. task_ok en d t \<Longrightarrow> tasks_grow en s s'"
  unfolding tasks_grow_def by (rule exI [of _ "[t]"]) simp

lemma with_admin_signer_grow:
  "(\<And>signer d. task_ok en d (t signer)) \<Longrightarrow> tasks_grow en s (with_admin_signer en ws jws t s)"
  by (auto simp: with_admin_signer_def split: sum.split prod.split intro: tasks_grow_same tasks_grow_await)

lemmas grow_intros = tasks_grow_same tasks_grow_await with_admin_signer_grow

lemma handlers_grow:
  "tasks_grow en s (handleChallengeResponse en i ws raw s)" "tasks_grow en s (handleDeviceRevoke en ws raw s)"
  "tasks_grow en s (handleSpaceRegister en ws raw s)" "tasks_grow en s (handleSpaceRotate en ws raw s)"
  "tasks_grow en s (handleAdminRemove en ws raw s)" "tasks_grow en s (handlePresentCapability en i ws raw s)"
  "tasks_grow en s (handleSend en i ws envelope s)"
proof -
  show "tasks_grow en s (handleSend en i ws envelope s)"
    by (rule handleSend_rule) (auto intro: grow_intros)
qed (auto simp: handleChallengeResponse_def handleDeviceRevoke_def handleSpaceRegister_def handleSpaceRotate_def
      handleAdminRemove_def handlePresentCapability_def presentSpaceCapability_def presentPersonalCapability_def
      Let_def split: option.split prod.split intro: grow_intros)

lemma receiveMessage_tasks:
  assumes "list_all (task_ok en (r_db s)) (tasks s)"
  shows "list_all (task_ok en (r_db s)) (tasks (receiveMessage en i ws data s))"
proof -
  have grow: "tasks_grow en s s' \<Longrightarrow> list_all (task_ok en (r_db s)) (tasks s')" for s'
    using assms by (auto simp: tasks_grow_def)
  show ?thesis
    by (rule receiveMessage_rule, simp add: assms, rule handleMessage_rule)
      (simp_all add: assms handleAdminAdd_tasks grow [OF handlers_grow(1)] grow [OF handlers_grow(2)]
        grow [OF handlers_grow(3)] grow [OF handlers_grow(4)] grow [OF handlers_grow(5)] grow [OF handlers_grow(6)]
        grow [OF handlers_grow(7)])
qed

section \<open>Continuations\<close>

lemma runTask_reaches:
  "task_ok en (r_db s) t \<Longrightarrow> reaches (\<exists>ws envelope jws e. t = TLogHash ws envelope jws e) (r_db s) (r_db (runTask en i t s))"
  by (cases t) (auto simp: handleChallengeResponse_done_reaches handleDeviceRevoke_done_reaches
      handleSpaceRegister_done_reaches handleSpaceRotate_done_reaches handleAdminRemove_done_reaches
      presentPersonalCapability_done_reaches handleLogEntry_hashed_reaches intro!: handleAdminAdd_done_reaches)

lemma handleLogEntry_tasks:
  assumes "list_all (task_ok en (r_db s)) (tasks s)"
  shows "list_all (task_ok en (r_db s)) (tasks (handleLogEntry en i ws envelope jws s))"
proof (cases "verifyLogEntryJws (env_rt en) jws")
  case (Some e)
  then show ?thesis
    using assms by (cases rule: checkScope_cases [of i ws "le_doc e" Write s])
      (auto simp: handleLogEntry_def handleLogEntry_verified_def Let_def split: option.split)
qed (simp add: handleLogEntry_def assms)

lemma runTask_tasks:
  assumes "list_all (task_ok en (r_db s)) (tasks s)" "task_ok en (r_db s) t" "db_ok (r_db s)"
  shows "list_all (task_ok en (r_db (runTask en i t s))) (tasks (runTask en i t s))"
proof -
  have "list_all (task_ok en (r_db s)) (tasks (runTask en i t s))"
    using assms(1) by (cases t) (simp_all add: handleLogEntry_tasks)
  then show ?thesis
    using task_ok_reaches [OF runTask_reaches [OF assms(2), of i] assms(3)] by (simp add: list_all_iff)
qed

lemma appendEntry_rows:
  "appendEntry p now d = Inr (res, d') \<Longrightarrow> r \<in> set (doc_log d') \<Longrightarrow> r \<in> set (doc_log d) \<or> r = log_row_of p now"
  using appendEntry_doc_log [of p now d] by (auto simp: row_insert_ignore_def split: if_splits)

lemma handleLogEntry_hashed_rows:
  assumes "verifyLogEntryJws (env_rt en) jws = Some e" "didForDevice (le_device e) (r_db s) = Some (didOrKidToDid (le_author_kid e))"
    and row: "r \<in> set (doc_log (r_db (handleLogEntry_hashed en i ws envelope jws e s)))"
  shows "r \<in> set (doc_log (r_db s)) \<or> row_authentic en (r_db s) r"
proof (cases "hashPayload en e")
  case (Some hash)
  have new: "row_authentic en (r_db s) (log_row_of (entry_append hash e jws) now)" for now
    using assms(1,2) Some by (simp add: row_authentic_def log_row_of_def entry_append_def)
  show ?thesis
    using row new by (cases "appendEntry (entry_append hash e jws) (in_date i) (r_db s)")
      (auto simp: handleLogEntry_hashed_def Let_def Some split: append_result.splits dest: appendEntry_rows)
qed (use row in \<open>simp add: handleLogEntry_hashed_def Let_def\<close>)

lemma runTask_rows:
  assumes ok: "task_ok en (r_db s) t" and rows: "list_all (row_authentic en (r_db s)) (doc_log (r_db s))"
  shows "list_all (row_authentic en (r_db (runTask en i t s))) (doc_log (r_db (runTask en i t s)))"
proof -
  have "r \<in> set (doc_log (r_db (runTask en i t s))) \<Longrightarrow> row_authentic en (r_db s) r" for r
  proof (cases "\<exists>ws envelope jws e. t = TLogHash ws envelope jws e")
    case True
    assume "r \<in> set (doc_log (r_db (runTask en i t s)))"
    then show ?thesis
      using True ok rows by (auto simp: list_all_iff dest!: handleLogEntry_hashed_rows)
  next
    case False
    assume "r \<in> set (doc_log (r_db (runTask en i t s)))"
    then show ?thesis
      using reaches_no_append [of "r_db s" "r_db (runTask en i t s)"] runTask_reaches [OF ok, of i] False rows
      by (simp add: list_all_iff)
  qed
  then show ?thesis
    using row_authentic_reaches [OF runTask_reaches [OF ok, of i]] by (simp add: list_all_iff)
qed

section \<open>Steps\<close>

lemma set_remove_nth: "set (remove_nth n xs) \<subseteq> set xs"
  unfolding remove_nth_def using set_take_subset [of n xs] set_drop_subset [of "Suc n" xs] by auto

lemma handleClose_frame [simp]: "r_db (handleClose ws s) = r_db s" "tasks (handleClose ws s) = tasks s"
  by (simp_all add: handleClose_def Let_def split: option.split)

text \<open>A step whose database effect is known keeps the invariant of rows and of old tasks.\<close>

lemma relay_ok_frame:
  assumes "relay_ok en s" "reaches False (r_db s) (r_db s')" "list_all (task_ok en (r_db s)) (tasks s')"
  shows "relay_ok en s'"
  using assms reaches_no_append [OF assms(2)]
  by (auto simp: relay_ok_def list_all_iff intro: reaches_keeps(2) task_ok_reaches row_authentic_reaches)

lemma resumeTask_ok:
  assumes "relay_ok en s" "n < length (tasks s)"
  shows "relay_ok en (resumeTask en i n s)" "\<exists>A. reaches A (r_db s) (r_db (resumeTask en i n s))"
proof -
  let ?s0 = "s\<lparr>tasks := remove_nth n (tasks s)\<rparr>" and ?t = "tasks s ! n"
  have t: "task_ok en (r_db ?s0) ?t" using assms by (simp add: relay_ok_def list_all_length)
  have ts: "list_all (task_ok en (r_db ?s0)) (tasks ?s0)"
    using assms(1) set_remove_nth [of n "tasks s"] by (auto simp: relay_ok_def list_all_iff)
  have ok: "db_ok (r_db ?s0)" and rows: "list_all (row_authentic en (r_db ?s0)) (doc_log (r_db ?s0))"
    using assms(1) by (simp_all add: relay_ok_def)
  show "relay_ok en (resumeTask en i n s)"
    unfolding relay_ok_def resumeTask_def
    using runTask_tasks [OF ts t ok] runTask_rows [OF t rows] reaches_keeps(2) [OF runTask_reaches [OF t] ok] by blast
  show "\<exists>A. reaches A (r_db s) (r_db (resumeTask en i n s))"
    using runTask_reaches [OF t, of i] by (auto simp: resumeTask_def)
qed

lemma relay_step_ok:
  assumes "relay_step en s e s'" "relay_ok en s"
  shows "relay_ok en s' \<and> (\<exists>A. reaches A (r_db s) (r_db s'))"
  using assms(1)
proof (cases rule: relay_step.cases)
  case (on_message ws data i)
  have r: "reaches False (r_db s) (r_db (receiveMessage en i ws data s))" by (rule receiveMessage_reaches)
  then show ?thesis
    using on_message relay_ok_frame [OF assms(2) r receiveMessage_tasks] assms(2) by (auto simp: relay_ok_def)
next
  case (on_resume n i)
  then show ?thesis using resumeTask_ok [OF assms(2), of n i] by simp
next
  case (on_sweep i)
  then show ?thesis
    using relay_ok_frame [OF assms(2) sweep_reaches, of i] assms(2) sweep_reaches [of s i]
    by (auto simp: relay_ok_def sweep_def)
qed (use assms(2) in \<open>auto simp: relay_ok_def handleConnection_def intro: exI [of _ False]\<close>)

lemma initial_relay_ok: "relay_ok en initial_relay"
  by (simp add: relay_ok_def initial_relay_def db_ok_empty) (simp add: empty_db_def)

interpretation relay: invariant_system "\<lambda>s. s = initial_relay" "relay_step en" "relay_ok en" for en
  by unfold_locales (auto simp: initial_relay_ok relay_step_ok)

lemma run_relay_reaches: "run (relay_step en) s es s' \<Longrightarrow> relay_ok en s \<Longrightarrow> \<exists>ops. run store_step (r_db s) ops (r_db s')"
proof (induction rule: run.induct)
  case (run_cons s e s' es s'')
  then show ?case
    using relay_step_ok [OF run_cons.hyps(1)] by (blast intro: run_append dest: reaches_run)
qed (auto intro: run_nil)

section \<open>Properties\<close>

lemma relay_store_history:
  assumes "run (relay_step en) initial_relay es s" "run (relay_step en) s es' s'"
  shows "\<exists>ops. run store_step empty_db ops (r_db s)" "\<exists>ops. run store_step (r_db s) ops (r_db s')" "relay_ok en s" "relay_ok en s'"
proof -
  have ok: "relay_ok en s" by (rule relay.init_run_inv [OF refl assms(1)])
  then show "relay_ok en s" "relay_ok en s'" by (blast intro: relay.run_inv [OF assms(2)])+
  show "\<exists>ops. run store_step empty_db ops (r_db s)"
    using run_relay_reaches [OF assms(1) initial_relay_ok] by (simp add: initial_relay_def)
  show "\<exists>ops. run store_step (r_db s) ops (r_db s')" by (rule run_relay_reaches [OF assms(2) ok])
qed

text \<open>C2: The server implements its store: whatever frames clients send and in whatever order handlers
  resume, the database evolves by transactions of the store only, with their preconditions met.
  So in every reachable state it is sound, and from there on the log only grows, stored contents
  stay, device ids keep their DID, revocations are final and registered spaces stay registered.\<close>

theorem relay_refines_store:
  assumes "run (relay_step en) initial_relay es s" "run (relay_step en) s es' s'"
  shows "db_ok (r_db s) \<and> db_ok (r_db s') \<and>
    (\<exists>ops. run store_step empty_db ops (r_db s)) \<and> (\<exists>ops. run store_step (r_db s) ops (r_db s')) \<and>
    (\<exists>new. doc_log (r_db s') = doc_log (r_db s) @ new) \<and> device_kept (r_db s) (r_db s') \<and>
    (\<forall>k. isSpaceRegistered k (r_db s) \<longrightarrow> isSpaceRegistered k (r_db s'))"
  using relay_store_history [OF assms] by (auto simp: relay_ok_def dest: run_log run_devices run_spaces)

theorem relay_refines_store_witness:
  "\<exists>s. run (relay_step (demo_env 3)) initial_relay demo_events s \<and> doc_log (r_db s) = [demo_row 3] \<and> db_ok (r_db s)"
proof -
  have "safe_seq 3" by (simp add: safe_seq_def safe_integer_def max_safe_integer_def)
  then obtain s where s: "exec_all (demo_env 3) demo_events initial_relay = Some s"
      "demo_session (demo_owned_db\<lparr>doc_log := [demo_row 3]\<rparr>) s" by (rule demo_run)
  have r: "run (relay_step (demo_env 3)) initial_relay demo_events s" using s(1) by (simp add: run_relay_iff)
  show ?thesis using relay_refines_store [OF r run_nil] s(2) r by (auto simp: demo_session_def)
qed

text \<open>C1: Everything in the log is authentic: in every reachable state each stored row is a JWS that
  verifies as a log entry, stored under exactly the document, device and number the author
  signed, with the hash of the signed payload, and the device belongs to the DID that signed it.\<close>

theorem stored_entries_authentic:
  assumes "run (relay_step en) initial_relay es s" "r \<in> set (doc_log (r_db s))"
  shows "\<exists>e. verifyLogEntryJws (env_rt en) (log_jws r) = Some e \<and>
    (log_doc r, log_device r, log_seq r) = (le_doc e, le_device e, le_seq e) \<and>
    hashPayload en e = Some (log_hash r) \<and>
    didForDevice (log_device r) (r_db s) = Some (didOrKidToDid (le_author_kid e))"
  using relay.init_run_inv [OF refl assms(1)] assms(2)
  by (auto simp: relay_ok_def list_all_iff row_authentic_def split: option.splits)

theorem stored_entries_authentic_witness:
  "\<exists>s. run (relay_step (demo_env 3)) initial_relay demo_events s \<and> demo_row 3 \<in> set (doc_log (r_db s)) \<and>
    didForDevice (log_device (demo_row 3)) (r_db s) = Some sample_did"
proof -
  have "safe_seq 3" by (simp add: safe_seq_def safe_integer_def max_safe_integer_def)
  then obtain s where s: "exec_all (demo_env 3) demo_events initial_relay = Some s"
      "demo_session (demo_owned_db\<lparr>doc_log := [demo_row 3]\<rparr>) s" by (rule demo_run)
  have r: "run (relay_step (demo_env 3)) initial_relay demo_events s" "demo_row 3 \<in> set (doc_log (r_db s))"
    using s by (simp_all add: run_relay_iff demo_session_def)
  obtain e where "verifyLogEntryJws (env_rt (demo_env 3)) (log_jws (demo_row 3)) = Some e"
      "didForDevice (log_device (demo_row 3)) (r_db s) = Some (didOrKidToDid (le_author_kid e))"
    using stored_entries_authentic [OF r] by blast
  moreover have "verifyLogEntryJws (env_rt (demo_env 3)) (log_jws (demo_row 3)) = Some (demo_entry 3)"
    by (simp add: demo_row_def log_row_of_def entry_append_def demo_entry_verifies)
  ultimately show ?thesis using r sample_kid(2) by (auto simp: demo_entry_def sample_entry_def)
qed

end
