(* ===== verification/RelaySessions.thy ===== *)
theory RelaySessions
  imports RelaySafety
begin

text \<open>
  Sessions of the relay: how a socket gets its identity, what the session tables look like in every
  reachable state, and that a challenge nonce logs in at most once.
\<close>

section \<open>The session tables\<close>

definition sessions_ok :: "relay \<Rightarrow> bool" where
  "sessions_ok s \<longleftrightarrow>
     (\<forall>ws did. socketToDid s ws = Some did \<longleftrightarrow> ws \<in> set (did_sockets did s)) \<and>
     (\<forall>ws. socketToDid s ws = None \<longleftrightarrow> socketToDeviceId s ws = None) \<and>
     (\<forall>did l. connections s did = Some l \<longrightarrow> did \<noteq> [] \<and> l \<noteq> [] \<and> distinct l) \<and>
     (\<forall>ws did dev. socketToDid s ws = Some did \<longrightarrow> socketToDeviceId s ws = Some dev \<longrightarrow>
        didForDevice dev (r_db s) = Some did)"

lemma sessions_ok_frame:
  assumes "sessions_ok s" "session_part s' = session_part s" "device_kept (r_db s) (r_db s')"
  shows "sessions_ok s'"
  using assms by (simp add: sessions_ok_def session_part_def did_sockets_def device_kept_def)

lemma sessions_okD:
  assumes "sessions_ok s"
  shows "socketToDid s ws = Some did \<longleftrightarrow> ws \<in> set (did_sockets did s)"
    "socketToDid s ws = None \<longleftrightarrow> socketToDeviceId s ws = None"
    "connections s did = Some l \<Longrightarrow> did \<noteq> [] \<and> l \<noteq> [] \<and> distinct l"
    "socketToDid s ws = Some did \<Longrightarrow> did \<noteq> []" "distinct (did_sockets did s)"
    "socketToDid s ws = Some did \<Longrightarrow> socketToDeviceId s ws = Some dev \<Longrightarrow> didForDevice dev (r_db s) = Some did"
proof -
  show own: "socketToDid s ws = Some did \<longleftrightarrow> ws \<in> set (did_sockets did s)" for ws did
    using assms unfolding sessions_ok_def by blast
  show "socketToDid s ws = None \<longleftrightarrow> socketToDeviceId s ws = None"
    using assms unfolding sessions_ok_def by blast
  show conn: "connections s did = Some l \<Longrightarrow> did \<noteq> [] \<and> l \<noteq> [] \<and> distinct l" for did l
    using assms unfolding sessions_ok_def by blast
  show "socketToDid s ws = Some did \<Longrightarrow> did \<noteq> []"
    using own [of ws did] conn [of did] by (cases "connections s did") (auto simp: did_sockets_def)
  show "distinct (did_sockets did s)" using conn [of did] by (simp add: did_sockets_def split: option.split)
  show "socketToDid s ws = Some did \<Longrightarrow> socketToDeviceId s ws = Some dev \<Longrightarrow> didForDevice dev (r_db s) = Some did"
    using assms unfolding sessions_ok_def by blast
qed

lemma sessions_ok_bind:
  assumes ok: "sessions_ok s" and new: "socketToDid s ws = None" "did \<noteq> []" "didForDevice dev (r_db s) = Some did"
  shows "sessions_ok (bind_socket ws did dev s)"
proof -
  have fresh: "ws \<notin> set (did_sockets d s)" for d using sessions_okD(1) [OF ok, of ws d] new(1) by simp
  have ds: "did_sockets d (bind_socket ws did dev s) = did_sockets d s @ (if d = did then [ws] else [])" for d
    using fresh [of did] by (cases "connections s did") (auto simp: did_sockets_def bind_socket_def Let_def)
  have conn: "connections (bind_socket ws did dev s) = (connections s)(did := Some (did_sockets did s @ [ws]))"
    using fresh [of did] by (simp add: bind_socket_def Let_def)
  note old = sessions_okD(5) [OF ok, of did]
  show ?thesis
    using ok new fresh old unfolding sessions_ok_def ds conn by (auto simp del: not_None_eq)
qed

lemma sessions_ok_close:
  assumes ok: "sessions_ok s"
  shows "sessions_ok (handleClose ws s)"
proof (cases "session_did ws s")
  case None
  then have none: "socketToDid s ws = None"
    using sessions_okD(4) [OF ok, of ws] by (auto simp: session_did_def split: option.splits if_splits)
  then show ?thesis
    using ok by (simp add: handleClose_def session_did_def none sessions_ok_def did_sockets_def Let_def)
next
  case (Some did)
  then have did: "socketToDid s ws = Some did" by (auto simp: session_did_def split: option.splits if_splits)
  let ?rest = "filter (\<lambda>w. w \<noteq> ws) (did_sockets did s)"
  have eqs: "connections (handleClose ws s) = (connections s)(did := if ?rest = [] then None else Some ?rest)"
      "socketToDid (handleClose ws s) = (socketToDid s)(ws := None)"
      "socketToDeviceId (handleClose ws s) = (socketToDeviceId s)(ws := None)"
    using Some by (simp_all add: handleClose_def session_did_def Let_def did_sockets_def)
  have ds: "did_sockets d (handleClose ws s) = (if d = did then ?rest else did_sockets d s)" for d
    by (simp add: did_sockets_def eqs(1))
  have "ws \<in> set (did_sockets d s) \<longleftrightarrow> d = did" for d
    using sessions_okD(1) [OF ok, of ws d] did by auto
  moreover have "did \<noteq> []" "distinct (did_sockets did s)"
    using sessions_okD(4) [OF ok did] sessions_okD(5) [OF ok] by blast+
  ultimately show ?thesis
    using ok unfolding sessions_ok_def ds eqs by (auto split: if_splits)
qed

section \<open>Logging in\<close>

lemma registered_device:
  assumes "registerDevice did dev now d = Inr (DevRegistered isNew, d')"
  shows "didForDevice dev d' = Some did" "isActive did dev d'"
  using didForDevice_registerDevice [of dev did dev now d] registerDevice_active [of did dev now d isNew d'] assms
  by (auto simp: after_def registerDevice_eq didForDevice_getDevice split: option.splits if_splits)

lemma completeRegistration_cases:
  obtains (refused) "session_part (completeRegistration i ws did dev s) = session_part s"
  | (bound) isNew d where "socketToDid s ws = None" "registerDevice did dev (in_date i) (r_db s) = Inr (DevRegistered isNew, d)"
      "session_part (completeRegistration i ws did dev s) = session_part (bind_socket ws did dev s)"
      "reaches False d (r_db (completeRegistration i ws did dev s))"
      "devices (r_db (completeRegistration i ws did dev s)) = devices d"
proof -
  have same: "devices (snd (deliverOnConnect did dev d)) = devices d" for d
    using deliverOnConnect_same [of d did dev] by (simp add: same_store_def)
  have bind: "session_part (bind_socket ws did dev (s\<lparr>r_db := d\<rparr>)) = session_part (bind_socket ws did dev s)" for d
    by (simp add: session_part_def bind_socket_def did_sockets_def Let_def)
  show thesis
  proof (cases "registerDevice did dev (in_date i) (r_db s)")
    case (Inr x)
    obtain res d where x: "x = (res, d)" by (cases x)
    show thesis
    proof (cases res)
      case (DevRegistered isNew)
      show thesis
        by (cases "socketToDid s ws")
          (rule bound [of isNew d], simp_all add: completeRegistration_def Inr x DevRegistered Let_def bind same refused split: option.split)
    qed (auto intro!: refused simp: completeRegistration_def Inr x)
  qed (rule refused, simp add: completeRegistration_def)
qed

text \<open>What the session tables gain when a challenge response is processed.\<close>

lemma handleChallengeResponse_done_cases:
  obtains (refused) "session_part (handleChallengeResponse_done en i ws raw pending s) = session_part s"
  | (bound) f isNew d where
      "verifyBrokerChallengeResponseControlFrame (env_rt en) raw (oc_challenge pending)
         (the (didKeyToPublicKeyBytes (pc_did (oc_challenge pending)))) = Some (Inr f)"
      "\<not> isConsumedChallengeNonce (tr_nonce (cr_transcript f)) (pruneConsumedChallengeNonces (in_date i) s)"
      "consumedNonces (handleChallengeResponse_done en i ws raw pending s) (tr_nonce (cr_transcript f)) =
         Some (in_date i + BROKER_AUTH_NONCE_RETENTION_MS)"
      "socketToDid s ws = None"
      "registerDevice (tr_did (cr_transcript f)) (tr_device (cr_transcript f)) (in_date i) (r_db s) = Inr (DevRegistered isNew, d)"
      "session_part (handleChallengeResponse_done en i ws raw pending s) =
         session_part (bind_socket ws (tr_did (cr_transcript f)) (tr_device (cr_transcript f)) s)"
      "reaches False d (r_db (handleChallengeResponse_done en i ws raw pending s))"
      "devices (r_db (handleChallengeResponse_done en i ws raw pending s)) = devices d"
proof (cases "verifyBrokerChallengeResponseControlFrame (env_rt en) raw (oc_challenge pending)
         (the (didKeyToPublicKeyBytes (pc_did (oc_challenge pending))))")
  case None
  then show ?thesis by (intro refused) (simp add: handleChallengeResponse_done_def)
next
  case (Some r)
  show ?thesis
  proof (cases r)
    case (Inl code)
    then show ?thesis using Some by (intro refused) (simp add: handleChallengeResponse_done_def)
  next
    case (Inr f)
    let ?t = "cr_transcript f" and ?p = "pruneConsumedChallengeNonces (in_date i) s"
    let ?q = "rememberConsumedChallengeNonce (tr_nonce ?t) (in_date i + BROKER_AUTH_NONCE_RETENTION_MS) (dismiss_challenge ws ?p)"
    show ?thesis
    proof (cases "isConsumedChallengeNonce (tr_nonce ?t) ?p")
      case True
      then show ?thesis using Some Inr
        by (intro refused) (simp add: handleChallengeResponse_done_def decideBrokerChallengeNonceConsumption_def Let_def)
    next
      case False
      then have run: "handleChallengeResponse_done en i ws raw pending s =
          completeRegistration i ws (tr_did ?t) (tr_device ?t) ?q"
        using Some Inr by (simp add: handleChallengeResponse_done_def decideBrokerChallengeNonceConsumption_def Let_def)
      have bind: "session_part (bind_socket ws did dev ?q) = session_part (bind_socket ws did dev s)" for did dev
        by (simp add: session_part_def bind_socket_def did_sockets_def Let_def pruneConsumedChallengeNonces_def
            rememberConsumedChallengeNonce_def dismiss_challenge_def)
      have cons: "consumedNonces ?q (tr_nonce ?t) = Some (in_date i + BROKER_AUTH_NONCE_RETENTION_MS)"
        by (simp add: rememberConsumedChallengeNonce_def)
      show ?thesis
      proof (cases rule: completeRegistration_cases [of i ws "tr_did ?t" "tr_device ?t" ?q])
        case refused
        then show ?thesis by (intro that(1)) (simp add: run)
      next
        case (bound isNew d)
        then show ?thesis
          using Some Inr False cons by (intro that(2) [of f isNew d]) (simp_all add: run bind)
      qed
    qed
  qed
qed

lemma accepted_did_nonempty:
  "verifyBrokerChallengeResponseControlFrame rt frame pc key = Some (Inr f) \<Longrightarrow> tr_did (cr_transcript f) \<noteq> []"
proof -
  assume "verifyBrokerChallengeResponseControlFrame rt frame pc key = Some (Inr f)"
  then have "transcript_ok (cr_transcript f)" using challenge_response_parts by blast
  then show ?thesis by (simp add: transcript_ok_def)
qed

section \<open>Steps\<close>

text \<open>Only three callbacks change the session tables: a login, a close event and a new socket.\<close>

lemma runTask_session_part:
  "(\<And>ws raw pending. t \<noteq> TChallenge ws raw pending) \<Longrightarrow> session_part (runTask en i t s) = session_part s"
  by (cases t) auto

text \<open>No continuation opens or closes a socket.\<close>

lemma runTask_sockets: "sockets (runTask en i t s) = sockets s"
proof (cases "\<exists>ws raw pending. t = TChallenge ws raw pending")
  case True
  then obtain ws raw pending where t: "t = TChallenge ws raw pending" by blast
  show ?thesis
    by (cases rule: handleChallengeResponse_done_cases [of en i ws raw pending s])
      (simp_all add: t session_part_def bind_socket_def Let_def)
next
  case False
  then show ?thesis using runTask_session_part [of t en i s] by (auto simp: session_part_def)
qed

lemma relay_step_resumed_sockets: "relay_step en s (Resumed n, i) s' \<Longrightarrow> sockets s' = sockets s"
  by (auto simp: relay_step_simps resumeTask_def runTask_sockets)

lemma runTask_sessions_ok:
  assumes ok: "sessions_ok s" "task_ok en (r_db s) t"
  shows "sessions_ok (runTask en i t s)"
proof (cases "\<exists>ws raw pending. t = TChallenge ws raw pending")
  case True
  then obtain ws raw pending where t: "t = TChallenge ws raw pending" by blast
  have r: "reaches False (r_db s) (r_db (handleChallengeResponse_done en i ws raw pending s))"
    by (rule handleChallengeResponse_done_reaches)
  show ?thesis
  proof (cases rule: handleChallengeResponse_done_cases [of en i ws raw pending s])
    case refused
    then show ?thesis using sessions_ok_frame [OF ok(1) _ reaches_keeps(1) [OF r]] by (simp add: t)
  next
    case (bound f isNew d)
    let ?did = "tr_did (cr_transcript f)" and ?dev = "tr_device (cr_transcript f)"
    have kept: "device_kept (r_db s) d" by (rule reaches_keeps(1) [OF reaches_tx(1) [OF bound(5)]])
    have "sessions_ok (s\<lparr>r_db := d\<rparr>)" by (rule sessions_ok_frame [OF ok(1) _]) (simp_all add: kept)
    then have "sessions_ok (bind_socket ws ?did ?dev (s\<lparr>r_db := d\<rparr>))"
      by (rule sessions_ok_bind) (simp_all add: bound(4) accepted_did_nonempty [OF bound(1)] registered_device [OF bound(5)])
    moreover have "session_part (bind_socket ws ?did ?dev (s\<lparr>r_db := d\<rparr>)) = session_part (bind_socket ws ?did ?dev s)"
      by (simp add: session_part_def bind_socket_def did_sockets_def Let_def)
    ultimately show ?thesis
      using sessions_ok_frame [of "bind_socket ws ?did ?dev (s\<lparr>r_db := d\<rparr>)"] bound(6) reaches_keeps(1) [OF bound(7)] by (simp add: t)
  qed
next
  case False
  then show ?thesis
    using sessions_ok_frame [OF ok(1) runTask_session_part reaches_keeps(1) [OF runTask_reaches [OF ok(2)]]] by blast
qed

lemma relay_step_sessions:
  assumes "relay_step en s e s'" "relay_ok en s" "sessions_ok s"
  shows "sessions_ok s'"
  using assms(1)
proof (cases rule: relay_step.cases)
  case (on_message ws data i)
  then show ?thesis
    using sessions_ok_frame [OF assms(3) _ reaches_keeps(1) [OF receiveMessage_reaches]] by simp
next
  case (on_resume n i)
  have t: "task_ok en (r_db (s\<lparr>tasks := remove_nth n (tasks s)\<rparr>)) (tasks s ! n)"
    using assms(2) on_resume(3) by (simp add: relay_ok_def list_all_length)
  have "sessions_ok (s\<lparr>tasks := remove_nth n (tasks s)\<rparr>)"
    by (rule sessions_ok_frame [OF assms(3)]) (simp_all add: device_kept_refl)
  from runTask_sessions_ok [OF this t, of i] show ?thesis using on_resume by (simp add: resumeTask_def)
next
  case (on_sweep i)
  have "session_part (sweep i s) = session_part s" by (simp add: sweep_def)
  then show ?thesis using on_sweep sessions_ok_frame [OF assms(3) _ reaches_keeps(1) [OF sweep_reaches]] by simp
qed (use assms(3) in \<open>auto simp: sessions_ok_close, auto simp: sessions_ok_def handleConnection_def did_sockets_def\<close>)

interpretation relay_sessions: invariant_system "\<lambda>s. s = initial_relay" "relay_step en"
  "\<lambda>s. relay_ok en s \<and> sessions_ok s" for en
  by unfold_locales
    (use relay_step_ok relay_step_sessions in \<open>auto simp: initial_relay_ok\<close>,
      simp add: sessions_ok_def initial_relay_def did_sockets_def)

section \<open>Nonces\<close>

lemma handleChallengeResponse_consumed:
  assumes "consumedNonces s n = Some t" "in_date i < t"
  shows "consumedNonces (handleChallengeResponse en i ws raw s) n = Some t"
  using assms by (auto simp: handleChallengeResponse_def Let_def pruneConsumedChallengeNonces_def split: option.split)

lemma handleChallengeResponse_done_consumed:
  assumes "consumedNonces s n = Some t" "in_date i < t"
  shows "consumedNonces (handleChallengeResponse_done en i ws raw pending s) n = Some t"
  using assms
  by (auto simp: handleChallengeResponse_done_def Let_def pruneConsumedChallengeNonces_def dismiss_challenge_def
      decideBrokerChallengeNonceConsumption_def isConsumedChallengeNonce_def rememberConsumedChallengeNonce_def
      split: option.split sum.split nonce_decision.split)

lemma receiveMessage_consumed:
  assumes "consumedNonces s n = Some t" "in_date i < t"
  shows "consumedNonces (receiveMessage en i ws data s) n = Some t"
  by (rule receiveMessage_rule, simp add: assms, rule handleMessage_rule)
    (simp_all add: assms handleChallengeResponse_consumed)

lemma runTask_consumed:
  "consumedNonces s n = Some t \<Longrightarrow> in_date i < t \<Longrightarrow> consumedNonces (runTask en i task s) n = Some t"
  by (cases task) (auto simp: handleChallengeResponse_done_consumed)

lemma relay_step_consumed:
  assumes "relay_step en s (e, i) s'" "consumedNonces s n = Some t" "in_date i < t"
  shows "consumedNonces s' n = Some t"
  using assms(1)
proof (cases rule: relay_step.cases)
  case (on_resume k)
  then show ?thesis using assms(2,3) by (simp add: resumeTask_def runTask_consumed)
qed (use assms(2,3) in \<open>auto simp: receiveMessage_consumed handleClose_def Let_def handleConnection_def sweep_def split: option.split\<close>)

lemma run_consumed:
  "run (relay_step en) s es s' \<Longrightarrow> consumedNonces s n = Some t \<Longrightarrow> list_all (\<lambda>(e, i). in_date i < t) es \<Longrightarrow>
     consumedNonces s' n = Some t"
  by (induction rule: run.induct) (auto dest: relay_step_consumed)

section \<open>Properties\<close>

text \<open>C23: The session tables are consistent in every reachable state: a socket is listed under a DID exactly
  if it is logged in as that DID, so under one at most and once, every logged-in socket has a
  device, no DID has an empty list, and the device of a session is registered to its DID.\<close>

theorem session_tables_consistent:
  assumes "run (relay_step en) initial_relay es s"
  shows "(\<forall>ws did. socketToDid s ws = Some did \<longleftrightarrow> ws \<in> set (did_sockets did s)) \<and>
    dom (socketToDid s) = dom (socketToDeviceId s) \<and>
    (\<forall>did l. connections s did = Some l \<longrightarrow> did \<noteq> [] \<and> l \<noteq> [] \<and> distinct l) \<and>
    (\<forall>ws did dev. socketToDid s ws = Some did \<longrightarrow> socketToDeviceId s ws = Some dev \<longrightarrow> didForDevice dev (r_db s) = Some did)"
proof -
  have ok: "sessions_ok s" using relay_sessions.init_run_inv [OF refl assms] by blast
  show ?thesis
    using sessions_okD [OF ok] by (auto simp: dom_def)
qed

lemma demo_login:
  obtains s where "run (relay_step (demo_env 3)) initial_relay (take 4 demo_events) s" "sockets s 0 = Some Open"
    "socketToDid s 0 = Some sample_did" "consumedNonces s sample_nonce = Some 86400000"
proof -
  obtain s where s: "exec (demo_env 3) (Resumed 0, demo_in) demo_answering = Some s" "sockets s 0 = Some Open"
      "socketToDid s 0 = Some sample_did" "consumedNonces s sample_nonce = Some 86400000"
    by (rule demo_registered [of 3])
  have "take 4 demo_events = [(Connected 0, demo_in), (Received 0 [10], demo_in)] @ [(Received 0 [11], demo_in), (Resumed 0, demo_in)]"
    by (simp add: demo_events_def)
  then have "exec_all (demo_env 3) (take 4 demo_events) initial_relay = Some s"
    using s(1) demo_answering [of 3] by (simp only: exec_all_append demo_challenged) simp
  then show thesis using s by (intro that) (simp_all add: run_relay_iff)
qed

theorem session_tables_consistent_witness:
  "\<exists>s. run (relay_step (demo_env 3)) initial_relay (take 4 demo_events) s \<and> 0 \<in> set (did_sockets sample_did s)"
proof -
  obtain s where s: "run (relay_step (demo_env 3)) initial_relay (take 4 demo_events) s" "socketToDid s 0 = Some sample_did"
    by (rule demo_login)
  then show ?thesis using session_tables_consistent [OF s(1)] by blast
qed

text \<open>C3: Nobody is logged in without proof: in a reachable state a socket gets an identity only when the
  continuation of its challenge response resumes, it had none before, the verifier accepted the
  signature under the key of exactly that DID over the transcript of its challenge, the nonce was
  not consumed and now is for 24 hours, and the device is active and registered to the DID.\<close>

theorem login_by_verified_challenge:
  assumes run: "run (relay_step en) initial_relay es s" and step: "relay_step en s (ev, i) s'"
    and login: "socketToDid s' ws = Some did" "socketToDid s ws \<noteq> Some did"
  shows "socketToDid s ws = None \<and> (\<exists>n raw pending key dev sig b t. ev = Resumed n \<and> n < length (tasks s) \<and>
    tasks s ! n = TChallenge ws raw pending \<and> didKeyToPublicKeyBytes did = Some key \<and>
    t = \<lparr>tr_did = did, tr_device = dev, tr_nonce = pc_nonce (oc_challenge pending)\<rparr> \<and>
    pc_did (oc_challenge pending) = did \<and> pc_device (oc_challenge pending) = dev \<and>
    canonicalizeToBytes (env_rt en) (transcript_json t) = Some b \<and> verify_ed25519 (env_rt en) b sig key = Some True \<and>
    (\<forall>until. consumedNonces s (tr_nonce t) = Some until \<longrightarrow> until \<le> in_date i) \<and>
    consumedNonces s' (tr_nonce t) = Some (in_date i + 24 * 60 * 60 * 1000) \<and>
    socketToDeviceId s' ws = Some dev \<and> isActive did dev (r_db s'))"
  using step
proof (cases rule: relay_step.cases)
  case (on_resume n)
  let ?s0 = "s\<lparr>tasks := remove_nth n (tasks s)\<rparr>"
  have ok: "relay_ok en s" by (rule relay.init_run_inv [OF refl run])
  have s': "s' = runTask en i (tasks s ! n) ?s0" using on_resume by (simp add: resumeTask_def)
  have "session_part s' \<noteq> session_part ?s0" using login by (auto simp: session_part_def)
  then obtain w raw pending where t: "tasks s ! n = TChallenge w raw pending"
    using runTask_session_part s' by metis
  have key: "didKeyToPublicKeyBytes (pc_did (oc_challenge pending)) \<noteq> None"
    using ok on_resume(3) t by (auto simp: relay_ok_def list_all_length dest!: spec [of _ n])
  from login show ?thesis
  proof (cases rule: handleChallengeResponse_done_cases [of en i w raw pending ?s0])
    case refused
    then show ?thesis using login s' t by (simp add: session_part_def)
  next
    case (bound f isNew d)
    have sp: "session_part s' = session_part (bind_socket w (tr_did (cr_transcript f)) (tr_device (cr_transcript f)) ?s0)"
      using bound(6) s' t by simp
    then have did: "w = ws" "tr_did (cr_transcript f) = did" "socketToDeviceId s' ws = Some (tr_device (cr_transcript f))"
      using login by (auto simp: session_part_def bind_socket_def Let_def split: if_splits)
    obtain b where parts: "cr_transcript f = \<lparr>tr_did = pc_did (oc_challenge pending), tr_device = pc_device (oc_challenge pending), tr_nonce = pc_nonce (oc_challenge pending)\<rparr>"
        "canonicalizeToBytes (env_rt en) (transcript_json (cr_transcript f)) = Some b"
        "verify_ed25519 (env_rt en) b (cr_signature_bytes f) (the (didKeyToPublicKeyBytes (pc_did (oc_challenge pending)))) = Some True"
      using challenge_response_parts [OF bound(1)] by blast
    have "isActive did (tr_device (cr_transcript f)) (r_db s')"
      using registered_device(2) [OF bound(5)] bound(8) did(2) s' t by (simp add: isActive_def)
    moreover have "consumedNonces s (tr_nonce (cr_transcript f)) = Some until \<Longrightarrow> until \<le> in_date i" for until
      using bound(2) by (auto simp: isConsumedChallengeNonce_def pruneConsumedChallengeNonces_def split: if_splits)
    moreover have "consumedNonces s' (tr_nonce (cr_transcript f)) = Some (in_date i + 24 * 60 * 60 * 1000)"
      using bound(3) s' t by (simp add: BROKER_AUTH_NONCE_RETENTION_MS_def)
    ultimately show ?thesis
      using on_resume t did bound(4) parts key by auto
  qed
next
  case (on_message w data)
  then have "session_part s' = session_part s" by simp
  then show ?thesis using login by (simp add: session_part_def)
qed (use login in \<open>auto simp: handleConnection_def handleClose_def Let_def sweep_def split: option.splits if_splits\<close>)

theorem login_by_verified_challenge_witness:
  "\<exists>s b. exec (demo_env 3) (Resumed 0, demo_in) demo_answering = Some s \<and> socketToDid s 0 = Some sample_did \<and>
    canonicalizeToBytes (demo_runtime 3) (transcript_json \<lparr>tr_did = sample_did, tr_device = sample_uuid, tr_nonce = sample_nonce\<rparr>) = Some b \<and>
    isActive sample_did sample_uuid (r_db s)"
proof -
  obtain s where s: "exec (demo_env 3) (Resumed 0, demo_in) demo_answering = Some s" "socketToDid s 0 = Some sample_did"
    by (rule demo_registered [of 3])
  have "exec_all (demo_env 3) ([(Connected 0, demo_in), (Received 0 [10], demo_in)] @ [(Received 0 [11], demo_in)]) initial_relay = Some demo_answering"
    unfolding exec_all_append demo_challenged using demo_answering [of 3] by simp
  then have run: "run (relay_step (demo_env 3)) initial_relay ([(Connected 0, demo_in), (Received 0 [10], demo_in)] @ [(Received 0 [11], demo_in)]) demo_answering"
    by (simp only: run_relay_iff)
  have step: "relay_step (demo_env 3) demo_answering (Resumed 0, demo_in) s" using s(1) by (simp only: relay_step_exec)
  have new: "socketToDid demo_answering 0 \<noteq> Some sample_did" by (simp add: demo_answering_def)
  have "tasks demo_answering ! 0 = TChallenge 0 demo_response demo_pending" by (simp add: demo_answering_def)
  then show ?thesis
    using login_by_verified_challenge [OF run step s(2) new] s by (auto simp: demo_pending_def)
qed

text \<open>C4: A challenge nonce logs in at most once: as long as the clock has not passed the time until which a
  consumed nonce is remembered, it stays consumed over any run, and a response that carries it,
  however validly signed, is refused with NONCE_REPLAY and changes no session.\<close>

theorem nonce_logs_in_once:
  assumes run: "run (relay_step en) s es s'" and used: "consumedNonces s nonce = Some until"
    and clock: "list_all (\<lambda>(e, i). in_date i < until) es" "in_date i < until"
    and response: "verifyBrokerChallengeResponseControlFrame (env_rt en) raw (oc_challenge pending)
      (the (didKeyToPublicKeyBytes (pc_did (oc_challenge pending)))) = Some (Inr f)" "tr_nonce (cr_transcript f) = nonce"
  shows "consumedNonces s' nonce = Some until \<and>
    session_part (handleChallengeResponse_done en i ws raw pending s') = session_part s' \<and>
    (sockets s' ws = Some Open \<longrightarrow>
       last (trace (handleChallengeResponse_done en i ws raw pending s')) = Sent ws (ErrorFrame None (Code NONCE_REPLAY)))"
proof -
  have kept: "consumedNonces s' nonce = Some until" by (rule run_consumed [OF run used clock(1)])
  then have "isConsumedChallengeNonce nonce (pruneConsumedChallengeNonces (in_date i) s')"
    using clock(2) by (simp add: isConsumedChallengeNonce_def pruneConsumedChallengeNonces_def)
  then have "handleChallengeResponse_done en i ws raw pending s' =
      reject ws NONCE_REPLAY (dismiss_challenge ws (pruneConsumedChallengeNonces (in_date i) s'))"
    using response by (simp add: handleChallengeResponse_done_def decideBrokerChallengeNonceConsumption_def Let_def)
  then show ?thesis using kept by (simp add: sendTo_def)
qed

theorem nonce_logs_in_once_witness:
  "\<exists>s s'. run (relay_step (demo_env 3)) s [(Connected 1, demo_in)] s' \<and> consumedNonces s' sample_nonce = Some 86400000 \<and>
    session_part (handleChallengeResponse_done (demo_env 3) demo_in 1 demo_response demo_pending s') = session_part s'"
proof -
  obtain s where s: "exec (demo_env 3) (Resumed 0, demo_in) demo_answering = Some s" "session_part s = session_part s"
      "consumedNonces s sample_nonce = Some 86400000" "sockets s 1 = None"
  proof (rule demo_registered [of 3])
    fix s assume e: "exec (demo_env 3) (Resumed 0, demo_in) demo_answering = Some s"
      and c: "consumedNonces s sample_nonce = Some 86400000"
    have st: "relay_step (demo_env 3) demo_answering (Resumed 0, demo_in) s" using e by (simp only: relay_step_exec)
    have "sockets s = sockets demo_answering" by (rule relay_step_resumed_sockets [OF st])
    then have "sockets s 1 = None" by (simp only: demo_answering_def) simp
    with e c show thesis using that by blast
  qed
  then have "relay_step (demo_env 3) s (Connected 1, demo_in) (handleConnection 1 s)" by (simp add: relay_step_simps)
  then have run: "run (relay_step (demo_env 3)) s [(Connected 1, demo_in)] (handleConnection 1 s)" by (auto intro: run.intros)
  obtain f where f: "verifyBrokerChallengeResponseControlFrame (demo_runtime 3) demo_response (oc_challenge demo_pending)
      (replicate 32 0) = Some (Inr f)" "cr_transcript f = \<lparr>tr_did = sample_did, tr_device = sample_uuid, tr_nonce = sample_nonce\<rparr>"
    by (rule demo_response_verifies)
  have "didKeyToPublicKeyBytes (pc_did (oc_challenge demo_pending)) = Some (replicate 32 0)"
    using sample_did(4) by (simp add: demo_pending_def)
  then have ver: "verifyBrokerChallengeResponseControlFrame (env_rt (demo_env 3)) demo_response (oc_challenge demo_pending)
      (the (didKeyToPublicKeyBytes (pc_did (oc_challenge demo_pending)))) = Some (Inr f)" "tr_nonce (cr_transcript f) = sample_nonce"
    using f by simp_all
  have "list_all (\<lambda>(e, i). in_date i < 86400000) [(Connected 1, demo_in)]" "in_date demo_in < 86400000" by simp_all
  from nonce_logs_in_once [OF run s(3) this ver, of 1] run show ?thesis by blast
qed

end
