(* ===== verification/RelayGates.thy ===== *)
theory RelayGates
  imports RelaySessions
begin

text \<open>
  The gates of the relay: what a log entry and a catch-up request must pass, what a revoked device can
  still do, and two places where a gate is weaker than its comment says.
\<close>

section \<open>Lemmas\<close>

lemma checkScope_granted:
  "checkScope i ws d p s = (ScopeGranted, s') \<longleftrightarrow>
     s' = s \<and> (\<exists>sc. getScope ws d s = Some sc \<and> \<not> scope_expired (in_now i) sc \<and> p \<in> set (sc_permissions sc))"
  by (auto simp: checkScope_def split: option.splits if_splits)

lemma active_session_Some:
  "active_session ws s = Some did \<longleftrightarrow>
     socketToDid s ws = Some did \<and> (\<exists>dev. socketToDeviceId s ws = Some dev \<and> isActive did dev (r_db s))"
  by (auto simp: active_session_def split: option.splits if_splits)

lemma handleLogEntry_passes:
  assumes "tasks (handleLogEntry en i ws envelope jws s) \<noteq> tasks s"
  obtains e did where "verifyLogEntryJws (env_rt en) jws = Some e" "active_session ws s = Some did"
    "\<not> owned_by_other (le_doc e) did s" "checkScope i ws (le_doc e) Write s = (ScopeGranted, s)"
    "didForDevice (le_device e) (r_db s) = Some (didOrKidToDid (le_author_kid e))" "\<not> below_generation e (r_db s)"
    "handleLogEntry en i ws envelope jws s = await (TLogHash ws envelope jws e) s"
proof (cases "verifyLogEntryJws (env_rt en) jws")
  case (Some e)
  show ?thesis
    using assms that [of e] Some
    by (cases rule: checkScope_cases [of i ws "le_doc e" Write s])
      (auto simp: handleLogEntry_def handleLogEntry_verified_def Let_def split: option.splits if_splits)
qed (use assms in \<open>simp add: handleLogEntry_def\<close>)

lemma appendEntry_log_grows:
  assumes "appendEntry p now d = Inr (res, d')" "doc_log d' \<noteq> doc_log d"
  shows "doc_log d' = doc_log d @ [log_row_of p now]" "\<not> generation_stale p d" "safe_seq (ep_seq p)"
    "getContentHash (ep_doc p) (ep_device p) (ep_seq p) d = None" "res = AcceptedEntry"
  using assms appendEntry_doc_log [OF assms(1)]
  by (auto simp: appendEntry_def generation_stale_def row_insert_ignore_def classifyBrokerSeqCollision_def getContentHash_def
      log_row_of_def log_key_def split: sum.splits seq_collision.splits option.splits if_splits)

section \<open>Catch-up\<close>

lemma sync_page_entries:
  "set (sy_entries (sync_page q d)) \<subseteq> log_jws ` {r \<in> set (doc_log d). log_doc r = sq_doc q \<and> head_of (sq_heads q) (log_device r) < log_seq r}"
proof -
  have "set (js_slice0 n xs) \<subseteq> set xs" for n and xs :: "log_row list"
    by (auto simp: js_slice0_def dest: in_set_takeD)
  moreover have "set (missing_rows (sq_doc q) (sq_heads q) d) =
      {r \<in> set (doc_log d). log_doc r = sq_doc q \<and> head_of (sq_heads q) (log_device r) < log_seq r}"
    by (auto simp: missing_rows_def doc_rows_def)
  ultimately show ?thesis
    by (auto simp: sync_page_def getSinceWithTruncation_def Let_def split: option.splits prod.splits if_splits) blast+
qed

lemma safe_nat_nonneg: "safe_nat v = Some n \<Longrightarrow> 0 \<le> n"
  by (auto simp: safe_nat_def safe_seq_def split: option.splits if_splits)

lemma assertSyncRequestMessage_limit:
  assumes "assertSyncRequestMessage rt v = Some q" "sq_limit q = Some n"
  shows "0 \<le> n"
proof -
  obtain b where b: "assertSyncRequestBody b = Some q"
    using assms(1) by (auto simp: assertSyncRequestMessage_def bind_eq_Some_conv split: if_splits)
  then show ?thesis
    using assms(2) by (cases "jget ''limit'' b")
      (auto simp: assertSyncRequestBody_def bind_eq_Some_conv dest: safe_nat_nonneg split: if_splits)
qed

lemma sync_page_limit:
  assumes "\<And>n. sq_limit q = Some n \<Longrightarrow> 0 \<le> n"
  shows "int (length (sy_entries (sync_page q d))) \<le> (case sq_limit q of None \<Rightarrow> 100 | Some n \<Rightarrow> n)"
  using assms by (auto simp: sync_page_def getSinceWithTruncation_def js_slice0_def Let_def split: option.splits if_splits)

lemma handleSyncRequest_served:
  assumes "trace (handleSyncRequest en i ws envelope s) = trace s @ new" "Sent w (MessageFrame m) \<in> set new"
  obtains did q where "active_session ws s = Some did" "assertSyncRequestMessage (env_rt en) envelope = Some q"
    "\<not> owned_by_other (sq_doc q) did s" "checkScope i ws (sq_doc q) Read s = (ScopeGranted, s)"
    "sync_reply en i envelope (sync_page q (r_db s)) = Some m" "w = ws"
proof (cases "assertSyncRequestMessage (env_rt en) envelope")
  case None
  then show ?thesis using assms by (auto simp: handleSyncRequest_def sendTo_def split: option.splits if_splits)
next
  case (Some q)
  have drop: "trace (dropScope ws d s) = trace s" "sockets (dropScope ws d s) = sockets s" for d
    by (simp_all add: dropScope_def)
  show ?thesis
    using assms that [of _ q] Some
    by (cases rule: checkScope_cases [of i ws "sq_doc q" Read s])
      (auto simp: handleSyncRequest_def sendTo_def drop split: option.splits if_splits)
qed

section \<open>Properties\<close>

text \<open>C19: A catch-up page goes out only to an entitled reader and is bounded: the requesting socket is logged in
  with an active device, the document is not another identity's personal document, the socket
  holds an unexpired scope with the permission to read it, and the page has at most the requested
  number of entries (100 if none is given), all of them stored for that document and unknown to
  the requester's heads.\<close>

theorem catch_up_gated:
  assumes "trace (handleSyncRequest en i ws envelope s) = trace s @ new" "Sent w (MessageFrame m) \<in> set new"
  shows "w = ws \<and> (\<exists>did dev q sc. socketToDid s ws = Some did \<and> socketToDeviceId s ws = Some dev \<and> isActive did dev (r_db s) \<and>
    assertSyncRequestMessage (env_rt en) envelope = Some q \<and> \<not> owned_by_other (sq_doc q) did s \<and>
    getScope ws (sq_doc q) s = Some sc \<and> Read \<in> set (sc_permissions sc) \<and> \<not> scope_expired (in_now i) sc \<and>
    sync_reply en i envelope (sync_page q (r_db s)) = Some m \<and>
    int (length (sy_entries (sync_page q (r_db s)))) \<le> (case sq_limit q of None \<Rightarrow> 100 | Some n \<Rightarrow> n) \<and>
    set (sy_entries (sync_page q (r_db s))) \<subseteq> log_jws ` {r \<in> set (doc_log (r_db s)).
      log_doc r = sq_doc q \<and> head_of (sq_heads q) (log_device r) < log_seq r})"
proof -
  obtain did q where g: "active_session ws s = Some did" "assertSyncRequestMessage (env_rt en) envelope = Some q"
      "\<not> owned_by_other (sq_doc q) did s" "checkScope i ws (sq_doc q) Read s = (ScopeGranted, s)"
      "sync_reply en i envelope (sync_page q (r_db s)) = Some m" "w = ws"
    by (rule handleSyncRequest_served [OF assms])
  then show ?thesis
    using sync_page_limit [OF assertSyncRequestMessage_limit [OF g(2)]] sync_page_entries
    unfolding active_session_Some checkScope_granted by blast
qed

theorem catch_up_gated_witness:
  "\<exists>s m. Sent 0 (MessageFrame m) \<in> set (trace (handleSyncRequest (demo_env 3) demo_in 0 demo_request s)) \<and>
    Sent 0 (MessageFrame m) \<notin> set (trace s) \<and> isActive sample_did sample_uuid (r_db s)"
proof -
  let ?d = "demo_owned_db\<lparr>doc_log := [demo_row 3]\<rparr>" and ?q = "\<lparr>sq_doc = sample_uuid, sq_heads = [], sq_limit = None\<rparr>"
  let ?s = "initial_relay\<lparr>sockets := (\<lambda>_. None)(0 := Some Open), socketToDid := (\<lambda>_. None)(0 := Some sample_did),
    socketToDeviceId := (\<lambda>_. None)(0 := Some sample_uuid), r_db := ?d, socketToScopes := (\<lambda>_ _. Some demo_scope)\<rparr>"
  have row: "log_doc (demo_row 3) = sample_uuid" "log_device (demo_row 3) = sample_uuid" "log_seq (demo_row 3) = 3"
      "log_jws (demo_row 3) = ''AA.AQ.Ag''"
    by (simp_all add: demo_row_def log_row_of_def entry_append_def demo_entry_def sample_entry_def)
  have act: "isActive sample_did sample_uuid ?d" "\<not> owned_by_other sample_uuid sample_did ?s"
    by (simp_all add: isActive_def owned_by_other_def isSpaceRegistered_def getPersonalDocOwner_def demo_owned_db_def
        demo_db_def demo_device_def empty_db_def)
  have page: "sync_page ?q ?d = \<lparr>sy_doc = sample_uuid, sy_entries = [''AA.AQ.Ag''], sy_heads = [(sample_uuid, 3)], sy_truncated = False\<rparr>"
    by (simp add: sync_page_def getSinceWithTruncation_def missing_rows_def doc_rows_def getHeads_def row head_of_def)
  have "jws_compact_segments ''AA.AQ.Ag''" by code_simp
  then have "sync_response_ok (sync_page ?q ?d)"
    using sample_codes(3) by (simp add: sync_response_ok_def page safe_seq_def safe_integer_def max_safe_integer_def)
  then obtain m where m: "sync_reply (demo_env 3) demo_in demo_request (sync_page ?q ?d) = Some m" by (rule demo_reply)
  have scope: "checkScope demo_in 0 sample_uuid Read ?s = (ScopeGranted, ?s)" "active_session 0 ?s = Some sample_did"
    using act by (simp_all add: checkScope_def getScope_def demo_scope_def scope_expired_def active_session_def)
  have "handleSyncRequest (demo_env 3) demo_in 0 demo_request ?s = sendTo 0 (MessageFrame m) ?s"
    using act(2) scope m by (simp add: handleSyncRequest_def demo_request_parses)
  then have "trace (handleSyncRequest (demo_env 3) demo_in 0 demo_request ?s) = trace ?s @ [Sent 0 (MessageFrame m)]"
    by (simp add: sendTo_def)
  moreover from catch_up_gated [OF this] have "isActive sample_did sample_uuid (r_db ?s)" by simp
  moreover have "trace ?s = []" by (simp add: initial_relay_def)
  ultimately show ?thesis by (intro exI [of _ ?s] exI [of _ m]) simp
qed

text \<open>The conditions under which a verified log entry may wait for its hash.\<close>

definition ingest_admissible :: "inputs \<Rightarrow> ws \<Rightarrow> log_entry \<Rightarrow> relay \<Rightarrow> bool" where
  "ingest_admissible i ws e s \<longleftrightarrow>
     (case (socketToDid s ws, socketToDeviceId s ws, getScope ws (le_doc e) s) of
        (Some did, Some dev, Some sc) \<Rightarrow>
          isActive did dev (r_db s) \<and> \<not> owned_by_other (le_doc e) did s \<and>
          Write \<in> set (sc_permissions sc) \<and> \<not> scope_expired (in_now i) sc \<and>
          didForDevice (le_device e) (r_db s) = Some (didOrKidToDid (le_author_kid e)) \<and> \<not> below_generation e (r_db s)
      | _ \<Rightarrow> False)"

lemma ingest_admissible_iff:
  "ingest_admissible i ws e s \<longleftrightarrow> (\<exists>did. active_session ws s = Some did \<and> \<not> owned_by_other (le_doc e) did s) \<and>
     fst (checkScope i ws (le_doc e) Write s) = ScopeGranted \<and>
     didForDevice (le_device e) (r_db s) = Some (didOrKidToDid (le_author_kid e)) \<and> \<not> below_generation e (r_db s)"
  by (auto simp: ingest_admissible_def checkScope_def active_session_def split: option.split)

lemma checkScope_state:
  "r_db (snd (checkScope i ws docId p s)) = r_db s"
  "fst (checkScope i ws docId p s) = ScopeGranted \<Longrightarrow> snd (checkScope i ws docId p s) = s"
  "snd (checkScope i ws docId p s) = s \<or> snd (checkScope i ws docId p s) = dropScope ws docId s \<and>
     (\<exists>sc. getScope ws docId s = Some sc \<and> scope_expired (in_now i) sc)"
  by (auto simp: checkScope_def dropScope_def split: option.split)

lemma handleLogEntry_verified_gates:
  assumes "\<not> ingest_admissible i ws e s"
  shows "\<exists>code. handleLogEntry_verified i ws envelope jws e s = ingest_reject ws (envelope_id envelope) code s \<or>
    handleLogEntry_verified i ws envelope jws e s =
      ingest_reject ws (envelope_id envelope) code (snd (checkScope i ws (le_doc e) Write s))"
proof (cases "checkScope i ws (le_doc e) Write s")
  case (Pair granted s1)
  have "r_db s1 = r_db s" using checkScope_state(1) [of i ws "le_doc e" Write s] Pair by simp
  then show ?thesis
    using assms unfolding ingest_admissible_iff handleLogEntry_verified_def Let_def Pair
    by (auto split: option.split)
qed

text \<open>C20: The gates of an ingest: when the JWS of a received log entry verifies, the entry goes on to wait for its
  hash exactly if the socket is logged in with an active device, the document is not another
  identity's, the socket holds an unexpired write scope for it, the entry's device belongs to the
  DID that signed it and its key generation is not below the space's. In every other case the
  sender gets one error answer and one rejection is counted under the same code, and nothing else
  changes, except that a scope of this socket for the document is dropped if it has expired. An
  entry that does not verify is answered and counted with AUTH_INVALID.\<close>

theorem ingest_gates:
  "case verifyLogEntryJws (env_rt en) jws of
     None \<Rightarrow> handleLogEntry en i ws envelope jws s =
       sendTo ws (ErrorFrame None (Code AUTH_INVALID)) (bump (IngestReject (RejectCode AUTH_INVALID)) s)
   | Some e \<Rightarrow>
       if ingest_admissible i ws e s then handleLogEntry en i ws envelope jws s = await (TLogHash ws envelope jws e) s
       else \<exists>code s1. handleLogEntry en i ws envelope jws s =
           sendTo ws (ErrorFrame (Some (envelope_id envelope)) (Code code)) (bump (IngestReject (RejectCode code)) s1) \<and>
         (s1 = s \<or> s1 = dropScope ws (le_doc e) s \<and>
           (\<exists>sc. getScope ws (le_doc e) s = Some sc \<and> scope_expired (in_now i) sc))"
proof (cases "verifyLogEntryJws (env_rt en) jws")
  case (Some e)
  show ?thesis
  proof (cases "ingest_admissible i ws e s")
    case True
    then have "handleLogEntry_verified i ws envelope jws e s = await (TLogHash ws envelope jws e) s"
      using checkScope_state(2) [of i ws "le_doc e" Write s]
      by (auto simp: ingest_admissible_iff handleLogEntry_verified_def Let_def split: prod.split)
    then show ?thesis using True by (simp add: handleLogEntry_def Some)
  next
    case False
    then show ?thesis
      using handleLogEntry_verified_gates [OF False, of envelope jws] checkScope_state(3) [of i ws "le_doc e" Write s]
      by (simp add: handleLogEntry_def Some ingest_reject_def) blast
  qed
qed (simp add: handleLogEntry_def)

text \<open>C21: The log grows only at the end of an ingest: a step of a reachable state that changes the log is the
  continuation of one verified entry, it appends exactly one row for that entry's coordinates with
  the hash of its payload, nothing was stored there before, and the entry's key generation is at
  that moment not below the space's generation, even if a rotation came after its gates.\<close>

theorem log_grows_by_verified_entry:
  assumes run: "run (relay_step en) initial_relay es s" and step: "relay_step en s (ev, i) s'"
    and grows: "doc_log (r_db s') \<noteq> doc_log (r_db s)"
  shows "\<exists>n ws envelope jws e hash. ev = Resumed n \<and> n < length (tasks s) \<and> tasks s ! n = TLogHash ws envelope jws e \<and>
    verifyLogEntryJws (env_rt en) jws = Some e \<and> hashPayload en e = Some hash \<and>
    doc_log (r_db s') = doc_log (r_db s) @ [log_row_of (entry_append hash e jws) (in_date i)] \<and>
    getContentHash (le_doc e) (le_device e) (le_seq e) (r_db s) = None \<and>
    safe_seq (le_seq e) \<and> \<not> below_generation e (r_db s)"
  using step
proof (cases rule: relay_step.cases)
  case (on_resume n)
  let ?s0 = "s\<lparr>tasks := remove_nth n (tasks s)\<rparr>"
  have ok: "task_ok en (r_db ?s0) (tasks s ! n)"
    using relay.init_run_inv [OF refl run] on_resume(3) by (simp add: relay_ok_def list_all_length)
  have s': "s' = runTask en i (tasks s ! n) ?s0" using on_resume by (simp add: resumeTask_def)
  have "\<exists>ws envelope jws e. tasks s ! n = TLogHash ws envelope jws e"
  proof (rule ccontr)
    assume "\<nexists>ws envelope jws e. tasks s ! n = TLogHash ws envelope jws e"
    then have "reaches False (r_db ?s0) (r_db s')" using runTask_reaches [OF ok, of i] s' by simp
    from reaches_no_append [OF this] grows show False by simp
  qed
  then obtain ws envelope jws e where t: "tasks s ! n = TLogHash ws envelope jws e" by blast
  have db: "r_db s' = r_db (handleLogEntry_hashed en i ws envelope jws e ?s0)" by (simp add: s' t)
  show ?thesis
  proof (cases "hashPayload en e")
    case None
    then show ?thesis using grows db by (simp add: handleLogEntry_hashed_def Let_def)
  next
    case (Some hash)
    let ?p = "entry_append hash e jws"
    show ?thesis
    proof (cases "appendEntry ?p (in_date i) (r_db s)")
      case (Inl x)
      then show ?thesis using grows db Some by (simp add: handleLogEntry_hashed_def Let_def)
    next
      case (Inr r)
      obtain res d' where r: "r = (res, d')" by (cases r)
      have d': "r_db s' = d'"
        using db Some Inr r by (cases res) (simp_all add: handleLogEntry_hashed_def Let_def)
      note g = appendEntry_log_grows [OF Inr [unfolded r], folded d', OF grows]
      have "\<not> below_generation e (r_db s)"
        using g(2) by (auto simp: generation_stale_def below_generation_def entry_append_def split: option.splits prod.splits)
      then show ?thesis
        using on_resume t ok Some g by (auto simp: entry_append_def)
    qed
  qed
qed (use grows reaches_no_append [OF receiveMessage_reaches] reaches_no_append [OF sweep_reaches] in
  \<open>auto simp: handleConnection_def\<close>)

theorem log_grows_by_verified_entry_witness:
  "\<exists>s s'. run (relay_step (demo_env 3)) initial_relay (take 8 demo_events) s \<and> relay_step (demo_env 3) s (Resumed 0, demo_in) s' \<and>
    doc_log (r_db s') = doc_log (r_db s) @ [demo_row 3] \<and> getContentHash sample_uuid sample_uuid 3 (r_db s) = None"
proof -
  have "safe_seq 3" by (simp add: safe_seq_def safe_integer_def max_safe_integer_def)
  then obtain s s' where s: "exec_all (demo_env 3) (take 8 demo_events) initial_relay = Some s"
      "exec (demo_env 3) (Resumed 0, demo_in) s = Some s'" "r_db s = demo_owned_db" "r_db s' = demo_owned_db\<lparr>doc_log := [demo_row 3]\<rparr>"
      "tasks s = [TLogHash 0 demo_envelope ''AA.AQ.Ag'' (demo_entry 3)]"
    by (rule demo_last_step)
  have run: "run (relay_step (demo_env 3)) initial_relay (take 8 demo_events) s" using s(1) by (simp add: run_relay_iff)
  have step: "relay_step (demo_env 3) s (Resumed 0, demo_in) s'" using s(2) by (simp only: relay_step_exec)
  have grows: "doc_log (r_db s') \<noteq> doc_log (r_db s)" using s(3,4) by (simp add: demo_owned_db_def demo_db_def empty_db_def)
  obtain e where "getContentHash (le_doc e) (le_device e) (le_seq e) (r_db s) = None" "tasks s ! 0 = TLogHash 0 demo_envelope ''AA.AQ.Ag'' e"
    using log_grows_by_verified_entry [OF run step grows] s(5) by fastforce
  moreover from this s(5) have "e = demo_entry 3" by simp
  ultimately have "getContentHash sample_uuid sample_uuid 3 (r_db s) = None"
    by (simp add: demo_entry_def sample_entry_def)
  moreover have "doc_log (r_db s') = doc_log (r_db s) @ [demo_row 3]"
    using s(3,4) by (simp add: demo_owned_db_def demo_db_def empty_db_def)
  ultimately show ?thesis using run step by blast
qed

text \<open>C18: A revoked device is locked out for good, also on a session that was open when it was revoked: at any
  later time the log entries that reach their gates, its catch-up requests and its inbox messages
  get a refusal and change nothing else, and no completed challenge registers it again, under any
  identity. A message of a type that the inbox does not take is refused as malformed, before the
  device is looked at. An entry that had passed its gates before the revocation and only waits for
  its hash is not refused (a finding).\<close>

theorem revoked_device_locked_out:
  assumes run: "run (relay_step en) initial_relay es s" "run (relay_step en) s es' s'"
    and revoked: "deviceRevoked dev (r_db s)"
  shows "(socketToDeviceId s' ws = Some dev \<longrightarrow>
      handleLogEntry_verified i ws envelope jws e s' = ingest_reject ws (envelope_id envelope) DEVICE_REVOKED s' \<and>
      handleSyncRequest en i ws envelope s' = reject ws DEVICE_REVOKED s' \<and>
      handleInboxSend en i ws did envelope s' = (if relay_whitelisted envelope then reject ws DEVICE_REVOKED s'
        else reject ws MALFORMED_MESSAGE (bump (IngestReject (RejectCode MALFORMED_MESSAGE)) s'))) \<and>
    session_part (completeRegistration i ws did dev s') = session_part s' \<and>
    r_db (completeRegistration i ws did dev s') = r_db s'"
proof -
  have "device_kept (r_db s) (r_db s')"
    using relay_store_history(2) [OF run] by (auto dest: run_devices)
  then have now: "deviceRevoked dev (r_db s')" using revoked by (simp add: device_kept_def)
  then have inactive: "\<not> isActive w dev (r_db s')" for w by (rule deviceRevoked_not_active)
  have "socketToDeviceId s' ws = Some dev \<Longrightarrow> active_session ws s' = None"
    using inactive by (simp add: active_session_def split: option.split)
  moreover have "registerDevice did dev (in_date i) (r_db s') =
      Inr (if didForDevice dev (r_db s') = Some did then DevRevoked else DevIdConflict, r_db s')"
    using now by (auto simp: registerDevice_eq deviceRevoked_def didForDevice_getDevice)
  ultimately show ?thesis
    using inactive by (auto simp: handleLogEntry_verified_def handleSyncRequest_def handleInboxSend_def completeRegistration_def Let_def)
qed

theorem revoked_device_locked_out_witness:
  "\<exists>s s'. run (relay_step (demo_env 3)) initial_relay (take 4 demo_events) s \<and> isActive sample_did sample_uuid (r_db s) \<and>
    run (relay_step (demo_env 3)) s [(Received 0 [14], demo_in), (Resumed 0, demo_in)] s' \<and>
    socketToDeviceId s' 0 = Some sample_uuid \<and>
    handleSyncRequest (demo_env 3) demo_in 0 demo_request s' = reject 0 DEVICE_REVOKED s'"
proof -
  obtain s where s: "exec (demo_env 3) (Resumed 0, demo_in) demo_answering = Some s" "demo_session demo_db s"
    by (rule demo_registered [of 3]) (simp add: demo_session_def)
  have parts: "take 4 demo_events = [(Connected 0, demo_in), (Received 0 [10], demo_in)] @ [(Received 0 [11], demo_in), (Resumed 0, demo_in)]"
    by (simp add: demo_events_def)
  have "exec_all (demo_env 3) [(Received 0 [11], demo_in), (Resumed 0, demo_in)] demo_challenged = Some s"
    using demo_answering [of 3] s(1) by simp
  then have run: "run (relay_step (demo_env 3)) initial_relay (take 4 demo_events) s"
    by (simp only: run_relay_iff parts exec_all_append demo_challenged Option.bind.simps)
  obtain s' where s': "exec_all (demo_env 3) [(Received 0 [14], demo_in), (Resumed 0, demo_in)] s = Some s'"
      "session_part s' = session_part s" "deviceRevoked sample_uuid (r_db s')"
    by (rule demo_revoked [OF s(2)])
  have run': "run (relay_step (demo_env 3)) s [(Received 0 [14], demo_in), (Resumed 0, demo_in)] s'"
    using s'(1) by (simp only: run_relay_iff)
  have all: "run (relay_step (demo_env 3)) initial_relay (take 4 demo_events @ [(Received 0 [14], demo_in), (Resumed 0, demo_in)]) s'"
    using run s'(1) by (simp only: run_relay_iff exec_all_append Option.bind.simps)
  have dev: "socketToDeviceId s' 0 = Some sample_uuid" using s'(2) s(2) by (simp add: session_part_def demo_session_def)
  from revoked_device_locked_out [OF all run.intros(1) s'(3), of 0] dev
  have "handleSyncRequest (demo_env 3) demo_in 0 demo_request s' = reject 0 DEVICE_REVOKED s'" by blast
  moreover have "isActive sample_did sample_uuid (r_db s)"
    using s(2) by (simp add: demo_session_def isActive_def demo_db_def demo_device_def empty_db_def)
  ultimately show ?thesis using run run' dev by blast
qed

text \<open>C28: The ingest of a log entry whose number is beyond the safe integers ends in an internal error, after
  the entry has been verified and has passed every gate: nothing is stored, the sender gets
  INTERNAL_ERROR, which names no message, and the rejection is counted under OTHER.\<close>

theorem unsafe_sequence_number:
  assumes "max_safe_integer < le_seq e"
  shows "handleLogEntry_hashed en i ws envelope jws e s = ingest_failed ws s \<and>
    r_db (ingest_failed ws s) = r_db s \<and>
    (sockets s ws = Some Open \<longrightarrow> trace (ingest_failed ws s) = trace s @
       [Counted (IngestReject OTHER), Counted ErrorFrameSent, Sent ws (ErrorFrame None (Code INTERNAL_ERROR))])"
proof -
  have "\<not> safe_seq (le_seq e)" using assms by (auto simp: safe_seq_def safe_integer_def abs_le_iff)
  then have "\<exists>x. appendEntry (entry_append hash e jws) (in_date i) (r_db s) = Inl x" for hash
    by (simp add: appendEntry_def classifyBrokerSeqCollision_def entry_append_def)
  then have "handleLogEntry_hashed en i ws envelope jws e s = ingest_failed ws s"
    by (auto simp: handleLogEntry_hashed_def Let_def split: option.split sum.split) (metis Inl_Inr_False)+
  then show ?thesis by (simp add: sendTo_def bump_def)
qed

theorem unsafe_sequence_number_witness:
  "\<exists>s. handleLogEntry (demo_env (2 ^ 53)) demo_in 0 demo_envelope ''AA.AQ.Ag'' s =
      await (TLogHash 0 demo_envelope ''AA.AQ.Ag'' (demo_entry (2 ^ 53))) s \<and>
    r_db (handleLogEntry_hashed (demo_env (2 ^ 53)) demo_in 0 demo_envelope ''AA.AQ.Ag'' (demo_entry (2 ^ 53)) s) = r_db s"
proof -
  let ?s = "initial_relay\<lparr>sockets := (\<lambda>_. None)(0 := Some Open), socketToDid := (\<lambda>_. None)(0 := Some sample_did),
    socketToDeviceId := (\<lambda>_. None)(0 := Some sample_uuid), r_db := demo_owned_db, socketToScopes := (\<lambda>_ _. Some demo_scope)\<rparr>"
  have s: "demo_session demo_owned_db ?s" "socketToScopes ?s 0 sample_uuid = Some demo_scope"
    by (simp_all add: demo_session_def initial_relay_def)
  have "handleLogEntry (demo_env (2 ^ 53)) demo_in 0 demo_envelope ''AA.AQ.Ag'' ?s =
      await (TLogHash 0 demo_envelope ''AA.AQ.Ag'' (demo_entry (2 ^ 53))) ?s"
    using demo_gates [OF _ s, of "2 ^ 53"] by (simp add: resumeTask_def remove_nth_def await_def initial_relay_def)
  moreover have "max_safe_integer < le_seq (demo_entry (2 ^ 53))" by (simp add: demo_entry_def max_safe_integer_def)
  from unsafe_sequence_number [OF this] have
    "r_db (handleLogEntry_hashed (demo_env (2 ^ 53)) demo_in 0 demo_envelope ''AA.AQ.Ag'' (demo_entry (2 ^ 53)) ?s) = r_db ?s" by metis
  ultimately show ?thesis by blast
qed

text \<open>C29: The scope cache does not keep up with a rotation that overtakes a presentation: if a capability of the
  old generation is being verified when a rotation is installed, its scope is cached after the
  rotation has dropped all old scopes, with the old generation, and the gates grant it until it
  expires although the space has moved on.\<close>

theorem stale_scope_after_rotation:
  assumes space: "getSpace docId (r_db s) = Some (key, g)"
    and rotate: "verifySpaceRotateMessage (env_rt en) raw (as_did signer) (as_key signer) = Some (Inr f)"
      "rot_space (sf_payload f) = docId" "rot_generation (sf_payload f) = g + 1"
    and verified: "verifySpaceCapabilityJws (env_rt en) jws public (space_context docId did g now) = Inr c"
    and fresh: "\<not> capability_expired c (Some (in_now i))"
    and p: "p \<in> set (cap_permissions c)"
  shows "let s' = presentSpaceCapability_done en ws docId jws public g (space_context docId did g now)
        (handleSpaceRotate_done en admin raw signer s) in
      getSpace docId (r_db s') = Some (rot_key (sf_payload f), g + 1) \<and>
      (\<exists>sc. getScope ws docId s' = Some sc \<and> sc_generation sc = g) \<and>
      checkScope i ws docId p s' = (ScopeGranted, s')"
proof -
  let ?s1 = "handleSpaceRotate_done en admin raw signer s"
  let ?s2 = "presentSpaceCapability_done en ws docId jws public g (space_context docId did g now) ?s1"
  have "r_db ?s1 = rotateSpace docId (rot_key (sf_payload f)) (g + 1) (r_db s)"
    using space rotate by (simp add: handleSpaceRotate_done_def Let_def invalidateStaleScopesForDoc_def)
  then have "getSpace docId (r_db ?s2) = Some (rot_key (sf_payload f), g + 1)"
    using space by (simp add: getSpace_rotateSpace)
  moreover have scope: "getScope ws docId ?s2 = Some (capability_scope c g SpacePath)"
    using verified by (simp add: presentSpaceCapability_done_def getScope_def) (simp add: cacheScope_def)
  moreover have "\<not> scope_expired (in_now i) (capability_scope c g SpacePath)"
    using fresh by (simp add: scope_expired_def capability_scope_def capability_expired_def split: option.splits)
  ultimately show ?thesis
    using p by (simp add: Let_def checkScope_def capability_scope_def)
qed

theorem stale_scope_after_rotation_witness:
  "\<exists>s. getSpace sample_uuid (r_db s) = Some (''old'', 0) \<and>
    (let s' = presentSpaceCapability_done (demo_env 3) 0 sample_uuid ''BQ.BA.Ag'' [9] 0 (space_context sample_uuid sample_did 0 5)
       (handleSpaceRotate_done (demo_env 3) 1 demo_rotation \<lparr>as_space = sample_uuid, as_did = sample_did, as_key = replicate 32 0\<rparr> s) in
     getSpace sample_uuid (r_db s') = Some (''key'', 1) \<and> fst (checkScope demo_in 0 sample_uuid Read s') = ScopeGranted)"
proof -
  let ?s = "initial_relay\<lparr>r_db := empty_db\<lparr>spaces := [\<lparr>sp_id = sample_uuid, sp_key = ''old'', sp_generation = 0, sp_created = 0\<rparr>]\<rparr>\<rparr>"
  let ?signer = "\<lparr>as_space = sample_uuid, as_did = sample_did, as_key = replicate 32 0\<rparr>"
  obtain f where f: "verifySpaceRotateMessage (demo_runtime 3) demo_rotation sample_did (replicate 32 0) = Some (Inr f)"
      "sf_payload f = sample_rotation" by (rule demo_rotation_verifies)
  have space: "getSpace sample_uuid (r_db ?s) = Some (''old'', 0)" by (simp add: getSpace_def)
  have rot: "verifySpaceRotateMessage (env_rt (demo_env 3)) demo_rotation (as_did ?signer) (as_key ?signer) = Some (Inr f)"
    using f(1) by simp
  have pay: "rot_space (sf_payload f) = sample_uuid" "rot_generation (sf_payload f) = 0 + 1" "rot_key (sf_payload f) = ''key''"
    by (simp_all add: f(2) sample_rotation_def)
  have ver: "verifySpaceCapabilityJws (env_rt (demo_env 3)) ''BQ.BA.Ag'' [9] (space_context sample_uuid sample_did 0 5) = Inr demo_capability"
    by (simp add: demo_space_capability_verifies)
  have fresh: "\<not> capability_expired demo_capability (Some (in_now demo_in))"
    by (simp add: capability_expired_def demo_capability_def sample_capability_def sample_capability_facts)
  have p: "Read \<in> set (cap_permissions demo_capability)" by (simp add: demo_capability_def sample_capability_def)
  let ?s' = "presentSpaceCapability_done (demo_env 3) 0 sample_uuid ''BQ.BA.Ag'' [9] 0 (space_context sample_uuid sample_did 0 5)
       (handleSpaceRotate_done (demo_env 3) 1 demo_rotation ?signer ?s)"
  from stale_scope_after_rotation [OF space rot pay(1,2) ver fresh p, of 0 1]
  have "getSpace sample_uuid (r_db ?s') = Some (''key'', 0 + 1)" "checkScope demo_in 0 sample_uuid Read ?s' = (ScopeGranted, ?s')"
    unfolding Let_def pay(3) by blast+
  then have "getSpace sample_uuid (r_db ?s') = Some (''key'', 1)" "fst (checkScope demo_in 0 sample_uuid Read ?s') = ScopeGranted"
    by simp_all
  then show ?thesis
    unfolding Let_def using space by blast
qed

end
