(* ===== verification/RelayLiveness.thy ===== *)
theory RelayLiveness
  imports RelayExample
begin

text \<open>
  Every message is answered. A callback of the relay either sends a frame to the socket it works for or
  leaves a task behind that will; the tasks run out. \<open>due\<close> counts what a socket has got and will get,
  \<open>load\<close> bounds the callbacks still to run.
\<close>

section \<open>Counting\<close>

definition replies :: "ws \<Rightarrow> relay \<Rightarrow> nat" where
  "replies ws s = length (filter (\<lambda>e. case e of Sent w f \<Rightarrow> w = ws | Counted c \<Rightarrow> False) (trace s))"

fun task_ws :: "task \<Rightarrow> ws" where
  "task_ws (TChallenge ws _ _) = ws"
| "task_ws (TRevoke ws _ _) = ws"
| "task_ws (TSpaceRegister ws _) = ws"
| "task_ws (TSpaceRotate ws _ _) = ws"
| "task_ws (TAdminAdd ws _ _ _) = ws"
| "task_ws (TAdminRemove ws _ _ _ _) = ws"
| "task_ws (TPresentSpace ws _ _ _ _ _) = ws"
| "task_ws (TPresentPersonal ws _ _ _ _ _) = ws"
| "task_ws (TLogVerify ws _ _) = ws"
| "task_ws (TLogHash ws _ _ _) = ws"

text \<open>A log entry waits twice, everything else once.\<close>

fun weight :: "task \<Rightarrow> nat" where
  "weight (TLogVerify _ _ _) = 2"
| "weight _ = 1"

definition due :: "ws \<Rightarrow> relay \<Rightarrow> nat" where
  "due ws s = replies ws s + length (filter (\<lambda>t. task_ws t = ws) (tasks s))"

definition load :: "relay \<Rightarrow> nat" where
  "load s = sum_list (map weight (tasks s))"

definition later :: "relay \<Rightarrow> relay \<Rightarrow> bool" where
  "later s s' \<longleftrightarrow> sockets s' = sockets s \<and> (\<forall>w. due w s \<le> due w s') \<and> load s' = load s"

definition answered :: "nat \<Rightarrow> ws \<Rightarrow> relay \<Rightarrow> relay \<Rightarrow> bool" where
  "answered n ws s s' \<longleftrightarrow> sockets s' = sockets s \<and> (\<forall>w. due w s \<le> due w s') \<and>
     (sockets s ws = Some Open \<longrightarrow> due ws s < due ws s') \<and> load s' < load s + n"

lemma due_simps [simp]:
  "due w (sendTo ws f s) = (if sockets s ws = Some Open \<and> w = ws then Suc (due w s) else due w s)"
  "due w (bump c s) = due w s"
  "due w (await t s) = (if w = task_ws t then Suc (due w s) else due w s)"
  "load (sendTo ws f s) = load s" "load (bump c s) = load s" "load (await t s) = load s + weight t"
  by (cases f; auto simp: due_def replies_def load_def sendTo_def bump_def await_def)+

lemma later_parts: "sockets s' = sockets s \<Longrightarrow> trace s' = trace s \<Longrightarrow> tasks s' = tasks s \<Longrightarrow> later s s'"
  by (simp add: later_def due_def load_def replies_def)

lemma later_refl [simp]: "later s s"
  by (simp add: later_def)

lemma later_trans: "later s s1 \<Longrightarrow> later s1 s2 \<Longrightarrow> later s s2"
  by (auto simp: later_def intro: order_trans)

lemma later_sendTo [simp]: "later s s1 \<Longrightarrow> later s (sendTo w f s1)"
  by (auto simp: later_def intro: le_SucI)

lemma later_bump [simp]: "later s s1 \<Longrightarrow> later s (bump c s1)"
  by (auto simp: later_def)

lemma later_fold [simp]: "later s s1 \<Longrightarrow> later s (fold (\<lambda>w. sendTo (to w) (f w)) ws s1)"
  by (induction ws arbitrary: s1) simp_all

lemma later_bind: "later s (bind_socket ws did dev s)"
  by (rule later_parts) (simp_all add: bind_socket_def Let_def)

lemma later_quiet [simp]:
  "later s s1 \<Longrightarrow> later s (s1\<lparr>r_db := d\<rparr>)" "later s s1 \<Longrightarrow> later s (s1\<lparr>pendingChallenges := pc\<rparr>)"
  "later s s1 \<Longrightarrow> later s (dismiss_challenge ws s1)" "later s s1 \<Longrightarrow> later s (cacheScope ws docId sc s1)"
  "later s s1 \<Longrightarrow> later s (drop_scopes docId P s1)" "later s s1 \<Longrightarrow> later s (dropScope ws docId s1)"
  "later s s1 \<Longrightarrow> later s (pruneConsumedChallengeNonces now s1)"
  "later s s1 \<Longrightarrow> later s (rememberConsumedChallengeNonce nonce until s1)"
  "later s s1 \<Longrightarrow> later s (bind_socket ws did dev s1)"
  by (erule later_trans, rule later_parts later_bind, simp_all add: dismiss_challenge_def cacheScope_def drop_scopes_def
      dropScope_def pruneConsumedChallengeNonces_def rememberConsumedChallengeNonce_def)+

lemma answered_sendTo [simp]: "later s s1 \<Longrightarrow> 0 < n \<Longrightarrow> answered n ws s (sendTo ws f s1)"
  by (auto simp: answered_def later_def less_Suc_eq_le intro: le_SucI)

lemma answered_later: "answered n ws s s1 \<Longrightarrow> later s1 s2 \<Longrightarrow> answered n ws s s2"
  by (auto simp: answered_def later_def intro: order_trans less_le_trans)

lemma later_answered: "later s s1 \<Longrightarrow> answered n ws s1 s2 \<Longrightarrow> answered n ws s s2"
  by (auto simp: answered_def later_def intro: order_trans le_less_trans)

lemma answered_await [simp]: "later s s1 \<Longrightarrow> task_ws t = ws \<Longrightarrow> weight t < n \<Longrightarrow> answered n ws s (await t s1)"
  by (auto simp: answered_def later_def less_Suc_eq_le intro: le_SucI)

section \<open>The handlers\<close>

lemma later_deliver_queued: "later s s1 \<Longrightarrow> later s (deliver_queued ws did dev s1)"
  by (simp add: deliver_queued_def Let_def split: prod.split)

lemma answered_deliver_queued: "answered n ws s s1 \<Longrightarrow> answered n ws s (deliver_queued ws' did dev s1)"
  by (erule answered_later) (simp add: later_deliver_queued)

lemma answered_completeRegistration: "later s s1 \<Longrightarrow> 0 < n \<Longrightarrow> answered n ws s (completeRegistration i ws did dev s1)"
  by (auto simp: completeRegistration_def Let_def intro: answered_deliver_queued
      split: option.split sum.split prod.split device_registration.split)

lemma answered_handleRegister: "0 < n \<Longrightarrow> answered n ws s (handleRegister en i ws raw s)"
  by (simp add: handleRegister_def split: option.split prod.split)

lemma weights [simp]: "weight t \<le> 2" "0 < weight t"
  by (cases t; simp)+

lemma answered_handleChallengeResponse: "2 < n \<Longrightarrow> answered n ws s (handleChallengeResponse en i ws raw s)"
  by (auto simp: handleChallengeResponse_def Let_def split: option.split)

lemma answered_handleChallengeResponse_done: "0 < n \<Longrightarrow> answered n ws s (handleChallengeResponse_done en i ws raw p s)"
  by (auto simp: handleChallengeResponse_done_def Let_def answered_completeRegistration split: option.split sum.split nonce_decision.split)

lemma answered_handleDeviceRevoke: "2 < n \<Longrightarrow> answered n ws s (handleDeviceRevoke en ws raw s)"
  by (auto simp: handleDeviceRevoke_def split: option.split)

lemma answered_handleDeviceRevoke_done: "0 < n \<Longrightarrow> answered n ws s (handleDeviceRevoke_done en i ws raw key s)"
  by (auto simp: handleDeviceRevoke_done_def Let_def split: option.split sum.split prod.split device_revocation.split)

lemma answered_handleSpaceRegister: "2 < n \<Longrightarrow> answered n ws s (handleSpaceRegister en ws raw s)"
  by (simp add: handleSpaceRegister_def)

lemma answered_handleSpaceRegister_done: "0 < n \<Longrightarrow> answered n ws s (handleSpaceRegister_done en i ws raw s)"
  by (auto simp: handleSpaceRegister_done_def Let_def invalidatePersonalScopesForDoc_def
      split: sum.split prod.split space_registration.split)

lemma answered_with_admin_signer:
  "2 < n \<Longrightarrow> (\<And>x. task_ws (t x) = ws) \<Longrightarrow> answered n ws s (with_admin_signer en ws jws t s)"
  by (auto simp: with_admin_signer_def le_less_trans [OF weights(1)] split: sum.split prod.split)

lemma answered_handleSpaceRotate: "2 < n \<Longrightarrow> answered n ws s (handleSpaceRotate en ws raw s)"
  by (simp add: handleSpaceRotate_def answered_with_admin_signer split: option.split)

lemma answered_handleSpaceRotate_done: "0 < n \<Longrightarrow> answered n ws s (handleSpaceRotate_done en ws raw signer s)"
  by (simp add: handleSpaceRotate_done_def Let_def invalidateStaleScopesForDoc_def split: option.split sum.split prod.split)

lemma answered_handleAdminAdd: "2 < n \<Longrightarrow> answered n ws s (handleAdminAdd en ws raw s)"
  by (simp add: handleAdminAdd_def answered_with_admin_signer split: option.split)

lemma answered_handleAdminAdd_done: "0 < n \<Longrightarrow> answered n ws s (handleAdminAdd_done en ws raw sp signer s)"
  by (simp add: handleAdminAdd_done_def Let_def split: option.split sum.split)

lemma answered_handleAdminRemove: "2 < n \<Longrightarrow> answered n ws s (handleAdminRemove en ws raw s)"
  by (simp add: handleAdminRemove_def answered_with_admin_signer Let_def split: option.split)

lemma answered_handleAdminRemove_done: "0 < n \<Longrightarrow> answered n ws s (handleAdminRemove_done en ws raw sp signer retry s)"
  by (simp add: handleAdminRemove_done_def Let_def split: option.split sum.split)

lemma answered_handlePresentCapability: "2 < n \<Longrightarrow> answered n ws s (handlePresentCapability en i ws raw s)"
  by (auto simp: handlePresentCapability_def presentSpaceCapability_def presentPersonalCapability_def
      split: option.split prod.split)

lemma answered_presentSpaceCapability_done:
  "0 < n \<Longrightarrow> answered n ws s (presentSpaceCapability_done en ws docId jws key g ctx s)"
  by (simp add: presentSpaceCapability_done_def split: sum.split)

lemma answered_presentPersonalCapability_done:
  "0 < n \<Longrightarrow> answered n ws s (presentPersonalCapability_done en i ws docId did jws key ctx s)"
  by (simp add: presentPersonalCapability_done_def split: sum.split prod.split owner_claim.split)

lemma answered_handleLogEntry: "1 < n \<Longrightarrow> answered n ws s (handleLogEntry en i ws envelope jws s)"
proof (cases "verifyLogEntryJws (env_rt en) jws")
  case (Some e)
  assume "1 < n"
  then show ?thesis
    by (cases rule: checkScope_cases [of i ws "le_doc e" Write s])
      (auto simp: handleLogEntry_def Some handleLogEntry_verified_def Let_def split: option.split)
qed (simp add: handleLogEntry_def)

lemma answered_handleLogEntry_hashed: "0 < n \<Longrightarrow> answered n ws s (handleLogEntry_hashed en i ws envelope jws e s)"
  by (auto simp: handleLogEntry_hashed_def broadcast_def Let_def split: option.split sum.split append_result.split prod.split)

lemma answered_handleSyncRequest: "0 < n \<Longrightarrow> answered n ws s (handleSyncRequest en i ws envelope s)"
proof (cases "assertSyncRequestMessage (env_rt en) envelope")
  case (Some q)
  assume "0 < n"
  then show ?thesis
    by (cases rule: checkScope_cases [of i ws "sq_doc q" Read s])
      (simp_all add: handleSyncRequest_def Some split: option.split)
qed (simp add: handleSyncRequest_def split: option.split)

lemma answered_handleInboxAckEnvelope: "0 < n \<Longrightarrow> answered n ws s (handleInboxAckEnvelope en i ws did envelope s)"
  by (simp add: handleInboxAckEnvelope_def Let_def split: option.split prod.split)

lemma answered_route_inbox: "0 < n \<Longrightarrow> answered n ws s (route_inbox en i ws did dev to envelope s)"
  by (auto simp: route_inbox_def Let_def split: option.split sum.split enqueue_result.split prod.split)

lemma answered_handleInboxSend: "0 < n \<Longrightarrow> answered n ws s (handleInboxSend en i ws did envelope s)"
  by (simp add: handleInboxSend_def answered_route_inbox split: option.split)

lemma answered_handleSend: "2 < n \<Longrightarrow> answered n ws s (handleSend en i ws envelope s)"
  by (rule handleSend_rule) (simp_all add: answered_handleInboxAckEnvelope answered_handleSyncRequest answered_handleInboxSend)

lemmas answered_handlers = answered_handleRegister answered_handleChallengeResponse answered_handleDeviceRevoke
  answered_handleSpaceRegister answered_handleSpaceRotate answered_handleAdminAdd answered_handleAdminRemove
  answered_handlePresentCapability answered_handleSend

lemma answered_handleMessage:
  assumes "jget_str ''type'' msg \<noteq> Some ''ack''"
  shows "answered 3 ws s (handleMessage en i ws msg s)"
  using assms by (cases msg) (simp_all add: handleMessage_def answered_handlers split: option.split)

lemma answered_runTask: "answered (weight t) (task_ws t) s (runTask en i t s)"
  by (cases t) (simp_all add: answered_handleChallengeResponse_done answered_handleDeviceRevoke_done
      answered_handleSpaceRegister_done answered_handleSpaceRotate_done answered_handleAdminAdd_done
      answered_handleAdminRemove_done answered_presentSpaceCapability_done answered_presentPersonalCapability_done
      answered_handleLogEntry answered_handleLogEntry_hashed)

section \<open>Settling\<close>

lemma remove_nth_split:
  assumes "n < length (tasks s)"
  shows "length (filter P (tasks s)) = length (filter P (remove_nth n (tasks s))) + (if P (tasks s ! n) then 1 else 0)"
    and "sum_list (map f (tasks s)) = sum_list (map f (remove_nth n (tasks s))) + (f (tasks s ! n) :: nat)"
proof -
  have split: "tasks s = take n (tasks s) @ tasks s ! n # drop (Suc n) (tasks s)"
    using assms by (rule id_take_nth_drop)
  show "length (filter P (tasks s)) = length (filter P (remove_nth n (tasks s))) + (if P (tasks s ! n) then 1 else 0)"
    by (subst split) (simp add: remove_nth_def)
  show "sum_list (map f (tasks s)) = sum_list (map f (remove_nth n (tasks s))) + f (tasks s ! n)"
    by (subst split) (simp add: remove_nth_def)
qed

lemma resumeTask_due:
  assumes n: "n < length (tasks s)"
  shows "sockets (resumeTask en i n s) = sockets s" "load (resumeTask en i n s) < load s"
    "sockets s w = Some Open \<Longrightarrow> due w s \<le> due w (resumeTask en i n s)"
proof -
  let ?t = "tasks s ! n" and ?s = "s\<lparr>tasks := remove_nth n (tasks s)\<rparr>"
  have ans: "answered (weight ?t) (task_ws ?t) ?s (resumeTask en i n s)"
    using answered_runTask by (simp add: resumeTask_def)
  have due: "due w s = due w ?s + (if task_ws ?t = w then 1 else 0)" for w
    by (simp add: due_def replies_def remove_nth_split [OF n])
  have load: "load s = load ?s + weight ?t"
    by (simp add: load_def remove_nth_split(2) [OF n, where f = weight])
  show "sockets (resumeTask en i n s) = sockets s" "load (resumeTask en i n s) < load s"
    using ans load by (simp_all add: answered_def)
  show "sockets s w = Some Open \<Longrightarrow> due w s \<le> due w (resumeTask en i n s)"
    using ans due by (auto simp: answered_def)
qed

definition settling :: "(event \<times> inputs) list \<Rightarrow> bool" where
  "settling es \<longleftrightarrow> (\<forall>e \<in> set es. \<exists>n i. e = (Resumed n, i))"

lemma settling_run:
  assumes "run (relay_step en) s es s'" "settling es"
  shows "sockets s' = sockets s \<and> length es + load s' \<le> load s \<and> (\<forall>w. sockets s w = Some Open \<longrightarrow> due w s \<le> due w s')"
  using assms
proof (induction rule: run.induct)
  case (run_cons s e s1 es s2)
  obtain n i where e: "e = (Resumed n, i)" using run_cons.prems by (auto simp: settling_def)
  then have n: "n < length (tasks s)" and s1: "s1 = resumeTask en i n s"
    using run_cons.hyps(1) by (auto simp: relay_step_simps)
  note d = resumeTask_due [OF n, where en = en and i = i, folded s1]
  have IH: "sockets s2 = sockets s1 \<and> length es + load s2 \<le> load s1 \<and> (\<forall>w. sockets s1 w = Some Open \<longrightarrow> due w s1 \<le> due w s2)"
    using run_cons.IH run_cons.prems by (simp add: settling_def)
  then show ?case using d by (fastforce intro: order_trans)
qed simp

lemma load_le: "load s \<le> 2 * length (tasks s)"
proof -
  have "sum_list (map weight ts) \<le> 2 * length ts" for ts
    by (induction ts) (auto intro: add_mono [OF weights(1), simplified])
  then show ?thesis by (simp add: load_def)
qed

section \<open>Property\<close>

text \<open>C22: Every message is answered: after a message from an open socket, unless it is the legacy \<open>ack\<close>, the
  pending continuations can run in any order and with any clocks; as long as one is left another
  can run, at most two per waiting handler and two for the message itself are run, and when none is
  left the socket has got an answer for the message and one for each of its handlers that were
  waiting before.\<close>

theorem every_message_answered:
  assumes ws: "sockets s ws = Some Open"
    and msg: "\<forall>msg. json_parse (env_rt en) data = Some msg \<longrightarrow> jget_str ''type'' msg \<noteq> Some ''ack''"
    and run: "run (relay_step en) s ((Received ws data, i) # es) s'" and es: "settling es"
  shows "length es \<le> 2 * length (tasks s) + 2 \<and>
    (tasks s' \<noteq> [] \<longrightarrow> (\<exists>s''. relay_step en s' (Resumed 0, j) s'')) \<and>
    (tasks s' = [] \<longrightarrow> replies ws s + length (filter (\<lambda>t. task_ws t = ws) (tasks s)) < replies ws s')"
proof -
  let ?s1 = "receiveMessage en i ws data s"
  have run1: "run (relay_step en) ?s1 es s'"
    using run by (auto simp: relay_step_simps elim: run_ConsE)
  have ans: "answered 3 ws s ?s1"
    using msg answered_handleMessage by (simp add: receiveMessage_def split: option.split)
  note st = settling_run [OF run1 es]
  have "length es \<le> 2 * length (tasks s) + 2" using st ans load_le [of s] by (simp add: answered_def)
  moreover have "due ws s < due ws s'" using st ans ws by (auto simp: answered_def intro: less_le_trans)
  moreover have "\<exists>s''. relay_step en s' (Resumed 0, j) s''" if "tasks s' \<noteq> []"
    using that by (auto simp: relay_step_simps)
  ultimately show ?thesis by (auto simp: due_def)
qed

theorem every_message_answered_witness:
  "\<exists>s s'. tasks s = [] \<and> run (relay_step (demo_env 3)) s [(Received 0 [11], demo_in), (Resumed 0, demo_in)] s' \<and>
    tasks s' = [] \<and> replies 0 s < replies 0 s'"
proof -
  obtain s' where s': "exec (demo_env 3) (Resumed 0, demo_in) demo_answering = Some s'" "tasks s' = []"
    by (rule demo_registered [of 3])
  have run: "run (relay_step (demo_env 3)) demo_challenged [(Received 0 [11], demo_in), (Resumed 0, demo_in)] s'"
    unfolding run_relay_iff using s'(1) demo_answering [of 3] by simp
  have msg: "\<forall>msg. json_parse (env_rt (demo_env 3)) [11] = Some msg \<longrightarrow> jget_str ''type'' msg \<noteq> Some ''ack''"
    by (simp add: demo_parse challenge_response_frame_def jget_str_def)
  have "settling [(Resumed 0, demo_in)]" by (simp add: settling_def)
  from every_message_answered [OF _ msg run this] s'(2) have "replies 0 demo_challenged < replies 0 s'" by simp
  moreover have "tasks demo_challenged = []" by simp
  ultimately show ?thesis using run s'(2) by blast
qed

end
