(* ===== verification/Metrics.thy ===== *)
theory Metrics
  imports RelayState
begin

text \<open>
  The metrics of the relay (\<^verbatim>\<open>packages/wot-relay/src/metrics.ts\<close>): monotone counters, flushed every ten
  seconds into a ring of buckets, and the query that reads a window of the ring in at most 360 merged
  buckets. A \<^verbatim>\<open>NaN\<close> of the typed arrays is \<open>None\<close>, other values are rationals. What \<^verbatim>\<open>flush\<close> reads from the
  host (memory, load, disk, temperature, event loop, network counters and the two gauges its caller
  passes) is the parameter \<open>host\<close>.
\<close>

section \<open>Catalog\<close>

definition METRICS_BUCKET_SECONDS :: nat where "METRICS_BUCKET_SECONDS = 10"

definition METRICS_RING_SLOTS :: nat where "METRICS_RING_SLOTS = 8640"

definition METRICS_MAX_POINTS :: nat where "METRICS_MAX_POINTS = 360"

datatype metrics_window = W15m | W1h | W6h | W24h

fun METRICS_WINDOWS :: "metrics_window \<Rightarrow> nat" where
  "METRICS_WINDOWS W15m = 900"
| "METRICS_WINDOWS W1h = 3600"
| "METRICS_WINDOWS W6h = 21600"
| "METRICS_WINDOWS W24h = 86400"

datatype agg_kind = Sum | Max | Min | Avg

datatype counter_name =
    IngestOks | ReceiptsDelivered | ReceiptsAccepted | ErrorFramesSent | RawWsConnects
  | WsConnects | WsDisconnects | InboxEnqueues | InboxDeliveredEntries | Acks

datatype series =
    CounterDelta counter_name | RejectDelta reject_code | NetRxBytes | NetTxBytes
  | EventLoopLagP99Ms | SqliteWriteP95Ms | RssMB | HeapUsedMB | Connections | QueuePendingTotal | CpuTempC
  | Loadavg1 | Loadavg5 | Loadavg15 | MemAvailableMB | DiskFreeMB | MemTotalMB | DiskTotalMB

fun SERIES_AGG :: "series \<Rightarrow> agg_kind" where
  "SERIES_AGG (CounterDelta _) = Sum"
| "SERIES_AGG (RejectDelta _) = Sum"
| "SERIES_AGG NetRxBytes = Sum"
| "SERIES_AGG NetTxBytes = Sum"
| "SERIES_AGG Loadavg1 = Avg"
| "SERIES_AGG Loadavg5 = Avg"
| "SERIES_AGG Loadavg15 = Avg"
| "SERIES_AGG MemAvailableMB = Min"
| "SERIES_AGG DiskFreeMB = Min"
| "SERIES_AGG _ = Max"

definition reject_codes :: "reject_code list" where
  "reject_codes = map RejectCode INGEST_REJECT_CODES @ [OTHER]"

section \<open>State\<close>

type_synonym bucket_values = "series \<Rightarrow> rat option"

record slot =
  sl_t :: int
  sl_values :: bucket_values

record net_counters =
  net_iface :: string
  net_rx :: rat
  net_tx :: rat

record host =
  h_net :: "net_counters option"
  h_gauge :: bucket_values

record metrics =
  counters :: "counter_name \<Rightarrow> nat"
  rejectCounters :: "reject_code \<Rightarrow> nat"
  lastFlushedCounters :: "counter_name \<Rightarrow> nat"
  lastFlushedRejects :: "reject_code \<Rightarrow> nat"
  ring :: "slot option list"
  writeIdx :: nat
  written :: nat
  lastFlushMs :: "int option"
  lastWrittenT :: "int option"
  lastNet :: "net_counters option"
  sqliteSamples :: "rat list"
  sqliteSeen :: nat

definition initial_metrics :: metrics where
  "initial_metrics = \<lparr>counters = (\<lambda>_. 0), rejectCounters = (\<lambda>_. 0), lastFlushedCounters = (\<lambda>_. 0),
     lastFlushedRejects = (\<lambda>_. 0), ring = replicate METRICS_RING_SLOTS None, writeIdx = 0, written = 0,
     lastFlushMs = None, lastWrittenT = None, lastNet = None, sqliteSamples = [], sqliteSeen = 0\<rparr>"

section \<open>Counting\<close>

definition increase :: "counter_name \<Rightarrow> nat \<Rightarrow> metrics \<Rightarrow> metrics" where
  "increase c n m = m\<lparr>counters := (counters m)(c := counters m c + n)\<rparr>"

text \<open>The counting methods, one for each counter the relay bumps.\<close>

fun count :: "counter \<Rightarrow> metrics \<Rightarrow> metrics" where
  "count IngestOk m = increase IngestOks 1 m"
| "count (IngestReject code) m = m\<lparr>rejectCounters := (rejectCounters m)(code := rejectCounters m code + 1)\<rparr>"
| "count (ReceiptSent Delivered) m = increase ReceiptsDelivered 1 m"
| "count (ReceiptSent Accepted) m = increase ReceiptsAccepted 1 m"
| "count ErrorFrameSent m = increase ErrorFramesSent 1 m"
| "count RawWsConnect m = increase RawWsConnects 1 m"
| "count WsConnect m = increase WsConnects 1 m"
| "count WsDisconnect m = increase WsDisconnects 1 m"
| "count InboxEnqueued m = increase InboxEnqueues 1 m"
| "count (InboxDelivered n) m = increase InboxDeliveredEntries n m"
| "count AckApplied m = increase Acks 1 m"

definition SQLITE_RESERVOIR_CAP :: nat where "SQLITE_RESERVOIR_CAP = 512"

text \<open>\<open>j\<close> is the random index the code draws.\<close>

definition recordSqliteWriteMs :: "rat \<Rightarrow> nat \<Rightarrow> metrics \<Rightarrow> metrics" where
  "recordSqliteWriteMs ms j m =
     (let m1 = m\<lparr>sqliteSeen := sqliteSeen m + 1\<rparr> in
      if length (sqliteSamples m1) < SQLITE_RESERVOIR_CAP then m1\<lparr>sqliteSamples := sqliteSamples m1 @ [ms]\<rparr>
      else if j < SQLITE_RESERVOIR_CAP then m1\<lparr>sqliteSamples := (sqliteSamples m1)[j := ms]\<rparr>
      else m1)"

section \<open>Flushing\<close>

definition writeSlot :: "int \<Rightarrow> bucket_values \<Rightarrow> metrics \<Rightarrow> metrics" where
  "writeSlot t values m =
     m\<lparr>ring := (ring m)[writeIdx m := Some \<lparr>sl_t = t, sl_values = values\<rparr>],
       writeIdx := (writeIdx m + 1) mod METRICS_RING_SLOTS,
       written := min (written m + 1) METRICS_RING_SLOTS,
       lastWrittenT := Some t\<rparr>"

definition sqlite_p95 :: "rat list \<Rightarrow> rat option" where
  "sqlite_p95 samples =
     (if samples = [] then None
      else let n = int (length samples) in Some (sort samples ! nat (min (n - 1) (\<lceil>(95 / 100) * rat_of_int n\<rceil> - 1))))"

definition drainSqliteP95 :: "metrics \<Rightarrow> rat option \<times> metrics" where
  "drainSqliteP95 m = (sqlite_p95 (sqliteSamples m), m\<lparr>sqliteSamples := [], sqliteSeen := 0\<rparr>)"

definition resync_counters :: "metrics \<Rightarrow> metrics" where
  "resync_counters m = m\<lparr>lastFlushedCounters := counters m, lastFlushedRejects := rejectCounters m\<rparr>"

definition resyncDeltaBaselines :: "host \<Rightarrow> metrics \<Rightarrow> metrics" where
  "resyncDeltaBaselines h m = (resync_counters m)\<lparr>lastNet := h_net h, sqliteSamples := [], sqliteSeen := 0\<rparr>"

definition net_delta :: "(net_counters \<Rightarrow> rat) \<Rightarrow> bool \<Rightarrow> host \<Rightarrow> metrics \<Rightarrow> rat option" where
  "net_delta f gap h m =
     (case (h_net h, lastNet m) of
        (Some new, Some old) \<Rightarrow>
          if \<not> gap \<and> net_iface new = net_iface old \<and> f new - f old \<ge> 0 then Some (f new - f old) else None
      | _ \<Rightarrow> None)"

text \<open>The values of the current bucket; \<open>p95\<close> is what the sample reservoir gave.\<close>

fun bucket_of :: "bool \<Rightarrow> host \<Rightarrow> rat option \<Rightarrow> metrics \<Rightarrow> bucket_values" where
  "bucket_of gap h p95 m (CounterDelta c) =
     (if gap then None else Some (rat_of_nat (counters m c) - rat_of_nat (lastFlushedCounters m c)))"
| "bucket_of gap h p95 m (RejectDelta code) =
     (if gap then None else Some (rat_of_nat (rejectCounters m code) - rat_of_nat (lastFlushedRejects m code)))"
| "bucket_of gap h p95 m NetRxBytes = net_delta net_rx gap h m"
| "bucket_of gap h p95 m NetTxBytes = net_delta net_tx gap h m"
| "bucket_of gap h p95 m SqliteWriteP95Ms = p95"
| "bucket_of gap h p95 m s = h_gauge h s"

definition bucketMs :: int where "bucketMs = int METRICS_BUCKET_SECONDS * 1000"

definition writeMissed :: "int \<Rightarrow> metrics \<Rightarrow> metrics" where
  "writeMissed t m =
     (if (case lastWrittenT m of Some w \<Rightarrow> t \<le> w | None \<Rightarrow> False) then m else writeSlot t (\<lambda>_. None) m)"

definition missed_times :: "int \<Rightarrow> int \<Rightarrow> int list" where
  "missed_times prev nowMs =
     (let missed = min (nat ((nowMs - prev) div bucketMs - 1)) METRICS_RING_SLOTS in
      map (\<lambda>i. prev + (int i + 1) * bucketMs) [0..<missed])"

definition writeBucket :: "int \<Rightarrow> bool \<Rightarrow> host \<Rightarrow> metrics \<Rightarrow> metrics" where
  "writeBucket nowMs gap h m =
     (let (p95, m1) = drainSqliteP95 m;
          values = bucket_of gap h p95 m1;
          m2 = writeSlot nowMs values ((resync_counters m1)\<lparr>lastNet := h_net h\<rparr>) in
      m2\<lparr>lastFlushMs := Some nowMs\<rparr>)"

definition flush :: "int \<Rightarrow> host \<Rightarrow> metrics \<Rightarrow> metrics" where
  "flush nowMs h m =
     (case lastFlushMs m of
        None \<Rightarrow> writeBucket nowMs False h m
      | Some prev \<Rightarrow>
          let elapsed = nowMs - prev in
          if elapsed \<le> 0 \<or> (case lastWrittenT m of Some w \<Rightarrow> nowMs \<le> w | None \<Rightarrow> False)
          then (resyncDeltaBaselines h m)\<lparr>lastFlushMs := Some nowMs\<rparr>
          else if elapsed > 2 * bucketMs
          then writeBucket nowMs True h (fold writeMissed (missed_times prev nowMs) m)
          else writeBucket nowMs False h m)"

section \<open>Reading a window\<close>

record bucket =
  bk_t :: int
  bk_span :: nat
  bk_rejects :: "(reject_code \<times> rat) list option"
  bk_gap :: bool
  bk_values :: "series \<Rightarrow> rat option"

definition merge_values :: "agg_kind \<Rightarrow> rat list \<Rightarrow> rat option" where
  "merge_values k vs =
     (case vs of
        [] \<Rightarrow> None
      | v # rest \<Rightarrow> Some (case k of
          Sum \<Rightarrow> fold (\<lambda>x acc. acc + x) rest v
        | Avg \<Rightarrow> fold (\<lambda>x acc. acc + x) rest v / rat_of_nat (length vs)
        | Max \<Rightarrow> fold (\<lambda>x acc. max acc x) rest v
        | Min \<Rightarrow> fold (\<lambda>x acc. min acc x) rest v))"

text \<open>\<^verbatim>\<open>Math.round(x * 1000) / 1000\<close>\<close>

definition round_milli :: "rat \<Rightarrow> rat" where
  "round_milli x = rat_of_int \<lfloor>x * 1000 + 1 / 2\<rfloor> / 1000"

definition agg :: "slot list \<Rightarrow> series \<Rightarrow> rat option" where
  "agg grp s = map_option round_milli
     (merge_values (SERIES_AGG s) (List.map_filter (\<lambda>x. sl_values x s) grp))"

definition agg_rejects :: "slot list \<Rightarrow> (reject_code \<times> rat) list option" where
  "agg_rejects grp =
     (if \<forall>code \<in> set reject_codes. agg grp (RejectDelta code) = None then None
      else Some (List.map_filter (\<lambda>code. case agg grp (RejectDelta code) of
             Some v \<Rightarrow> if v > 0 then Some (code, v) else None
           | None \<Rightarrow> None) reject_codes))"

definition mergeGroup :: "slot list \<Rightarrow> bucket" where
  "mergeGroup grp =
     \<lparr>bk_t = sl_t (last grp), bk_span = length grp * METRICS_BUCKET_SECONDS, bk_rejects = agg_rejects grp,
      bk_gap = list_ex (\<lambda>x. sl_values x (CounterDelta IngestOks) = None) grp, bk_values = (\<lambda>s. case s of RejectDelta _ \<Rightarrow> None | _ \<Rightarrow> agg grp s)\<rparr>"

text \<open>The slots of the ring, oldest first.\<close>

definition chronological :: "metrics \<Rightarrow> slot list" where
  "chronological m =
     List.map_filter (\<lambda>i. ring m ! ((writeIdx m + METRICS_RING_SLOTS - written m + i) mod METRICS_RING_SLOTS)) [0..<written m]"

definition in_window :: "metrics_window \<Rightarrow> int \<Rightarrow> slot \<Rightarrow> bool" where
  "in_window w nowMs x \<longleftrightarrow> nowMs - int (METRICS_WINDOWS w) * 1000 \<le> sl_t x \<and> sl_t x \<le> nowMs"

definition mergeFactor :: "metrics_window \<Rightarrow> nat" where
  "mergeFactor w =
     (let wanted = nat \<lceil>rat_of_nat (METRICS_WINDOWS w) / rat_of_nat METRICS_BUCKET_SECONDS\<rceil> in
      max 1 (nat \<lceil>rat_of_nat wanted / rat_of_nat METRICS_MAX_POINTS\<rceil>))"

text \<open>Groups of \<open>n\<close> from the end; the first group takes the rest.\<close>

function groups :: "nat \<Rightarrow> 'a list \<Rightarrow> 'a list list" where
  "groups n xs =
     (if xs = [] \<or> n = 0 then []
      else groups n (take (length xs - n) xs) @ [drop (length xs - n) xs])"
  by pat_completeness auto
termination by (relation "measure (\<lambda>(n, xs). length xs)") (auto simp: neq_Nil_conv)

declare groups.simps [simp del]

definition query :: "metrics_window \<Rightarrow> int \<Rightarrow> metrics \<Rightarrow> bucket list" where
  "query w nowMs m = map mergeGroup (groups (mergeFactor w) (filter (in_window w nowMs) (chronological m)))"

section \<open>The ring is a bounded log\<close>

definition last_n :: "nat \<Rightarrow> 'a list \<Rightarrow> 'a list" where
  "last_n n xs = drop (length xs - n) xs"

lemma last_n_append: "last_n n (last_n n xs @ ys) = last_n n (xs @ ys)"
  by (cases "length xs \<le> n") (simp_all add: last_n_def add.commute)

lemma length_last_n [simp]: "length (last_n n xs) = min (length xs) n"
  by (simp add: last_n_def)

lemma mod_shift: "w < R \<Longrightarrow> 0 < k \<Longrightarrow> k < R \<Longrightarrow> (w + k) mod R \<noteq> (w :: nat)"
  by (cases "w + k < R") (auto simp: mod_if)

definition ring_raw :: "nat \<Rightarrow> nat \<Rightarrow> nat \<Rightarrow> 'a list \<Rightarrow> 'a list" where
  "ring_raw R w n r = map (\<lambda>i. r ! ((w + R - n + i) mod R)) [0..<n]"

lemma ring_raw_write:
  assumes "length r = R" "w < R" "n \<le> R"
  shows "ring_raw R ((w + 1) mod R) (min (n + 1) R) (r[w := x]) = last_n R (ring_raw R w n r @ [x])"
proof (cases "n < R")
  case True
  have pos: "((w + 1) mod R + R - (n + 1) + i) mod R = (w + R - n + i) mod R" for i
  proof -
    have "a + R - (n + 1) + i = a + (R - (n + 1) + i)" for a using True by simp
    then have "((w + 1) mod R + R - (n + 1) + i) mod R = ((w + 1) mod R + (R - (n + 1) + i)) mod R"
      by (simp only:)
    also have "\<dots> = (w + 1 + (R - (n + 1) + i)) mod R" by (simp only: mod_add_left_eq)
    also have "w + 1 + (R - (n + 1) + i) = w + R - n + i" using True by simp
    finally show ?thesis .
  qed
  have other: "(w + R - n + i) mod R \<noteq> w" if "i < n" for i
  proof -
    have "w + R - n + i = w + (R - n + i)" using True by simp
    then show ?thesis using mod_shift [of w R "R - n + i"] assms(2) that True by simp
  qed
  have len: "length (ring_raw R w n r @ [x]) \<le> R" using True by (simp add: ring_raw_def)
  have "ring_raw R ((w + 1) mod R) (n + 1) (r[w := x]) = ring_raw R w n r @ [x]"
  proof (rule nth_equalityI)
    fix i assume "i < length (ring_raw R ((w + 1) mod R) (n + 1) (r[w := x]))"
    then have i: "i < n \<or> i = n" by (auto simp: ring_raw_def)
    then show "ring_raw R ((w + 1) mod R) (n + 1) (r[w := x]) ! i = (ring_raw R w n r @ [x]) ! i"
      using pos other [of i] assms True by (auto simp: ring_raw_def nth_append nth_list_update simp del: upt_Suc)
  qed (simp add: ring_raw_def)
  then show ?thesis using True len by (simp add: last_n_def)
next
  case False
  then have n: "n = R" using assms by simp
  show ?thesis
  proof (rule nth_equalityI)
    fix i assume "i < length (ring_raw R ((w + 1) mod R) (min (n + 1) R) (r[w := x]))"
    then have i: "i < R" by (simp add: ring_raw_def n)
    have pos: "((w + 1) mod R + i) mod R = (w + 1 + i) mod R" by (simp add: mod_add_left_eq)
    have other: "(w + 1 + i) mod R \<noteq> w" if "i < R - 1"
      using mod_shift [of w R "Suc i"] that assms(2) by simp
    have top: "Suc (i + w) mod R = w" if "\<not> i < R - 1"
    proof -
      have "Suc i = R" using i that by simp
      then show ?thesis using assms(2) by (metis add_Suc mod_add_self1 mod_less)
    qed
    show "ring_raw R ((w + 1) mod R) (min (n + 1) R) (r[w := x]) ! i = last_n R (ring_raw R w n r @ [x]) ! i"
      using i pos other top assms
      by (cases "i < R - 1") (auto simp: ring_raw_def last_n_def n nth_append nth_list_update ac_simps simp del: upt_Suc)
  qed (simp add: ring_raw_def n)
qed

definition ring_ok :: "metrics \<Rightarrow> bool" where
  "ring_ok m \<longleftrightarrow> length (ring m) = METRICS_RING_SLOTS \<and> writeIdx m < METRICS_RING_SLOTS \<and> written m \<le> METRICS_RING_SLOTS \<and>
     ring_raw METRICS_RING_SLOTS (writeIdx m) (written m) (ring m) = map Some (chronological m)"

lemma chronological_raw:
  "chronological m = List.map_filter (\<lambda>x. x) (ring_raw METRICS_RING_SLOTS (writeIdx m) (written m) (ring m))"
  by (simp add: chronological_def ring_raw_def List.map_filter_def filter_map comp_def)

lemma map_filter_Some: "List.map_filter (\<lambda>x. x) (map Some xs) = xs"
  by (induction xs) (simp_all add: List.map_filter_def)

lemma last_n_map: "last_n n (map f xs) = map f (last_n n xs)"
  by (simp add: last_n_def drop_map)

lemma writeSlot_chronological:
  assumes "ring_ok m"
  shows "ring_ok (writeSlot t v m)"
    and "chronological (writeSlot t v m) = last_n METRICS_RING_SLOTS (chronological m @ [\<lparr>sl_t = t, sl_values = v\<rparr>])"
proof -
  let ?R = METRICS_RING_SLOTS and ?x = "\<lparr>sl_t = t, sl_values = v\<rparr>" and ?m = "writeSlot t v m"
  have raw: "ring_raw ?R (writeIdx ?m) (written ?m) (ring ?m) = map Some (last_n ?R (chronological m @ [?x]))"
    using assms ring_raw_write [of "ring m" ?R "writeIdx m" "written m" "Some ?x"]
    by (simp add: ring_ok_def writeSlot_def last_n_map [symmetric])
  then show chron: "chronological ?m = last_n ?R (chronological m @ [?x])"
    by (simp add: chronological_raw map_filter_Some)
  show "ring_ok ?m"
    using assms raw chron by (simp add: ring_ok_def) (simp add: writeSlot_def METRICS_RING_SLOTS_def)
qed

end
