(* ===== verification/MetricsHistory.thy ===== *)
theory MetricsHistory
  imports Metrics
begin

text \<open>
  The ring of metrics against its reference: the list of all buckets ever written. A query of the ring is
  a query of the last 8640 buckets of that history, whose times increase strictly and whose deltas
  account for every counted event at most once.
\<close>

section \<open>Histories\<close>

datatype metrics_op = Count counter | Sample rat nat | Flush int host

fun apply_op :: "metrics_op \<Rightarrow> metrics \<Rightarrow> metrics" where
  "apply_op (Count c) m = count c m"
| "apply_op (Sample ms j) m = recordSqliteWriteMs ms j m"
| "apply_op (Flush now h) m = flush now h m"

fun apply_ops :: "metrics_op list \<Rightarrow> metrics \<Rightarrow> metrics" where
  "apply_ops [] m = m"
| "apply_ops (x # xs) m = apply_ops xs (apply_op x m)"

definition skipped :: "int \<Rightarrow> metrics \<Rightarrow> bool" where
  "skipped now m \<longleftrightarrow> (case lastFlushMs m of None \<Rightarrow> False | Some prev \<Rightarrow>
     now \<le> prev \<or> (case lastWrittenT m of Some w \<Rightarrow> now \<le> w | None \<Rightarrow> False))"

definition gapped :: "int \<Rightarrow> metrics \<Rightarrow> bool" where
  "gapped now m \<longleftrightarrow> (case lastFlushMs m of None \<Rightarrow> False | Some prev \<Rightarrow> now - prev > 2 * bucketMs)"

definition after_written :: "metrics \<Rightarrow> int \<Rightarrow> bool" where
  "after_written m t \<longleftrightarrow> (case lastWrittenT m of Some w \<Rightarrow> w < t | None \<Rightarrow> True)"

definition null_slot :: "int \<Rightarrow> slot" where
  "null_slot t = \<lparr>sl_t = t, sl_values = (\<lambda>_. None)\<rparr>"

definition missed_slots :: "int \<Rightarrow> metrics \<Rightarrow> slot list" where
  "missed_slots now m = (case lastFlushMs m of None \<Rightarrow> [] | Some prev \<Rightarrow>
     if gapped now m then map null_slot (filter (after_written m) (missed_times prev now)) else [])"

definition bucket_slot :: "int \<Rightarrow> host \<Rightarrow> metrics \<Rightarrow> slot" where
  "bucket_slot now h m = \<lparr>sl_t = now, sl_values = bucket_of (gapped now m) h (sqlite_p95 (sqliteSamples m)) m\<rparr>"

fun new_slots :: "metrics_op \<Rightarrow> metrics \<Rightarrow> slot list" where
  "new_slots (Flush now h) m = (if skipped now m then [] else missed_slots now m @ [bucket_slot now h m])"
| "new_slots _ m = []"

fun history :: "metrics_op list \<Rightarrow> metrics \<Rightarrow> slot list" where
  "history [] m = []"
| "history (x # xs) m = new_slots x m @ history xs (apply_op x m)"

section \<open>What a flush writes\<close>

lemma missed_times_sorted: "sorted_wrt (<) (missed_times prev now)"
  by (simp add: missed_times_def Let_def sorted_wrt_map bucketMs_def METRICS_BUCKET_SECONDS_def
      sorted_wrt_less_idx strict_sorted_iff)

lemma missed_times_bounds: "t \<in> set (missed_times prev now) \<Longrightarrow> prev < t \<and> t < now"
proof -
  assume "t \<in> set (missed_times prev now)"
  then obtain i where "i < nat ((now - prev) div bucketMs - 1)" and t: "t = prev + (int i + 1) * bucketMs"
    by (auto simp: missed_times_def Let_def)
  then have i: "int i < (now - prev) div bucketMs - 1" by linarith
  have b: "bucketMs = 10000" by (simp add: bucketMs_def METRICS_BUCKET_SECONDS_def)
  define q where "q = (now - prev) div 10000"
  have "10000 * q \<le> now - prev"
    unfolding q_def using mult_div_mod_eq [of 10000 "now - prev"] pos_mod_sign [of 10000 "now - prev"] by linarith
  moreover from i have "int i < q - 1" by (simp only: b q_def)
  then have "(int i + 2) * 10000 \<le> q * 10000" by (intro mult_right_mono) simp_all
  ultimately have "(int i + 2) * 10000 \<le> now - prev" by simp
  then have "int i * 10000 + 20000 \<le> now - prev" by (simp add: distrib_right)
  then show ?thesis unfolding t b by (simp add: distrib_right)
qed

lemma bucket_of_drain [simp]:
  "bucket_of gap h p (m\<lparr>sqliteSamples := xs, sqliteSeen := n\<rparr>) s = bucket_of gap h p m s"
  by (cases s) (simp_all add: net_delta_def)

lemma bucket_of_written [simp]: "bucket_of gap h p (writeSlot t v m) s = bucket_of gap h p m s"
  by (cases s) (simp_all add: net_delta_def writeSlot_def)

lemma writeSlot_simps [simp]:
  "counters (writeSlot t v m) = counters m" "rejectCounters (writeSlot t v m) = rejectCounters m"
  "lastFlushedCounters (writeSlot t v m) = lastFlushedCounters m" "lastFlushedRejects (writeSlot t v m) = lastFlushedRejects m"
  "lastFlushMs (writeSlot t v m) = lastFlushMs m" "lastWrittenT (writeSlot t v m) = Some t"
  "lastNet (writeSlot t v m) = lastNet m" "sqliteSamples (writeSlot t v m) = sqliteSamples m"
  by (simp_all add: writeSlot_def)

lemma ring_ok_cong:
  "ring m' = ring m \<Longrightarrow> writeIdx m' = writeIdx m \<Longrightarrow> written m' = written m \<Longrightarrow>
   ring_ok m' = ring_ok m \<and> chronological m' = chronological m"
  by (simp add: ring_ok_def chronological_def)

text \<open>The missed slots are written in order, each if it is after the last one written.\<close>

lemma fold_writeMissed:
  assumes "sorted_wrt (<) ts" "ring_ok m"
  shows "ring_ok (fold writeMissed ts m) \<and>
    chronological (fold writeMissed ts m) =
      last_n METRICS_RING_SLOTS (chronological m @ map null_slot (filter (after_written m) ts)) \<and>
    counters (fold writeMissed ts m) = counters m \<and> rejectCounters (fold writeMissed ts m) = rejectCounters m \<and>
    lastFlushedCounters (fold writeMissed ts m) = lastFlushedCounters m \<and>
    lastFlushedRejects (fold writeMissed ts m) = lastFlushedRejects m \<and>
    lastNet (fold writeMissed ts m) = lastNet m \<and> sqliteSamples (fold writeMissed ts m) = sqliteSamples m"
  using assms
proof (induction ts arbitrary: m)
  case Nil
  have "length (chronological m) \<le> METRICS_RING_SLOTS"
    using Nil(2) arg_cong [of _ _ length] by (fastforce simp: ring_ok_def ring_raw_def)
  then show ?case using Nil(2) by (simp add: last_n_def)
next
  case (Cons t ts)
  have later: "\<forall>x \<in> set ts. t < x" and sorted: "sorted_wrt (<) ts" using Cons.prems(1) by auto
  show ?case
  proof (cases "after_written m t")
    case False
    then have "writeMissed t m = m" by (auto simp: writeMissed_def after_written_def split: option.splits)
    then show ?thesis using Cons.IH [OF sorted Cons.prems(2)] False by simp
  next
    case True
    let ?m = "writeSlot t (\<lambda>_. None) m"
    have w: "writeMissed t m = ?m" using True by (auto simp: writeMissed_def after_written_def split: option.splits)
    have ok: "ring_ok ?m" by (rule writeSlot_chronological [OF Cons.prems(2)])
    have "filter (after_written ?m) ts = ts" using later by (simp add: after_written_def filter_id_conv)
    moreover have "filter (after_written m) ts = ts"
      using later True by (auto simp: after_written_def filter_id_conv split: option.splits)
    ultimately show ?thesis
      using Cons.IH [OF sorted ok] True
      by (simp add: w writeSlot_chronological(2) [OF Cons.prems(2)] last_n_append null_slot_def)
  qed
qed

text \<open>A flush appends the new buckets to the ring.\<close>

lemma writeBucket_facts:
  assumes "ring_ok m"
  shows "ring_ok (writeBucket now gap h m) \<and>
    chronological (writeBucket now gap h m) = last_n METRICS_RING_SLOTS
      (chronological m @ [\<lparr>sl_t = now, sl_values = bucket_of gap h (sqlite_p95 (sqliteSamples m)) m\<rparr>]) \<and>
    counters (writeBucket now gap h m) = counters m \<and> rejectCounters (writeBucket now gap h m) = rejectCounters m \<and>
    lastFlushedCounters (writeBucket now gap h m) = counters m \<and>
    lastFlushedRejects (writeBucket now gap h m) = rejectCounters m \<and>
    lastFlushMs (writeBucket now gap h m) = Some now \<and> lastWrittenT (writeBucket now gap h m) = Some now"
proof -
  let ?m1 = "m\<lparr>sqliteSamples := [], sqliteSeen := 0\<rparr>"
  let ?v = "bucket_of gap h (sqlite_p95 (sqliteSamples m)) ?m1"
  let ?m2 = "(resync_counters ?m1)\<lparr>lastNet := h_net h\<rparr>"
  have v: "?v = bucket_of gap h (sqlite_p95 (sqliteSamples m)) m" by (rule ext) simp
  have same: "ring_ok ?m2 = ring_ok m" "chronological ?m2 = chronological m"
    using ring_ok_cong [of ?m2 m] by (simp_all add: resync_counters_def)
  then have ok: "ring_ok ?m2" using assms by simp
  have w: "writeBucket now gap h m = (writeSlot now ?v ?m2)\<lparr>lastFlushMs := Some now\<rparr>"
    by (simp add: writeBucket_def drainSqliteP95_def)
  have "ring_ok (writeBucket now gap h m)" "chronological (writeBucket now gap h m) = chronological (writeSlot now ?v ?m2)"
    using ring_ok_cong [of "writeBucket now gap h m" "writeSlot now ?v ?m2"] writeSlot_chronological(1) [OF ok, of now ?v]
    by (simp_all add: w)
  then show ?thesis
    using writeSlot_chronological(2) [OF ok, of now ?v] same v by (simp add: w) (simp add: resync_counters_def)
qed

lemma flush_facts:
  assumes ok: "ring_ok m"
  shows "ring_ok (flush now h m) \<and>
    chronological (flush now h m) = last_n METRICS_RING_SLOTS (chronological m @ new_slots (Flush now h) m) \<and>
    counters (flush now h m) = counters m \<and> rejectCounters (flush now h m) = rejectCounters m \<and>
    lastFlushedCounters (flush now h m) = counters m \<and> lastFlushedRejects (flush now h m) = rejectCounters m \<and>
    lastFlushMs (flush now h m) = Some now \<and>
    lastWrittenT (flush now h m) = (if skipped now m then lastWrittenT m else Some now)"
proof (cases "lastFlushMs m")
  case None
  then show ?thesis
    using writeBucket_facts [OF ok, of now False h]
    by (simp add: flush_def skipped_def gapped_def missed_slots_def bucket_slot_def)
next
  case (Some prev)
  show ?thesis
  proof (cases "skipped now m")
    case True
    let ?m = "(resyncDeltaBaselines h m)\<lparr>lastFlushMs := Some now\<rparr>"
    have "flush now h m = ?m" using True Some by (auto simp: flush_def skipped_def Let_def split: option.splits)
    moreover have "ring_ok ?m = ring_ok m \<and> chronological ?m = chronological m"
      by (rule ring_ok_cong) (simp_all add: resyncDeltaBaselines_def resync_counters_def)
    moreover have "last_n METRICS_RING_SLOTS (chronological m) = chronological m"
      using fold_writeMissed [OF _ ok, of "[]"] by simp
    ultimately show ?thesis using ok True by (simp add: resyncDeltaBaselines_def resync_counters_def)
  next
    case False
    show ?thesis
    proof (cases "gapped now m")
      case True
      let ?m = "fold writeMissed (missed_times prev now) m"
      note f = fold_writeMissed [OF missed_times_sorted ok, of prev now]
      have run: "flush now h m = writeBucket now True h ?m"
        using True False Some by (auto simp: flush_def skipped_def gapped_def Let_def split: option.splits)
      have "bucket_of True h p ?m = bucket_of True h p m" for p
      proof (rule ext)
        show "bucket_of True h p ?m s = bucket_of True h p m s" for s by (cases s) (use f in \<open>simp_all add: net_delta_def\<close>)
      qed
      then show ?thesis
        using writeBucket_facts [of ?m now True h] f False True Some
        by (simp add: run last_n_append missed_slots_def bucket_slot_def)
    next
      case nogap: False
      have "flush now h m = writeBucket now False h m"
        using nogap False Some by (auto simp: flush_def skipped_def gapped_def Let_def split: option.splits)
      then show ?thesis
        using writeBucket_facts [OF ok, of now False h] False nogap Some
        by (simp add: missed_slots_def bucket_slot_def)
    qed
  qed
qed

section \<open>Runs\<close>

lemma count_frame [simp]:
  "ring (count c m) = ring m" "writeIdx (count c m) = writeIdx m" "written (count c m) = written m"
  "lastFlushMs (count c m) = lastFlushMs m" "lastWrittenT (count c m) = lastWrittenT m"
  "lastFlushedCounters (count c m) = lastFlushedCounters m" "lastFlushedRejects (count c m) = lastFlushedRejects m"
  by (induction c m rule: count.induct) (simp_all add: increase_def)

lemma sampled_frame [simp]:
  "ring (recordSqliteWriteMs ms j m) = ring m" "writeIdx (recordSqliteWriteMs ms j m) = writeIdx m"
  "written (recordSqliteWriteMs ms j m) = written m" "lastFlushMs (recordSqliteWriteMs ms j m) = lastFlushMs m"
  "lastWrittenT (recordSqliteWriteMs ms j m) = lastWrittenT m" "counters (recordSqliteWriteMs ms j m) = counters m"
  "lastFlushedCounters (recordSqliteWriteMs ms j m) = lastFlushedCounters m"
  "rejectCounters (recordSqliteWriteMs ms j m) = rejectCounters m"
  "lastFlushedRejects (recordSqliteWriteMs ms j m) = lastFlushedRejects m"
  by (simp_all add: recordSqliteWriteMs_def Let_def)

lemma ring_ok_length: "ring_ok m \<Longrightarrow> length (chronological m) \<le> METRICS_RING_SLOTS"
  using arg_cong [of _ _ length] by (fastforce simp: ring_ok_def ring_raw_def)

lemma apply_op_ring:
  assumes "ring_ok m"
  shows "ring_ok (apply_op x m) \<and> chronological (apply_op x m) = last_n METRICS_RING_SLOTS (chronological m @ new_slots x m)"
proof (cases x)
  case (Flush now h)
  then show ?thesis using flush_facts [OF assms, of now h] by simp
qed (use ring_ok_cong [of "apply_op x m" m] ring_ok_length [OF assms] assms in \<open>simp_all add: last_n_def\<close>)

lemma apply_ops_ring:
  "ring_ok m \<Longrightarrow> ring_ok (apply_ops ops m) \<and>
     chronological (apply_ops ops m) = last_n METRICS_RING_SLOTS (chronological m @ history ops m)"
proof (induction ops arbitrary: m)
  case Nil
  then show ?case using ring_ok_length by (simp add: last_n_def)
next
  case (Cons x xs)
  note step = apply_op_ring [OF Cons.prems, of x]
  then have "ring_ok (apply_ops xs (apply_op x m)) \<and> chronological (apply_ops xs (apply_op x m)) =
      last_n METRICS_RING_SLOTS (last_n METRICS_RING_SLOTS (chronological m @ new_slots x m) @ history xs (apply_op x m))"
    using Cons.IH [of "apply_op x m"] by metis
  then show ?case by (simp add: last_n_append)
qed

lemma initial_ring: "ring_ok initial_metrics" "chronological initial_metrics = []"
  by (simp_all add: ring_ok_def initial_metrics_def chronological_def ring_raw_def METRICS_RING_SLOTS_def List.map_filter_def)

section \<open>Times\<close>

definition times_ok :: "metrics \<Rightarrow> bool" where
  "times_ok m \<longleftrightarrow> (lastFlushMs m = None \<longrightarrow> lastWrittenT m = None)"

lemma flush_frame:
  "ring_ok m \<Longrightarrow> lastFlushMs (flush now h m) = Some now"
  "ring_ok m \<Longrightarrow> lastWrittenT (flush now h m) = (if skipped now m then lastWrittenT m else Some now)"
  using flush_facts [of m now h] by simp_all

lemma new_slots_times:
  assumes "times_ok m" "\<not> skipped now m"
  shows "sorted_wrt (<) (map sl_t (missed_slots now m))"
    and "\<forall>x \<in> set (missed_slots now m). after_written m (sl_t x) \<and> sl_t x < now" "after_written m now"
  using assms missed_times_sorted missed_times_bounds
  by (auto simp: missed_slots_def null_slot_def skipped_def times_ok_def after_written_def sorted_wrt_map
      intro!: sorted_wrt_filter split: option.splits)

lemma history_times:
  "ring_ok m \<Longrightarrow> times_ok m \<Longrightarrow>
     sorted_wrt (<) (map sl_t (history ops m)) \<and> (\<forall>x \<in> set (history ops m). after_written m (sl_t x))"
proof (induction ops arbitrary: m)
  case (Cons x xs)
  have ok: "ring_ok (apply_op x m)" using apply_op_ring [OF Cons.prems(1)] by blast
  show ?case
  proof (cases x)
    case (Flush now h)
    have "times_ok (apply_op x m)" using flush_frame [OF Cons.prems(1)] Flush by (simp add: times_ok_def)
    note IH = Cons.IH [OF ok this]
    show ?thesis
    proof (cases "skipped now m")
      case True
      then show ?thesis using IH flush_frame(2) [OF Cons.prems(1)] Flush by (simp add: after_written_def)
    next
      case False
      note new = new_slots_times [OF Cons.prems(2) False]
      have rest: "now < sl_t y" if "y \<in> set (history xs (apply_op x m))" for y
        using IH that False flush_frame(2) [OF Cons.prems(1)] Flush by (auto simp: after_written_def)
      have "after_written m (sl_t y)" if "now < sl_t y" for y
        using new(3) that by (auto simp: after_written_def split: option.splits)
      then show ?thesis
        using IH new rest Flush False by (auto simp: bucket_slot_def sorted_wrt_append intro: less_trans)
    qed
  qed (use Cons.IH [OF ok] Cons.prems in \<open>simp_all add: times_ok_def after_written_def\<close>)
qed simp

lemma last_n_sorted: "sorted_wrt P xs \<Longrightarrow> sorted_wrt P (last_n n xs)"
  by (simp add: last_n_def sorted_wrt_drop)

section \<open>Groups\<close>

lemma groups_Nil [simp]: "groups n [] = []"
  by (simp add: groups.simps)

lemma groups_step: "xs \<noteq> [] \<Longrightarrow> 0 < n \<Longrightarrow> groups n xs = groups n (take (length xs - n) xs) @ [drop (length xs - n) xs]"
  by (subst groups.simps) simp

lemma groups_concat: "0 < n \<Longrightarrow> concat (groups n xs) = xs \<and> [] \<notin> set (groups n xs) \<and>
    (\<forall>g \<in> set (groups n xs). length g \<le> n)"
proof (induction n xs rule: groups.induct)
  case (1 n xs)
  show ?case
  proof (cases "xs = []")
    case False
    define gs where "gs = groups n (take (length xs - n) xs)"
    have "concat gs = take (length xs - n) xs" "[] \<notin> set gs" "\<forall>g \<in> set gs. length g \<le> n"
      using 1(1) [OF _ 1(2)] 1(2) False unfolding gs_def by blast+
    moreover have "groups n xs = gs @ [drop (length xs - n) xs]"
      unfolding gs_def by (rule groups_step [OF False 1(2)])
    moreover have "length xs - n < length xs" using False 1(2) by (cases xs) simp_all
    ultimately show ?thesis by simp
  qed simp
qed

lemma groups_length: "0 < n \<Longrightarrow> n * length (groups n xs) < length xs + n"
proof (induction n xs rule: groups.induct)
  case (1 n xs)
  show ?case
  proof (cases "xs = []")
    case False
    then have IH: "n * length (groups n (take (length xs - n) xs)) < (length xs - n) + n" using 1 by simp
    show ?thesis
    proof (cases "length xs \<le> n")
      case True
      then show ?thesis using groups_step [OF False 1(2)] False by simp
    next
      case less: False
      then show ?thesis using groups_step [OF False 1(2)] IH by simp
    qed
  qed (use 1(2) in simp)
qed

lemma sorted_lasts:
  "sorted_wrt P (concat gs) \<Longrightarrow> [] \<notin> set gs \<Longrightarrow> sorted_wrt P (map List.last gs)"
proof (induction gs)
  case (Cons g gs)
  have "P (List.last g) (List.last x)" if "x \<in> set gs" for x
  proof -
    have "List.last x \<in> set (concat gs)" "List.last g \<in> set g" using that Cons.prems(2) by (auto intro!: last_in_set bexI [of _ x])
    then show ?thesis using Cons.prems(1) by (auto simp: sorted_wrt_append)
  qed
  then show ?case using Cons by (simp add: sorted_wrt_append)
qed simp

lemma mergeFactor_values: "mergeFactor W15m = 1" "mergeFactor W1h = 1" "mergeFactor W6h = 6" "mergeFactor W24h = 24"
proof -
  have "\<lceil>1 / 4 :: rat\<rceil> = 1" by (simp add: ceiling_eq_iff)
  then show "mergeFactor W15m = 1" "mergeFactor W1h = 1" "mergeFactor W6h = 6" "mergeFactor W24h = 24"
    by (simp_all add: mergeFactor_def METRICS_BUCKET_SECONDS_def METRICS_MAX_POINTS_def Let_def)
qed

section \<open>Accounting\<close>

text \<open>What the metrics add up: a counter, or the rejections with one code.\<close>

datatype tally = Tally counter_name | Rejections reject_code

fun tally_series :: "tally \<Rightarrow> series" where
  "tally_series (Tally c) = CounterDelta c"
| "tally_series (Rejections code) = RejectDelta code"

fun tally_value :: "tally \<Rightarrow> metrics \<Rightarrow> nat" where
  "tally_value (Tally c) m = counters m c"
| "tally_value (Rejections code) m = rejectCounters m code"

fun tally_flushed :: "tally \<Rightarrow> metrics \<Rightarrow> nat" where
  "tally_flushed (Tally c) m = lastFlushedCounters m c"
| "tally_flushed (Rejections code) m = lastFlushedRejects m code"

text \<open>The catalogue of the source has every counter and these codes.\<close>

fun listed :: "tally \<Rightarrow> bool" where
  "listed (Tally c) \<longleftrightarrow> True"
| "listed (Rejections code) \<longleftrightarrow> code \<in> set reject_codes"

definition delta_sum :: "tally \<Rightarrow> slot list \<Rightarrow> rat" where
  "delta_sum t xs = sum_list (List.map_filter (\<lambda>x. sl_values x (tally_series t)) xs)"

text \<open>What an event adds to a tally, and what flushes under a broken clock throw away.\<close>

definition tally_amount :: "tally \<Rightarrow> counter \<Rightarrow> nat" where
  "tally_amount t ev = tally_value t (count ev initial_metrics)"

fun tally_events :: "tally \<Rightarrow> metrics_op list \<Rightarrow> nat" where
  "tally_events t [] = 0"
| "tally_events t (Count ev # ops) = tally_amount t ev + tally_events t ops"
| "tally_events t (_ # ops) = tally_events t ops"

abbreviation amount :: "counter_name \<Rightarrow> counter \<Rightarrow> nat" where
  "amount c \<equiv> tally_amount (Tally c)"

abbreviation events :: "counter_name \<Rightarrow> metrics_op list \<Rightarrow> nat" where
  "events c \<equiv> tally_events (Tally c)"

fun discarded :: "tally \<Rightarrow> metrics_op list \<Rightarrow> metrics \<Rightarrow> nat" where
  "discarded t [] m = 0"
| "discarded t (Flush now h # ops) m =
     (if skipped now m \<or> gapped now m then tally_value t m - tally_flushed t m else 0) + discarded t ops (flush now h m)"
| "discarded t (x # ops) m = discarded t ops (apply_op x m)"

lemma tally_count: "tally_value t (count ev m) = tally_value t m + tally_amount t ev"
  by (cases t; induction ev m rule: count.induct) (simp_all add: tally_amount_def increase_def initial_metrics_def)

lemma tally_frame [simp]:
  "tally_flushed t (count ev m) = tally_flushed t m"
  "tally_value t (recordSqliteWriteMs ms j m) = tally_value t m"
  "tally_flushed t (recordSqliteWriteMs ms j m) = tally_flushed t m"
  by (cases t; simp)+

lemma tally_flush:
  assumes "ring_ok m"
  shows "tally_value t (flush now h m) = tally_value t m" "tally_flushed t (flush now h m) = tally_value t m"
  using flush_facts [OF assms, of now h] by (cases t; simp)+

lemma delta_sum_append [simp]: "delta_sum t (xs @ ys) = delta_sum t xs + delta_sum t ys"
  by (simp add: delta_sum_def List.map_filter_def)

lemma delta_sum_nulls: "delta_sum t (map null_slot ts) = 0"
  by (induction ts) (simp_all add: delta_sum_def null_slot_def List.map_filter_def)

lemma delta_sum_bucket:
  "delta_sum t [bucket_slot now h m] = (if gapped now m then 0 else of_nat (tally_value t m) - of_nat (tally_flushed t m))"
  by (cases t) (simp_all add: delta_sum_def bucket_slot_def List.map_filter_def)

definition counted :: "tally \<Rightarrow> metrics \<Rightarrow> rat" where
  "counted t m = of_nat (tally_value t m) - of_nat (tally_flushed t m)"

lemma accounted:
  assumes "ring_ok m" "tally_flushed t m \<le> tally_value t m"
  shows "of_nat (tally_events t ops) + counted t m =
    delta_sum t (history ops m) + of_nat (discarded t ops m) + counted t (apply_ops ops m)"
  using assms
proof (induction ops arbitrary: m)
  case Nil
  then show ?case by (simp add: delta_sum_def List.map_filter_def)
next
  case (Cons x xs)
  have ok: "ring_ok (apply_op x m)" using apply_op_ring [OF Cons.prems(1)] by blast
  show ?case
  proof (cases x)
    case (Count ev)
    then show ?thesis using Cons.IH [OF ok] Cons.prems by (simp add: tally_count counted_def)
  next
    case (Sample ms j)
    then show ?thesis using Cons.IH [OF ok] Cons.prems by (simp add: counted_def)
  next
    case (Flush now h)
    have "delta_sum t (missed_slots now m) = 0"
      by (simp add: missed_slots_def delta_sum_nulls delta_sum_def List.map_filter_def split: option.split)
        (simp add: null_slot_def comp_def)
    then have new: "delta_sum t (new_slots (Flush now h) m) =
        (if skipped now m \<or> gapped now m then 0 else counted t m)"
      using delta_sum_bucket [of t now h m] by (simp add: counted_def delta_sum_def List.map_filter_def)
    show ?thesis
      using Cons.IH [OF ok] new Cons.prems(2)
      by (simp add: Flush counted_def of_nat_diff tally_flush [OF Cons.prems(1)])
  qed
qed

lemma round_milli_Ints: "x \<in> \<int> \<Longrightarrow> round_milli x = x"
proof -
  assume "x \<in> \<int>"
  then obtain k where x: "x = of_int k" by (rule Ints_cases)
  have "\<lfloor>of_int (k * 1000) + 1 / 2 :: rat\<rfloor> = k * 1000" by (rule floor_unique) simp_all
  then show ?thesis by (simp add: round_milli_def x del: floor_add)
qed

lemma fold_plus: "fold (\<lambda>x acc. acc + x) xs v = v + sum_list xs" for v :: rat
  by (induction xs arbitrary: v) simp_all

lemma sum_list_Ints: "set xs \<subseteq> \<int> \<Longrightarrow> sum_list xs \<in> (\<int> :: rat set)"
  by (induction xs) auto

definition whole :: "tally \<Rightarrow> slot \<Rightarrow> bool" where
  "whole t x \<longleftrightarrow> (case sl_values x (tally_series t) of Some v \<Rightarrow> v \<in> \<int> \<and> 0 \<le> v | None \<Rightarrow> True)"

lemma history_whole:
  "ring_ok m \<Longrightarrow> tally_flushed t m \<le> tally_value t m \<Longrightarrow> x \<in> set (history ops m) \<Longrightarrow> whole t x"
proof (induction ops arbitrary: m)
  case (Cons y ys)
  have ok: "ring_ok (apply_op y m)" using apply_op_ring [OF Cons.prems(1)] by blast
  have le: "tally_flushed t (apply_op y m) \<le> tally_value t (apply_op y m)"
    using Cons.prems(2) by (cases y) (simp_all add: tally_count tally_flush [OF Cons.prems(1)])
  have "whole t x" if "x \<in> set (new_slots y m)"
    using that Cons.prems(2)
    by (cases y; cases t) (auto simp: whole_def missed_slots_def null_slot_def bucket_slot_def split: option.splits if_splits)
  then show ?case using Cons.IH [OF ok le] Cons.prems(3) by auto
qed simp

text \<open>A merged bucket has the sum of its slots.\<close>

lemma tally_series_Sum [simp]: "SERIES_AGG (tally_series t) = Sum"
  by (cases t) simp_all

lemma agg_tally:
  assumes "\<forall>x \<in> set xs. whole t x"
  shows "(case agg xs (tally_series t) of Some v \<Rightarrow> v | None \<Rightarrow> 0) = delta_sum t xs"
    "agg xs (tally_series t) = Some v \<Longrightarrow> 0 \<le> v"
proof -
  let ?vs = "List.map_filter (\<lambda>x. sl_values x (tally_series t)) xs"
  have vs: "set ?vs \<subseteq> \<int>" "\<forall>v \<in> set ?vs. 0 \<le> v"
    using assms by (auto simp: List.map_filter_def whole_def split: option.splits)
  then have "round_milli (sum_list ?vs) = sum_list ?vs" by (intro round_milli_Ints sum_list_Ints)
  moreover have "merge_values Sum ?vs = (if ?vs = [] then None else Some (sum_list ?vs))"
    by (auto simp: merge_values_def fold_plus split: list.split)
  ultimately have agg: "agg xs (tally_series t) = (if ?vs = [] then None else Some (sum_list ?vs))"
    by (simp add: agg_def)
  then show "(case agg xs (tally_series t) of Some v \<Rightarrow> v | None \<Rightarrow> 0) = delta_sum t xs"
    by (simp add: delta_sum_def)
  show "agg xs (tally_series t) = Some v \<Longrightarrow> 0 \<le> v"
    using sum_list_nonneg [of ?vs] vs(2) agg by (auto split: if_splits)
qed

text \<open>A bucket names the rejections of a code only if there are any.\<close>

fun bucket_count :: "tally \<Rightarrow> bucket \<Rightarrow> rat" where
  "bucket_count (Tally c) b = (case bk_values b (CounterDelta c) of Some v \<Rightarrow> v | None \<Rightarrow> 0)"
| "bucket_count (Rejections code) b =
     (case bk_rejects b of None \<Rightarrow> 0 | Some rs \<Rightarrow> (case map_of rs code of Some v \<Rightarrow> v | None \<Rightarrow> 0))"

lemma map_of_positive:
  "map_of (List.map_filter (\<lambda>k. case f k of Some v \<Rightarrow> if v > 0 then Some (k, v) else None | None \<Rightarrow> None) ks) k =
     (if k \<in> set ks then case f k of Some v \<Rightarrow> if v > (0 :: rat) then Some v else None | None \<Rightarrow> None else None)"
  by (induction ks) (auto simp: List.map_filter_simps split: option.splits)

lemma bucket_count_merge:
  assumes "listed t" "\<forall>x \<in> set xs. whole t x"
  shows "bucket_count t (mergeGroup xs) = delta_sum t xs"
proof (cases t)
  case (Tally c)
  then show ?thesis using agg_tally(1) [OF assms(2)] by (simp add: mergeGroup_def)
next
  case (Rejections code)
  then have code: "code \<in> set reject_codes" using assms(1) by simp
  note agg = agg_tally [OF assms(2), unfolded Rejections tally_series.simps]
  show ?thesis
  proof (cases "agg xs (RejectDelta code)")
    case None
    then show ?thesis
      using agg(1) map_of_positive [of "\<lambda>code. agg xs (RejectDelta code)" reject_codes code] code
      by (simp add: Rejections mergeGroup_def agg_rejects_def)
  next
    case (Some v)
    then have "agg_rejects xs = Some (List.map_filter (\<lambda>code. case agg xs (RejectDelta code) of
             Some v \<Rightarrow> if v > 0 then Some (code, v) else None
           | None \<Rightarrow> None) reject_codes)"
      using code by (auto simp: agg_rejects_def)
    then show ?thesis
      using agg(1) agg(2) [OF Some] Some map_of_positive [of "\<lambda>code. agg xs (RejectDelta code)" reject_codes code] code
      by (simp add: Rejections mergeGroup_def)
  qed
qed

lemma sum_of_groups:
  "listed t \<Longrightarrow> \<forall>g \<in> set gs. \<forall>x \<in> set g. whole t x \<Longrightarrow>
     sum_list (map (bucket_count t) (map mergeGroup gs)) = delta_sum t (concat gs)"
proof (induction gs)
  case Nil
  then show ?case by (simp add: delta_sum_def List.map_filter_def)
next
  case (Cons g gs)
  then show ?case using bucket_count_merge [of t g] by simp
qed

section \<open>Spacing\<close>

definition spaced :: "slot list \<Rightarrow> bool" where
  "spaced xs \<longleftrightarrow> sorted_wrt (\<lambda>x y. sl_t x + bucketMs \<le> sl_t y) xs"

lemma spaced_span: "spaced (x # xs) \<Longrightarrow> sl_t x + int (length xs) * bucketMs \<le> sl_t (List.last (x # xs))"
proof (induction xs arbitrary: x)
  case (Cons y ys)
  then have "sl_t x + bucketMs \<le> sl_t y" "sl_t y + int (length ys) * bucketMs \<le> sl_t (List.last (y # ys))"
    by (simp_all add: spaced_def)
  then show ?case by (simp add: distrib_right)
qed simp

lemma spaced_window_length:
  assumes "spaced xs" "\<forall>x \<in> set xs. in_window w now x"
  shows "length xs \<le> METRICS_WINDOWS w div 10 + 1"
proof (cases xs)
  case (Cons y ys)
  have "in_window w now y" "in_window w now (List.last (y # ys))" using assms(2) Cons by auto
  then have "sl_t (List.last (y # ys)) - sl_t y \<le> int (METRICS_WINDOWS w) * 1000" by (simp add: in_window_def)
  moreover have "sl_t y + int (length ys) * bucketMs \<le> sl_t (List.last (y # ys))"
    using spaced_span assms(1) Cons by blast
  ultimately have "int (length ys) * bucketMs \<le> int (METRICS_WINDOWS w) * 1000" by linarith
  then have "int (length ys) * 10 \<le> int (METRICS_WINDOWS w)"
    by (simp add: bucketMs_def METRICS_BUCKET_SECONDS_def)
  then have "length ys * 10 \<le> METRICS_WINDOWS w" by linarith
  then show ?thesis using Cons by (simp add: less_eq_div_iff_mult_less_eq)
qed simp

lemma mergeFactor_pos [simp]: "0 < mergeFactor w"
  by (cases w) (simp_all add: mergeFactor_values)

lemma groups_points:
  assumes "length xs \<le> METRICS_WINDOWS w div 10 + 1"
  shows "length (groups (mergeFactor w) xs) \<le> METRICS_MAX_POINTS + 1"
  using assms groups_length [of "mergeFactor w" xs]
  by (cases w) (simp_all add: mergeFactor_values METRICS_MAX_POINTS_def)

section \<open>Properties\<close>

lemma query_history:
  "query w now (apply_ops ops initial_metrics) = map mergeGroup (groups (mergeFactor w)
     (filter (in_window w now) (last_n METRICS_RING_SLOTS (history ops initial_metrics))))"
  using apply_ops_ring [OF initial_ring(1), of ops] initial_ring(2) by (simp add: query_def)

text \<open>C25: The ring is equivalent to the full history of buckets cut to its last 8640: after any sequence of
  counted events, samples and flushes, under any clock, a query of the ring is a query of that list.\<close>

theorem ring_is_bounded_history:
  "chronological (apply_ops ops initial_metrics) = last_n METRICS_RING_SLOTS (history ops initial_metrics) \<and>
   query w now (apply_ops ops initial_metrics) = map mergeGroup (groups (mergeFactor w)
     (filter (in_window w now) (last_n METRICS_RING_SLOTS (history ops initial_metrics))))"
  using query_history apply_ops_ring [OF initial_ring(1), of ops] initial_ring(2) by simp

text \<open>C26: Every counted event is accounted for exactly once, in each counter and for each code of rejected
  messages: it is in one bucket of the history, or was discarded by a flush under a broken clock,
  or is not flushed yet. However a window is downsampled, the merged buckets of a query add up to
  the slots of the ring in that window; of a bucket's rejections only the codes that occurred are
  named, the others count as none.\<close>

theorem events_accounted:
  assumes "listed t"
  shows "of_nat (tally_events t ops) = delta_sum t (history ops initial_metrics) + of_nat (discarded t ops initial_metrics) +
     counted t (apply_ops ops initial_metrics) \<and>
   sum_list (map (bucket_count t) (query w now (apply_ops ops initial_metrics))) =
     delta_sum t (filter (in_window w now) (chronological (apply_ops ops initial_metrics)))"
proof -
  let ?m = "apply_ops ops initial_metrics" and ?h = "history ops initial_metrics"
  let ?xs = "filter (in_window w now) (last_n METRICS_RING_SLOTS ?h)"
  have start: "tally_value t initial_metrics = 0" "tally_flushed t initial_metrics = 0"
    by (cases t; simp add: initial_metrics_def)+
  then have one: "of_nat (tally_events t ops) = delta_sum t ?h + of_nat (discarded t ops initial_metrics) + counted t ?m"
    using accounted [OF initial_ring(1), of t ops] by (simp add: counted_def)
  have "set ?xs \<subseteq> set ?h" by (auto simp: last_n_def dest: in_set_dropD)
  then have whole: "\<forall>x \<in> set ?xs. whole t x"
    using history_whole [OF initial_ring(1), of t _ ops] by (auto simp: start)
  have g: "concat (groups (mergeFactor w) ?xs) = ?xs" using groups_concat mergeFactor_pos by blast
  then have "\<forall>g \<in> set (groups (mergeFactor w) ?xs). \<forall>x \<in> set g. whole t x"
    using whole by (metis UN_I set_concat)
  then have "sum_list (map (bucket_count t) (query w now ?m)) = delta_sum t ?xs"
    using sum_of_groups [OF assms] g by (simp add: query_history)
  then show ?thesis using one apply_ops_ring [OF initial_ring(1), of ops] initial_ring(2) by simp
qed

theorem events_accounted_witness:
  "\<exists>h. let t = Rejections (RejectCode AUTH_INVALID);
           m = apply_ops [Count (IngestReject (RejectCode AUTH_INVALID)), Flush 0 h] initial_metrics in
     listed t \<and> counted t m = 0 \<and> sum_list (map (bucket_count t) (query W15m 0 m)) = 1"
proof -
  let ?h = "\<lparr>h_net = None, h_gauge = (\<lambda>_. None)\<rparr>" and ?t = "Rejections (RejectCode AUTH_INVALID)"
  let ?ops = "[Count (IngestReject (RejectCode AUTH_INVALID)), Flush 0 ?h]"
  let ?m = "apply_ops ?ops initial_metrics" and ?m1 = "count (IngestReject (RejectCode AUTH_INVALID)) initial_metrics"
  have listed: "listed ?t" by (simp add: reject_codes_def INGEST_REJECT_CODES_def)
  have m1: "\<not> skipped 0 ?m1" "\<not> gapped 0 ?m1" "missed_slots 0 ?m1 = []"
    by (simp_all add: skipped_def gapped_def missed_slots_def initial_metrics_def)
  then have hist: "history ?ops initial_metrics = [bucket_slot 0 ?h ?m1]" by simp
  have ok: "ring_ok ?m1" using apply_op_ring [OF initial_ring(1), of "Count (IngestReject (RejectCode AUTH_INVALID))"] by simp
  have chron: "chronological ?m = [bucket_slot 0 ?h ?m1]"
    using apply_ops_ring [OF initial_ring(1), of ?ops]
    unfolding initial_ring(2) hist by (simp add: last_n_def METRICS_RING_SLOTS_def)
  have "in_window W15m 0 (bucket_slot 0 ?h ?m1)" by (simp add: in_window_def bucket_slot_def)
  then have "filter (in_window W15m 0) (chronological ?m) = [bucket_slot 0 ?h ?m1]" by (simp only: chron filter.simps if_True)
  moreover have one: "delta_sum ?t [bucket_slot 0 ?h ?m1] = 1"
    unfolding delta_sum_bucket using m1(2) by (simp add: initial_metrics_def)
  ultimately have "sum_list (map (bucket_count ?t) (query W15m 0 ?m)) = 1"
    using events_accounted [OF listed, of ?ops W15m 0] by simp
  moreover have "counted ?t ?m = 0" using tally_flush [OF ok, of ?t 0 ?h] by (simp add: counted_def)
  ultimately show ?thesis using listed by (intro exI [of _ ?h]) (simp only: Let_def simp_thms)
qed

text \<open>C27: A query is bounded and ordered, under any clock: its buckets have strictly increasing times inside
  the window, and each stands for at least one slot and at most the merge factor of its window. If
  all buckets ever written were at least ten seconds apart a query returns at most 361 of them, one
  more than the 360 the code names; nothing is claimed of their number otherwise.\<close>

theorem query_points:
  "(let bs = query w now (apply_ops ops initial_metrics) in
    sorted_wrt (<) (map bk_t bs) \<and>
    list_all (\<lambda>b. now - int (METRICS_WINDOWS w) * 1000 \<le> bk_t b \<and> bk_t b \<le> now \<and>
      0 < bk_span b \<and> bk_span b \<le> mergeFactor w * METRICS_BUCKET_SECONDS) bs \<and>
    (spaced (history ops initial_metrics) \<longrightarrow> length bs \<le> METRICS_MAX_POINTS + 1))"
proof -
  let ?h = "history ops initial_metrics"
  let ?xs = "filter (in_window w now) (last_n METRICS_RING_SLOTS ?h)"
  let ?gs = "groups (mergeFactor w) ?xs"
  have gs: "concat ?gs = ?xs" "[] \<notin> set ?gs" "\<forall>g \<in> set ?gs. length g \<le> mergeFactor w"
    using groups_concat [OF mergeFactor_pos] by blast+
  have "sorted_wrt (\<lambda>x y. sl_t x < sl_t y) ?xs"
    using history_times [OF initial_ring(1), of ops]
    by (auto simp: times_ok_def initial_metrics_def sorted_wrt_map intro!: sorted_wrt_filter last_n_sorted)
  then have "sorted_wrt (\<lambda>x y. sl_t x < sl_t y) (map List.last ?gs)"
    using sorted_lasts [of _ ?gs] gs by simp
  then have sorted: "sorted_wrt (<) (map bk_t (map mergeGroup ?gs))"
    by (simp add: sorted_wrt_map mergeGroup_def)
  have len: "length ?gs \<le> METRICS_MAX_POINTS + 1" if "spaced ?h"
  proof -
    have "spaced ?xs" using that by (simp add: spaced_def sorted_wrt_filter last_n_sorted)
    then show ?thesis by (intro groups_points spaced_window_length [where now = now]) auto
  qed
  have each: "in_window w now (List.last g) \<and> 0 < length g \<and> length g \<le> mergeFactor w" if "g \<in> set ?gs" for g
  proof -
    have "g \<noteq> []" using that gs(2) by blast
    then have "List.last g \<in> set (concat ?gs)" using that by (auto intro!: bexI [of _ g])
    then show ?thesis using gs(1,3) that \<open>g \<noteq> []\<close> by auto
  qed
  show ?thesis
    using sorted len each by (auto simp: query_history list_all_iff mergeGroup_def in_window_def METRICS_BUCKET_SECONDS_def)
qed

theorem query_points_witness:
  "\<exists>h. spaced (history [Count IngestOk, Flush 0 h, Count IngestOk, Flush 10000 h] initial_metrics) \<and>
    length (query W15m 10000 (apply_ops [Count IngestOk, Flush 0 h, Count IngestOk, Flush 10000 h] initial_metrics)) \<le> 361"
proof -
  let ?h = "\<lparr>h_net = None, h_gauge = (\<lambda>_. None)\<rparr>"
  let ?ops = "[Count IngestOk, Flush 0 ?h, Count IngestOk, Flush 10000 ?h]"
  let ?m1 = "count IngestOk initial_metrics"
  have b: "bucketMs = 10000" by (simp add: bucketMs_def METRICS_BUCKET_SECONDS_def)
  have r: "ring_ok ?m1" using apply_op_ring [OF initial_ring(1), of "Count IngestOk"] by simp
  note f = flush_facts [OF r, of 0 ?h]
  have m1: "\<not> skipped 0 ?m1" "\<not> gapped 0 ?m1" "missed_slots 0 ?m1 = []"
    by (simp_all add: skipped_def gapped_def missed_slots_def initial_metrics_def increase_def)
  let ?m2 = "count IngestOk (flush 0 ?h ?m1)"
  have m2: "\<not> skipped 10000 ?m2" "\<not> gapped 10000 ?m2" "missed_slots 10000 ?m2 = []"
    using f m1 by (simp_all add: skipped_def gapped_def missed_slots_def b increase_def)
  have spaced: "spaced (history ?ops initial_metrics)"
    using m1 m2 by (simp add: spaced_def bucket_slot_def b)
  then have "length (query W15m 10000 (apply_ops ?ops initial_metrics)) \<le> 361"
    using query_points [of W15m 10000 ?ops, unfolded Let_def METRICS_MAX_POINTS_def] by simp
  then show ?thesis using spaced by blast
qed

end
