(* ===== verification/RelayMetrics.thy ===== *)
theory RelayMetrics
  imports RelaySessions MetricsHistory
begin

text \<open>
  The counters of the relay against what it does: the central hook of \<^verbatim>\<open>sendTo\<close> counts exactly the
  receipts and the \<open>error\<close> frames that were written to open sockets, and connects minus disconnects is
  the number of sockets that are logged in.
\<close>

section \<open>Tallies\<close>

definition tally :: "counter \<Rightarrow> effect list \<Rightarrow> nat" where
  "tally c tr = length (filter (\<lambda>e. e = Counted c) tr)"

definition error_frames :: "effect list \<Rightarrow> nat" where
  "error_frames tr = length (filter (\<lambda>e. case e of Sent _ (ErrorFrame _ _) \<Rightarrow> True | _ \<Rightarrow> False) tr)"

definition receipt_frames :: "receipt_status \<Rightarrow> effect list \<Rightarrow> nat" where
  "receipt_frames st tr = length (filter (\<lambda>e. case e of Sent _ (ReceiptFrame _ st') \<Rightarrow> st' = st | _ \<Rightarrow> False) tr)"

definition balanced :: "effect list \<Rightarrow> bool" where
  "balanced tr \<longleftrightarrow> tally ErrorFrameSent tr = error_frames tr \<and> (\<forall>st. tally (ReceiptSent st) tr = receipt_frames st tr)"

definition tidy :: "relay \<Rightarrow> relay \<Rightarrow> bool" where
  "tidy s s' \<longleftrightarrow> (\<exists>new. trace s' = trace s @ new \<and> balanced new \<and> tally WsConnect new = 0 \<and> tally WsDisconnect new = 0)"

lemma counts_append [simp]:
  "tally c (xs @ ys) = tally c xs + tally c ys" "error_frames (xs @ ys) = error_frames xs + error_frames ys"
  "receipt_frames st (xs @ ys) = receipt_frames st xs + receipt_frames st ys"
  by (simp_all add: tally_def error_frames_def receipt_frames_def)

lemma counts_Nil [simp]: "tally c [] = 0" "error_frames [] = 0" "receipt_frames st [] = 0"
  by (simp_all add: tally_def error_frames_def receipt_frames_def)

lemma balanced_append: "balanced xs \<Longrightarrow> balanced ys \<Longrightarrow> balanced (xs @ ys)"
  by (simp add: balanced_def)

lemma balanced_frame: "balanced (frame_counter f @ [Sent w f])"
  by (cases f) (auto simp: balanced_def tally_def error_frames_def receipt_frames_def)

lemma tidy_trace: "trace s' = trace s \<Longrightarrow> tidy s s'"
  by (auto simp: tidy_def balanced_def intro: exI [of _ "[]"])

lemma tidy_refl [simp]: "tidy s s"
  by (rule tidy_trace) simp

lemma tidy_trans: "tidy s s1 \<Longrightarrow> tidy s1 s2 \<Longrightarrow> tidy s s2"
  unfolding tidy_def by (metis (no_types, lifting) add_0 append_assoc balanced_append counts_append(1))

lemma tidy_sendTo [simp]: "tidy s s1 \<Longrightarrow> tidy s (sendTo w f s1)"
proof (erule tidy_trans)
  have "tally WsConnect (frame_counter f @ [Sent w f]) = 0" "tally WsDisconnect (frame_counter f @ [Sent w f]) = 0"
    by (cases f; simp add: tally_def)+
  then show "tidy s1 (sendTo w f s1)" using balanced_frame by (simp add: sendTo_def tidy_def) (auto simp: balanced_def)
qed

definition plain :: "counter \<Rightarrow> bool" where
  "plain c \<longleftrightarrow> c \<noteq> ErrorFrameSent \<and> (\<forall>st. c \<noteq> ReceiptSent st) \<and> c \<noteq> WsConnect \<and> c \<noteq> WsDisconnect"

lemma tidy_bump [simp]: "tidy s s1 \<Longrightarrow> plain c \<Longrightarrow> tidy s (bump c s1)"
  by (erule tidy_trans)
    (auto simp: tidy_def bump_def balanced_def tally_def error_frames_def receipt_frames_def plain_def intro!: exI [of _ "[Counted c]"])

lemma plain_counters [simp]:
  "plain IngestOk" "plain (IngestReject r)" "plain RawWsConnect" "plain InboxEnqueued" "plain (InboxDelivered n)" "plain AckApplied"
  by (simp_all add: plain_def)

lemma tidy_fold [simp]: "tidy s s1 \<Longrightarrow> tidy s (fold (\<lambda>w. sendTo (to w) (f w)) ws s1)"
  by (induction ws arbitrary: s1) simp_all

lemma tidy_quiet [simp]:
  "tidy s s1 \<Longrightarrow> tidy s (s1\<lparr>r_db := d\<rparr>)" "tidy s s1 \<Longrightarrow> tidy s (s1\<lparr>pendingChallenges := pc\<rparr>)"
  "tidy s s1 \<Longrightarrow> tidy s (dismiss_challenge ws s1)" "tidy s s1 \<Longrightarrow> tidy s (cacheScope ws docId sc s1)"
  "tidy s s1 \<Longrightarrow> tidy s (drop_scopes docId P s1)" "tidy s s1 \<Longrightarrow> tidy s (dropScope ws docId s1)"
  "tidy s s1 \<Longrightarrow> tidy s (pruneConsumedChallengeNonces now s1)"
  "tidy s s1 \<Longrightarrow> tidy s (rememberConsumedChallengeNonce nonce until s1)" "tidy s s1 \<Longrightarrow> tidy s (await t s1)"
  "tidy s s1 \<Longrightarrow> tidy s (s1\<lparr>sockets := so\<rparr>)" "tidy s s1 \<Longrightarrow> tidy s (s1\<lparr>tasks := ts\<rparr>)"
  by (erule tidy_trans, rule tidy_trace, simp add: dismiss_challenge_def cacheScope_def drop_scopes_def dropScope_def
      pruneConsumedChallengeNonces_def rememberConsumedChallengeNonce_def)+

section \<open>The handlers\<close>

lemma tidy_deliver_queued: "tidy s s1 \<Longrightarrow> tidy s (deliver_queued ws did dev s1)"
  by (simp add: deliver_queued_def Let_def split: prod.split)

lemma tidy_handleLogEntry: "tidy s (handleLogEntry en i ws envelope jws s)"
proof (cases "verifyLogEntryJws (env_rt en) jws")
  case (Some e)
  then show ?thesis
    by (cases rule: checkScope_cases [of i ws "le_doc e" Write s])
      (auto simp: handleLogEntry_def handleLogEntry_verified_def Let_def split: option.split)
qed (simp add: handleLogEntry_def)

lemma tidy_handleSyncRequest: "tidy s (handleSyncRequest en i ws envelope s)"
proof (cases "assertSyncRequestMessage (env_rt en) envelope")
  case (Some q)
  then show ?thesis
    by (cases rule: checkScope_cases [of i ws "sq_doc q" Read s]) (simp_all add: handleSyncRequest_def split: option.split)
qed (simp add: handleSyncRequest_def split: option.split)

lemma tidy_traffic:
  "tidy s (handleLogEntry_hashed en i ws envelope jws e s)" "tidy s (handleInboxAckEnvelope en i ws did envelope s)"
  "tidy s (route_inbox en i ws did dev to envelope s)" "tidy s (handleAck ws m s)"
  "tidy s (presentSpaceCapability_done en ws docId jws key g ctx s)"
  "tidy s (presentPersonalCapability_done en i ws docId did jws key ctx s)"
  "tidy s (handlePresentCapability en i ws raw s)"
  by (auto simp: handleLogEntry_hashed_def broadcast_def handleInboxAckEnvelope_def route_inbox_def handleAck_def
      presentSpaceCapability_done_def presentPersonalCapability_done_def handlePresentCapability_def
      presentSpaceCapability_def presentPersonalCapability_def Let_def
      split: option.split sum.split prod.split append_result.split enqueue_result.split owner_claim.split)

lemma tidy_handleInboxSend: "tidy s (handleInboxSend en i ws did envelope s)"
  by (simp add: handleInboxSend_def tidy_traffic split: option.split)

lemma tidy_handleSend: "tidy s (handleSend en i ws envelope s)"
  by (rule handleSend_rule) (simp_all add: tidy_traffic tidy_handleSyncRequest tidy_handleInboxSend)

lemma tidy_management:
  "tidy s (handleRegister en i ws raw s)" "tidy s (handleChallengeResponse en i ws raw s)"
  "tidy s (handleDeviceRevoke en ws raw s)" "tidy s (handleDeviceRevoke_done en i ws raw key s)"
  "tidy s (handleSpaceRegister en ws raw s)" "tidy s (handleSpaceRegister_done en i ws raw s)"
  "tidy s (handleSpaceRotate en ws raw s)" "tidy s (handleSpaceRotate_done en ws raw signer s)"
  "tidy s (handleAdminAdd en ws raw s)" "tidy s (handleAdminAdd_done en ws raw sp signer s)"
  "tidy s (handleAdminRemove en ws raw s)" "tidy s (handleAdminRemove_done en ws raw sp signer retry s)"
  by (auto simp: handleRegister_def handleChallengeResponse_def handleDeviceRevoke_def handleDeviceRevoke_done_def
      handleSpaceRegister_def handleSpaceRegister_done_def handleSpaceRotate_def handleSpaceRotate_done_def
      handleAdminAdd_def handleAdminAdd_done_def handleAdminRemove_def handleAdminRemove_done_def with_admin_signer_def
      invalidatePersonalScopesForDoc_def invalidateStaleScopesForDoc_def Let_def
      split: option.split sum.split prod.split device_revocation.split space_registration.split)

lemma tidy_receiveMessage: "tidy s (receiveMessage en i ws data s)"
  by (rule receiveMessage_rule, simp, rule handleMessage_rule)
    (simp_all add: tidy_management tidy_handleSend tidy_traffic)

section \<open>Sessions\<close>

definition metrics_ok :: "relay \<Rightarrow> bool" where
  "metrics_ok s \<longleftrightarrow> balanced (trace s) \<and> finite (dom (socketToDid s)) \<and>
     tally WsConnect (trace s) = tally WsDisconnect (trace s) + card (dom (socketToDid s))"

lemma tidy_metrics_ok: "tidy s s' \<Longrightarrow> socketToDid s' = socketToDid s \<Longrightarrow> metrics_ok s \<Longrightarrow> metrics_ok s'"
  by (auto simp: tidy_def metrics_ok_def balanced_append)

text \<open>A login: the socket was not bound, and one connect is counted.\<close>

definition logs_in :: "relay \<Rightarrow> relay \<Rightarrow> bool" where
  "logs_in s s' \<longleftrightarrow> (\<exists>ws did. socketToDid s ws = None \<and> socketToDid s' = (socketToDid s)(ws := Some did) \<and> tidy (bump WsConnect s) s')"

lemma logs_in_metrics_ok:
  assumes "logs_in s s'" "metrics_ok s"
  shows "metrics_ok s'"
proof -
  obtain ws did where l: "socketToDid s ws = None" "socketToDid s' = (socketToDid s)(ws := Some did)" "tidy (bump WsConnect s) s'"
    using assms(1) by (auto simp: logs_in_def)
  have "card (dom (socketToDid s')) = Suc (card (dom (socketToDid s)))"
    using l(1) assms(2) by (simp add: l(2) metrics_ok_def dom_def [symmetric] card_insert_if domIff)
  moreover have "tally WsConnect [Counted WsConnect] = 1" "tally WsDisconnect [Counted WsConnect] = 0" "balanced [Counted WsConnect]"
    by (simp_all add: tally_def balanced_def error_frames_def receipt_frames_def)
  moreover obtain new where "trace s' = (trace s @ [Counted WsConnect]) @ new" "balanced new"
      "tally WsConnect new = 0" "tally WsDisconnect new = 0"
    using l(3) by (auto simp: tidy_def bump_def)
  ultimately show ?thesis
    using assms(2) by (simp only: metrics_ok_def counts_append) (simp add: l(2) balanced_append del: append_assoc)
qed

lemma tidy_bind: "tidy (bump WsConnect s) (bump WsConnect (bind_socket ws did dev (s\<lparr>r_db := d\<rparr>)))"
  by (rule tidy_trace) (simp add: bump_def bind_socket_def Let_def)

lemma session_did_part: "session_part s' = session_part s \<Longrightarrow> socketToDid s' = socketToDid s"
  by (simp add: session_part_def)

lemma completeRegistration_logs_in:
  "(tidy s (completeRegistration i ws did dev s) \<and> socketToDid (completeRegistration i ws did dev s) = socketToDid s) \<or>
   logs_in s (completeRegistration i ws did dev s)"
proof (cases "socketToDid s ws = None \<and> (\<exists>isNew d. registerDevice did dev (in_date i) (r_db s) = Inr (DevRegistered isNew, d))")
  case False
  then show ?thesis
    by (auto simp: completeRegistration_def split: option.splits sum.splits prod.splits device_registration.splits)
next
  case True
  then obtain isNew d where reg: "socketToDid s ws = None" "registerDevice did dev (in_date i) (r_db s) = Inr (DevRegistered isNew, d)"
    by blast
  let ?s = "completeRegistration i ws did dev s"
  have "session_part ?s = session_part (bump WsConnect (bind_socket ws did dev (s\<lparr>r_db := d\<rparr>)))"
    using reg by (simp add: completeRegistration_def Let_def split: option.split)
  then have "socketToDid ?s = (socketToDid s)(ws := Some did)"
    by (drule_tac session_did_part) (simp add: bind_socket_def Let_def)
  moreover have "tidy (bump WsConnect s) ?s"
    using reg tidy_bind by (auto simp: completeRegistration_def Let_def intro: tidy_deliver_queued split: option.split)
  ultimately show ?thesis using reg(1) by (auto simp: logs_in_def)
qed

lemma logs_in_after:
  "tidy s s1 \<Longrightarrow> socketToDid s1 = socketToDid s \<Longrightarrow> logs_in s1 s' \<Longrightarrow> tidy (bump WsConnect s) (bump WsConnect s1) \<Longrightarrow> logs_in s s'"
  by (auto simp: logs_in_def intro: tidy_trans)

lemma handleChallengeResponse_done_logs_in:
  "(tidy s (handleChallengeResponse_done en i ws raw p s) \<and> socketToDid (handleChallengeResponse_done en i ws raw p s) = socketToDid s) \<or>
   logs_in s (handleChallengeResponse_done en i ws raw p s)"
proof -
  let ?q = "\<lambda>n u. rememberConsumedChallengeNonce n u (dismiss_challenge ws (pruneConsumedChallengeNonces (in_date i) s))"
  have q: "trace (?q n u) = trace s" "socketToDid (?q n u) = socketToDid s" for n u
    by (simp_all add: rememberConsumedChallengeNonce_def dismiss_challenge_def pruneConsumedChallengeNonces_def)
  have bump: "tidy (bump WsConnect s) (bump WsConnect (?q n u))" for n u by (rule tidy_trace) (simp add: bump_def q)
  have "(tidy s (completeRegistration i ws did dev (?q n u)) \<and> socketToDid (completeRegistration i ws did dev (?q n u)) = socketToDid s) \<or>
      logs_in s (completeRegistration i ws did dev (?q n u))" for did dev n u
    using completeRegistration_logs_in [of "?q n u" i ws did dev] logs_in_after [OF tidy_trace [OF q(1)] q(2) _ bump]
      tidy_trans [OF tidy_trace [OF q(1)]] q(2) by metis
  then show ?thesis
    by (simp add: handleChallengeResponse_done_def Let_def split: option.split sum.split nonce_decision.split)
qed

lemma runTask_quiet:
  assumes "\<nexists>ws raw p. t = TChallenge ws raw p"
  shows "tidy s (runTask en i t s)" "socketToDid (runTask en i t s) = socketToDid s"
proof -
  show "tidy s (runTask en i t s)"
    using assms by (cases t) (simp_all add: tidy_management tidy_traffic tidy_handleLogEntry)
  have "session_part (runTask en i t s) = session_part s" using assms by (cases t) simp_all
  then show "socketToDid (runTask en i t s) = socketToDid s" by (rule session_did_part)
qed

lemma runTask_metrics_ok: "metrics_ok s \<Longrightarrow> metrics_ok (runTask en i t s)"
proof (cases "\<exists>ws raw p. t = TChallenge ws raw p")
  case True
  assume "metrics_ok s"
  then show ?thesis
    using True handleChallengeResponse_done_logs_in logs_in_metrics_ok tidy_metrics_ok
    by (metis runTask.simps(1))
qed (blast intro: tidy_metrics_ok runTask_quiet)

lemma handleClose_metrics_ok:
  assumes "metrics_ok s" "sessions_ok s"
  shows "metrics_ok (handleClose ws s)"
proof (cases "socketToDid s ws")
  case None
  then show ?thesis using assms(1) by (simp add: handleClose_def session_did_def Let_def metrics_ok_def)
next
  case (Some did)
  have did: "did \<noteq> []" using sessions_okD(4) [OF assms(2) Some] .
  have "trace (handleClose ws s) = trace s @ [Counted WsDisconnect]" "socketToDid (handleClose ws s) = (socketToDid s)(ws := None)"
    using Some did by (simp_all add: handleClose_def session_did_def Let_def bump_def)
  moreover have "dom ((socketToDid s)(ws := None)) = dom (socketToDid s) - {ws}" by auto
  moreover have "tally WsConnect [Counted WsDisconnect] = 0" "tally WsDisconnect [Counted WsDisconnect] = 1" "balanced [Counted WsDisconnect]"
    by (simp_all add: tally_def balanced_def error_frames_def receipt_frames_def)
  moreover have "card (dom (socketToDid s)) = Suc (card (dom (socketToDid s) - {ws}))"
    using assms(1) Some by (metis card.remove domI metrics_ok_def)
  ultimately show ?thesis using assms(1) by (auto simp: metrics_ok_def balanced_append)
qed

lemma relay_step_metrics_ok:
  assumes "relay_step en s e s'" "metrics_ok s" "sessions_ok s"
  shows "metrics_ok s'"
  using assms(1)
proof (cases rule: relay_step.cases)
  case (on_message ws data i)
  then show ?thesis
    using tidy_metrics_ok [OF tidy_receiveMessage session_did_part [OF receiveMessage_frame] assms(2)] by simp
next
  case (on_resume n i)
  have "metrics_ok (s\<lparr>tasks := remove_nth n (tasks s)\<rparr>)" using assms(2) by (simp add: metrics_ok_def)
  then show ?thesis using runTask_metrics_ok on_resume by (simp add: resumeTask_def)
qed (use assms(2) handleClose_metrics_ok [OF assms(2,3)] tidy_metrics_ok [of s] in
  \<open>auto simp: handleConnection_def sweep_def bump_def metrics_ok_def balanced_def tally_def error_frames_def receipt_frames_def\<close>)

interpretation relay_metrics: invariant_system "\<lambda>s. s = initial_relay" "relay_step en"
  "\<lambda>s. (relay_ok en s \<and> sessions_ok s) \<and> metrics_ok s" for en
proof
  fix s :: relay assume "s = initial_relay"
  then show "(relay_ok en s \<and> sessions_ok s) \<and> metrics_ok s"
    using relay_sessions.inv_init [OF refl] by (simp add: metrics_ok_def balanced_def initial_relay_def)
next
  fix s e s' assume "relay_step en s e s'" "(relay_ok en s \<and> sessions_ok s) \<and> metrics_ok s"
  then show "(relay_ok en s' \<and> sessions_ok s') \<and> metrics_ok s'"
    using relay_sessions.inv_step relay_step_metrics_ok by blast
qed

section \<open>Property\<close>

text \<open>What the metrics object of the server has been told.\<close>

definition counted_ops :: "relay \<Rightarrow> metrics_op list" where
  "counted_ops s = List.map_filter (\<lambda>e. case e of Counted c \<Rightarrow> Some (Count c) | Sent _ _ \<Rightarrow> None) (trace s)"

lemma events_tally:
  assumes "\<And>ev. amount c ev = (if ev = x then 1 else 0)"
  shows "events c (List.map_filter (\<lambda>e. case e of Counted c \<Rightarrow> Some (Count c) | Sent _ _ \<Rightarrow> None) tr) = tally x tr"
  by (induction tr) (auto simp: tally_def List.map_filter_def assms split: effect.split)

lemma amounts:
  "amount ErrorFramesSent ev = (if ev = ErrorFrameSent then 1 else 0)"
  "amount ReceiptsDelivered ev = (if ev = ReceiptSent Delivered then 1 else 0)"
  "amount ReceiptsAccepted ev = (if ev = ReceiptSent Accepted then 1 else 0)"
  "amount WsConnects ev = (if ev = WsConnect then 1 else 0)"
  "amount WsDisconnects ev = (if ev = WsDisconnect then 1 else 0)"
  by (cases "(ev, initial_metrics)" rule: count.cases; simp add: tally_amount_def increase_def initial_metrics_def)+

text \<open>C24: The server's counters tell what it did: in every reachable state the error frames and the receipts of
  either status counted are exactly those written to open sockets, and connects exceed disconnects
  by the number of sockets now logged in. (Frames of the type error/1.0 are no error frames here.)\<close>

theorem frames_counted:
  assumes "run (relay_step en) initial_relay es s"
  shows "events ErrorFramesSent (counted_ops s) = error_frames (trace s) \<and>
    events ReceiptsDelivered (counted_ops s) = receipt_frames Delivered (trace s) \<and>
    events ReceiptsAccepted (counted_ops s) = receipt_frames Accepted (trace s) \<and>
    events WsConnects (counted_ops s) = events WsDisconnects (counted_ops s) + card (dom (socketToDid s))"
  using relay_metrics.init_run_inv [OF refl assms]
  by (simp add: counted_ops_def events_tally [OF amounts(1)] events_tally [OF amounts(2)] events_tally [OF amounts(3)]
      events_tally [OF amounts(4)] events_tally [OF amounts(5)] metrics_ok_def balanced_def)

theorem frames_counted_witness:
  "\<exists>s. run (relay_step (demo_env 3)) initial_relay demo_events s \<and> 0 \<in> dom (socketToDid s) \<and>
    events ErrorFramesSent (counted_ops s) = error_frames (trace s) \<and>
    events WsConnects (counted_ops s) = events WsDisconnects (counted_ops s) + card (dom (socketToDid s))"
proof -
  have "safe_seq 3" by (simp add: safe_seq_def safe_integer_def max_safe_integer_def)
  then obtain s where s: "exec_all (demo_env 3) demo_events initial_relay = Some s"
      "demo_session (demo_owned_db\<lparr>doc_log := [demo_row 3]\<rparr>) s"
    by (rule demo_run)
  have "run (relay_step (demo_env 3)) initial_relay demo_events s" using s(1) by (simp add: run_relay_iff)
  from frames_counted [OF this] this s(2) show ?thesis by (auto simp: demo_session_def)
qed

end
