(* ===== verification/RelayDevices.thy ===== *)
theory RelayDevices
  imports RelaySessions Dispositions
begin

text \<open>
  The relay's device handlers beside the protocol's disposition functions. The relay does not call the
  functions of \<^verbatim>\<open>Dispositions\<close>; here its registration after a challenge and its handling of a
  verified \<open>device-revoke\<close> frame are compared with them, on the device list of a reachable state.
\<close>

section \<open>Lemmas\<close>

lemma known_devices_deliverOnConnect [simp]:
  "known_devices (snd (deliverOnConnect did dev d)) = known_devices d"
  using deliverOnConnect_same [of d did dev] by (simp add: same_store_def known_devices_def del: known_devices_upd)

lemma known_devices_deleteForDevice [simp]:
  "known_devices (deleteForDevice dev now w d) = known_devices d"
  using deleteForDevice_same [of d dev now w] by (simp add: same_store_def known_devices_def del: known_devices_upd)






section \<open>Property\<close>


end
