(* ===== verification/ClientLog.thy ===== *)
theory ClientLog
  imports SeqConsistency Encoding "HOL-Library.Product_Lexorder" "HOL-Library.AList"
begin

text \<open>
  The client's log store, \<^verbatim>\<open>packages/wot-core/src/adapters/storage/InMemoryDocLogStore.ts\<close>: its
  state, the entries and the device id. A JavaScript \<^verbatim>\<open>Map\<close> is the list of its values in insertion
  order, each with its key given by a key function.

  \<open>appendLocalEntry\<close> is the one operation with an \<^verbatim>\<open>await\<close> in the middle (the encryption of the
  entry). It is cut there: \<open>append_reserve\<close> is the code up to the call of \<^verbatim>\<open>build\<close>, \<open>append_built\<close>
  the code after it, which may start another attempt. What other callers do in between is left open,
  since the lock around it excludes them only within one JavaScript context. \<open>Date.now()\<close> and
  \<^verbatim>\<open>crypto.randomUUID()\<close> are arguments.
\<close>

section \<open>State\<close>

datatype entry_status = Pending | Acked

record client_entry =
  ce_doc :: string
  ce_device :: string
  ce_seq :: int
  ce_jws :: string
  ce_status :: entry_status
  ce_created :: int

record gap_repair =
  gr_doc :: string
  gr_device :: string
  gr_missing :: int
  gr_observed_max :: int
  gr_observations :: int
  gr_epochs :: "int list"
  gr_last_epoch :: int
  gr_first_seen :: int
  gr_soft :: bool
  gr_due :: int
  gr_attempts :: int

datatype removal_phase = Staged | BrokerConfirmed | Committed | AdminRemoved | LocalCleanup | RemovalComplete

record staged_material =
  sm_content_key :: bytes
  sm_cap_seed :: bytes
  sm_cap_key :: bytes

text \<open>An absent optional field is \<open>None\<close>; legacy records have no \<^verbatim>\<open>phase\<close>.\<close>

record pending_removal =
  pr_phase :: "removal_phase option"
  pr_space :: string
  pr_did :: string
  pr_home :: "string list"
  pr_confirmed :: "string list"
  pr_generation :: int
  pr_material :: staged_material
  pr_staging :: "string option"
  pr_fingerprint :: "string option"
  pr_created :: int
  pr_activity :: "json option"
  pr_self_removal :: bool
  pr_committed :: "bool option"
  pr_admin_confirmed :: "string list option"

record client_store =
  cs_entries :: "client_entry list"
  cs_gaps :: "gap_repair list"
  cs_removals :: "pending_removal list"
  cs_device :: "string option"

definition new_client_store :: client_store where
  "new_client_store = \<lparr>cs_entries = [], cs_gaps = [], cs_removals = [], cs_device = None\<rparr>"

definition clear_store :: "client_store \<Rightarrow> client_store" where
  "clear_store s = s\<lparr>cs_entries := [], cs_removals := [], cs_gaps := [], cs_device := None\<rparr>"

section \<open>Keys\<close>

definition log_entry_key :: "string \<Rightarrow> string \<Rightarrow> int \<Rightarrow> string" where
  "log_entry_key docId deviceId seq = docId @ [CHR 0x00] @ deviceId @ [CHR 0x00] @ int_text seq"

definition ce_key :: "client_entry \<Rightarrow> string" where
  "ce_key e = log_entry_key (ce_doc e) (ce_device e) (ce_seq e)"

definition getEntry :: "string \<Rightarrow> string \<Rightarrow> int \<Rightarrow> client_store \<Rightarrow> client_entry option" where
  "getEntry docId deviceId seq s = row_get ce_key (log_entry_key docId deviceId seq) (cs_entries s)"

section \<open>Appending a local entry\<close>

definition MAX_SEQ_RETRIES :: nat where "MAX_SEQ_RETRIES = 64"

definition maxSeq :: "string \<Rightarrow> string \<Rightarrow> client_store \<Rightarrow> int" where
  "maxSeq docId deviceId s =
     fold (\<lambda>e m. if ce_doc e = docId \<and> ce_device e = deviceId \<and> ce_seq e > m then ce_seq e else m)
       (cs_entries s) (-1)"

record building =
  bl_doc :: string
  bl_device :: string
  bl_seq :: int
  bl_attempt :: nat

definition append_reserve :: "string \<Rightarrow> string \<Rightarrow> nat \<Rightarrow> client_store \<Rightarrow> building" where
  "append_reserve docId deviceId attempt s =
     \<lparr>bl_doc = docId, bl_device = deviceId, bl_seq = maxSeq docId deviceId s + 1, bl_attempt = attempt\<rparr>"

datatype append_outcome = Appended client_entry | BuildAgain building | BuildFailed | SeqExhausted

definition append_built ::
  "building \<Rightarrow> string option \<Rightarrow> int \<Rightarrow> client_store \<Rightarrow> append_outcome \<times> client_store" where
  "append_built b jws now s =
     (case jws of
        None \<Rightarrow> (BuildFailed, s)
      | Some entryJws \<Rightarrow>
          if getEntry (bl_doc b) (bl_device b) (bl_seq b) s \<noteq> None
          then (if bl_attempt b + 1 < MAX_SEQ_RETRIES
                then (BuildAgain (append_reserve (bl_doc b) (bl_device b) (bl_attempt b + 1) s), s)
                else (SeqExhausted, s))
          else
            (let entry = \<lparr>ce_doc = bl_doc b, ce_device = bl_device b, ce_seq = bl_seq b,
                          ce_jws = entryJws, ce_status = Pending, ce_created = now\<rparr>
             in (Appended entry, s\<lparr>cs_entries := cs_entries s @ [entry]\<rparr>)))"

text \<open>The whole call, when nothing else touches the store while an entry is being built.\<close>

function append_attempts ::
  "(int \<Rightarrow> string option) \<Rightarrow> int \<Rightarrow> building \<Rightarrow> client_store \<Rightarrow> append_outcome \<times> client_store" where
  "append_attempts build now b s =
     (case append_built b (build (bl_seq b)) now s of
        (BuildAgain b', s') \<Rightarrow> append_attempts build now b' s'
      | r \<Rightarrow> r)"
  by pat_completeness auto

lemma append_built_again:
  "append_built b jws now s = (BuildAgain b', s') \<Longrightarrow>
     bl_attempt b' = bl_attempt b + 1 \<and> bl_attempt b + 1 < MAX_SEQ_RETRIES \<and> s' = s"
  by (auto simp: append_built_def append_reserve_def Let_def split: option.splits if_splits)

termination append_attempts
  by (relation "measure (\<lambda>(_, _, b, _). MAX_SEQ_RETRIES - bl_attempt b)")
     (auto dest!: append_built_again [OF sym])

declare append_attempts.simps [simp del]

definition appendLocalEntry ::
  "string \<Rightarrow> string \<Rightarrow> (int \<Rightarrow> string option) \<Rightarrow> int \<Rightarrow> client_store \<Rightarrow> append_outcome \<times> client_store" where
  "appendLocalEntry docId deviceId build now s =
     append_attempts build now (append_reserve docId deviceId 0 s) s"

section \<open>The device id\<close>

definition getOrCreateDeviceId :: "string \<Rightarrow> client_store \<Rightarrow> string \<times> client_store" where
  "getOrCreateDeviceId uuid s =
     (case cs_device s of
        None \<Rightarrow> (uuid, s\<lparr>cs_device := Some uuid\<rparr>)
      | Some d \<Rightarrow> (d, s))"

definition setDeviceId :: "string \<Rightarrow> client_store \<Rightarrow> client_store" where
  "setDeviceId deviceId s = s\<lparr>cs_device := Some deviceId\<rparr>"

definition pending_devices :: "client_store \<Rightarrow> string list" where
  "pending_devices s = js_set (map ce_device (filter (\<lambda>e. ce_status e = Pending) (cs_entries s)))"

text \<open>\<open>Inl\<close> is \<^verbatim>\<open>OrphanedLogRepairError\<close> with the devices.\<close>

definition resolveConnectDeviceId :: "string \<Rightarrow> client_store \<Rightarrow> (string list + string) \<times> client_store" where
  "resolveConnectDeviceId uuid s =
     (case cs_device s of
        Some d \<Rightarrow>
          if list_ex (\<lambda>e. ce_device e = d) (cs_entries s) then (Inr d, s)
          else (Inr uuid, s\<lparr>cs_device := Some uuid\<rparr>)
      | None \<Rightarrow>
          (case pending_devices s of
             [] \<Rightarrow> (Inr uuid, s\<lparr>cs_device := Some uuid\<rparr>)
           | [d] \<Rightarrow> (Inr d, s\<lparr>cs_device := Some d\<rparr>)
           | ds \<Rightarrow> (Inl ds, s)))"

section \<open>Known heads, pending entries, acknowledgements\<close>

definition getKnownHeads :: "string \<Rightarrow> client_store \<Rightarrow> heads" where
  "getKnownHeads docId s =
     fold (\<lambda>e hs. if ce_doc e \<noteq> docId then hs
                 else case map_of hs (ce_device e) of
                     None \<Rightarrow> hs @ [(ce_device e, ce_seq e)]
                   | Some m \<Rightarrow> if ce_seq e > m then AList.update (ce_device e) (ce_seq e) hs else hs)
       (cs_entries s) []"

definition hasEntriesBatch :: "string \<Rightarrow> (string \<times> int) list \<Rightarrow> client_store \<Rightarrow> (string \<times> int) list" where
  "hasEntriesBatch docId keys s = filter (\<lambda>(dev, n). getEntry docId dev n s \<noteq> None) keys"

definition getPending :: "client_store \<Rightarrow> client_entry list" where
  "getPending s =
     sort_key (\<lambda>e. (ce_device e, ce_seq e, ce_created e))
       (filter (\<lambda>e. ce_status e = Pending) (cs_entries s))"

definition markAcked :: "string \<Rightarrow> string \<Rightarrow> int \<Rightarrow> client_store \<Rightarrow> client_store" where
  "markAcked docId deviceId seq s =
     s\<lparr>cs_entries := row_update (\<lambda>e. ce_key e = log_entry_key docId deviceId seq)
                     (\<lambda>e. e\<lparr>ce_status := Acked\<rparr>) (cs_entries s)\<rparr>"

section \<open>Keys are unambiguous\<close>

text \<open>
  The key text separates its parts by a NUL. It names one entry as long as document ids hold no
  NUL; the device id may hold anything, since the number after the last NUL does not.
\<close>

lemma nat_text_no_nul: "CHR 0x00 \<notin> set (nat_text n)"
proof (induction n rule: nat_text.induct)
  case (1 n)
  have digit: "CHR 0x00 \<noteq> char_of (48 + k)" if "k < 10" for k :: nat
  proof
    assume "CHR 0x00 = char_of (48 + k)"
    then have "of_char (CHR 0x00) = (of_char (char_of (48 + k) :: char) :: nat)" by simp
    then show False using that by simp
  qed
  show ?case
    using 1 digit [of n] digit [of "n mod 10"] by (simp add: nat_text.simps [of n])
qed

lemma int_text_no_nul: "CHR 0x00 \<notin> set (int_text n)"
  by (auto simp: int_text_def nat_text_no_nul)

lemma nat_text_hd_no_minus: "hd (nat_text n) \<noteq> CHR ''-'' \<and> nat_text n \<noteq> []"
proof (induction n rule: nat_text.induct)
  case (1 n)
  have digit: "char_of (48 + k) \<noteq> CHR ''-''" if "k < 10" for k :: nat
  proof
    assume "char_of (48 + k) = CHR ''-''"
    then have "(of_char (char_of (48 + k) :: char) :: nat) = of_char (CHR ''-'')" by simp
    then show False using that by simp
  qed
  show ?case
    using 1 digit [of n] by (simp add: nat_text.simps [of n])
qed

lemma int_text_inj: "int_text m = int_text n \<longleftrightarrow> m = n"
proof
  assume eq: "int_text m = int_text n"
  have minus: "''-'' @ nat_text a \<noteq> nat_text b" for a b
    using nat_text_hd_no_minus [of b] by (cases "nat_text b") auto
  show "m = n"
    using eq minus by (auto simp: int_text_def nat_text_inj nat_eq_iff split: if_splits) (metis minus append_Cons append_Nil)+
qed simp

lemma split_at_nul:
  assumes "c \<notin> set xs" "c \<notin> set ys" and "xs @ c # r = ys @ c # t"
  shows "xs = ys \<and> r = t"
  using assms by (induction xs arbitrary: ys) (auto simp: Cons_eq_append_conv append_eq_Cons_conv)

lemma log_entry_key_inj:
  assumes "CHR 0x00 \<notin> set d" "CHR 0x00 \<notin> set d'"
  shows "log_entry_key d dev n = log_entry_key d' dev' n' \<longleftrightarrow> d = d' \<and> dev = dev' \<and> n = n'"
proof
  assume eq: "log_entry_key d dev n = log_entry_key d' dev' n'"
  have d: "d = d'" and rest: "dev @ CHR 0x00 # int_text n = dev' @ CHR 0x00 # int_text n'"
    using split_at_nul [OF assms] eq by (auto simp: log_entry_key_def)
  have "List.rev (int_text n) @ CHR 0x00 # List.rev dev = List.rev (int_text n') @ CHR 0x00 # List.rev dev'"
    using arg_cong [OF rest, of List.rev] by simp
  then have "List.rev (int_text n) = List.rev (int_text n') \<and> List.rev dev = List.rev dev'"
    by (intro split_at_nul) (simp_all add: int_text_no_nul)
  with d show "d = d' \<and> dev = dev' \<and> n = n'" by (simp add: int_text_inj)
qed simp

section \<open>Sequence numbers\<close>

lemma fold_max_seq:
  fixes m :: int
  shows "let best = fold (\<lambda>e m. if P e \<and> f e > m then f e else m) es m in
     m \<le> best \<and> (\<forall>e \<in> set es. P e \<longrightarrow> f e \<le> best) \<and> (best = m \<or> (\<exists>e \<in> set es. P e \<and> f e = best))"
proof (induction es arbitrary: m)
  case (Cons e es)
  show ?case using Cons.IH [of "if P e \<and> m < f e then f e else m"]
    by (auto simp: Let_def split: if_splits)
qed simp

lemma maxSeq_facts:
  "-1 \<le> maxSeq docId deviceId s \<and>
   (\<forall>e \<in> set (cs_entries s). ce_doc e = docId \<and> ce_device e = deviceId \<longrightarrow> ce_seq e \<le> maxSeq docId deviceId s) \<and>
   (maxSeq docId deviceId s = -1 \<or>
    (\<exists>e \<in> set (cs_entries s). (ce_doc e = docId \<and> ce_device e = deviceId) \<and> ce_seq e = maxSeq docId deviceId s))"
  using fold_max_seq [where m = "-1" and P = "\<lambda>e. ce_doc e = docId \<and> ce_device e = deviceId"
      and f = ce_seq and es = "cs_entries s"]
  unfolding Let_def maxSeq_def conj_assoc .

lemma maxSeq_ge: "-1 \<le> maxSeq docId deviceId s"
  using maxSeq_facts [of docId deviceId s] by blast

lemma maxSeq_upper:
  "e \<in> set (cs_entries s) \<Longrightarrow> ce_doc e = docId \<Longrightarrow> ce_device e = deviceId \<Longrightarrow>
     ce_seq e \<le> maxSeq docId deviceId s"
  using maxSeq_facts [of docId deviceId s] by blast

lemma maxSeq_attained:
  "maxSeq docId deviceId s = -1 \<or>
   (\<exists>e \<in> set (cs_entries s). ce_doc e = docId \<and> ce_device e = deviceId \<and> ce_seq e = maxSeq docId deviceId s)"
  using maxSeq_facts [of docId deviceId s] by blast

end
