(* ===== verification/ClientGaps.thy ===== *)
theory ClientGaps
  imports ClientLog
begin

text \<open>
  Heads and gaps of the client's log store (\<^verbatim>\<open>InMemoryDocLogStore.ts\<close>). Entries of other devices are
  stored in whatever order they arrive, so the stored sequence numbers of a device may have holes. The
  theory models the three readings of them: the highest number (\<open>getKnownHeads\<close>), the highest number
  without a hole below it (\<open>getStrictContiguousHeads\<close>) and the cursor that goes out in a sync request
  (\<open>getSyncRequestHeads\<close>), which passes the holes marked as soft-skipped, together with the records
  that track the holes.
\<close>

section \<open>Contiguous runs\<close>

text \<open>The loop of \<^verbatim>\<open>strictContiguousHead\<close> with its local variable \<^verbatim>\<open>head\<close>.\<close>

fun strict_walk :: "int \<Rightarrow> int list \<Rightarrow> int" where
  "strict_walk h [] = h"
| "strict_walk h (n # ns) =
     (if n = h + 1 then strict_walk n ns
      else if n > h + 1 then h
      else strict_walk h ns)"

definition strictContiguousHead :: "int list \<Rightarrow> int" where
  "strictContiguousHead sortedSeqs = strict_walk (-1) sortedSeqs"

fun above_walk :: "int \<Rightarrow> int option \<Rightarrow> int list \<Rightarrow> int option" where
  "above_walk firstMissing h [] = h"
| "above_walk firstMissing h (n # ns) =
     (if n < firstMissing then above_walk firstMissing h ns
      else case h of
          None \<Rightarrow> above_walk firstMissing (Some n) ns
        | Some x \<Rightarrow>
            if n = x + 1 then above_walk firstMissing (Some n) ns
            else if n > x + 1 then h
            else above_walk firstMissing h ns)"

definition contiguousHeadAbove :: "int list \<Rightarrow> int \<Rightarrow> int" where
  "contiguousHeadAbove sortedSeqs firstMissing =
     (case above_walk firstMissing None sortedSeqs of None \<Rightarrow> firstMissing - 1 | Some h \<Rightarrow> h)"

section \<open>Heads\<close>

definition device_seqs :: "string \<Rightarrow> string \<Rightarrow> client_store \<Rightarrow> int list" where
  "device_seqs docId device s =
     sort (map ce_seq (filter (\<lambda>e. ce_doc e = docId \<and> ce_device e = device) (cs_entries s)))"

definition seqsByDevice :: "string \<Rightarrow> client_store \<Rightarrow> (string \<times> int list) list" where
  "seqsByDevice docId s =
     map (\<lambda>device. (device, device_seqs docId device s))
       (js_set (map ce_device (filter (\<lambda>e. ce_doc e = docId) (cs_entries s))))"

definition getStrictContiguousHeads :: "string \<Rightarrow> client_store \<Rightarrow> heads" where
  "getStrictContiguousHeads docId s =
     map (\<lambda>(device, seqs). (device, strictContiguousHead seqs)) (seqsByDevice docId s)"

definition soft_gaps :: "string \<Rightarrow> client_store \<Rightarrow> gap_repair list" where
  "soft_gaps docId s = sort_key gr_missing (filter (\<lambda>g. gr_doc g = docId \<and> gr_soft g) (cs_gaps s))"

definition pass_soft_gap :: "(string \<times> int list) list \<Rightarrow> gap_repair \<Rightarrow> heads \<Rightarrow> heads" where
  "pass_soft_gap byDevice gap hs =
     (case map_of byDevice (gr_device gap) of
        None \<Rightarrow> hs
      | Some seqs \<Rightarrow>
          let strict = (case map_of hs (gr_device gap) of
                          Some h \<Rightarrow> h | None \<Rightarrow> strictContiguousHead seqs)
          in if gr_missing gap \<noteq> strict + 1 then hs
             else AList.update (gr_device gap) (contiguousHeadAbove seqs (gr_missing gap)) hs)"

definition getSyncRequestHeads :: "string \<Rightarrow> client_store \<Rightarrow> heads" where
  "getSyncRequestHeads docId s =
     fold (pass_soft_gap (seqsByDevice docId s)) (soft_gaps docId s) (getStrictContiguousHeads docId s)"

section \<open>Gap records\<close>

definition gr_key :: "gap_repair \<Rightarrow> string" where
  "gr_key g = log_entry_key (gr_doc g) (gr_device g) (gr_missing g)"

definition observe_gap :: "int \<Rightarrow> int \<Rightarrow> gap_repair \<Rightarrow> gap_repair" where
  "observe_gap observedMax epoch g =
     (let g1 = g\<lparr>gr_observations := gr_observations g + 1,
                 gr_observed_max := (if observedMax > gr_observed_max g then observedMax
                                     else gr_observed_max g)\<rparr>
      in if gr_last_epoch g1 = epoch then g1
         else g1\<lparr>gr_epochs := (if epoch \<in> set (gr_epochs g1) then gr_epochs g1 else gr_epochs g1 @ [epoch]),
                 gr_last_epoch := epoch\<rparr>)"

definition recordGapObservation ::
  "string \<Rightarrow> string \<Rightarrow> int \<Rightarrow> int \<Rightarrow> int \<Rightarrow> int \<Rightarrow> client_store \<Rightarrow> client_store" where
  "recordGapObservation docId device firstMissing observedMax epoch now s =
     (let fresh = \<lparr>gr_doc = docId, gr_device = device, gr_missing = firstMissing,
                   gr_observed_max = observedMax, gr_observations = 0, gr_epochs = [],
                   gr_last_epoch = -1, gr_first_seen = now, gr_soft = False, gr_due = 0,
                   gr_attempts = 0\<rparr>
      in s\<lparr>cs_gaps := row_update (\<lambda>g. gr_key g = log_entry_key docId device firstMissing)
             (observe_gap observedMax epoch) (row_insert_ignore gr_key fresh (cs_gaps s))\<rparr>)"

definition markGapSoftSkipped :: "string \<Rightarrow> string \<Rightarrow> int \<Rightarrow> client_store \<Rightarrow> client_store" where
  "markGapSoftSkipped docId device firstMissing s =
     s\<lparr>cs_gaps := row_update (\<lambda>g. gr_key g = log_entry_key docId device firstMissing)
                    (\<lambda>g. g\<lparr>gr_soft := True\<rparr>) (cs_gaps s)\<rparr>"

definition listDueGapRepairs :: "int \<Rightarrow> client_store \<Rightarrow> gap_repair list" where
  "listDueGapRepairs now s = filter (\<lambda>g. gr_due g \<le> now) (cs_gaps s)"

definition markGapRepairAttempt :: "string \<Rightarrow> string \<Rightarrow> int \<Rightarrow> int \<Rightarrow> client_store \<Rightarrow> client_store" where
  "markGapRepairAttempt docId device firstMissing nextDueAt s =
     s\<lparr>cs_gaps := row_update (\<lambda>g. gr_key g = log_entry_key docId device firstMissing)
                    (\<lambda>g. g\<lparr>gr_attempts := gr_attempts g + 1, gr_due := nextDueAt\<rparr>) (cs_gaps s)\<rparr>"

definition deleteGapRepair :: "string \<Rightarrow> string \<Rightarrow> int \<Rightarrow> client_store \<Rightarrow> client_store" where
  "deleteGapRepair docId device firstMissing s =
     s\<lparr>cs_gaps := row_delete (\<lambda>g. gr_key g = log_entry_key docId device firstMissing) (cs_gaps s)\<rparr>"

definition autoResolveGaps :: "string \<Rightarrow> string \<Rightarrow> client_store \<Rightarrow> client_store" where
  "autoResolveGaps docId device s =
     (case map_of (seqsByDevice docId s) device of
        None \<Rightarrow> s
      | Some seqs \<Rightarrow>
          let strict = strictContiguousHead seqs
          in s\<lparr>cs_gaps := row_delete
                 (\<lambda>g. gr_doc g = docId \<and> gr_device g = device \<and> gr_missing g \<le> strict) (cs_gaps s)\<rparr>)"

section \<open>Applied remote entries\<close>

record remote_entry =
  re_doc :: string
  re_device :: string
  re_seq :: int
  re_jws :: "string option"

definition recordRemoteApplied :: "remote_entry \<Rightarrow> int \<Rightarrow> client_store \<Rightarrow> client_store" where
  "recordRemoteApplied r now s =
     (if getEntry (re_doc r) (re_device r) (re_seq r) s \<noteq> None then s
      else autoResolveGaps (re_doc r) (re_device r)
        (s\<lparr>cs_entries := cs_entries s @
             [\<lparr>ce_doc = re_doc r, ce_device = re_device r, ce_seq = re_seq r,
               ce_jws = (case re_jws r of None \<Rightarrow> [] | Some j \<Rightarrow> j),
               ce_status = Acked, ce_created = now\<rparr>]\<rparr>))"

text \<open>Each entry comes with the reading of the clock when its turn comes.\<close>

definition recordRemoteAppliedBatch :: "(remote_entry \<times> int) list \<Rightarrow> client_store \<Rightarrow> client_store" where
  "recordRemoteAppliedBatch rs s = fold (\<lambda>(r, now). recordRemoteApplied r now) rs s"

section \<open>Facts about runs\<close>

text \<open>What the strict head of a set of sequence numbers is; there is one.\<close>

definition strict_head :: "int set \<Rightarrow> int \<Rightarrow> bool" where
  "strict_head S h \<longleftrightarrow> -1 \<le> h \<and> (\<forall>i. 0 \<le> i \<and> i \<le> h \<longrightarrow> i \<in> S) \<and> h + 1 \<notin> S"

lemma strict_head_unique:
  assumes "strict_head S h" "strict_head S h'"
  shows "h = h'"
proof -
  have "x \<le> y" if "strict_head S x" "strict_head S y" for x y
  proof (rule ccontr)
    assume "\<not> x \<le> y"
    then have "0 \<le> y + 1" "y + 1 \<le> x" using that(2) by (auto simp: strict_head_def)
    then show False using that by (auto simp: strict_head_def)
  qed
  from this [of h h'] this [of h' h] assms show ?thesis by simp
qed

lemma strict_walk_spec:
  "sorted ns \<Longrightarrow> h \<le> strict_walk h ns \<and>
     (\<forall>i. h < i \<and> i \<le> strict_walk h ns \<longrightarrow> i \<in> set ns) \<and> strict_walk h ns + 1 \<notin> set ns"
proof (induction h ns rule: strict_walk.induct)
  case (2 h n ns)
  consider "n = h + 1" | "n > h + 1" | "n < h + 1" by linarith
  then show ?case
  proof cases
    case 1
    then have w: "strict_walk h (n # ns) = strict_walk n ns" by simp
    note IH = "2.IH"(1) [OF 1]
    have "i = n \<or> n < i" if "h < i" for i using that 1 by linarith
    moreover have "strict_walk n ns + 1 \<noteq> n" using IH "2.prems" by auto
    ultimately show ?thesis using IH "2.prems" 1 unfolding w by auto
  next
    case 2
    moreover have "\<forall>m \<in> set ns. n \<le> m" using "2.prems" by simp
    ultimately show ?thesis by auto
  next
    case 3
    then have w: "strict_walk h (n # ns) = strict_walk h ns" by simp
    show ?thesis using "2.IH"(2) 3 "2.prems" unfolding w by auto
  qed
qed simp

lemma strictContiguousHead_spec:
  "sorted ns \<Longrightarrow> strict_head (set ns) (strictContiguousHead ns)"
  using strict_walk_spec [of ns "-1"] by (auto simp: strict_head_def strictContiguousHead_def)

lemma above_walk_Some:
  "firstMissing \<le> x \<Longrightarrow> above_walk firstMissing (Some x) ns = Some (strict_walk x ns)"
proof (induction ns arbitrary: x)
  case (Cons n ns)
  consider "n = x + 1" | "n > x + 1" | "n < x + 1" by linarith
  then show ?case using Cons by cases auto
qed simp

text \<open>
  \<open>h\<close> ends the run of stored numbers that starts at the first stored number at or above a hole.
\<close>

definition next_run :: "int set \<Rightarrow> int \<Rightarrow> int \<Rightarrow> bool" where
  "next_run S firstMissing h \<longleftrightarrow>
     (\<exists>m \<in> S. firstMissing \<le> m \<and> (\<forall>n \<in> S. firstMissing \<le> n \<longrightarrow> m \<le> n) \<and> m \<le> h \<and>
        (\<forall>i. m \<le> i \<and> i \<le> h \<longrightarrow> i \<in> S)) \<and> h + 1 \<notin> S"

lemma next_run_insert_below:
  "next_run S firstMissing h \<Longrightarrow> n < firstMissing \<Longrightarrow> next_run (insert n S) firstMissing h"
  unfolding next_run_def by fastforce

lemma above_walk_None_empty:
  "\<forall>n \<in> set ns. n < firstMissing \<Longrightarrow> above_walk firstMissing None ns = None"
  by (induction ns) auto

lemma above_walk_None_run:
  "sorted ns \<Longrightarrow> n \<in> set ns \<Longrightarrow> firstMissing \<le> n \<Longrightarrow>
     \<exists>h. above_walk firstMissing None ns = Some h \<and> next_run (set ns) firstMissing h"
proof (induction ns)
  case (Cons k ns)
  show ?case
  proof (cases "k < firstMissing")
    case True
    then have "\<exists>h. above_walk firstMissing None ns = Some h \<and> next_run (set ns) firstMissing h"
      using Cons by auto
    then show ?thesis using True by (auto intro: next_run_insert_below)
  next
    case False
    then have w: "above_walk firstMissing None (k # ns) = Some (strict_walk k ns)"
      by (simp add: above_walk_Some)
    note spec = strict_walk_spec [of ns k]
    have least: "\<forall>m \<in> set ns. k \<le> m" using Cons.prems by simp
    have run: "i \<in> set (k # ns)" if "k \<le> i" "i \<le> strict_walk k ns" for i
      using spec Cons.prems that by (cases "i = k") auto
    have stop: "strict_walk k ns + 1 \<notin> set (k # ns)" "k \<le> strict_walk k ns"
      using spec Cons.prems by auto
    have "next_run (set (k # ns)) firstMissing (strict_walk k ns)"
      unfolding next_run_def using False run stop least
      by (intro conjI bexI [of _ k] allI impI) auto
    then show ?thesis by (simp only: w) blast
  qed
qed simp

lemma contiguousHeadAbove_run:
  "sorted ns \<Longrightarrow> n \<in> set ns \<Longrightarrow> firstMissing \<le> n \<Longrightarrow>
     next_run (set ns) firstMissing (contiguousHeadAbove ns firstMissing)"
  using above_walk_None_run by (fastforce simp: contiguousHeadAbove_def)

lemma contiguousHeadAbove_empty:
  "\<forall>n \<in> set ns. n < firstMissing \<Longrightarrow> contiguousHeadAbove ns firstMissing = firstMissing - 1"
  by (simp add: contiguousHeadAbove_def above_walk_None_empty)

section \<open>Facts about heads\<close>

text \<open>The sequence numbers stored for a device and a document, and the holes marked as skipped.\<close>

definition stored_seqs :: "string \<Rightarrow> string \<Rightarrow> client_store \<Rightarrow> int set" where
  "stored_seqs docId device s = {n. \<exists>e \<in> set (cs_entries s). ce_doc e = docId \<and> ce_device e = device \<and> ce_seq e = n}"

definition skipped_holes :: "string \<Rightarrow> string \<Rightarrow> client_store \<Rightarrow> int set" where
  "skipped_holes docId device s =
     {n. \<exists>g \<in> set (cs_gaps s). gr_doc g = docId \<and> gr_device g = device \<and> gr_soft g \<and> gr_missing g = n}"

lemma sorted_device_seqs [simp]: "sorted (device_seqs docId device s)"
  by (simp add: device_seqs_def)

lemma set_device_seqs [simp]: "set (device_seqs docId device s) = stored_seqs docId device s"
  by (auto simp: device_seqs_def stored_seqs_def)

lemma finite_stored_seqs [simp]: "finite (stored_seqs docId device s)"
  using set_device_seqs by (metis List.finite_set)

lemma map_of_map_const: "map_of (map (\<lambda>k. (k, f k)) ks) k = (if k \<in> set ks then Some (f k) else None)"
  by (induction ks) auto

lemma map_of_seqsByDevice:
  "map_of (seqsByDevice docId s) device =
     (if stored_seqs docId device s = {} then None else Some (device_seqs docId device s))"
  by (auto simp: seqsByDevice_def map_of_map_const stored_seqs_def)

lemma map_of_map_snd: "map_of (map (\<lambda>(k, v). (k, f v)) xs) k = map_option f (map_of xs k)"
  by (induction xs) auto

lemma map_of_strict_heads:
  "map_of (getStrictContiguousHeads docId s) device =
     (if stored_seqs docId device s = {} then None
      else Some (strictContiguousHead (device_seqs docId device s)))"
  by (simp add: getStrictContiguousHeads_def map_of_map_snd map_of_seqsByDevice)

lemma strict_head_device_seqs:
  "strict_head (stored_seqs docId device s) (strictContiguousHead (device_seqs docId device s))"
  using strictContiguousHead_spec [OF sorted_device_seqs] by simp

section \<open>The cursor of a sync request\<close>

text \<open>The cursor of one device: its strict head, passed over the soft-skipped holes.\<close>

definition pass_hole :: "int list \<Rightarrow> int \<Rightarrow> int \<Rightarrow> int" where
  "pass_hole ns m c = (if m = c + 1 then contiguousHeadAbove ns m else c)"

lemma map_of_pass_soft_gap:
  assumes "\<And>d. map_of hs d = None \<longleftrightarrow> map_of byDevice d = None"
  shows "map_of (pass_soft_gap byDevice g hs) device =
     (case map_of byDevice device of
        None \<Rightarrow> map_of hs device
      | Some ns \<Rightarrow> map_option (if gr_device g = device then pass_hole ns (gr_missing g) else id) (map_of hs device))"
    and "map_of (pass_soft_gap byDevice g hs) d = None \<longleftrightarrow> map_of byDevice d = None"
  using assms by (auto simp: pass_soft_gap_def pass_hole_def Let_def update_conv' option.map_id
      split: option.splits)

lemma map_of_fold_pass_soft_gap:
  assumes "\<And>d. map_of hs d = None \<longleftrightarrow> map_of byDevice d = None" and "map_of byDevice device = Some ns"
    and "map_of hs device = Some c"
  shows "map_of (fold (pass_soft_gap byDevice) gs hs) device =
     Some (fold (pass_hole ns) (map gr_missing (filter (\<lambda>g. gr_device g = device) gs)) c)"
  using assms
proof (induction gs arbitrary: hs c)
  case (Cons g gs)
  show ?case
    using Cons.IH [of "pass_soft_gap byDevice g hs"] map_of_pass_soft_gap [OF Cons.prems(1)] Cons.prems(2,3)
    by simp
qed simp

lemma map_of_wire_heads:
  assumes "stored_seqs docId device s \<noteq> {}"
  shows "map_of (getSyncRequestHeads docId s) device =
     Some (fold (pass_hole (device_seqs docId device s))
            (map gr_missing (filter (\<lambda>g. gr_device g = device) (soft_gaps docId s)))
            (strictContiguousHead (device_seqs docId device s)))"
  unfolding getSyncRequestHeads_def
  by (rule map_of_fold_pass_soft_gap) (use assms in \<open>auto simp: map_of_strict_heads map_of_seqsByDevice\<close>)

lemma wire_heads_absent:
  assumes "stored_seqs docId device s = {}"
  shows "map_of (getSyncRequestHeads docId s) device = None"
proof -
  have "map_of (fold (pass_soft_gap byDevice) gs hs) d = None \<longleftrightarrow> map_of byDevice d = None"
    if "\<And>d. map_of hs d = None \<longleftrightarrow> map_of byDevice d = None" for gs hs byDevice d
    using that
  proof (induction gs arbitrary: hs)
    case (Cons g gs)
    show ?case using Cons.IH map_of_pass_soft_gap(2) [OF Cons.prems] by simp
  qed simp
  then show ?thesis
    unfolding getSyncRequestHeads_def using assms
    by (simp add: map_of_strict_heads map_of_seqsByDevice)
qed

text \<open>What the cursor passes: stored numbers, and numbers in a skipped hole.\<close>

definition covered :: "int set \<Rightarrow> int set \<Rightarrow> int \<Rightarrow> bool" where
  "covered S holes i \<longleftrightarrow> i \<in> S \<or> (\<exists>m \<in> holes. m \<le> i \<and> (\<forall>j. m \<le> j \<and> j \<le> i \<longrightarrow> j \<notin> S))"

definition cursor_ok :: "int set \<Rightarrow> int set \<Rightarrow> int \<Rightarrow> bool" where
  "cursor_ok S holes c \<longleftrightarrow>
     (c = -1 \<or> c \<in> S) \<and> c + 1 \<notin> S \<and> (\<forall>i. 0 \<le> i \<and> i \<le> c \<longrightarrow> covered S holes i)"

lemma strict_head_cursor_ok: "strict_head S h \<Longrightarrow> cursor_ok S holes h"
  by (cases "h = -1") (auto simp: strict_head_def cursor_ok_def covered_def)

lemma pass_hole_ok:
  assumes "sorted ns" "cursor_ok (set ns) holes c" "m \<in> holes"
  shows "cursor_ok (set ns) holes (pass_hole ns m c) \<and> c \<le> pass_hole ns m c"
proof (cases "m = c + 1 \<and> (\<exists>n \<in> set ns. m \<le> n)")
  case True
  then obtain n where "n \<in> set ns" "m \<le> n" by auto
  from contiguousHeadAbove_run [OF assms(1) this] obtain k where
    k: "k \<in> set ns" "m \<le> k" "\<forall>n \<in> set ns. m \<le> n \<longrightarrow> k \<le> n" "k \<le> contiguousHeadAbove ns m"
      "\<forall>i. k \<le> i \<and> i \<le> contiguousHeadAbove ns m \<longrightarrow> i \<in> set ns" "contiguousHeadAbove ns m + 1 \<notin> set ns"
    by (auto simp: next_run_def)
  have "covered (set ns) holes i" if "0 \<le> i" "i \<le> contiguousHeadAbove ns m" for i
  proof -
    consider "i \<le> c" | "m \<le> i" "i < k" | "k \<le> i" using True by linarith
    then show ?thesis
    proof cases
      case 1
      then show ?thesis using assms(2) that by (auto simp: cursor_ok_def)
    next
      case 2
      then have "\<forall>j. m \<le> j \<and> j \<le> i \<longrightarrow> j \<notin> set ns" using k(3) by fastforce
      then show ?thesis using 2(1) assms(3) by (auto simp: covered_def)
    next
      case 3
      then show ?thesis using k(5) that by (auto simp: covered_def)
    qed
  qed
  then show ?thesis using True k by (auto simp: cursor_ok_def pass_hole_def)
next
  case False
  then have "pass_hole ns m c = c"
    by (auto simp: pass_hole_def not_le contiguousHeadAbove_empty)
  then show ?thesis using assms(2) by simp
qed

lemma fold_pass_hole_ok:
  "sorted ns \<Longrightarrow> cursor_ok (set ns) holes c \<Longrightarrow> set ms \<subseteq> holes \<Longrightarrow>
     cursor_ok (set ns) holes (fold (pass_hole ns) ms c) \<and> c \<le> fold (pass_hole ns) ms c"
proof (induction ms arbitrary: c)
  case (Cons m ms)
  have "cursor_ok (set ns) holes (pass_hole ns m c)" "c \<le> pass_hole ns m c"
    using pass_hole_ok [OF Cons.prems(1,2)] Cons.prems(3) by auto
  then show ?case using Cons.IH [OF Cons.prems(1)] Cons.prems(3) by fastforce
qed simp

lemma fold_pass_hole_idle:
  "\<forall>m \<in> set ms. m \<noteq> c + 1 \<Longrightarrow> fold (pass_hole ns) ms c = c"
  by (induction ms) (auto simp: pass_hole_def)

lemma fold_pass_hole_stops:
  "sorted ns \<Longrightarrow> cursor_ok (set ns) holes c \<Longrightarrow> sorted ms \<Longrightarrow> fold (pass_hole ns) ms c + 1 \<in> set ms \<Longrightarrow>
     n \<in> set ns \<Longrightarrow> set ms \<subseteq> holes \<Longrightarrow> n \<le> fold (pass_hole ns) ms c"
proof (induction ms arbitrary: c)
  case (Cons m ms)
  let ?c = "pass_hole ns m c" and ?r = "fold (pass_hole ns) (m # ms) c"
  have ok: "cursor_ok (set ns) holes ?c" "c \<le> ?c"
    using pass_hole_ok [OF Cons.prems(1,2)] Cons.prems(6) by auto
  have r: "?c \<le> ?r"
    using fold_pass_hole_ok [OF Cons.prems(1) ok(1), of ms] Cons.prems(6) by auto
  show ?case
  proof (cases "?r + 1 = m")
    case True
    have c: "c = ?r"
    proof (rule ccontr)
      assume "c \<noteq> ?r"
      then have "m \<noteq> c + 1" using True ok(2) r by auto
      then have "?c = c" by (simp add: pass_hole_def)
      moreover have "\<forall>k \<in> set ms. k \<noteq> c + 1"
        using Cons.prems(3) True r \<open>c \<noteq> ?r\<close> \<open>?c = c\<close> by fastforce
      ultimately show False using fold_pass_hole_idle [of ms c ns] \<open>c \<noteq> ?r\<close> by simp
    qed
    then have head: "contiguousHeadAbove ns m = m - 1"
      using True ok(2) r by (simp add: pass_hole_def split: if_splits)
    show ?thesis
    proof (rule ccontr)
      assume "\<not> n \<le> ?r"
      then have "next_run (set ns) m (contiguousHeadAbove ns m)"
        using contiguousHeadAbove_run [OF Cons.prems(1,5)] True by simp
      then show False using head by (auto simp: next_run_def)
    qed
  next
    case False
    then show ?thesis
      using Cons.IH [OF Cons.prems(1) ok(1)] Cons.prems(3-6) by simp
  qed
qed simp

lemma wire_cursor_facts:
  assumes "map_of (getSyncRequestHeads docId s) device = Some c"
  shows "cursor_ok (stored_seqs docId device s) (skipped_holes docId device s) c"
    and "strictContiguousHead (device_seqs docId device s) \<le> c"
    and "c + 1 \<in> skipped_holes docId device s \<Longrightarrow> \<forall>n \<in> stored_seqs docId device s. n \<le> c"
proof -
  let ?ns = "device_seqs docId device s"
  let ?ms = "map gr_missing (filter (\<lambda>g. gr_device g = device) (soft_gaps docId s))"
  have some: "stored_seqs docId device s \<noteq> {}"
    using assms wire_heads_absent by fastforce
  then have c: "c = fold (pass_hole ?ns) ?ms (strictContiguousHead ?ns)"
    using assms by (simp add: map_of_wire_heads)
  have holes: "set ?ms = skipped_holes docId device s"
    by (auto simp: soft_gaps_def skipped_holes_def)
  have start: "cursor_ok (set ?ns) (skipped_holes docId device s) (strictContiguousHead ?ns)"
    using strict_head_device_seqs by (simp add: strict_head_cursor_ok)
  note fold = fold_pass_hole_ok [OF sorted_device_seqs start equalityD1 [OF holes]]
  show "cursor_ok (stored_seqs docId device s) (skipped_holes docId device s) c"
    and "strictContiguousHead ?ns \<le> c"
    using fold by (auto simp: c)
  have sorted: "sorted ?ms"
  proof -
    have "sorted (map gr_missing (soft_gaps docId s))" by (simp add: soft_gaps_def)
    then show ?thesis by (rule sorted_filter)
  qed
  assume "c + 1 \<in> skipped_holes docId device s"
  then have "fold (pass_hole ?ns) ?ms (strictContiguousHead ?ns) + 1 \<in> set ?ms"
    by (simp only: holes c)
  from fold_pass_hole_stops [OF sorted_device_seqs start sorted this _ equalityD1 [OF holes]]
  show "\<forall>n \<in> stored_seqs docId device s. n \<le> c" by (simp add: c)
qed

text \<open>Without soft-skipped holes the cursor is the strict head.\<close>

lemma wire_heads_no_soft:
  "soft_gaps docId s = [] \<Longrightarrow> getSyncRequestHeads docId s = getStrictContiguousHeads docId s"
  by (simp add: getSyncRequestHeads_def)

section \<open>Known heads\<close>

lemma known_heads_fold:
  "map_of (fold (\<lambda>e hs. if ce_doc e \<noteq> docId then hs
                 else case map_of hs (ce_device e) of
                     None \<Rightarrow> hs @ [(ce_device e, ce_seq e)]
                   | Some m \<Rightarrow> if ce_seq e > m then AList.update (ce_device e) (ce_seq e) hs else hs)
       es hs) device =
     (let ns = map ce_seq (filter (\<lambda>e. ce_doc e = docId \<and> ce_device e = device) es)
      in case map_of hs device of
           None \<Rightarrow> (case ns of [] \<Rightarrow> None | n # ns \<Rightarrow> Some (fold max ns n))
         | Some m \<Rightarrow> Some (fold max ns m))"
proof (induction es arbitrary: hs)
  case (Cons e es)
  have upd: "map_of (hs @ [(k, v)]) k' = (if k' = k \<and> map_of hs k' = None then Some v else map_of hs k')"
    for hs :: heads and k v k'
    by (auto simp: map_add_def split: option.splits)
  show ?case
    by (auto simp: Cons.IH upd update_conv' Let_def max_def not_less split: option.splits list.splits)
qed (simp split: option.splits)

lemma fold_max_Max: "fold max ns n = Max (set (n # ns))" for n :: int
  by (simp only: Max.set_eq_fold)

lemma map_of_known_heads:
  "map_of (getKnownHeads docId s) device =
     (if stored_seqs docId device s = {} then None else Some (Max (stored_seqs docId device s)))"
proof -
  let ?ns = "map ce_seq (filter (\<lambda>e. ce_doc e = docId \<and> ce_device e = device) (cs_entries s))"
  have S: "set ?ns = stored_seqs docId device s"
    by (auto simp: stored_seqs_def)
  show ?thesis
  proof (cases ?ns)
    case Nil
    then have "stored_seqs docId device s = {}" using S by (metis list.set(1))
    then show ?thesis using Nil
      unfolding getKnownHeads_def known_heads_fold Let_def by simp
  next
    case (Cons n ns)
    then have "stored_seqs docId device s = set (n # ns)" using S by metis
    then show ?thesis using Cons
      unfolding getKnownHeads_def known_heads_fold Let_def by (simp add: fold_max_Max)
  qed
qed

end
