(* ===== verification/ClientApply.thy ===== *)
theory ClientApply
  imports ClientGaps
begin

text \<open>
  What recording remote entries does to the heads and the gap records of the client's log store: the
  stored numbers grow by exactly the recorded ones, in whatever order they come, and the gap records
  that remain are exactly those whose hole is still open.

  The keys of the store name entries unambiguously when no document id holds a NUL
  (\<open>plain_docs\<close>); document ids are UUIDs.
\<close>

section \<open>Effects of recording entries\<close>

lemma cs_entries_autoResolve [simp]: "cs_entries (autoResolveGaps docId device s) = cs_entries s"
  by (simp add: autoResolveGaps_def Let_def split: option.splits)

lemma cs_device_autoResolve [simp]: "cs_device (autoResolveGaps docId device s) = cs_device s"
  by (simp add: autoResolveGaps_def Let_def split: option.splits)

lemma cs_entries_recordRemoteApplied:
  "\<exists>new. cs_entries (recordRemoteApplied r now s) = cs_entries s @ new \<and>
     (\<forall>e \<in> set new. ce_status e = Acked)"
  by (auto simp: recordRemoteApplied_def intro: exI [of _ "[]"])

lemma cs_device_recordRemoteApplied [simp]: "cs_device (recordRemoteApplied r now s) = cs_device s"
  by (simp add: recordRemoteApplied_def)

lemma getEntry_recordRemoteApplied:
  "getEntry d dev n s = Some e \<Longrightarrow> getEntry d dev n (recordRemoteApplied r now s) = Some e"
  using cs_entries_recordRemoteApplied [of r now s] by (auto simp: getEntry_def)

definition plain_docs :: "client_store \<Rightarrow> bool" where
  "plain_docs s \<longleftrightarrow> (\<forall>e \<in> set (cs_entries s). CHR 0x00 \<notin> set (ce_doc e))"

lemma getEntry_stored:
  assumes "plain_docs s" "CHR 0x00 \<notin> set docId"
  shows "getEntry docId device n s \<noteq> None \<longleftrightarrow> n \<in> stored_seqs docId device s"
proof -
  have "ce_key e = log_entry_key docId device n \<longleftrightarrow> ce_doc e = docId \<and> ce_device e = device \<and> ce_seq e = n"
    if "e \<in> set (cs_entries s)" for e
    using that assms by (simp add: ce_key_def log_entry_key_inj plain_docs_def)
  then have "(\<exists>e \<in> set (cs_entries s). ce_key e = log_entry_key docId device n) \<longleftrightarrow>
      n \<in> stored_seqs docId device s"
    by (simp add: stored_seqs_def cong: bex_cong)
  moreover have "getEntry docId device n s \<noteq> None \<longleftrightarrow>
      (\<exists>e \<in> set (cs_entries s). ce_key e = log_entry_key docId device n)"
    unfolding getEntry_def row_get_None_iff unfolding image_iff by metis
  ultimately show ?thesis by blast
qed

lemma stored_seqs_snoc:
  "stored_seqs docId device (s\<lparr>cs_entries := cs_entries s @ [e]\<rparr>) =
     (if ce_doc e = docId \<and> ce_device e = device then insert (ce_seq e) (stored_seqs docId device s)
      else stored_seqs docId device s)"
  by (auto simp: stored_seqs_def)

lemma stored_seqs_autoResolve [simp]:
  "stored_seqs docId device (autoResolveGaps d dev s) = stored_seqs docId device s"
  by (simp add: stored_seqs_def)

lemma stored_seqs_recordRemoteApplied:
  assumes "plain_docs s" "CHR 0x00 \<notin> set (re_doc r)"
  shows "stored_seqs docId device (recordRemoteApplied r now s) =
     (if re_doc r = docId \<and> re_device r = device then insert (re_seq r) (stored_seqs docId device s)
      else stored_seqs docId device s)"
  using getEntry_stored [OF assms, of "re_device r" "re_seq r"]
  by (auto simp: recordRemoteApplied_def stored_seqs_snoc)

lemma plain_docs_recordRemoteApplied:
  "plain_docs s \<Longrightarrow> CHR 0x00 \<notin> set (re_doc r) \<Longrightarrow> plain_docs (recordRemoteApplied r now s)"
  by (auto simp: plain_docs_def recordRemoteApplied_def)

definition plain_batch :: "(remote_entry \<times> int) list \<Rightarrow> bool" where
  "plain_batch rs \<longleftrightarrow> (\<forall>(r, now) \<in> set rs. CHR 0x00 \<notin> set (re_doc r))"

definition batch_seqs :: "string \<Rightarrow> string \<Rightarrow> (remote_entry \<times> int) list \<Rightarrow> int set" where
  "batch_seqs docId device rs = {n. \<exists>(r, now) \<in> set rs. re_doc r = docId \<and> re_device r = device \<and> re_seq r = n}"

lemma plain_batch_simps [simp]:
  "plain_batch []" "plain_batch ((r, now) # rs) \<longleftrightarrow> CHR 0x00 \<notin> set (re_doc r) \<and> plain_batch rs"
  by (auto simp: plain_batch_def)

lemma batch_seqs_simps [simp]:
  "batch_seqs docId device [] = {}"
  "batch_seqs docId device ((r, now) # rs) =
     (if re_doc r = docId \<and> re_device r = device then insert (re_seq r) (batch_seqs docId device rs)
      else batch_seqs docId device rs)"
  by (auto simp: batch_seqs_def)

lemma stored_seqs_batch:
  assumes "plain_docs s" "plain_batch rs"
  shows "stored_seqs docId device (recordRemoteAppliedBatch rs s) =
           stored_seqs docId device s \<union> batch_seqs docId device rs"
    and "plain_docs (recordRemoteAppliedBatch rs s)"
proof -
  have "stored_seqs docId device (recordRemoteAppliedBatch rs s) =
          stored_seqs docId device s \<union> batch_seqs docId device rs \<and> plain_docs (recordRemoteAppliedBatch rs s)"
    using assms
  proof (induction rs arbitrary: s)
    case (Cons p rs)
    obtain r now where p: "p = (r, now)" by (cases p)
    show ?case
      using Cons.IH [of "recordRemoteApplied r now s"] Cons.prems
      by (auto simp: p recordRemoteAppliedBatch_def stored_seqs_recordRemoteApplied
          plain_docs_recordRemoteApplied)
  qed (simp add: recordRemoteAppliedBatch_def)
  then show "stored_seqs docId device (recordRemoteAppliedBatch rs s) =
           stored_seqs docId device s \<union> batch_seqs docId device rs"
    and "plain_docs (recordRemoteAppliedBatch rs s)" by auto
qed

section \<open>Gap records follow the strict heads\<close>

abbreviation strict_of :: "string \<Rightarrow> string \<Rightarrow> client_store \<Rightarrow> int" where
  "strict_of docId device s \<equiv> strictContiguousHead (device_seqs docId device s)"

definition gap_open :: "client_store \<Rightarrow> gap_repair \<Rightarrow> bool" where
  "gap_open s g \<longleftrightarrow> strict_of (gr_doc g) (gr_device g) s < gr_missing g"

definition gaps_open :: "client_store \<Rightarrow> bool" where
  "gaps_open s \<longleftrightarrow> (\<forall>g \<in> set (cs_gaps s). gap_open s g)"

lemma strict_of_eq_iff: "strict_of docId device s = h \<longleftrightarrow> strict_head (stored_seqs docId device s) h"
  using strict_head_device_seqs strict_head_unique by metis

lemma strict_of_cong:
  "stored_seqs docId device s = stored_seqs docId device s' \<Longrightarrow> strict_of docId device s = strict_of docId device s'"
  using strict_head_device_seqs [of docId device s'] by (simp add: strict_of_eq_iff)

lemma strict_head_mono:
  assumes "S \<subseteq> T" "strict_head S h" "strict_head T h'"
  shows "h \<le> h'"
proof (rule ccontr)
  assume "\<not> h \<le> h'"
  then have "0 \<le> h' + 1 \<and> h' + 1 \<le> h" using assms(3) by (auto simp: strict_head_def)
  then have "h' + 1 \<in> T" using assms(1,2) by (auto simp: strict_head_def)
  then show False using assms(3) by (simp add: strict_head_def)
qed

lemma strict_of_mono:
  "stored_seqs docId device s \<subseteq> stored_seqs docId device s' \<Longrightarrow> strict_of docId device s \<le> strict_of docId device s'"
  by (rule strict_head_mono) (rule strict_head_device_seqs | assumption)+

lemma cs_gaps_autoResolve:
  assumes "stored_seqs docId device s \<noteq> {}"
  shows "cs_gaps (autoResolveGaps docId device s) =
     filter (\<lambda>g. gr_doc g = docId \<and> gr_device g = device \<longrightarrow> gap_open s g) (cs_gaps s)"
  using assms
  by (auto simp: autoResolveGaps_def Let_def map_of_seqsByDevice row_delete_def gap_open_def
      intro!: filter_cong)

lemma cs_gaps_recordRemoteApplied:
  assumes "plain_docs s" "CHR 0x00 \<notin> set (re_doc r)" "gaps_open s"
  shows "cs_gaps (recordRemoteApplied r now s) = filter (gap_open (recordRemoteApplied r now s)) (cs_gaps s)"
proof (cases "getEntry (re_doc r) (re_device r) (re_seq r) s = None")
  case False
  then show ?thesis
    using assms(3) by (simp add: recordRemoteApplied_def gaps_open_def)
next
  case True
  let ?s = "s\<lparr>cs_entries := cs_entries s @
             [\<lparr>ce_doc = re_doc r, ce_device = re_device r, ce_seq = re_seq r,
               ce_jws = (case re_jws r of None \<Rightarrow> [] | Some j \<Rightarrow> j),
               ce_status = Acked, ce_created = now\<rparr>]\<rparr>"
  have step: "recordRemoteApplied r now s = autoResolveGaps (re_doc r) (re_device r) ?s"
    using True by (simp add: recordRemoteApplied_def)
  have open_eq: "gap_open (autoResolveGaps (re_doc r) (re_device r) ?s) g \<longleftrightarrow> gap_open ?s g" for g
    by (simp add: gap_open_def device_seqs_def)
  have other: "gap_open ?s g \<longleftrightarrow> gap_open s g"
    if "\<not> (gr_doc g = re_doc r \<and> gr_device g = re_device r)" for g
    unfolding gap_open_def using strict_of_cong [of "gr_doc g" "gr_device g" ?s s] that
    by (auto simp: stored_seqs_snoc)
  have "cs_gaps (autoResolveGaps (re_doc r) (re_device r) ?s) =
      filter (\<lambda>g. gr_doc g = re_doc r \<and> gr_device g = re_device r \<longrightarrow> gap_open ?s g) (cs_gaps ?s)"
    by (rule cs_gaps_autoResolve) (simp add: stored_seqs_snoc)
  also have "\<dots> = filter (gap_open ?s) (cs_gaps s)"
    using assms(3) other by (auto simp: gaps_open_def intro!: filter_cong)
  finally show ?thesis unfolding step open_eq .
qed

lemma gaps_open_recordRemoteApplied:
  assumes "plain_docs s" "CHR 0x00 \<notin> set (re_doc r)" "gaps_open s"
  shows "gaps_open (recordRemoteApplied r now s)"
  unfolding gaps_open_def cs_gaps_recordRemoteApplied [OF assms] by simp

lemma gap_open_antimono:
  "(\<And>d dev. stored_seqs d dev s \<subseteq> stored_seqs d dev s') \<Longrightarrow> gap_open s' g \<Longrightarrow> gap_open s g"
  using strict_of_mono [of "gr_doc g" "gr_device g" s s'] by (auto simp: gap_open_def)

lemma cs_gaps_batch:
  assumes "plain_docs s" "plain_batch rs" "gaps_open s"
  shows "cs_gaps (recordRemoteAppliedBatch rs s) = filter (gap_open (recordRemoteAppliedBatch rs s)) (cs_gaps s)"
  using assms
proof (induction rs arbitrary: s)
  case Nil
  then show ?case by (simp add: recordRemoteAppliedBatch_def gaps_open_def)
next
  case (Cons p rs)
  obtain r now where p: "p = (r, now)" by (cases p)
  let ?s1 = "recordRemoteApplied r now s" and ?s2 = "recordRemoteAppliedBatch (p # rs) s"
  have two: "?s2 = recordRemoteAppliedBatch rs ?s1"
    by (simp add: recordRemoteAppliedBatch_def p)
  have plain: "CHR 0x00 \<notin> set (re_doc r)" "plain_batch rs" using Cons.prems(2) by (simp_all add: p)
  note s1 = plain_docs_recordRemoteApplied [OF Cons.prems(1) plain(1), of now]
    gaps_open_recordRemoteApplied [OF Cons.prems(1) plain(1) Cons.prems(3), of now]
  have "gap_open ?s1 g" if "gap_open ?s2 g" for g
    by (rule gap_open_antimono [OF _ that]) (simp add: two stored_seqs_batch [OF s1(1) plain(2)])
  then have "filter (gap_open ?s2) (filter (gap_open ?s1) (cs_gaps s)) = filter (gap_open ?s2) (cs_gaps s)"
    by (auto simp: filter_filter intro!: filter_cong)
  then show ?case
    using Cons.IH [OF s1(1) plain(2) s1(2)] cs_gaps_recordRemoteApplied [OF Cons.prems(1) plain(1) Cons.prems(3)]
    by (simp add: two)
qed

text \<open>
  Also for records whose hole is closed already: those are only looked at when an entry of their
  device is inserted.
\<close>

lemma cs_gaps_recordRemoteApplied_any:
  assumes "plain_docs s" "CHR 0x00 \<notin> set (re_doc r)"
  shows "cs_gaps (recordRemoteApplied r now s) =
    filter (\<lambda>g. gap_open (recordRemoteApplied r now s) g \<or> \<not> (gr_doc g = re_doc r \<and> gr_device g = re_device r) \<or>
      re_seq r \<in> stored_seqs (re_doc r) (re_device r) s) (cs_gaps s)"
proof (cases "re_seq r \<in> stored_seqs (re_doc r) (re_device r) s")
  case True
  then show ?thesis
    using getEntry_stored [OF assms, of "re_device r" "re_seq r"] by (simp add: recordRemoteApplied_def)
next
  case False
  let ?s = "s\<lparr>cs_entries := cs_entries s @
             [\<lparr>ce_doc = re_doc r, ce_device = re_device r, ce_seq = re_seq r,
               ce_jws = (case re_jws r of None \<Rightarrow> [] | Some j \<Rightarrow> j),
               ce_status = Acked, ce_created = now\<rparr>]\<rparr>"
  have step: "recordRemoteApplied r now s = autoResolveGaps (re_doc r) (re_device r) ?s"
    using False getEntry_stored [OF assms, of "re_device r" "re_seq r"] by (simp add: recordRemoteApplied_def)
  have open_eq: "gap_open (autoResolveGaps (re_doc r) (re_device r) ?s) g \<longleftrightarrow> gap_open ?s g" for g
    by (simp add: gap_open_def device_seqs_def)
  have "cs_gaps (autoResolveGaps (re_doc r) (re_device r) ?s) =
      filter (\<lambda>g. gr_doc g = re_doc r \<and> gr_device g = re_device r \<longrightarrow> gap_open ?s g) (cs_gaps ?s)"
    by (rule cs_gaps_autoResolve) (simp add: stored_seqs_snoc)
  then show ?thesis unfolding step open_eq by (auto simp: False intro!: filter_cong)
qed

lemma cs_gaps_batch_any:
  assumes "plain_docs s" "plain_batch rs"
  shows "cs_gaps (recordRemoteAppliedBatch rs s) =
    filter (\<lambda>g. gap_open (recordRemoteAppliedBatch rs s) g \<or>
      batch_seqs (gr_doc g) (gr_device g) rs \<subseteq> stored_seqs (gr_doc g) (gr_device g) s) (cs_gaps s)"
  using assms
proof (induction rs arbitrary: s)
  case Nil
  then show ?case by (simp add: recordRemoteAppliedBatch_def)
next
  case (Cons p rs)
  obtain r now where p: "p = (r, now)" by (cases p)
  let ?s1 = "recordRemoteApplied r now s" and ?s2 = "recordRemoteAppliedBatch (p # rs) s"
  have two: "?s2 = recordRemoteAppliedBatch rs ?s1"
    by (simp add: recordRemoteAppliedBatch_def p)
  have plain: "CHR 0x00 \<notin> set (re_doc r)" "plain_batch rs" using Cons.prems(2) by (simp_all add: p)
  note s1 = plain_docs_recordRemoteApplied [OF Cons.prems(1) plain(1), of now]
  note stored1 = stored_seqs_recordRemoteApplied [OF Cons.prems(1) plain(1), of _ _ now]
  have later: "gap_open ?s1 g" if "gap_open ?s2 g" for g
    by (rule gap_open_antimono [OF _ that]) (simp add: two stored_seqs_batch [OF s1 plain(2)])
  have same: "gap_open ?s2 g \<longleftrightarrow> gap_open ?s1 g"
    if "batch_seqs (gr_doc g) (gr_device g) rs \<subseteq> stored_seqs (gr_doc g) (gr_device g) ?s1" for g
    unfolding gap_open_def
    using strict_of_cong [of "gr_doc g" "gr_device g" ?s2 ?s1] that
    by (auto simp: two stored_seqs_batch [OF s1 plain(2)] Un_absorb2)
  have "cs_gaps ?s2 = filter (\<lambda>g. gap_open ?s2 g \<or>
      batch_seqs (gr_doc g) (gr_device g) rs \<subseteq> stored_seqs (gr_doc g) (gr_device g) ?s1) (cs_gaps ?s1)"
    using Cons.IH [OF s1 plain(2)] by (simp only: two)
  also have "\<dots> = filter (\<lambda>g. gap_open ?s2 g \<or>
      batch_seqs (gr_doc g) (gr_device g) (p # rs) \<subseteq> stored_seqs (gr_doc g) (gr_device g) s) (cs_gaps s)"
    unfolding cs_gaps_recordRemoteApplied_any [OF Cons.prems(1) plain(1)] filter_filter
  proof (rule filter_cong [OF refl])
    fix g
    show "((gap_open ?s1 g \<or> \<not> (gr_doc g = re_doc r \<and> gr_device g = re_device r) \<or>
          re_seq r \<in> stored_seqs (re_doc r) (re_device r) s) \<and>
        (gap_open ?s2 g \<or> batch_seqs (gr_doc g) (gr_device g) rs \<subseteq> stored_seqs (gr_doc g) (gr_device g) ?s1)) =
      (gap_open ?s2 g \<or> batch_seqs (gr_doc g) (gr_device g) (p # rs) \<subseteq> stored_seqs (gr_doc g) (gr_device g) s)"
      using later [of g] same [of g] by (auto simp: p stored1 insert_absorb)
  qed
  finally show ?case .
qed

section \<open>The heads depend on the stored numbers only\<close>

lemma next_run_unique:
  assumes "next_run S m h" "next_run S m h'"
  shows "h = h'"
proof -
  have "x \<le> y" if x: "next_run S m x" and y: "next_run S m y" for x y
  proof -
    obtain k where k: "k \<in> S" "\<forall>i. k \<le> i \<and> i \<le> x \<longrightarrow> i \<in> S" "\<forall>n \<in> S. m \<le> n \<longrightarrow> k \<le> n" "m \<le> k"
      using x by (auto simp: next_run_def)
    obtain l where l: "l \<in> S" "l \<le> y" "\<forall>n \<in> S. m \<le> n \<longrightarrow> l \<le> n" "m \<le> l" "y + 1 \<notin> S"
      using y by (auto simp: next_run_def)
    have "k = l" using k l by (simp add: antisym)
    then show ?thesis using k(2) l(2,5) by (metis add.commute not_le zle_add1_eq_le add_increasing zero_le_one)
  qed
  from this [of h h'] this [of h' h] assms show ?thesis by simp
qed

lemma contiguousHeadAbove_cong:
  assumes "sorted ns" "sorted ns'" "set ns = set ns'"
  shows "contiguousHeadAbove ns m = contiguousHeadAbove ns' m"
proof (cases "\<exists>n \<in> set ns. m \<le> n")
  case True
  then obtain n where n: "n \<in> set ns" "m \<le> n" by auto
  show ?thesis
    using contiguousHeadAbove_run [OF assms(1) n] contiguousHeadAbove_run [OF assms(2) _ n(2)] n(1) assms(3)
    by (auto intro: next_run_unique)
next
  case False
  then have "\<forall>n \<in> set ns. n < m" by (auto simp: not_le)
  then show ?thesis using assms(3) by (simp add: contiguousHeadAbove_empty)
qed

lemma wire_heads_cong:
  assumes "stored_seqs docId device s = stored_seqs docId device s'" "cs_gaps s = cs_gaps s'"
  shows "map_of (getSyncRequestHeads docId s) device = map_of (getSyncRequestHeads docId s') device"
proof (cases "stored_seqs docId device s = {}")
  case True
  then show ?thesis using assms(1) by (simp add: wire_heads_absent)
next
  case False
  have "pass_hole (device_seqs docId device s) = pass_hole (device_seqs docId device s')"
    using assms(1) by (auto simp: pass_hole_def fun_eq_iff intro!: contiguousHeadAbove_cong)
  moreover have "soft_gaps docId s = soft_gaps docId s'"
    using assms(2) by (simp add: soft_gaps_def)
  ultimately show ?thesis
    using False assms(1) strict_of_cong [OF assms(1)] by (simp add: map_of_wire_heads)
qed

section \<open>Properties\<close>

definition example_gap :: gap_repair where
  "example_gap = \<lparr>gr_doc = ''d'', gr_device = ''x'', gr_missing = 1, gr_observed_max = 5,
     gr_observations = 3, gr_epochs = [0, 1, 2], gr_last_epoch = 2, gr_first_seen = 0,
     gr_soft = True, gr_due = 0, gr_attempts = 0\<rparr>"

definition example_remote :: "int \<Rightarrow> remote_entry" where
  "example_remote n = \<lparr>re_doc = ''d'', re_device = ''x'', re_seq = n, re_jws = None\<rparr>"

text \<open>Numbers 0, 5 and 6 of a device are stored, the hole from 1 is soft-skipped.\<close>

definition example_store :: client_store where
  "example_store = (recordRemoteAppliedBatch
       [(example_remote 0, 10), (example_remote 6, 11), (example_remote 5, 12)] new_client_store)
     \<lparr>cs_gaps := [example_gap]\<rparr>"

lemma example_store_seqs:
  "stored_seqs ''d'' ''x'' example_store = {0, 5, 6}" "plain_docs example_store"
proof -
  have e: "cs_entries example_store = map (\<lambda>(n, t). \<lparr>ce_doc = ''d'', ce_device = ''x'', ce_seq = n,
      ce_jws = [], ce_status = Acked, ce_created = t\<rparr>) [(0, 10), (6, 11), (5, 12)]"
    by code_simp
  show "stored_seqs ''d'' ''x'' example_store = {0, 5, 6}"
    unfolding stored_seqs_def e by auto
  show "plain_docs example_store"
    unfolding plain_docs_def e by simp
qed

text \<open>C7: the cursor a client sends for a device never passes an entry it could still get. Every
  sequence number up to it is stored or lies in a hole that was soft-skipped; the cursor is at least the
  strict head, the next number is not stored, and the cursor stops in front of a soft-skipped hole only
  when nothing is stored above it.\<close>

theorem wire_cursor_passes_only_skipped:
  assumes "map_of (getSyncRequestHeads docId s) device = Some c"
  shows "(\<forall>i. 0 \<le> i \<and> i \<le> c \<longrightarrow> covered (stored_seqs docId device s) (skipped_holes docId device s) i) \<and>
         (\<exists>h. map_of (getStrictContiguousHeads docId s) device = Some h \<and> h \<le> c) \<and>
         c + 1 \<notin> stored_seqs docId device s \<and>
         (c + 1 \<in> skipped_holes docId device s \<longrightarrow> (\<forall>n \<in> stored_seqs docId device s. n \<le> c))"
proof (intro conjI)
  have "stored_seqs docId device s \<noteq> {}"
    using assms wire_heads_absent by fastforce
  then show "\<exists>h. map_of (getStrictContiguousHeads docId s) device = Some h \<and> h \<le> c"
    using wire_cursor_facts(2) [OF assms] by (simp add: map_of_strict_heads)
qed (use wire_cursor_facts(1,3) [OF assms] in \<open>auto simp: cursor_ok_def\<close>)

lemma wire_cursor_witness:
  "map_of (getSyncRequestHeads ''d'' example_store) ''x'' = Some 6 \<and>
   map_of (getStrictContiguousHeads ''d'' example_store) ''x'' = Some 0 \<and>
   covered (stored_seqs ''d'' ''x'' example_store) (skipped_holes ''d'' ''x'' example_store) 3"
proof -
  have 6: "map_of (getSyncRequestHeads ''d'' example_store) ''x'' = Some 6" by code_simp
  moreover have "map_of (getStrictContiguousHeads ''d'' example_store) ''x'' = Some 0" by code_simp
  ultimately show ?thesis using wire_cursor_passes_only_skipped [OF 6] by simp
qed

text \<open>C8: recording a page of remote entries keeps the gap records exact. If every record stands for
  an open hole (its first missing number is above the strict head of its device) before, the records
  afterwards are exactly those of the old ones whose hole is still open, unchanged and in order.\<close>

theorem gaps_resolved_exactly:
  assumes "plain_docs s" "plain_batch rs" "gaps_open s"
  shows "cs_gaps (recordRemoteAppliedBatch rs s) =
           filter (\<lambda>g. strict_of (gr_doc g) (gr_device g) (recordRemoteAppliedBatch rs s) < gr_missing g) (cs_gaps s)
         \<and> gaps_open (recordRemoteAppliedBatch rs s)"
  using cs_gaps_batch [OF assms] by (simp add: gaps_open_def gap_open_def [abs_def])

lemma gaps_resolved_witness:
  "cs_gaps (recordRemoteAppliedBatch [(example_remote 2, 20)] example_store) = [example_gap] \<and>
   cs_gaps (recordRemoteAppliedBatch [(example_remote 1, 20)] example_store) = []"
proof -
  have plain: "plain_batch [(example_remote n, 20)]" for n by (simp add: example_remote_def)
  have "strict_of ''d'' ''x'' example_store = 0"
    by (simp add: strict_of_eq_iff example_store_seqs strict_head_def)
  then have gaps: "gaps_open example_store" "cs_gaps example_store = [example_gap]"
    by (simp_all add: gaps_open_def gap_open_def example_store_def example_gap_def)
  have new: "stored_seqs ''d'' ''x'' (recordRemoteAppliedBatch [(example_remote n, 20)] example_store) = {0, 5, 6, n}" for n
    using stored_seqs_batch(1) [OF example_store_seqs(2) plain [of n], of "''d''" "''x''"]
    by (auto simp: example_store_seqs example_remote_def)
  have "strict_of ''d'' ''x'' (recordRemoteAppliedBatch [(example_remote 2, 20)] example_store) = 0"
    "strict_of ''d'' ''x'' (recordRemoteAppliedBatch [(example_remote 1, 20)] example_store) = 1"
    by (auto simp: strict_of_eq_iff new strict_head_def)
  then show ?thesis
    using gaps_resolved_exactly [OF example_store_seqs(2) plain gaps(1), of 2]
      gaps_resolved_exactly [OF example_store_seqs(2) plain gaps(1), of 1]
    by (simp add: gaps(2) example_gap_def)
qed

text \<open>C9: The order in which remote entries arrive, and how often, does not matter. On any store, two
  batches with the same coordinates leave the same known heads, strict heads and request cursors and
  the same gap records (also of records whose hole was closed before), so two replicas that received
  the same entries ask the broker for the same ones. Document ids hold no NUL.\<close>

theorem arrival_order_irrelevant:
  assumes "plain_docs s" "plain_batch rs" "plain_batch rs'"
    and "\<And>docId device. batch_seqs docId device rs = batch_seqs docId device rs'"
  shows "map_of (getKnownHeads d (recordRemoteAppliedBatch rs s)) = map_of (getKnownHeads d (recordRemoteAppliedBatch rs' s)) \<and>
         map_of (getStrictContiguousHeads d (recordRemoteAppliedBatch rs s)) =
           map_of (getStrictContiguousHeads d (recordRemoteAppliedBatch rs' s)) \<and>
         map_of (getSyncRequestHeads d (recordRemoteAppliedBatch rs s)) =
           map_of (getSyncRequestHeads d (recordRemoteAppliedBatch rs' s)) \<and>
         cs_gaps (recordRemoteAppliedBatch rs s) = cs_gaps (recordRemoteAppliedBatch rs' s)"
proof (intro conjI)
  let ?s = "recordRemoteAppliedBatch rs s" and ?s' = "recordRemoteAppliedBatch rs' s"
  have stored: "stored_seqs docId device ?s = stored_seqs docId device ?s'" for docId device
    using assms by (simp add: stored_seqs_batch)
  have strict: "strict_of docId device ?s = strict_of docId device ?s'" for docId device
    by (rule strict_of_cong) (rule stored)
  show gaps: "cs_gaps ?s = cs_gaps ?s'"
    unfolding cs_gaps_batch_any [OF assms(1,2)] cs_gaps_batch_any [OF assms(1,3)]
    by (simp add: gap_open_def [abs_def] strict assms(4))
  show "map_of (getKnownHeads d ?s) = map_of (getKnownHeads d ?s')"
    "map_of (getStrictContiguousHeads d ?s) = map_of (getStrictContiguousHeads d ?s')"
    "map_of (getSyncRequestHeads d ?s) = map_of (getSyncRequestHeads d ?s')"
    using wire_heads_cong [OF stored gaps] by (auto simp: fun_eq_iff map_of_known_heads map_of_strict_heads stored strict)
qed

lemma arrival_order_witness:
  "map_of (getStrictContiguousHeads ''d'' (recordRemoteAppliedBatch
      [(example_remote 2, 1), (example_remote 1, 2), (example_remote 2, 3)] new_client_store)) =
   map_of (getStrictContiguousHeads ''d'' (recordRemoteAppliedBatch
      [(example_remote 1, 4), (example_remote 2, 5)] new_client_store))"
  by (rule arrival_order_irrelevant [THEN conjunct2, THEN conjunct1])
     (auto simp: plain_docs_def new_client_store_def example_remote_def)

end
