(* ===== verification/ClientNonces.thy ===== *)
theory ClientNonces
  imports ClientApply
begin

text \<open>
  No nonce is used twice. The encryption nonce of a log entry is a function of its device and sequence
  number, so the store promises that it never hands out two different entries for one (document,
  device, number), whatever happens: several callers building entries at once (with or without the
  lock), failed builds, remote entries arriving in between, a change of the device id, a page reload,
  a log that the browser evicted while the device id survived, a device id that was evicted while the
  log survived, and a \<open>clear()\<close> while no entry is being built. A \<open>clear()\<close> that overtakes a build
  breaks the promise, although the comment beside it calls that race nonce-safe:
  \<open>clear_race_reuses_nonce\<close>.

  The system below is one store over its life. A session starts with \<open>resolveConnectDeviceId\<close>;
  callers write under the device id the store holds when they call and keep it for the length of
  one call. A reload forgets the calls in progress and may come with the loss of the log or of the
  device id; \<open>clear()\<close> forgets neither, it only empties the store. Each minted id is new, which is what \<^verbatim>\<open>crypto.randomUUID()\<close> provides.
\<close>

section \<open>Appending without interference\<close>

lemma append_reserve_simps [simp]:
  "bl_doc (append_reserve docId deviceId k s) = docId"
  "bl_device (append_reserve docId deviceId k s) = deviceId"
  "bl_seq (append_reserve docId deviceId k s) = maxSeq docId deviceId s + 1"
  "bl_attempt (append_reserve docId deviceId k s) = k"
  by (simp_all add: append_reserve_def)

lemma maxSeq_eq_Max:
  "stored_seqs docId device s \<subseteq> {0..} \<Longrightarrow> maxSeq docId device s =
     (if stored_seqs docId device s = {} then -1 else Max (stored_seqs docId device s))"
  using maxSeq_attained [of docId device s] maxSeq_upper [of _ s docId device] maxSeq_ge [of docId device s]
  by (auto simp: stored_seqs_def intro!: Max_eqI [symmetric]) fastforce+

lemma fresh_seq_free:
  assumes "plain_docs s" "CHR 0x00 \<notin> set docId"
  shows "getEntry docId deviceId (maxSeq docId deviceId s + 1) s = None"
proof -
  have "maxSeq docId deviceId s + 1 \<notin> stored_seqs docId deviceId s"
    using maxSeq_upper [of _ s docId deviceId] by (fastforce simp: stored_seqs_def)
  then show ?thesis using getEntry_stored [OF assms] by blast
qed

lemma appendLocalEntry_first_attempt:
  assumes "plain_docs s" "CHR 0x00 \<notin> set docId"
  shows "appendLocalEntry docId deviceId build now s =
     (case build (maxSeq docId deviceId s + 1) of
        None \<Rightarrow> (BuildFailed, s)
      | Some jws \<Rightarrow>
          let e = \<lparr>ce_doc = docId, ce_device = deviceId, ce_seq = maxSeq docId deviceId s + 1,
                   ce_jws = jws, ce_status = Pending, ce_created = now\<rparr>
          in (Appended e, s\<lparr>cs_entries := cs_entries s @ [e]\<rparr>))"
  unfolding appendLocalEntry_def append_attempts.simps [of build now "append_reserve docId deviceId 0 s"]
  by (simp add: append_built_def fresh_seq_free [OF assms] Let_def split: option.splits)

section \<open>The life of a store\<close>

record log_life =
  ll_store :: client_store
  ll_calls :: "building list"
  ll_sent :: "client_entry list"

datatype life_event =
    StartAppend string
  | FinishBuild building "string option" int
  | Applied "(remote_entry \<times> int) list"
  | Acknowledged string string int
  | SwitchDevice string
  | Reload bool bool string
  | Clear
  | Connect string
  | GetDevice string

definition reload_store :: "bool \<Rightarrow> bool \<Rightarrow> client_store \<Rightarrow> client_store" where
  "reload_store lost_log lost_id s =
     s\<lparr>cs_entries := (if lost_log then [] else cs_entries s),
       cs_gaps := (if lost_log then [] else cs_gaps s),
       cs_removals := (if lost_log then [] else cs_removals s),
       cs_device := (if lost_id then None else cs_device s)\<rparr>"

definition new_id :: "string \<Rightarrow> log_life \<Rightarrow> bool" where
  "new_id uuid l \<longleftrightarrow> uuid \<notin> ce_device ` set (ll_sent l) \<and> uuid \<notin> ce_device ` set (cs_entries (ll_store l))"

text \<open>
  \<open>ll_sent\<close> are the entries that \<open>appendLocalEntry\<close> returned and that may have been sent. After a
  reload whose device id cannot be resolved (\<^verbatim>\<open>OrphanedLogRepairError\<close>) no session starts.
\<close>

inductive life_step :: "log_life \<Rightarrow> life_event \<Rightarrow> log_life \<Rightarrow> bool" where
  start_append:
    "cs_device (ll_store l) = Some d \<Longrightarrow>
     life_step l (StartAppend docId) (l\<lparr>ll_calls := append_reserve docId d 0 (ll_store l) # ll_calls l\<rparr>)"
| build_done:
    "b \<in> set (ll_calls l) \<Longrightarrow> append_built b jws now (ll_store l) = (Appended e, s) \<Longrightarrow>
     life_step l (FinishBuild b jws now)
       (l\<lparr>ll_store := s, ll_calls := remove1 b (ll_calls l), ll_sent := ll_sent l @ [e]\<rparr>)"
| build_again:
    "b \<in> set (ll_calls l) \<Longrightarrow> append_built b jws now (ll_store l) = (BuildAgain b', s) \<Longrightarrow>
     life_step l (FinishBuild b jws now) (l\<lparr>ll_store := s, ll_calls := b' # remove1 b (ll_calls l)\<rparr>)"
| build_failed:
    "b \<in> set (ll_calls l) \<Longrightarrow> append_built b jws now (ll_store l) = (r, s) \<Longrightarrow> r \<in> {BuildFailed, SeqExhausted} \<Longrightarrow>
     life_step l (FinishBuild b jws now) (l\<lparr>ll_store := s, ll_calls := remove1 b (ll_calls l)\<rparr>)"
| applied:
    "life_step l (Applied rs) (l\<lparr>ll_store := recordRemoteAppliedBatch rs (ll_store l)\<rparr>)"
| acknowledged:
    "life_step l (Acknowledged docId deviceId seq) (l\<lparr>ll_store := markAcked docId deviceId seq (ll_store l)\<rparr>)"
| switch_device:
    "new_id uuid l \<Longrightarrow> life_step l (SwitchDevice uuid) (l\<lparr>ll_store := setDeviceId uuid (ll_store l)\<rparr>)"
| reload:
    "new_id uuid l \<Longrightarrow> resolveConnectDeviceId uuid (reload_store lost_log lost_id (ll_store l)) = (Inr d, s) \<Longrightarrow>
     life_step l (Reload lost_log lost_id uuid) (l\<lparr>ll_store := s, ll_calls := []\<rparr>)"
| cleared:
    "life_step l Clear (l\<lparr>ll_store := clear_store (ll_store l)\<rparr>)"
| connect:
    "new_id uuid l \<Longrightarrow> resolveConnectDeviceId uuid (ll_store l) = (Inr d, s) \<Longrightarrow>
     life_step l (Connect uuid) (l\<lparr>ll_store := s\<rparr>)"
| get_device:
    "new_id uuid l \<Longrightarrow> getOrCreateDeviceId uuid (ll_store l) = (d, s) \<Longrightarrow>
     life_step l (GetDevice uuid) (l\<lparr>ll_store := s\<rparr>)"

text \<open>\<open>clear()\<close> does not wait for an \<open>appendLocalEntry\<close> that is building its entry. Runs in which none is:\<close>

definition quiet_step :: "log_life \<Rightarrow> life_event \<Rightarrow> log_life \<Rightarrow> bool" where
  "quiet_step l ev l' \<longleftrightarrow> life_step l ev l' \<and> (ev = Clear \<longrightarrow> ll_calls l = [])"

definition first_session :: "log_life \<Rightarrow> bool" where
  "first_session l \<longleftrightarrow> ll_store l = new_client_store \<and> ll_calls l = [] \<and> ll_sent l = []"

section \<open>The invariant\<close>

text \<open>
  Devices that may still write: the current one, those of calls in progress, and those with pending
  entries, which a reload may bring back. What was sent under one of them is in the log, unchanged.
\<close>

definition may_write :: "log_life \<Rightarrow> string \<Rightarrow> bool" where
  "may_write l d \<longleftrightarrow> cs_device (ll_store l) = Some d \<or> d \<in> bl_device ` set (ll_calls l) \<or>
     (\<exists>e \<in> set (cs_entries (ll_store l)). ce_device e = d \<and> ce_status e = Pending)"

definition coordinates :: "client_entry \<Rightarrow> string \<times> string \<times> int" where
  "coordinates e = (ce_doc e, ce_device e, ce_seq e)"

definition kept :: "client_entry \<Rightarrow> client_store \<Rightarrow> bool" where
  "kept e s \<longleftrightarrow> map_option (\<lambda>e'. e'\<lparr>ce_status := Pending\<rparr>) (row_get ce_key (ce_key e) (cs_entries s)) =
     Some (e\<lparr>ce_status := Pending\<rparr>)"

definition life_inv :: "log_life \<Rightarrow> bool" where
  "life_inv l \<longleftrightarrow> distinct (map coordinates (ll_sent l)) \<and>
     (\<forall>e \<in> set (ll_sent l). may_write l (ce_device e) \<longrightarrow> kept e (ll_store l))"

lemma kept_append: "kept e s \<Longrightarrow> cs_entries s' = cs_entries s @ es \<Longrightarrow> kept e s'"
  by (auto simp: kept_def)

lemma kept_same_entries: "kept e s \<Longrightarrow> cs_entries s' = cs_entries s \<Longrightarrow> kept e s'"
  by (simp add: kept_def)

lemma cs_entries_batch:
  "\<exists>es. cs_entries (recordRemoteAppliedBatch rs s) = cs_entries s @ es \<and> (\<forall>e \<in> set es. ce_status e = Acked)"
proof (induction rs arbitrary: s)
  case Nil
  then show ?case by (simp add: recordRemoteAppliedBatch_def)
next
  case (Cons p rs)
  obtain r now where p: "p = (r, now)" by (cases p)
  obtain new where new: "cs_entries (recordRemoteApplied r now s) = cs_entries s @ new" "\<forall>e \<in> set new. ce_status e = Acked"
    using cs_entries_recordRemoteApplied by blast
  obtain es where "cs_entries (recordRemoteAppliedBatch rs (recordRemoteApplied r now s)) =
      cs_entries (recordRemoteApplied r now s) @ es" "\<forall>e \<in> set es. ce_status e = Acked"
    using Cons.IH by blast
  then show ?case
    using new by (intro exI [of _ "new @ es"]) (auto simp: recordRemoteAppliedBatch_def p)
qed

lemma cs_device_batch [simp]: "cs_device (recordRemoteAppliedBatch rs s) = cs_device s"
proof (induction rs arbitrary: s)
  case (Cons p rs)
  then show ?case by (cases p) (simp add: recordRemoteAppliedBatch_def)
qed (simp add: recordRemoteAppliedBatch_def)

lemma kept_markAcked: "kept e s \<Longrightarrow> kept e (markAcked docId deviceId seq s)"
proof -
  have same: "ce_key (e'\<lparr>ce_status := st\<rparr>) = ce_key e'" for e' st by (simp add: ce_key_def)
  assume "kept e s"
  then show ?thesis
    unfolding kept_def markAcked_def
    by (auto simp: row_get_update_key same option.map_comp comp_def)
qed

lemma pending_markAcked:
  "e \<in> set (cs_entries (markAcked docId deviceId seq s)) \<Longrightarrow> ce_status e = Pending \<Longrightarrow> e \<in> set (cs_entries s)"
  by (auto simp: markAcked_def set_row_update split: if_splits)

lemma append_built_Appended:
  "append_built b jws now s = (Appended e, s') \<Longrightarrow>
     getEntry (bl_doc b) (bl_device b) (bl_seq b) s = None \<and> ce_doc e = bl_doc b \<and> ce_device e = bl_device b \<and>
     ce_seq e = bl_seq b \<and> ce_status e = Pending \<and> jws = Some (ce_jws e) \<and> s' = s\<lparr>cs_entries := cs_entries s @ [e]\<rparr>"
  by (auto simp: append_built_def Let_def split: option.splits if_splits)

lemma append_built_other:
  "append_built b jws now s = (r, s') \<Longrightarrow> r \<in> {BuildFailed, SeqExhausted} \<Longrightarrow> s' = s"
  "append_built b jws now s = (BuildAgain b', s') \<Longrightarrow> s' = s \<and> bl_device b' = bl_device b"
  by (auto simp: append_built_def Let_def split: option.splits if_splits)

lemma kept_other_coordinates:
  assumes "kept e s" and "getEntry d dev n s = None"
  shows "coordinates e \<noteq> (d, dev, n)"
  using assms by (auto simp: kept_def coordinates_def getEntry_def ce_key_def)

lemma pending_devices_set:
  "set (pending_devices s) = {d. \<exists>e \<in> set (cs_entries s). ce_device e = d \<and> ce_status e = Pending}"
  by (auto simp: pending_devices_def)

text \<open>Who may write after a session start: the new id, or who could before, over the same log.\<close>

lemma resolve_may_write:
  assumes "resolveConnectDeviceId uuid s = (Inr d, s')"
  shows "cs_entries s' = cs_entries s \<and> cs_device s' = Some d \<and>
     (d = uuid \<or> (cs_device s = Some d \<and> cs_entries s \<noteq> []) \<or>
      (\<exists>e \<in> set (cs_entries s). ce_device e = d \<and> ce_status e = Pending))"
proof (cases "cs_device s")
  case None
  then show ?thesis
    using assms pending_devices_set [of s]
    by (fastforce simp: resolveConnectDeviceId_def split: list.splits)
next
  case (Some d0)
  then show ?thesis
    using assms by (auto simp: resolveConnectDeviceId_def list_ex_iff split: if_splits)
qed

text \<open>A step that keeps what was sent and lets no one else write keeps the invariant.\<close>

lemma life_inv_weaken:
  assumes "life_inv l" "ll_sent l' = ll_sent l"
    and "\<And>d. may_write l' d \<Longrightarrow> may_write l d \<or> d \<notin> ce_device ` set (ll_sent l)"
    and "\<And>e. e \<in> set (ll_sent l) \<Longrightarrow> may_write l' (ce_device e) \<Longrightarrow> may_write l (ce_device e) \<Longrightarrow> kept e (ll_store l) \<Longrightarrow> kept e (ll_store l')"
  shows "life_inv l'"
  using assms unfolding life_inv_def by fastforce

lemma in_set_remove1D: "x \<in> set (remove1 y xs) \<Longrightarrow> x \<in> set xs"
  using set_remove1_subset by fastforce

lemma life_inv_session:
  assumes inv: "life_inv l" and new: "new_id uuid l" and sent: "ll_sent l' = ll_sent l"
    and calls: "set (ll_calls l') \<subseteq> set (ll_calls l)"
    and dev: "cs_device (ll_store l') = Some d"
    and entries: "cs_entries (ll_store l') = cs_entries (ll_store l) \<or> (cs_entries (ll_store l') = [] \<and> ll_calls l' = [])"
    and d: "d = uuid \<or> (may_write l d \<and> cs_entries (ll_store l') = cs_entries (ll_store l))"
  shows "life_inv l'"
proof (cases "cs_entries (ll_store l') = cs_entries (ll_store l)")
  case True
  show ?thesis
    by (rule life_inv_weaken [OF inv sent])
       (use True calls dev d new in \<open>auto simp: may_write_def new_id_def intro: kept_same_entries\<close>)
next
  case False
  then have none: "cs_entries (ll_store l') = []" "ll_calls l' = []" and "d = uuid" using entries d by auto
  show ?thesis
    by (rule life_inv_weaken [OF inv sent])
       (use none dev \<open>d = uuid\<close> new in \<open>auto simp: may_write_def new_id_def\<close>)
qed

lemma life_inv_step:
  assumes quiet: "quiet_step l ev l'" and "life_inv l"
  shows "life_inv l'"
  using quiet [unfolded quiet_step_def, THEN conjunct1]
proof (cases rule: life_step.cases)
  case (start_append d docId)
  show ?thesis
    by (rule life_inv_weaken [OF assms(2)]) (use start_append in \<open>auto simp: may_write_def\<close>)
next
  case (build_done b jws now e s)
  note e = append_built_Appended [OF build_done(4)]
  have writes: "may_write l (bl_device b)"
    using build_done(3) by (auto simp: may_write_def)
  have fewer: "may_write l d" if "may_write l' d" for d
    using that build_done(2) e writes by (auto simp: may_write_def dest: in_set_remove1D)
  have fresh: "coordinates x \<noteq> coordinates e" if "x \<in> set (ll_sent l)" for x
  proof
    assume same: "coordinates x = coordinates e"
    then have "kept x (ll_store l)"
      using assms(2) that writes e by (auto simp: life_inv_def coordinates_def)
    then show False
      using kept_other_coordinates [of x "ll_store l" "bl_doc b" "bl_device b" "bl_seq b"] e same
      by (auto simp: coordinates_def)
  qed
  then have unique: "coordinates e \<notin> coordinates ` set (ll_sent l)" by fastforce
  have new: "kept e s"
    using e by (auto simp: kept_def getEntry_def ce_key_def)
  have old: "kept x s" if "x \<in> set (ll_sent l)" "may_write l (ce_device x)" for x
    by (rule kept_append [of x "ll_store l" s "[e]"]) (use that assms(2) e in \<open>auto simp: life_inv_def\<close>)
  show ?thesis
    using assms(2) unique fewer new old build_done(2) by (auto simp: life_inv_def)
next
  case (build_again b jws now b' s)
  note s = append_built_other(2) [OF build_again(4)]
  show ?thesis
    by (rule life_inv_weaken [OF assms(2)])
       (use build_again s in \<open>auto simp: may_write_def dest: in_set_remove1D\<close>)
next
  case (build_failed b jws now r s)
  note s = append_built_other(1) [OF build_failed(4,5)]
  show ?thesis
    by (rule life_inv_weaken [OF assms(2)])
       (use build_failed s in \<open>auto simp: may_write_def dest: in_set_remove1D\<close>)
next
  case (applied rs)
  obtain es where es: "cs_entries (recordRemoteAppliedBatch rs (ll_store l)) = cs_entries (ll_store l) @ es"
    "\<forall>e \<in> set es. ce_status e = Acked"
    using cs_entries_batch by blast
  show ?thesis
    by (rule life_inv_weaken [OF assms(2)])
       (use applied es in \<open>auto simp: may_write_def intro: kept_append\<close>)
next
  case (acknowledged docId deviceId seq)
  have dev: "cs_device (markAcked docId deviceId seq (ll_store l)) = cs_device (ll_store l)"
    by (simp add: markAcked_def)
  show ?thesis
    by (rule life_inv_weaken [OF assms(2)])
       (use acknowledged dev in \<open>auto simp: may_write_def intro: kept_markAcked dest: pending_markAcked\<close>)
next
  case (switch_device uuid)
  show ?thesis
    by (rule life_inv_weaken [OF assms(2)])
       (use switch_device in \<open>auto simp: may_write_def setDeviceId_def new_id_def intro: kept_same_entries\<close>)
next
  case (reload uuid lost_log lost_id d s)
  note res = resolve_may_write [OF reload(4)]
  have "d = uuid \<or> may_write l d \<and> cs_entries s = cs_entries (ll_store l)"
    using res by (auto simp: reload_store_def may_write_def split: if_splits)
  then show ?thesis
    using reload(2,3) res
    by (intro life_inv_session [OF assms(2) reload(3), where d = d]) (auto simp: reload_store_def)
next
  case cleared
  then have "ll_calls l = []" using quiet by (simp add: quiet_step_def)
  then show ?thesis
    by (intro life_inv_weaken [OF assms(2)]) (use cleared in \<open>auto simp: may_write_def clear_store_def\<close>)
next
  case (connect uuid d s)
  note res = resolve_may_write [OF connect(4)]
  have "d = uuid \<or> may_write l d" using res by (auto simp: may_write_def)
  then show ?thesis
    using connect(2) res by (intro life_inv_session [OF assms(2) connect(3), where d = d]) auto
next
  case (get_device uuid d s)
  then have "d = uuid \<or> may_write l d" "cs_entries s = cs_entries (ll_store l)" "cs_device s = Some d"
    by (auto simp: getOrCreateDeviceId_def may_write_def split: option.splits)
  then show ?thesis
    using get_device(2) by (intro life_inv_session [OF assms(2) get_device(3), where d = d]) auto
qed

interpretation life: invariant_system first_session quiet_step life_inv
proof
  show "life_inv l" if "first_session l" for l :: log_life
    using that by (simp add: first_session_def life_inv_def)
qed (rule life_inv_step)

section \<open>Properties\<close>

lemma kept_jws:
  assumes "kept e s"
  shows "\<exists>e'. row_get ce_key (ce_key e) (cs_entries s) = Some e' \<and> ce_jws e' = ce_jws e"
proof -
  obtain e' where e': "row_get ce_key (ce_key e) (cs_entries s) = Some e'"
    "e'\<lparr>ce_status := Pending\<rparr> = e\<lparr>ce_status := Pending\<rparr>"
    using assms by (auto simp: kept_def)
  then have "ce_jws e' = ce_jws e" by (cases e'; cases e) simp
  with e'(1) show ?thesis by blast
qed

text \<open>C6: No two entries that \<open>appendLocalEntry\<close> ever returned share document, device and sequence
  number, over the whole life of a store: with interleaved callers that write under the store's
  device id, failed builds, remote entries, device changes, new sessions, reloads that lost the log
  or the device id, and any \<open>clear()\<close> that runs while no entry is being built (one that overtakes a
  build does reuse a number, a finding). Every returned entry whose device may still write is in
  the log with the JWS that was returned.\<close>

theorem nonce_never_reused:
  assumes "first_session l0" "run quiet_step l0 evs l"
  shows "distinct (map coordinates (ll_sent l)) \<and>
         (\<forall>e \<in> set (ll_sent l). may_write l (ce_device e) \<longrightarrow>
            (\<exists>e'. row_get ce_key (ce_key e) (cs_entries (ll_store l)) = Some e' \<and> ce_jws e' = ce_jws e))"
proof (intro conjI)
  have inv: "life_inv l" using assms by (rule life.init_run_inv)
  then show "distinct (map coordinates (ll_sent l))" by (simp add: life_inv_def)
  show "\<forall>e \<in> set (ll_sent l). may_write l (ce_device e) \<longrightarrow>
           (\<exists>e'. row_get ce_key (ce_key e) (cs_entries (ll_store l)) = Some e' \<and> ce_jws e' = ce_jws e)"
    using inv kept_jws unfolding life_inv_def by blast
qed

section \<open>A run\<close>

text \<open>The step relation as a function of the event.\<close>

definition finish_build :: "building \<Rightarrow> string option \<Rightarrow> int \<Rightarrow> log_life \<Rightarrow> log_life" where
  "finish_build b jws now l =
     (case append_built b jws now (ll_store l) of
        (Appended e, s) \<Rightarrow> l\<lparr>ll_store := s, ll_calls := remove1 b (ll_calls l), ll_sent := ll_sent l @ [e]\<rparr>
      | (BuildAgain b', s) \<Rightarrow> l\<lparr>ll_store := s, ll_calls := b' # remove1 b (ll_calls l)\<rparr>
      | (_, s) \<Rightarrow> l\<lparr>ll_store := s, ll_calls := remove1 b (ll_calls l)\<rparr>)"

fun life_exec :: "life_event \<Rightarrow> log_life \<Rightarrow> log_life option" where
  "life_exec (StartAppend docId) l =
     map_option (\<lambda>d. l\<lparr>ll_calls := append_reserve docId d 0 (ll_store l) # ll_calls l\<rparr>) (cs_device (ll_store l))"
| "life_exec (FinishBuild b jws now) l = (if b \<in> set (ll_calls l) then Some (finish_build b jws now l) else None)"
| "life_exec (Applied rs) l = Some (l\<lparr>ll_store := recordRemoteAppliedBatch rs (ll_store l)\<rparr>)"
| "life_exec (Acknowledged docId deviceId n) l = Some (l\<lparr>ll_store := markAcked docId deviceId n (ll_store l)\<rparr>)"
| "life_exec (SwitchDevice uuid) l =
     (if new_id uuid l then Some (l\<lparr>ll_store := setDeviceId uuid (ll_store l)\<rparr>) else None)"
| "life_exec (Reload lost_log lost_id uuid) l =
     (if new_id uuid l then
        (case resolveConnectDeviceId uuid (reload_store lost_log lost_id (ll_store l)) of
           (Inr d, s) \<Rightarrow> Some (l\<lparr>ll_store := s, ll_calls := []\<rparr>)
         | (Inl ds, s) \<Rightarrow> None)
      else None)"
| "life_exec Clear l = Some (l\<lparr>ll_store := clear_store (ll_store l)\<rparr>)"
| "life_exec (Connect uuid) l =
     (if new_id uuid l then
        (case resolveConnectDeviceId uuid (ll_store l) of
           (Inr d, s) \<Rightarrow> Some (l\<lparr>ll_store := s\<rparr>)
         | (Inl ds, s) \<Rightarrow> None)
      else None)"
| "life_exec (GetDevice uuid) l =
     (if new_id uuid l then Some (l\<lparr>ll_store := snd (getOrCreateDeviceId uuid (ll_store l))\<rparr>) else None)"

lemma finish_build_step:
  "b \<in> set (ll_calls l) \<Longrightarrow> life_step l (FinishBuild b jws now) (finish_build b jws now l)"
proof -
  assume b: "b \<in> set (ll_calls l)"
  obtain r s where r: "append_built b jws now (ll_store l) = (r, s)" by fastforce
  show ?thesis
  proof (cases r)
    case (Appended e)
    then show ?thesis using life_step.build_done [OF b] r by (simp add: finish_build_def)
  next
    case (BuildAgain b')
    then show ?thesis using life_step.build_again [OF b] r by (simp add: finish_build_def)
  qed (use life_step.build_failed [OF b r] r in \<open>simp_all add: finish_build_def\<close>)
qed

lemma life_exec_step: "life_exec ev l = Some l' \<Longrightarrow> life_step l ev l'"
proof (cases ev)
  case (Reload lost_log lost_id uuid)
  moreover assume "life_exec ev l = Some l'"
  ultimately show ?thesis
    by (auto intro: life_step.reload split: if_splits prod.splits sum.splits)
next
  case (Connect uuid)
  moreover assume "life_exec ev l = Some l'"
  ultimately show ?thesis
    by (auto intro: life_step.connect split: if_splits prod.splits sum.splits)
next
  case (GetDevice uuid)
  moreover assume "life_exec ev l = Some l'"
  ultimately show ?thesis
    using life_step.get_device [of uuid l "fst (getOrCreateDeviceId uuid (ll_store l))"]
    by (auto split: if_splits)
qed (auto intro: life_step.intros finish_build_step split: if_splits)

fun life_run :: "life_event list \<Rightarrow> log_life \<Rightarrow> log_life option" where
  "life_run [] l = Some l"
| "life_run (ev # evs) l = Option.bind (life_exec ev l) (life_run evs)"

fun quiet_run :: "life_event list \<Rightarrow> log_life \<Rightarrow> log_life option" where
  "quiet_run [] l = Some l"
| "quiet_run (ev # evs) l =
     (if ev = Clear \<and> ll_calls l \<noteq> [] then None else Option.bind (life_exec ev l) (quiet_run evs))"

lemma life_run_run: "life_run evs l = Some l' \<Longrightarrow> run life_step l evs l'"
  by (induction evs arbitrary: l) (auto simp: bind_eq_Some_conv intro: run.intros life_exec_step)

lemma quiet_run_run: "quiet_run evs l = Some l' \<Longrightarrow> run quiet_step l evs l'"
proof (induction evs arbitrary: l)
  case (Cons ev evs)
  then show ?case
    by (auto simp: bind_eq_Some_conv quiet_step_def split: if_splits intro!: run.run_cons life_exec_step)
qed (auto intro: run.intros)

text \<open>
  Two callers race for number 0; the second one's build is discarded and repeated for number 1. Then
  the log is evicted: the device id, whose numbers are on the wire, is replaced. In the end the store
  is cleared, and the next session mints one more id.
\<close>

abbreviation call_of :: "string \<Rightarrow> string \<Rightarrow> int \<Rightarrow> nat \<Rightarrow> building" where
  "call_of docId dev n k \<equiv> \<lparr>bl_doc = docId, bl_device = dev, bl_seq = n, bl_attempt = k\<rparr>"

definition race :: "life_event list" where
  "race =
     [Connect ''a'', StartAppend ''d'', StartAppend ''d'',
      FinishBuild (call_of ''d'' ''a'' 0 0) (Some ''j1'') 1, FinishBuild (call_of ''d'' ''a'' 0 0) (Some ''j2'') 2,
      FinishBuild (call_of ''d'' ''a'' 1 1) (Some ''j3'') 3,
      Reload True False ''b'', StartAppend ''d'', FinishBuild (call_of ''d'' ''b'' 0 0) (Some ''j4'') 4,
      Clear, Connect ''c'', StartAppend ''d'', FinishBuild (call_of ''d'' ''c'' 0 0) (Some ''j5'') 5]"

definition first_life :: log_life where
  "first_life = \<lparr>ll_store = new_client_store, ll_calls = [], ll_sent = []\<rparr>"

lemma race_result:
  "map_option (\<lambda>l. map (\<lambda>e. (coordinates e, ce_jws e)) (ll_sent l)) (quiet_run race first_life) =
     Some [((''d'', ''a'', 0), ''j1''), ((''d'', ''a'', 1), ''j3''), ((''d'', ''b'', 0), ''j4''), ((''d'', ''c'', 0), ''j5'')]"
  by code_simp

lemma nonce_never_reused_witness:
  "\<exists>l. run quiet_step first_life race l \<and> length (ll_sent l) = 4 \<and> distinct (map coordinates (ll_sent l))"
proof -
  obtain l where l: "quiet_run race first_life = Some l"
    and sent: "map (\<lambda>e. (coordinates e, ce_jws e)) (ll_sent l) =
      [((''d'', ''a'', 0), ''j1''), ((''d'', ''a'', 1), ''j3''), ((''d'', ''b'', 0), ''j4''), ((''d'', ''c'', 0), ''j5'')]"
    using race_result by auto
  have first: "first_session first_life" by (simp add: first_session_def first_life_def)
  have "length (ll_sent l) = 4" using arg_cong [OF sent, of length] by simp
  then show ?thesis
    using quiet_run_run [OF l] nonce_never_reused [OF first quiet_run_run [OF l]] by blast
qed

text \<open>
  The race that the comment of \<open>clear()\<close> names. Number 0 of document \<open>d\<close> has been sent under device
  \<open>a\<close>; an entry of document \<open>x\<close> is being built when the store is cleared, and lands afterwards. The
  next session finds it pending and takes device \<open>a\<close> back; the log of \<open>d\<close> is empty, so the next
  entry gets number 0 again, with another JWS.
\<close>

definition clear_race :: "life_event list" where
  "clear_race =
     [Connect ''a'', StartAppend ''d'', FinishBuild (call_of ''d'' ''a'' 0 0) (Some ''j1'') 1,
      StartAppend ''x'', Clear, FinishBuild (call_of ''x'' ''a'' 0 0) (Some ''j2'') 2,
      Connect ''b'', StartAppend ''d'', FinishBuild (call_of ''d'' ''a'' 0 0) (Some ''j3'') 3]"

lemma clear_race_result:
  "map_option (\<lambda>l. map (\<lambda>e. (coordinates e, ce_jws e)) (ll_sent l)) (life_run clear_race first_life) =
     Some [((''d'', ''a'', 0), ''j1''), ((''x'', ''a'', 0), ''j2''), ((''d'', ''a'', 0), ''j3'')]"
  by code_simp

theorem clear_race_reuses_nonce:
  "\<exists>l. run life_step first_life clear_race l \<and>
    (\<exists>e \<in> set (ll_sent l). \<exists>e' \<in> set (ll_sent l). coordinates e = coordinates e' \<and> ce_jws e \<noteq> ce_jws e')"
proof -
  obtain l where l: "life_run clear_race first_life = Some l"
    and sent: "map (\<lambda>e. (coordinates e, ce_jws e)) (ll_sent l) =
      [((''d'', ''a'', 0), ''j1''), ((''x'', ''a'', 0), ''j2''), ((''d'', ''a'', 0), ''j3'')]"
    using clear_race_result by auto
  have "((''d'', ''a'', 0), ''j1'') \<in> (\<lambda>e. (coordinates e, ce_jws e)) ` set (ll_sent l)"
    "((''d'', ''a'', 0), ''j3'') \<in> (\<lambda>e. (coordinates e, ce_jws e)) ` set (ll_sent l)"
    unfolding set_map [symmetric] sent by simp_all
  then obtain e e' where e: "e \<in> set (ll_sent l)" "coordinates e = (''d'', ''a'', 0)" "ce_jws e = ''j1''"
    and e': "e' \<in> set (ll_sent l)" "coordinates e' = (''d'', ''a'', 0)" "ce_jws e' = ''j3''"
    by (auto simp del: list.inject)
  then have "coordinates e = coordinates e' \<and> ce_jws e \<noteq> ce_jws e'" by simp
  then show ?thesis using life_run_run [OF l] e(1) e'(1) by blast
qed

end
