(* ===== verification/ClientRemovals.thy ===== *)
theory ClientRemovals
  imports ClientLog
begin

text \<open>
  The staging area for member removals in the client's log store (\<^verbatim>\<open>InMemoryDocLogStore.ts\<close>,
  \<^verbatim>\<open>pending-removal-binding.ts\<close>, \<^verbatim>\<open>pending-removal-key.ts\<close>, \<^verbatim>\<open>ports/DocLogStore.ts\<close>). A removal
  is enforced only when every home broker has confirmed the key rotation that was staged for it; two
  tabs may stage different key material for the same removal, so writes, confirmations and deletions
  name the staging they belong to.
\<close>

section \<open>Staging identity\<close>

definition stagedMaterialKey :: "staged_material \<Rightarrow> string" where
  "stagedMaterialKey m =
     join ''.'' [encodeBase64Url (sm_content_key m), encodeBase64Url (sm_cap_seed m), encodeBase64Url (sm_cap_key m)]"

datatype write_expectation =
    ExpectAbsent
  | ExpectLegacy int "string option" string
  | ExpectStaging string

definition legacyWriteExpectation :: "pending_removal \<Rightarrow> write_expectation" where
  "legacyWriteExpectation r =
     ExpectLegacy (pr_generation r) (pr_fingerprint r) (stagedMaterialKey (pr_material r))"

fun matchesStagingExpectation :: "pending_removal option \<Rightarrow> write_expectation option \<Rightarrow> bool" where
  "matchesStagingExpectation stored None = True"
| "matchesStagingExpectation None (Some ex) = (ex = ExpectAbsent)"
| "matchesStagingExpectation (Some r) (Some ex) =
     (case ex of
        ExpectAbsent \<Rightarrow> False
      | ExpectStaging i \<Rightarrow> pr_staging r = Some i
      | ExpectLegacy g f m \<Rightarrow>
          pr_staging r = None \<and> pr_generation r = g \<and> pr_fingerprint r = f \<and>
          stagedMaterialKey (pr_material r) = m)"

record confirmation_binding =
  cb_staging :: string
  cb_generation :: int
  cb_fingerprint :: string

definition matchesConfirmationBinding :: "pending_removal \<Rightarrow> confirmation_binding option \<Rightarrow> bool" where
  "matchesConfirmationBinding r binding =
     (case binding of
        None \<Rightarrow> True
      | Some b \<Rightarrow> pr_staging r = Some (cb_staging b) \<and> pr_fingerprint r = Some (cb_fingerprint b) \<and>
          pr_generation r = cb_generation b)"

section \<open>The table\<close>

definition pendingRemovalKey :: "string \<Rightarrow> string \<Rightarrow> string" where
  "pendingRemovalKey spaceId removedDid =
     ''['' @ join '','' [json_quote spaceId, json_quote removedDid] @ '']''"

definition pr_key :: "pending_removal \<Rightarrow> string" where
  "pr_key r = pendingRemovalKey (pr_space r) (pr_did r)"

definition cloneRemoval :: "pending_removal \<Rightarrow> pending_removal" where
  "cloneRemoval r =
     r\<lparr>pr_phase := (case pr_phase r of
          Some p \<Rightarrow> Some p
        | None \<Rightarrow> Some (if pr_committed r = Some True then Committed
                       else if pr_confirmed r \<noteq> [] then BrokerConfirmed else Staged)),
       pr_activity := map_option json_stored (pr_activity r)\<rparr>"

text \<open>A \<^verbatim>\<open>Map.set\<close>: replaces the value of a present key in place.\<close>

definition removal_set :: "pending_removal \<Rightarrow> pending_removal list \<Rightarrow> pending_removal list" where
  "removal_set r rs =
     (if row_get pr_key (pr_key r) rs = None then rs @ [r]
      else row_update (\<lambda>x. pr_key x = pr_key r) (\<lambda>_. r) rs)"

text \<open>\<open>Inl\<close> is \<^verbatim>\<open>PendingRemovalStagingConflictError\<close> with the record that is there.\<close>

definition putPendingRemoval ::
  "pending_removal \<Rightarrow> write_expectation option \<Rightarrow> client_store \<Rightarrow> pending_removal option + client_store" where
  "putPendingRemoval removal expect s =
     (let current = map_option cloneRemoval (row_get pr_key (pr_key removal) (cs_removals s)) in
      if \<not> matchesStagingExpectation current expect then Inl current
      else Inr (s\<lparr>cs_removals := removal_set (cloneRemoval removal) (cs_removals s)\<rparr>))"

definition getPendingRemoval :: "string \<Rightarrow> string \<Rightarrow> client_store \<Rightarrow> pending_removal option" where
  "getPendingRemoval spaceId removedDid s =
     map_option cloneRemoval (row_get pr_key (pendingRemovalKey spaceId removedDid) (cs_removals s))"

definition listPendingRemovals :: "client_store \<Rightarrow> pending_removal list" where
  "listPendingRemovals s = map cloneRemoval (cs_removals s)"

datatype confirmation_outcome = ConfRecorded | ConfAlready | ConfAbsent | ConfForeign | ConfSuperseded

definition markBrokerConfirmed ::
  "string \<Rightarrow> string \<Rightarrow> string \<Rightarrow> confirmation_binding option \<Rightarrow> client_store \<Rightarrow> confirmation_outcome \<times> client_store" where
  "markBrokerConfirmed spaceId removedDid brokerUrl binding s =
     (let key = pendingRemovalKey spaceId removedDid in
      case row_get pr_key key (cs_removals s) of
        None \<Rightarrow> (ConfAbsent, s)
      | Some r \<Rightarrow>
          if brokerUrl \<notin> set (pr_home r) then (ConfForeign, s)
          else if \<not> matchesConfirmationBinding r binding then (ConfSuperseded, s)
          else if brokerUrl \<in> set (pr_confirmed r) then (ConfAlready, s)
          else (ConfRecorded,
                s\<lparr>cs_removals := row_update (\<lambda>x. pr_key x = key)
                    (\<lambda>x. x\<lparr>pr_confirmed := pr_confirmed x @ [brokerUrl]\<rparr>) (cs_removals s)\<rparr>))"

datatype delete_outcome = DelDeleted | DelAbsent | DelMismatch

definition deletePendingRemoval ::
  "string \<Rightarrow> string \<Rightarrow> write_expectation option \<Rightarrow> client_store \<Rightarrow> delete_outcome \<times> client_store" where
  "deletePendingRemoval spaceId removedDid expect s =
     (let key = pendingRemovalKey spaceId removedDid in
      case row_get pr_key key (cs_removals s) of
        None \<Rightarrow> (DelAbsent, s)
      | Some r \<Rightarrow>
          if expect \<noteq> None \<and> \<not> matchesStagingExpectation (Some (cloneRemoval r)) expect then (DelMismatch, s)
          else (DelDeleted, s\<lparr>cs_removals := row_delete (\<lambda>x. pr_key x = key) (cs_removals s)\<rparr>))"

end
