(* ===== verification/ClientReject.thy ===== *)
theory ClientReject
  imports BrokerError
begin

text \<open>
  What a client does with a broker error: the disposition table of
  \<^verbatim>\<open>protocol/sync/log-sync-coordinator.ts\<close>, shared by its write path, its control frames and the
  removal workflow.
\<close>

datatype reject_disposition =
    CapabilityRePresent | DeviceReRegister | RestoreClone | HardStop
  | KeyGenerationCatchUpAndReemit | RetryLater | UnknownReject

fun classifyRejectDisposition :: "broker_error \<Rightarrow> reject_disposition" where
  "classifyRejectDisposition CAPABILITY_REQUIRED = CapabilityRePresent"
| "classifyRejectDisposition CAPABILITY_EXPIRED = CapabilityRePresent"
| "classifyRejectDisposition CAPABILITY_GENERATION_STALE = CapabilityRePresent"
| "classifyRejectDisposition CAPABILITY_INVALID = CapabilityRePresent"
| "classifyRejectDisposition DEVICE_NOT_REGISTERED = DeviceReRegister"
| "classifyRejectDisposition DEVICE_REVOKED = RestoreClone"
| "classifyRejectDisposition SEQ_COLLISION_DETECTED = RestoreClone"
| "classifyRejectDisposition AUTHOR_MISMATCH = HardStop"
| "classifyRejectDisposition PERSONAL_DOC_OWNER_MISMATCH = HardStop"
| "classifyRejectDisposition DEVICE_ID_CONFLICT = DeviceReRegister"
| "classifyRejectDisposition KEY_GENERATION_STALE = KeyGenerationCatchUpAndReemit"
| "classifyRejectDisposition NONCE_REPLAY = RetryLater"
| "classifyRejectDisposition RATE_LIMITED = RetryLater"
| "classifyRejectDisposition INTERNAL_ERROR = RetryLater"
| "classifyRejectDisposition _ = UnknownReject"

lemma HardStop_iff:
  "classifyRejectDisposition c = HardStop \<longleftrightarrow> c \<in> {AUTHOR_MISMATCH, PERSONAL_DOC_OWNER_MISMATCH}"
  by (cases c) simp_all

end
