(* ===== verification/RemovalRun.thy ===== *)
theory RemovalRun
  imports ClientRemovals ClientReject Jws SeqConsistency
begin

text \<open>
  The secure removal of a member, \<^verbatim>\<open>application/sync/secure-removal-workflow.ts\<close>: stage new key
  material durably, have every home broker confirm the rotation to it, and only then activate it and
  commit the removal; for an administrator who leaves, hand back its broker authority afterwards.

  A run of the workflow is its state between two \<^verbatim>\<open>await\<close>s (\<open>removal_pc\<close>), with the local variables
  that are still needed. \<open>resume\<close> continues a run with the answer to what it awaits up to its next
  \<^verbatim>\<open>await\<close>: an operation on the log store, which is atomic and needs no answer (\<open>Proceed\<close>), or an effect
  outside of it (key store, brokers, commit), whose outcome is the answer. Runs of several tabs, crashed
  and recovered ones included, share one store and are resumed in any order.
\<close>

section \<open>Staged material\<close>

definition computeStagedMaterialFingerprint :: "runtime \<Rightarrow> int \<Rightarrow> staged_material \<Rightarrow> string" where
  "computeStagedMaterialFingerprint rt newGeneration m =
     bytesToHex (sha256 rt (utf8_encode
       (''{'' @ join '','' (map (\<lambda>(k, t). json_quote k @ '':'' @ t)
          [(''newGeneration'', int_text newGeneration),
           (''contentKey'', json_quote (encodeBase64Url (sm_content_key m))),
           (''capSigningSeed'', json_quote (encodeBase64Url (sm_cap_seed m))),
           (''capVerificationKey'', json_quote (encodeBase64Url (sm_cap_key m)))]) @ ''}'')))"

definition pendingRemovalWriteExpectation :: "pending_removal option \<Rightarrow> write_expectation" where
  "pendingRemovalWriteExpectation read =
     (case read of
        None \<Rightarrow> ExpectAbsent
      | Some r \<Rightarrow> (case pr_staging r of
          Some i \<Rightarrow> ExpectStaging i
        | None \<Rightarrow> legacyWriteExpectation r))"

definition isHardSpaceRotateReject :: "broker_error \<Rightarrow> bool" where
  "isHardSpaceRotateReject c \<longleftrightarrow> classifyRejectDisposition c = HardStop"

definition isHardAdminChangeReject :: "broker_error \<Rightarrow> bool" where
  "isHardAdminChangeReject c \<longleftrightarrow> c = MALFORMED_MESSAGE \<or> classifyRejectDisposition c = HardStop"

section \<open>The state of a run\<close>

text \<open>
  The dependencies of a run. \<open>rd_rotation\<close> is \<^verbatim>\<open>hasRotationDeps\<close>, \<open>rd_admin\<close> says that
  \<^verbatim>\<open>adminRemove\<close> is not null, \<open>rd_finalizer\<close> that a store-only recovery has \<^verbatim>\<open>finalizeSelfLeave\<close>.
\<close>

record removal_deps =
  rd_space :: string
  rd_owner :: string
  rd_brokers :: "string list"
  rd_rotation :: bool
  rd_admin :: bool
  rd_finalizer :: bool

record removal_request =
  rq_did :: string
  rq_activity :: "json option"
  rq_self_removal :: bool
  rq_target :: "int option"

datatype staging_reason = FreshStaging removal_request | ReplaceTaken pending_removal | ReplaceGap pending_removal int

datatype removal_result = Returned bool | PendingNotEnforced | Threw

text \<open>
  \<open>home\<close> is the local constant \<^verbatim>\<open>homeBrokerSet\<close>, which the code reads from the record before the
  binding of the material and keeps.
\<close>

datatype removal_pc =
    Lookup removal_request
  | Restart pending_removal
  | MakeCandidate staging_reason
  | PutCandidate staging_reason pending_removal
  | CheckOwner pending_removal
  | MintId pending_removal
  | PutBound pending_removal pending_removal
  | MakeFrame "string list" pending_removal
  | SendRotate "string list" pending_removal "string list" string "string list"
  | MarkConfirmed "string list" pending_removal "string list" string "string list"
  | GapGeneration pending_removal int
  | GapCatchUp pending_removal int
  | TakenGeneration pending_removal
  | PutBrokerConfirmed "string list" pending_removal
  | CheckConfirmed "string list" pending_removal
  | Activate "string list" pending_removal
  | CommitRemoval "string list" pending_removal
  | PutCommitted "string list" pending_removal
  | MakeAdminFrame "string list" pending_removal
  | SendAdminRemove pending_removal "string list" string "string list"
  | PutAdminConfirmed pending_removal "string list" "string list"
  | PutAdminRemoved pending_removal
  | Finalize pending_removal
  | PutLocalCleanup pending_removal
  | PutComplete pending_removal
  | DeleteOwn pending_removal bool
  | Finished removal_result

datatype removal_answer =
    Proceed
  | Failed
  | Candidate int staged_material string int
  | Minted string
  | Rejected broker_error "int option"
  | Generation int
  | CaughtUp bool

text \<open>What a run did outside the store.\<close>

datatype removal_effect =
    RotateAccepted string int staged_material
  | Activated "string list" pending_removal
  | RemovalCommitted pending_removal
  | AdminRemoveAccepted string pending_removal
  | SelfLeaveFinalized pending_removal

section \<open>Control flow between two awaits\<close>

definition stageRemovalCandidate ::
  "runtime \<Rightarrow> removal_deps \<Rightarrow> string \<Rightarrow> json option \<Rightarrow> bool \<Rightarrow> int \<Rightarrow> staged_material \<Rightarrow> string \<Rightarrow> int \<Rightarrow> pending_removal" where
  "stageRemovalCandidate rt deps removedDid activity kind newGeneration material stagingId now =
     \<lparr>pr_phase = Some Staged, pr_space = rd_space deps, pr_did = removedDid, pr_home = rd_brokers deps,
      pr_confirmed = [], pr_generation = newGeneration, pr_material = material,
      pr_staging = Some stagingId,
      pr_fingerprint = Some (computeStagedMaterialFingerprint rt newGeneration material),
      pr_created = now, pr_activity = activity, pr_self_removal = kind, pr_committed = None,
      pr_admin_confirmed = None\<rparr>"

fun candidate_for ::
  "runtime \<Rightarrow> removal_deps \<Rightarrow> staging_reason \<Rightarrow> int \<Rightarrow> staged_material \<Rightarrow> string \<Rightarrow> int \<Rightarrow> pending_removal" where
  "candidate_for rt deps (FreshStaging q) = stageRemovalCandidate rt deps (rq_did q) (rq_activity q) (rq_self_removal q)"
| "candidate_for rt deps (ReplaceTaken r) = stageRemovalCandidate rt deps (pr_did r) (pr_activity r) (pr_self_removal r)"
| "candidate_for rt deps (ReplaceGap r g) = stageRemovalCandidate rt deps (pr_did r) (pr_activity r) (pr_self_removal r)"

text \<open>The checks on a candidate before it is written.\<close>

fun candidate_ok :: "staging_reason \<Rightarrow> pending_removal \<Rightarrow> bool" where
  "candidate_ok (FreshStaging q) c =
     (case rq_target q of None \<Rightarrow> True | Some t \<Rightarrow> \<not> pr_generation c < t)"
| "candidate_ok (ReplaceTaken r) c = True"
| "candidate_ok (ReplaceGap r g) c = (pr_generation c = g + 1)"

fun replaced :: "staging_reason \<Rightarrow> pending_removal option" where
  "replaced (FreshStaging q) = None"
| "replaced (ReplaceTaken r) = Some r"
| "replaced (ReplaceGap r g) = Some r"

text \<open>\<^verbatim>\<open>bindStagingMaterial\<close> up to its first access to the store.\<close>

definition bound_material :: "runtime \<Rightarrow> pending_removal \<Rightarrow> bool" where
  "bound_material rt r \<longleftrightarrow> pr_staging r \<noteq> None \<and>
     pr_fingerprint r = Some (computeStagedMaterialFingerprint rt (pr_generation r) (pr_material r))"

definition pre_commit :: "pending_removal \<Rightarrow> bool" where
  "pre_commit r \<longleftrightarrow> pr_phase r = Some Staged \<or> pr_phase r = Some BrokerConfirmed"

definition bindStagingMaterial :: "runtime \<Rightarrow> pending_removal \<Rightarrow> removal_pc" where
  "bindStagingMaterial rt r = (if bound_material rt r then CheckOwner r else MintId r)"

definition adopted :: "runtime \<Rightarrow> pending_removal \<Rightarrow> string \<Rightarrow> pending_removal" where
  "adopted rt r stagingId =
     r\<lparr>pr_staging := Some stagingId,
       pr_fingerprint := Some (computeStagedMaterialFingerprint rt (pr_generation r) (pr_material r)),
       pr_confirmed := (if pre_commit r then [] else pr_confirmed r),
       pr_phase := (if pre_commit r then Some Staged else pr_phase r)\<rparr>"

definition driveRemovalToCompletion :: "runtime \<Rightarrow> removal_deps \<Rightarrow> pending_removal \<Rightarrow> removal_pc" where
  "driveRemovalToCompletion rt deps r =
     (case pr_phase r of
        None \<Rightarrow> Finished Threw
      | Some RemovalComplete \<Rightarrow> DeleteOwn r True
      | Some AdminRemoved \<Rightarrow>
          if (if rd_rotation deps then rd_admin deps else rd_finalizer deps) then Finalize r else Finished Threw
      | Some LocalCleanup \<Rightarrow> PutComplete (r\<lparr>pr_phase := Some RemovalComplete\<rparr>)
      | Some _ \<Rightarrow> if rd_rotation deps then bindStagingMaterial rt r else Finished Threw)"

text \<open>After the last home broker has confirmed, and after the commit.\<close>

definition send_admin_removes :: "pending_removal \<Rightarrow> string list \<Rightarrow> string list \<Rightarrow> removal_pc" where
  "send_admin_removes r adminConfirmed urls =
     (case dropWhile (\<lambda>u. u \<in> set adminConfirmed) urls of
        [] \<Rightarrow> PutAdminRemoved (r\<lparr>pr_phase := Some AdminRemoved\<rparr>)
      | u # us \<Rightarrow> SendAdminRemove r adminConfirmed u us)"

definition after_commit :: "removal_deps \<Rightarrow> string list \<Rightarrow> pending_removal \<Rightarrow> removal_pc" where
  "after_commit deps home r =
     (if pr_did r = rd_owner deps \<and> pr_phase r = Some Committed
      then (if rd_admin deps then MakeAdminFrame home r else Finished Threw)
      else if pr_did r = rd_owner deps \<and> pr_phase r = Some AdminRemoved
      then (if rd_admin deps then Finalize r else Finished Threw)
      else if pr_phase r = Some LocalCleanup then PutComplete (r\<lparr>pr_phase := Some RemovalComplete\<rparr>)
      else DeleteOwn r True)"

definition enforce :: "removal_deps \<Rightarrow> string list \<Rightarrow> pending_removal \<Rightarrow> string list \<Rightarrow> removal_pc" where
  "enforce deps home r confirmed =
     (if \<not> set home \<subseteq> set confirmed then Finished PendingNotEnforced
      else if pre_commit r
      then PutBrokerConfirmed home (r\<lparr>pr_confirmed := confirmed, pr_phase := Some BrokerConfirmed\<rparr>)
      else after_commit deps home r)"

definition send_rotates ::
  "removal_deps \<Rightarrow> string list \<Rightarrow> pending_removal \<Rightarrow> string list \<Rightarrow> string list \<Rightarrow> removal_pc" where
  "send_rotates deps home r confirmed urls =
     (case dropWhile (\<lambda>u. u \<in> set confirmed) urls of
        [] \<Rightarrow> enforce deps home r confirmed
      | u # us \<Rightarrow> SendRotate home r confirmed u us)"

definition handleGenerationGap :: "pending_removal \<Rightarrow> int option \<Rightarrow> removal_pc" where
  "handleGenerationGap r currentGeneration =
     (case currentGeneration of
        None \<Rightarrow> Finished PendingNotEnforced
      | Some g \<Rightarrow> if safe_seq g then GapGeneration r g else Finished PendingNotEnforced)"

definition rotate_rejected :: "pending_removal \<Rightarrow> broker_error \<Rightarrow> int option \<Rightarrow> removal_pc" where
  "rotate_rejected r code currentGeneration =
     (if code = GENERATION_GAP then handleGenerationGap r currentGeneration
      else if code = GENERATION_TAKEN then TakenGeneration r
      else if isHardSpaceRotateReject code then Finished Threw
      else Finished PendingNotEnforced)"

definition runTwoPhaseRemoval :: "removal_deps \<Rightarrow> removal_request \<Rightarrow> removal_pc" where
  "runTwoPhaseRemoval deps q =
     (if length (rd_brokers deps) > 1 \<or> rd_brokers deps = [] then Finished Threw
      else if rq_did q = rd_owner deps \<and> \<not> rd_admin deps then Finished Threw
      else Lookup q)"

section \<open>Resuming a run\<close>

definition binding_of :: "pending_removal \<Rightarrow> confirmation_binding" where
  "binding_of r = \<lparr>cb_staging = the (pr_staging r), cb_generation = pr_generation r,
     cb_fingerprint = the (pr_fingerprint r)\<rparr>"

text \<open>\<^verbatim>\<open>persistPhase\<close>: a write under the identity of the record, or the end of the run.\<close>

definition persistPhase ::
  "pending_removal \<Rightarrow> removal_pc \<Rightarrow> client_store \<Rightarrow> removal_pc \<times> client_store" where
  "persistPhase r next_pc s =
     (case putPendingRemoval r (Some (pendingRemovalWriteExpectation (Some r))) s of
        Inr s' \<Rightarrow> (next_pc, s')
      | Inl _ \<Rightarrow> (Finished PendingNotEnforced, s))"

definition assertMaterialConfirmed :: "pending_removal \<Rightarrow> string list \<Rightarrow> client_store \<Rightarrow> bool" where
  "assertMaterialConfirmed r home s =
     (case getPendingRemoval (pr_space r) (pr_did r) s of
        None \<Rightarrow> False
      | Some x \<Rightarrow> matchesConfirmationBinding x (Some (binding_of r)) \<and> set home \<subseteq> set (pr_confirmed x))"

definition put_candidate ::
  "runtime \<Rightarrow> removal_deps \<Rightarrow> staging_reason \<Rightarrow> pending_removal \<Rightarrow> client_store \<Rightarrow> removal_pc \<times> client_store" where
  "put_candidate rt deps why c s =
     (case putPendingRemoval c (Some (pendingRemovalWriteExpectation (replaced why))) s of
        Inr s' \<Rightarrow>
          ((case why of ReplaceTaken r \<Rightarrow> Finished PendingNotEnforced
            | _ \<Rightarrow> driveRemovalToCompletion rt deps c), s')
      | Inl existing \<Rightarrow>
          ((case (why, existing) of
              (FreshStaging q, Some w) \<Rightarrow>
                if pr_self_removal w \<noteq> rq_self_removal q then Finished Threw
                else if \<not> candidate_ok why w then Finished Threw
                else driveRemovalToCompletion rt deps w
            | _ \<Rightarrow> Finished Threw), s))"

definition put_bound ::
  "runtime \<Rightarrow> pending_removal \<Rightarrow> pending_removal \<Rightarrow> client_store \<Rightarrow> removal_pc \<times> client_store" where
  "put_bound rt old a s =
     (case putPendingRemoval a (Some (pendingRemovalWriteExpectation (Some old))) s of
        Inr s' \<Rightarrow> (MakeFrame (pr_home old) a, s')
      | Inl existing \<Rightarrow>
          ((case existing of
              None \<Rightarrow> Finished PendingNotEnforced
            | Some w \<Rightarrow> if bound_material rt w then MakeFrame (pr_home old) w
                       else Finished PendingNotEnforced), s))"

definition check_owner :: "pending_removal \<Rightarrow> client_store \<Rightarrow> removal_pc" where
  "check_owner r s =
     (case getPendingRemoval (pr_space r) (pr_did r) s of
        None \<Rightarrow> MakeFrame (pr_home r) r
      | Some x \<Rightarrow> if pr_staging x \<noteq> None \<and> pr_staging x \<noteq> pr_staging r
                 then Finished PendingNotEnforced else MakeFrame (pr_home r) r)"

definition mark_confirmed ::
  "removal_deps \<Rightarrow> string list \<Rightarrow> pending_removal \<Rightarrow> string list \<Rightarrow> string \<Rightarrow> string list \<Rightarrow> client_store \<Rightarrow>
   removal_pc \<times> client_store" where
  "mark_confirmed deps home r confirmed u us s =
     (let (outcome, s') = markBrokerConfirmed (rd_space deps) (pr_did r) u (Some (binding_of r)) s in
      (if outcome = ConfRecorded \<or> outcome = ConfAlready
       then send_rotates deps home r (confirmed @ [u]) us
       else Finished PendingNotEnforced, s'))"

text \<open>An operation on the store.\<close>

fun run_store :: "runtime \<Rightarrow> removal_deps \<Rightarrow> removal_pc \<Rightarrow> client_store \<Rightarrow> (removal_pc \<times> client_store) option" where
  "run_store rt deps (Lookup q) s =
     Some (case getPendingRemoval (rd_space deps) (rq_did q) s of
             Some r \<Rightarrow> driveRemovalToCompletion rt deps r
           | None \<Rightarrow> MakeCandidate (FreshStaging q), s)"
| "run_store rt deps (Restart r) s = Some (driveRemovalToCompletion rt deps r, s)"
| "run_store rt deps (PutCandidate why c) s = Some (put_candidate rt deps why c s)"
| "run_store rt deps (CheckOwner r) s = Some (check_owner r s, s)"
| "run_store rt deps (PutBound old a) s = Some (put_bound rt old a s)"
| "run_store rt deps (MarkConfirmed home r confirmed u us) s = Some (mark_confirmed deps home r confirmed u us s)"
| "run_store rt deps (PutBrokerConfirmed home r) s = Some (persistPhase r (CheckConfirmed home r) s)"
| "run_store rt deps (CheckConfirmed home r) s =
     Some (if assertMaterialConfirmed r home s then Activate home r else Finished PendingNotEnforced, s)"
| "run_store rt deps (PutCommitted home r) s = Some (persistPhase r (after_commit deps home r) s)"
| "run_store rt deps (PutAdminConfirmed r confirmed us) s =
     Some (persistPhase r (send_admin_removes r confirmed us) s)"
| "run_store rt deps (PutAdminRemoved r) s = Some (persistPhase r (Finalize r) s)"
| "run_store rt deps (PutLocalCleanup r) s =
     Some (persistPhase r (PutComplete (r\<lparr>pr_phase := Some RemovalComplete\<rparr>)) s)"
| "run_store rt deps (PutComplete r) s = Some (persistPhase r (DeleteOwn r True) s)"
| "run_store rt deps (DeleteOwn r result) s =
     Some (Finished (Returned result),
       snd (deletePendingRemoval (pr_space r) (pr_did r) (Some (pendingRemovalWriteExpectation (Some r))) s))"
| "run_store rt deps _ s = None"

text \<open>The outcome of an effect.\<close>

definition run_effect ::
  "runtime \<Rightarrow> removal_deps \<Rightarrow> removal_pc \<Rightarrow> removal_answer \<Rightarrow> (removal_pc \<times> removal_effect list) option" where
  "run_effect rt deps pc a =
     (case pc of
        MakeCandidate why \<Rightarrow>
          (case a of
             Candidate g m i now \<Rightarrow>
               let c = candidate_for rt deps why g m i now in
               Some (if candidate_ok why c then PutCandidate why c else Finished Threw, [])
           | Failed \<Rightarrow> Some (Finished Threw, []) | _ \<Rightarrow> None)
      | MintId r \<Rightarrow>
          (case a of Minted i \<Rightarrow> Some (PutBound r (adopted rt r i), [])
           | Failed \<Rightarrow> Some (Finished Threw, []) | _ \<Rightarrow> None)
      | MakeFrame home r \<Rightarrow>
          (case a of Proceed \<Rightarrow> Some (send_rotates deps home r (js_set (pr_confirmed r)) home, [])
           | Failed \<Rightarrow> Some (Finished Threw, []) | _ \<Rightarrow> None)
      | SendRotate home r confirmed u us \<Rightarrow>
          (case a of
             Proceed \<Rightarrow> Some (MarkConfirmed home r confirmed u us,
                             [RotateAccepted u (pr_generation r) (pr_material r)])
           | Rejected code g \<Rightarrow> Some (rotate_rejected r code g, [])
           | Failed \<Rightarrow> Some (Finished PendingNotEnforced, []) | _ \<Rightarrow> None)
      | GapGeneration r g \<Rightarrow>
          (case a of Generation n \<Rightarrow> Some (if n > g then Finished Threw else GapCatchUp r g, [])
           | Failed \<Rightarrow> Some (Finished Threw, []) | _ \<Rightarrow> None)
      | GapCatchUp r g \<Rightarrow>
          (case a of
             CaughtUp all_pages \<Rightarrow>
               Some (if all_pages then MakeCandidate (ReplaceGap r g) else Finished PendingNotEnforced, [])
           | Failed \<Rightarrow> Some (Finished Threw, []) | _ \<Rightarrow> None)
      | TakenGeneration r \<Rightarrow>
          (case a of
             Generation n \<Rightarrow>
               Some (if n < pr_generation r then Finished PendingNotEnforced
                     else if pr_self_removal r then DeleteOwn r False
                     else MakeCandidate (ReplaceTaken r), [])
           | Failed \<Rightarrow> Some (Finished Threw, []) | _ \<Rightarrow> None)
      | Activate home r \<Rightarrow>
          (case a of Proceed \<Rightarrow> Some (CommitRemoval home r, [Activated home r])
           | Failed \<Rightarrow> Some (Finished Threw, []) | _ \<Rightarrow> None)
      | CommitRemoval home r \<Rightarrow>
          (case a of
             Proceed \<Rightarrow>
               Some (PutCommitted home (r\<lparr>pr_committed := Some True,
                       pr_phase := Some (if pr_did r = rd_owner deps then Committed else LocalCleanup)\<rparr>),
                     [RemovalCommitted r])
           | Failed \<Rightarrow> Some (Finished Threw, []) | _ \<Rightarrow> None)
      | MakeAdminFrame home r \<Rightarrow>
          (case a of
             Proceed \<Rightarrow>
               Some (send_admin_removes r
                       (js_set (case pr_admin_confirmed r of None \<Rightarrow> [] | Some us \<Rightarrow> us)) home, [])
           | Failed \<Rightarrow> Some (Finished Threw, []) | _ \<Rightarrow> None)
      | SendAdminRemove r confirmed u us \<Rightarrow>
          (case a of
             Proceed \<Rightarrow>
               Some (PutAdminConfirmed (r\<lparr>pr_admin_confirmed := Some (confirmed @ [u])\<rparr>) (confirmed @ [u]) us,
                     [AdminRemoveAccepted u r])
           | Rejected code g \<Rightarrow>
               Some (Finished (if isHardAdminChangeReject code then Threw else PendingNotEnforced), [])
           | Failed \<Rightarrow> Some (Finished PendingNotEnforced, []) | _ \<Rightarrow> None)
      | Finalize r \<Rightarrow>
          (case a of
             Proceed \<Rightarrow> Some (PutLocalCleanup (r\<lparr>pr_phase := Some LocalCleanup\<rparr>), [SelfLeaveFinalized r])
           | Failed \<Rightarrow> Some (Finished Threw, []) | _ \<Rightarrow> None)
      | _ \<Rightarrow> None)"

text \<open>Runs on one store.\<close>

record removal_world =
  rw_store :: client_store
  rw_runs :: "(removal_deps \<times> removal_pc) list"
  rw_effects :: "removal_effect list"
  rw_minted :: "(string \<times> int \<times> staged_material) list"

fun minted_by :: "removal_pc \<Rightarrow> removal_answer \<Rightarrow> (string \<times> int \<times> staged_material) list" where
  "minted_by (MakeCandidate why) (Candidate g m i now) = [(i, g, m)]"
| "minted_by (MintId r) (Minted i) = [(i, pr_generation r, pr_material r)]"
| "minted_by _ _ = []"

datatype removal_event =
    StartRemoval removal_deps removal_request
  | RecoverRemoval removal_deps pending_removal
  | StoreStep nat
  | EffectDone nat removal_answer

text \<open>
  A recovery resumes a record that was listed; as it may wait for others before, any later step of
  other runs can come in between. Staging identities are 16 random bytes and taken to be new.
\<close>

inductive removal_step :: "runtime \<Rightarrow> removal_world \<Rightarrow> removal_event \<Rightarrow> removal_world \<Rightarrow> bool" for rt where
  start_removal:
    "removal_step rt w (StartRemoval deps q) (w\<lparr>rw_runs := rw_runs w @ [(deps, runTwoPhaseRemoval deps q)]\<rparr>)"
| recover_removal:
    "r \<in> set (listPendingRemovals (rw_store w)) \<Longrightarrow>
     removal_step rt w (RecoverRemoval deps r) (w\<lparr>rw_runs := rw_runs w @ [(deps, Restart r)]\<rparr>)"
| store_op:
    "n < length (rw_runs w) \<Longrightarrow> rw_runs w ! n = (deps, pc) \<Longrightarrow> run_store rt deps pc (rw_store w) = Some (pc', s) \<Longrightarrow>
     removal_step rt w (StoreStep n) (w\<lparr>rw_store := s, rw_runs := (rw_runs w)[n := (deps, pc')]\<rparr>)"
| effect_done:
    "n < length (rw_runs w) \<Longrightarrow> rw_runs w ! n = (deps, pc) \<Longrightarrow> run_effect rt deps pc a = Some (pc', effs) \<Longrightarrow>
     fst ` set (minted_by pc a) \<inter> fst ` set (rw_minted w) = {} \<Longrightarrow>
     removal_step rt w (EffectDone n a)
       (w\<lparr>rw_runs := (rw_runs w)[n := (deps, pc')], rw_effects := rw_effects w @ effs,
          rw_minted := rw_minted w @ minted_by pc a\<rparr>)"

end
