(* ===== verification/RemovalSafety.thy ===== *)
theory RemovalSafety
  imports RemovalRun
begin

text \<open>
  What the removal workflow guarantees, with any number of runs on one store in any interleaving: key
  material is activated only after each home broker the run sends to has accepted a rotation to
  exactly this material, and a run replaces or deletes only a staging it holds.
\<close>

section \<open>Acknowledged material\<close>

definition acked :: "removal_effect list \<Rightarrow> pending_removal \<Rightarrow> string list \<Rightarrow> bool" where
  "acked effs r us \<longleftrightarrow> (\<forall>u \<in> set us. RotateAccepted u (pr_generation r) (pr_material r) \<in> set effs)"

definition record_ok :: "removal_effect list \<Rightarrow> (string \<times> int \<times> staged_material) list \<Rightarrow> pending_removal \<Rightarrow> bool" where
  "record_ok effs minted r \<longleftrightarrow>
     (\<forall>i. pr_staging r = Some i \<longrightarrow> (i, pr_generation r, pr_material r) \<in> set minted \<and> pr_phase r \<noteq> None) \<and>
     (pr_staging r \<noteq> None \<and> pre_commit r \<longrightarrow> acked effs r (pr_confirmed r))"

definition bound_ok :: "removal_effect list \<Rightarrow> (string \<times> int \<times> staged_material) list \<Rightarrow> pending_removal \<Rightarrow> bool" where
  "bound_ok effs minted r \<longleftrightarrow> record_ok effs minted r \<and> pr_staging r \<noteq> None"

lemma acked_mono: "acked effs r us \<Longrightarrow> acked (effs @ effs') r us"
  by (auto simp: acked_def)

lemma record_ok_mono: "record_ok effs minted r \<Longrightarrow> record_ok (effs @ effs') (minted @ minted') r"
  by (auto simp: record_ok_def acked_def)

lemma bound_ok_mono: "bound_ok effs minted r \<Longrightarrow> bound_ok (effs @ effs') (minted @ minted') r"
  by (simp add: bound_ok_def record_ok_mono)

lemma clone_simps [simp]:
  "pr_staging (cloneRemoval r) = pr_staging r" "pr_generation (cloneRemoval r) = pr_generation r"
  "pr_material (cloneRemoval r) = pr_material r" "pr_confirmed (cloneRemoval r) = pr_confirmed r"
  "pr_home (cloneRemoval r) = pr_home r" "pr_fingerprint (cloneRemoval r) = pr_fingerprint r"
  "pr_space (cloneRemoval r) = pr_space r" "pr_did (cloneRemoval r) = pr_did r"
  "pr_self_removal (cloneRemoval r) = pr_self_removal r"
  "pr_phase r \<noteq> None \<Longrightarrow> pr_phase (cloneRemoval r) = pr_phase r"
  by (auto simp: cloneRemoval_def split: option.splits)

lemma clone_key [simp]: "pr_key (cloneRemoval r) = pr_key r"
  by (simp add: pr_key_def)

lemma record_ok_clone: "record_ok effs minted r \<Longrightarrow> record_ok effs minted (cloneRemoval r)"
  by (cases "pr_phase r") (auto simp: record_ok_def acked_def pre_commit_def)

section \<open>The invariant\<close>

text \<open>\<open>past\<close>: the material has been activated, so confirmations no longer matter.\<close>

definition past :: "removal_effect list \<Rightarrow> (string \<times> int \<times> staged_material) list \<Rightarrow> pending_removal \<Rightarrow> bool" where
  "past effs minted r \<longleftrightarrow> record_ok effs minted r \<and> \<not> pre_commit r"

fun pc_ok :: "removal_effect list \<Rightarrow> (string \<times> int \<times> staged_material) list \<Rightarrow> removal_pc \<Rightarrow> bool" where
  "pc_ok effs minted (Restart r) = record_ok effs minted r"
| "pc_ok effs minted (PutCandidate why c) = bound_ok effs minted c"
| "pc_ok effs minted (CheckOwner r) = bound_ok effs minted r"
| "pc_ok effs minted (MintId r) = (pr_phase r \<noteq> None)"
| "pc_ok effs minted (PutBound old a) = bound_ok effs minted a"
| "pc_ok effs minted (MakeFrame home r) = bound_ok effs minted r"
| "pc_ok effs minted (SendRotate home r confirmed u us) =
     (bound_ok effs minted r \<and> (pre_commit r \<longrightarrow> acked effs r confirmed))"
| "pc_ok effs minted (MarkConfirmed home r confirmed u us) =
     (bound_ok effs minted r \<and> (pre_commit r \<longrightarrow> acked effs r confirmed) \<and> acked effs r [u])"
| "pc_ok effs minted (PutBrokerConfirmed home r) = (bound_ok effs minted r \<and> pre_commit r \<and> set home \<subseteq> set (pr_confirmed r))"
| "pc_ok effs minted (CheckConfirmed home r) = (bound_ok effs minted r \<and> pre_commit r \<and> set home \<subseteq> set (pr_confirmed r))"
| "pc_ok effs minted (Activate home r) = (bound_ok effs minted r \<and> pre_commit r \<and> set home \<subseteq> set (pr_confirmed r))"
| "pc_ok effs minted (CommitRemoval home r) = (bound_ok effs minted r \<and> Activated home r \<in> set effs)"
| "pc_ok effs minted (PutCommitted home r) = past effs minted r"
| "pc_ok effs minted (MakeAdminFrame home r) = past effs minted r"
| "pc_ok effs minted (SendAdminRemove r confirmed u us) = past effs minted r"
| "pc_ok effs minted (PutAdminConfirmed r confirmed us) = past effs minted r"
| "pc_ok effs minted (PutAdminRemoved r) = past effs minted r"
| "pc_ok effs minted (Finalize r) = past effs minted r"
| "pc_ok effs minted (PutLocalCleanup r) = past effs minted r"
| "pc_ok effs minted (PutComplete r) = past effs minted r"
| "pc_ok effs minted _ = True"

text \<open>Every activation comes after its acknowledgements, every commit after its activation.\<close>

definition effect_ok ::
  "(string \<times> int \<times> staged_material) list \<Rightarrow> removal_effect list \<Rightarrow> removal_effect \<Rightarrow> bool" where
  "effect_ok minted before eff =
     (case eff of
        Activated home r \<Rightarrow> acked before r home \<and> (\<exists>i. (i, pr_generation r, pr_material r) \<in> set minted)
      | RemovalCommitted r \<Rightarrow> (\<exists>home. Activated home r \<in> set before)
      | _ \<Rightarrow> True)"

definition effects_ok :: "(string \<times> int \<times> staged_material) list \<Rightarrow> removal_effect list \<Rightarrow> bool" where
  "effects_ok minted effs \<longleftrightarrow> (\<forall>n < length effs. effect_ok minted (take n effs) (effs ! n))"

definition removals_ok ::
  "removal_effect list \<Rightarrow> (string \<times> int \<times> staged_material) list \<Rightarrow> client_store \<Rightarrow> bool" where
  "removals_ok effs minted s \<longleftrightarrow> keys_distinct pr_key (cs_removals s) \<and>
     (\<forall>r \<in> set (cs_removals s). record_ok effs minted r)"

definition world_ok :: "removal_world \<Rightarrow> bool" where
  "world_ok w \<longleftrightarrow> distinct (map fst (rw_minted w)) \<and>
     removals_ok (rw_effects w) (rw_minted w) (rw_store w) \<and>
     (\<forall>(deps, pc) \<in> set (rw_runs w). pc_ok (rw_effects w) (rw_minted w) pc) \<and>
     effects_ok (rw_minted w) (rw_effects w)"

lemma past_mono: "past effs minted r \<Longrightarrow> past (effs @ effs') (minted @ minted') r"
  by (simp add: past_def record_ok_mono)

lemma pc_ok_mono: "pc_ok effs minted pc \<Longrightarrow> pc_ok (effs @ effs') (minted @ minted') pc"
  by (cases pc) (auto simp: record_ok_mono bound_ok_mono acked_mono past_mono)

lemma effect_ok_mono: "effect_ok minted before eff \<Longrightarrow> effect_ok (minted @ minted') before eff"
  by (auto simp: effect_ok_def split: removal_effect.splits)

lemma effects_ok_mono: "effects_ok minted effs \<Longrightarrow> effects_ok (minted @ minted') effs"
  by (simp add: effects_ok_def effect_ok_mono)

lemma effects_ok_snoc:
  "effects_ok minted (effs @ [eff]) \<longleftrightarrow> effects_ok minted effs \<and> effect_ok minted effs eff"
  by (auto simp: effects_ok_def less_Suc_eq nth_append)

section \<open>Control flow keeps it\<close>

lemma pc_ok_drive:
  assumes "record_ok effs minted r"
  shows "pc_ok effs minted (driveRemovalToCompletion rt deps r)"
  using assms
  by (auto simp: driveRemovalToCompletion_def bindStagingMaterial_def bound_material_def bound_ok_def past_def
      record_ok_def pre_commit_def split: option.splits removal_phase.splits)

lemma pc_ok_after_commit: "past effs minted r \<Longrightarrow> pc_ok effs minted (after_commit deps home r)"
  by (auto simp: after_commit_def past_def record_ok_def pre_commit_def)

lemma pc_ok_enforce:
  assumes "bound_ok effs minted r" "pre_commit r \<Longrightarrow> acked effs r confirmed"
  shows "pc_ok effs minted (enforce deps home r confirmed)"
proof (cases "pre_commit r")
  case True
  then show ?thesis
    using assms by (auto simp: enforce_def bound_ok_def record_ok_def pre_commit_def acked_def)
next
  case False
  then have "past effs minted r" using assms by (simp add: past_def bound_ok_def)
  then show ?thesis using False by (simp add: enforce_def pc_ok_after_commit)
qed

lemma pc_ok_send_rotates:
  assumes "bound_ok effs minted r" "pre_commit r \<Longrightarrow> acked effs r confirmed"
  shows "pc_ok effs minted (send_rotates deps home r confirmed urls)"
  using assms by (auto simp: send_rotates_def pc_ok_enforce split: list.splits)

lemma pc_ok_send_admin_removes:
  "past effs minted r \<Longrightarrow> pc_ok effs minted (send_admin_removes r confirmed urls)"
  by (auto simp: send_admin_removes_def past_def record_ok_def pre_commit_def split: list.splits)

section \<open>Operations on the store keep it\<close>

lemma removals_ok_mono: "removals_ok effs minted s \<Longrightarrow> removals_ok (effs @ effs') (minted @ minted') s"
  by (auto simp: removals_ok_def record_ok_mono)

lemma record_ok_get:
  "removals_ok effs minted s \<Longrightarrow> getPendingRemoval spaceId did s = Some r \<Longrightarrow> record_ok effs minted r"
  by (auto simp: getPendingRemoval_def removals_ok_def dest!: row_get_SomeD intro: record_ok_clone)

lemma record_ok_listed:
  "removals_ok effs minted s \<Longrightarrow> r \<in> set (listPendingRemovals s) \<Longrightarrow> record_ok effs minted r"
  by (auto simp: listPendingRemovals_def removals_ok_def intro: record_ok_clone)

lemma set_removal_set: "set (removal_set r rs) \<subseteq> insert r (set rs)"
  by (auto simp: removal_set_def set_row_update split: if_splits)

lemma keys_distinct_removal_set:
  "keys_distinct pr_key rs \<Longrightarrow> keys_distinct pr_key (removal_set r rs)"
proof -
  assume d: "keys_distinct pr_key rs"
  have "map pr_key (row_update (\<lambda>x. pr_key x = pr_key r) (\<lambda>_. r) rs) = map pr_key rs"
    by (simp add: row_update_def)
  then have "keys_distinct pr_key (row_update (\<lambda>x. pr_key x = pr_key r) (\<lambda>_. r) rs)"
    using d by (simp only: keys_distinct_def)
  then show ?thesis
    using d by (simp add: removal_set_def keys_distinct_append1)
qed

lemma put_Inr:
  assumes "putPendingRemoval r ex s = Inr s'" "removals_ok effs minted s" "record_ok effs minted r"
  shows "removals_ok effs minted s'"
proof -
  have s': "cs_removals s' = removal_set (cloneRemoval r) (cs_removals s)"
    using assms(1) by (auto simp: putPendingRemoval_def Let_def split: if_splits)
  then show ?thesis
    using assms(2,3) set_removal_set [of "cloneRemoval r" "cs_removals s"]
    by (auto simp: removals_ok_def keys_distinct_removal_set dest!: subsetD intro: record_ok_clone)
qed

lemma put_Inl:
  "putPendingRemoval r ex s = Inl (Some w) \<Longrightarrow> removals_ok effs minted s \<Longrightarrow> record_ok effs minted w"
  by (auto simp: putPendingRemoval_def Let_def removals_ok_def split: if_splits
      dest!: row_get_SomeD intro: record_ok_clone)

lemma removals_ok_delete:
  "removals_ok effs minted s \<Longrightarrow> removals_ok effs minted (snd (deletePendingRemoval spaceId did ex s))"
  by (auto simp: deletePendingRemoval_def Let_def removals_ok_def keys_distinct_delete split: option.splits)

lemma record_ok_confirm:
  assumes "distinct (map fst minted)" "record_ok effs minted x" "bound_ok effs minted r"
    and "matchesConfirmationBinding x (Some (binding_of r))" and "acked effs r [u]"
  shows "record_ok effs minted (x\<lparr>pr_confirmed := pr_confirmed x @ [u]\<rparr>)"
proof -
  obtain i where i: "pr_staging r = Some i" using assms(3) by (auto simp: bound_ok_def)
  then have x: "pr_staging x = Some i"
    using assms(4) by (simp add: matchesConfirmationBinding_def binding_of_def)
  have "(i, pr_generation x, pr_material x) \<in> set minted" "(i, pr_generation r, pr_material r) \<in> set minted"
    using assms(2,3) i x by (auto simp: record_ok_def bound_ok_def)
  then have "(pr_generation x, pr_material x) = (pr_generation r, pr_material r)"
    using assms(1) by (rule eq_key_imp_eq_value [rotated])
  then show ?thesis
    using assms(2,5) x by (auto simp: record_ok_def acked_def pre_commit_def)
qed

lemma removals_ok_mark:
  assumes "markBrokerConfirmed spaceId did u (Some (binding_of r)) s = (outcome, s')"
    and "distinct (map fst minted)" "removals_ok effs minted s" "bound_ok effs minted r" "acked effs r [u]"
  shows "removals_ok effs minted s'"
proof (cases "row_get pr_key (pendingRemovalKey spaceId did) (cs_removals s)")
  case None
  then show ?thesis using assms(1,3) by (simp add: markBrokerConfirmed_def Let_def)
next
  case (Some x)
  let ?key = "pendingRemovalKey spaceId did"
  show ?thesis
  proof (cases "outcome = ConfRecorded")
    case True
    then have match: "matchesConfirmationBinding x (Some (binding_of r))"
      and s': "cs_removals s' = row_update (\<lambda>y. pr_key y = ?key)
          (\<lambda>y. y\<lparr>pr_confirmed := pr_confirmed y @ [u]\<rparr>) (cs_removals s)"
      using assms(1) Some by (auto simp: markBrokerConfirmed_def Let_def split: if_splits)
    have key: "pr_key (y\<lparr>pr_confirmed := us\<rparr>) = pr_key y" for y us
      by (simp add: pr_key_def)
    have only: "y = x" if "y \<in> set (cs_removals s)" "pr_key y = ?key" for y
    proof -
      have "row_get pr_key ?key (cs_removals s) = Some y"
        using that assms(3) by (simp add: removals_ok_def row_get_Some_iff)
      then show "y = x" using Some by simp
    qed
    have "keys_distinct pr_key (cs_removals s')"
      using assms(3) by (simp add: s' keys_distinct_update key removals_ok_def)
    moreover have "record_ok effs minted (x\<lparr>pr_confirmed := pr_confirmed x @ [u]\<rparr>)"
      using assms Some match by (auto simp: removals_ok_def dest!: row_get_SomeD intro!: record_ok_confirm)
    ultimately show ?thesis
      using assms(3) only by (auto simp: removals_ok_def s' set_row_update)
  next
    case False
    then have "s' = s"
      using assms(1) Some by (auto simp: markBrokerConfirmed_def Let_def split: if_splits)
    then show ?thesis using assms(3) by simp
  qed
qed

section \<open>Steps keep it\<close>

lemma persist_ok:
  assumes "removals_ok effs minted s" "record_ok effs minted r" "pc_ok effs minted pc"
    and "persistPhase r pc s = (pc', s')"
  shows "pc_ok effs minted pc' \<and> removals_ok effs minted s'"
  using assms put_Inr [OF _ assms(1,2)]
  by (auto simp: persistPhase_def split: sum.splits)

lemma put_candidate_ok:
  assumes "removals_ok effs minted s" "bound_ok effs minted c" "put_candidate rt deps why c s = (pc', s')"
  shows "pc_ok effs minted pc' \<and> removals_ok effs minted s'"
proof (cases "putPendingRemoval c (Some (pendingRemovalWriteExpectation (replaced why))) s")
  case (Inr s1)
  then show ?thesis
    using assms put_Inr [OF Inr assms(1)] by (auto simp: put_candidate_def bound_ok_def pc_ok_drive split: staging_reason.splits)
next
  case (Inl existing)
  then show ?thesis
    using assms put_Inl [OF _ assms(1)] pc_ok_drive
    by (auto simp: put_candidate_def split: staging_reason.splits option.splits)
qed

lemma put_bound_ok:
  assumes "removals_ok effs minted s" "bound_ok effs minted a" "put_bound rt old a s = (pc', s')"
  shows "pc_ok effs minted pc' \<and> removals_ok effs minted s'"
proof (cases "putPendingRemoval a (Some (pendingRemovalWriteExpectation (Some old))) s")
  case (Inr s1)
  then show ?thesis
    using assms put_Inr [OF Inr assms(1)] by (auto simp: put_bound_def bound_ok_def)
next
  case (Inl existing)
  then show ?thesis
    using assms put_Inl [OF _ assms(1)]
    by (auto simp: put_bound_def bound_ok_def bound_material_def split: option.splits)
qed

lemma run_store_ok:
  assumes "run_store rt deps pc s = Some (pc', s')" "distinct (map fst minted)"
    and "removals_ok effs minted s" "pc_ok effs minted pc"
  shows "pc_ok effs minted pc' \<and> removals_ok effs minted s'"
proof (cases pc)
  case (Lookup q)
  then show ?thesis using assms record_ok_get [OF assms(3)] by (auto simp: pc_ok_drive split: option.splits)
next
  case (Restart r)
  then show ?thesis using assms by (auto simp: pc_ok_drive)
next
  case (PutCandidate why c)
  then show ?thesis using assms put_candidate_ok [OF assms(3), of c rt deps why pc' s'] by simp
next
  case (CheckOwner r)
  then show ?thesis using assms by (auto simp: check_owner_def split: option.splits)
next
  case (PutBound old a)
  then show ?thesis using assms put_bound_ok [OF assms(3), of a rt old pc' s'] by simp
next
  case (MarkConfirmed home r confirmed u us)
  obtain outcome s1 where m: "markBrokerConfirmed (rd_space deps) (pr_did r) u (Some (binding_of r)) s = (outcome, s1)"
    by fastforce
  show ?thesis
    using assms MarkConfirmed removals_ok_mark [OF m assms(2,3)]
    by (auto simp: mark_confirmed_def m acked_def split: if_splits intro!: pc_ok_send_rotates)
next
  case (PutBrokerConfirmed home r)
  then show ?thesis using assms persist_ok [OF assms(3), of r "CheckConfirmed home r" pc' s'] by (simp add: bound_ok_def)
next
  case (CheckConfirmed home r)
  then show ?thesis using assms by auto
next
  case (PutCommitted home r)
  then show ?thesis
    using assms persist_ok [OF assms(3), of r "after_commit deps home r" pc' s'] by (simp add: pc_ok_after_commit) (simp add: past_def)
next
  case (PutAdminConfirmed r confirmed us)
  then show ?thesis
    using assms persist_ok [OF assms(3), of r "send_admin_removes r confirmed us" pc' s']
    by (simp add: pc_ok_send_admin_removes) (simp add: past_def)
next
  case (PutAdminRemoved r)
  then show ?thesis using assms persist_ok [OF assms(3), of r "Finalize r" pc' s'] by (simp add: past_def)
next
  case (PutLocalCleanup r)
  let ?r = "r\<lparr>pr_phase := Some RemovalComplete\<rparr>"
  have "past effs minted ?r" using assms PutLocalCleanup by (auto simp: past_def record_ok_def pre_commit_def)
  then show ?thesis
    using assms PutLocalCleanup persist_ok [OF assms(3), of r "PutComplete ?r" pc' s'] by (simp add: past_def)
next
  case (PutComplete r)
  then show ?thesis using assms persist_ok [OF assms(3), of r "DeleteOwn r True" pc' s'] by (simp add: past_def)
next
  case (DeleteOwn r b)
  then show ?thesis using assms removals_ok_delete [OF assms(3)] by auto
qed (use assms in auto)

lemma bound_candidate:
  assumes "(i, g, m) \<in> set minted"
  shows "bound_ok effs minted (candidate_for rt deps why g m i now)"
  using assms
  by (cases why) (simp_all add: bound_ok_def record_ok_def stageRemovalCandidate_def acked_def)

lemma bound_adopted:
  assumes "(i, pr_generation r, pr_material r) \<in> set minted" "pr_phase r \<noteq> None"
  shows "bound_ok effs minted (adopted rt r i)"
  using assms by (auto simp: bound_ok_def record_ok_def adopted_def acked_def pre_commit_def)

lemma past_committed:
  "bound_ok effs minted r \<Longrightarrow> p \<noteq> Staged \<Longrightarrow> p \<noteq> BrokerConfirmed \<Longrightarrow>
     past effs minted (r\<lparr>pr_committed := c, pr_phase := Some p\<rparr>)"
  by (auto simp: bound_ok_def past_def record_ok_def pre_commit_def)

lemma past_update:
  "past effs minted r \<Longrightarrow> past effs minted (r\<lparr>pr_admin_confirmed := us\<rparr>)"
  "past effs minted r \<Longrightarrow> p \<noteq> Staged \<Longrightarrow> p \<noteq> BrokerConfirmed \<Longrightarrow> past effs minted (r\<lparr>pr_phase := Some p\<rparr>)"
  by (auto simp: past_def record_ok_def pre_commit_def)

lemma run_effect_ok:
  assumes "run_effect rt deps pc a = Some (pc', effs')" and "pc_ok effs minted pc" and "effects_ok minted effs"
  shows "pc_ok (effs @ effs') (minted @ minted_by pc a) pc' \<and> effects_ok (minted @ minted_by pc a) (effs @ effs')"
proof (cases "\<exists>home r. pc = Activate home r \<and> a = Proceed")
  case True
  then obtain home r where pc: "pc = Activate home r" "a = Proceed" by blast
  then have r: "bound_ok effs minted r" "pre_commit r" "set home \<subseteq> set (pr_confirmed r)" using assms(2) by auto
  then have "acked effs r home" by (auto simp: bound_ok_def record_ok_def acked_def)
  moreover have "\<exists>i. (i, pr_generation r, pr_material r) \<in> set minted"
    using r(1) by (auto simp: bound_ok_def record_ok_def)
  ultimately have "effects_ok minted (effs @ [Activated home r])"
    using assms(3) by (simp add: effects_ok_snoc effect_ok_def)
  then show ?thesis
    using assms(1) pc r bound_ok_mono [of effs minted r "[Activated home r]" "[]"] by (auto simp: run_effect_def)
next
  case False
  note mono = pc_ok_mono bound_ok_mono [of effs minted _ _ "[]", simplified] past_mono [of effs minted _ _ "[]", simplified]
  show ?thesis
  proof (cases pc)
    case (MakeCandidate why)
    then show ?thesis
      using assms by (auto simp: run_effect_def Let_def effects_ok_mono bound_candidate split: removal_answer.splits)
  next
    case (MintId r)
    then show ?thesis
      using assms by (auto simp: run_effect_def effects_ok_mono bound_adopted split: removal_answer.splits)
  next
    case (MakeFrame home r)
    then show ?thesis
      using assms
      by (auto simp: run_effect_def bound_ok_def record_ok_def acked_def intro!: pc_ok_send_rotates split: removal_answer.splits)
  next
    case (SendRotate home r confirmed u us)
    have rej: "pc_ok effs minted (rotate_rejected r code g)" for code g
      by (simp add: rotate_rejected_def handleGenerationGap_def split: option.splits)
    show ?thesis
      using assms SendRotate rej
      by (auto simp: run_effect_def effects_ok_snoc effect_ok_def acked_def mono split: removal_answer.splits)
  next
    case (CommitRemoval home r)
    then show ?thesis
      using assms
      by (auto simp: run_effect_def effects_ok_snoc effect_ok_def mono past_committed split: removal_answer.splits)
  next
    case (MakeAdminFrame home r)
    then show ?thesis
      using assms by (auto simp: run_effect_def pc_ok_send_admin_removes split: removal_answer.splits)
  next
    case (SendAdminRemove r confirmed u us)
    then show ?thesis
      using assms by (auto simp: run_effect_def effects_ok_snoc effect_ok_def mono past_update split: removal_answer.splits)
  next
    case (Finalize r)
    then show ?thesis
      using assms by (auto simp: run_effect_def effects_ok_snoc effect_ok_def mono past_update split: removal_answer.splits)
  qed (use assms False in \<open>auto simp: run_effect_def split: removal_answer.splits if_splits\<close>)
qed

lemma world_ok_set_run:
  assumes "\<forall>(deps, pc) \<in> set runs. pc_ok effs minted pc" "pc_ok effs minted pc'"
  shows "\<forall>(deps, pc) \<in> set (runs[n := (deps', pc')]). pc_ok effs minted pc"
  using assms by (auto dest: set_update_subset_insert [THEN subsetD])

lemma distinct_minted:
  "distinct (map fst minted) \<Longrightarrow> fst ` set (minted_by pc a) \<inter> fst ` set minted = {} \<Longrightarrow>
     distinct (map fst (minted @ minted_by pc a))"
  by (cases "(pc, a)" rule: minted_by.cases) auto

lemma world_ok_step:
  assumes "removal_step rt w ev w'" "world_ok w"
  shows "world_ok w'"
  using assms(1)
proof (cases rule: removal_step.cases)
  case (start_removal deps q)
  then show ?thesis using assms(2) by (auto simp: world_ok_def runTwoPhaseRemoval_def)
next
  case (recover_removal r deps)
  then show ?thesis using assms(2) by (auto simp: world_ok_def dest: record_ok_listed)
next
  case (store_op n deps pc pc' s)
  have pc: "pc_ok (rw_effects w) (rw_minted w) pc"
    using assms(2) store_op(3,4) nth_mem [of n "rw_runs w"] by (fastforce simp: world_ok_def)
  have "pc_ok (rw_effects w) (rw_minted w) pc' \<and> removals_ok (rw_effects w) (rw_minted w) s"
    using run_store_ok [OF store_op(5)] pc assms(2) by (auto simp: world_ok_def)
  then show ?thesis
    using assms(2) store_op(2) by (auto simp: world_ok_def dest!: set_update_subset_insert [THEN subsetD])
next
  case (effect_done n deps pc a pc' effs)
  have pc: "pc_ok (rw_effects w) (rw_minted w) pc"
    using assms(2) effect_done(3,4) nth_mem [of n "rw_runs w"] by (fastforce simp: world_ok_def)
  note step = run_effect_ok [OF effect_done(5) pc]
  have "\<forall>(deps, pc) \<in> set (rw_runs w). pc_ok (rw_effects w @ effs) (rw_minted w @ minted_by pc a) pc"
    using assms(2) by (auto simp: world_ok_def intro: pc_ok_mono)
  then show ?thesis
    using assms(2) effect_done(2) step distinct_minted [OF _ effect_done(6)]
    by (auto simp: world_ok_def intro: removals_ok_mono pc_ok_mono dest!: set_update_subset_insert [THEN subsetD])
qed

definition legacy_world :: "removal_world \<Rightarrow> bool" where
  "legacy_world w \<longleftrightarrow> keys_distinct pr_key (cs_removals (rw_store w)) \<and>
     (\<forall>r \<in> set (cs_removals (rw_store w)). pr_staging r = None) \<and>
     rw_runs w = [] \<and> rw_effects w = [] \<and> rw_minted w = []"

interpretation removal: invariant_system legacy_world "removal_step rt" world_ok for rt
proof
  show "world_ok w" if "legacy_world w" for w :: removal_world
    using that by (auto simp: legacy_world_def world_ok_def removals_ok_def record_ok_def effects_ok_def)
qed (rule world_ok_step)

section \<open>Runs as a function\<close>

fun removal_exec :: "runtime \<Rightarrow> removal_event \<Rightarrow> removal_world \<Rightarrow> removal_world option" where
  "removal_exec rt (StartRemoval deps q) w = Some (w\<lparr>rw_runs := rw_runs w @ [(deps, runTwoPhaseRemoval deps q)]\<rparr>)"
| "removal_exec rt (RecoverRemoval deps r) w =
     (if r \<in> set (listPendingRemovals (rw_store w))
      then Some (w\<lparr>rw_runs := rw_runs w @ [(deps, Restart r)]\<rparr>) else None)"
| "removal_exec rt (StoreStep n) w =
     (if n < length (rw_runs w)
      then (let (deps, pc) = rw_runs w ! n in
            map_option (\<lambda>(pc', s). w\<lparr>rw_store := s, rw_runs := (rw_runs w)[n := (deps, pc')]\<rparr>)
              (run_store rt deps pc (rw_store w)))
      else None)"
| "removal_exec rt (EffectDone n a) w =
     (if n < length (rw_runs w)
      then (let (deps, pc) = rw_runs w ! n in
            if list_ex (\<lambda>x. x \<in> set (map fst (rw_minted w))) (map fst (minted_by pc a)) then None
            else map_option (\<lambda>(pc', effs). w\<lparr>rw_runs := (rw_runs w)[n := (deps, pc')],
                    rw_effects := rw_effects w @ effs, rw_minted := rw_minted w @ minted_by pc a\<rparr>)
                  (run_effect rt deps pc a))
      else None)"

lemma removal_exec_step: "removal_exec rt ev w = Some w' \<Longrightarrow> removal_step rt w ev w'"
proof (cases ev)
  case (StoreStep n)
  moreover assume "removal_exec rt ev w = Some w'"
  ultimately show ?thesis
    by (auto intro!: removal_step.store_op split: if_splits prod.splits)
next
  case (EffectDone n a)
  moreover assume "removal_exec rt ev w = Some w'"
  ultimately show ?thesis
    by (auto simp: list_ex_iff intro!: removal_step.effect_done split: if_splits prod.splits)
qed (auto intro: removal_step.intros split: if_splits)

fun removal_run :: "runtime \<Rightarrow> removal_event list \<Rightarrow> removal_world \<Rightarrow> removal_world option" where
  "removal_run rt [] w = Some w"
| "removal_run rt (ev # evs) w = Option.bind (removal_exec rt ev w) (removal_run rt evs)"

lemma removal_run_run: "removal_run rt evs w = Some w' \<Longrightarrow> run (removal_step rt) w evs w'"
  by (induction evs arbitrary: w) (auto simp: bind_eq_Some_conv intro: run.intros removal_exec_step)

section \<open>Properties\<close>

text \<open>C5: a removal is enforced before it takes effect. Whenever a run activates staged key material,
  each home broker it sends to has accepted, earlier, a rotation to exactly this generation and this
  material, whether this run sent it or another one did; and a removal is committed only after its
  material was activated. This holds for any number of concurrent, crashed and recovered runs on a
  store that starts with legacy records.\<close>

theorem removal_activates_confirmed_material:
  assumes "legacy_world w0" "run (removal_step rt) w0 evs w" "n < length (rw_effects w)"
  shows "(rw_effects w ! n = Activated home r \<longrightarrow>
            (\<forall>u \<in> set home. \<exists>k < n. rw_effects w ! k = RotateAccepted u (pr_generation r) (pr_material r))) \<and>
         (rw_effects w ! n = RemovalCommitted r \<longrightarrow> (\<exists>k < n. \<exists>home. rw_effects w ! k = Activated home r))"
proof (intro conjI)
  have "world_ok w" using assms(1,2) by (rule removal.init_run_inv)
  then have ok: "effect_ok (rw_minted w) (take n (rw_effects w)) (rw_effects w ! n)"
    using assms(3) by (simp add: world_ok_def effects_ok_def)
  have earlier: "\<exists>k < n. rw_effects w ! k = e" if "e \<in> set (take n (rw_effects w))" for e
    using that assms(3) by (auto simp: in_set_conv_nth)
  show "rw_effects w ! n = Activated home r \<longrightarrow>
          (\<forall>u \<in> set home. \<exists>k < n. rw_effects w ! k = RotateAccepted u (pr_generation r) (pr_material r))"
    using ok earlier by (auto simp: effect_ok_def acked_def)
  show "rw_effects w ! n = RemovalCommitted r \<longrightarrow> (\<exists>k < n. \<exists>home. rw_effects w ! k = Activated home r)"
  proof
    assume "rw_effects w ! n = RemovalCommitted r"
    then show "\<exists>k < n. \<exists>home. rw_effects w ! k = Activated home r"
      using ok earlier by (simp add: effect_ok_def) blast
  qed
qed

text \<open>
  Two tabs remove the same member. Both generate key material; the second one loses the race for the
  staging record, adopts the material of the first and has it confirmed and activated, although the
  first tab never gets further.
\<close>

definition demo_material :: "nat \<Rightarrow> staged_material" where
  "demo_material n = \<lparr>sm_content_key = [of_nat n], sm_cap_seed = [1], sm_cap_key = [2]\<rparr>"

definition demo_deps :: removal_deps where
  "demo_deps = \<lparr>rd_space = ''space'', rd_owner = ''did:admin'', rd_brokers = [''broker''], rd_rotation = True,
     rd_admin = False, rd_finalizer = False\<rparr>"

definition demo_request :: removal_request where
  "demo_request = \<lparr>rq_did = ''did:m'', rq_activity = None, rq_self_removal = False, rq_target = None\<rparr>"

definition empty_world :: "pending_removal list \<Rightarrow> removal_world" where
  "empty_world rs = \<lparr>rw_store = new_client_store\<lparr>cs_removals := rs\<rparr>, rw_runs = [], rw_effects = [], rw_minted = []\<rparr>"

definition demo_rt :: runtime where
  "demo_rt = sample_runtime\<lparr>sha256 := (\<lambda>b. drop 40 (take 48 b))\<rparr>"

definition two_tabs :: "removal_event list" where
  "two_tabs =
     [StartRemoval demo_deps demo_request, StartRemoval demo_deps demo_request, StoreStep 0, StoreStep 1,
      EffectDone 0 (Candidate 1 (demo_material 7) ''s1'' 100), EffectDone 1 (Candidate 1 (demo_material 8) ''s2'' 101),
      StoreStep 0, StoreStep 1, StoreStep 1, EffectDone 1 Proceed, EffectDone 1 Proceed, StoreStep 1, StoreStep 1,
      StoreStep 1, EffectDone 1 Proceed, EffectDone 1 Proceed, StoreStep 1, StoreStep 1, StoreStep 1]"

definition effect_summary :: "removal_effect \<Rightarrow> nat \<times> string list \<times> staged_material" where
  "effect_summary e =
     (case e of
        RotateAccepted u g m \<Rightarrow> (0, [u], m)
      | Activated home r \<Rightarrow> (1, home, pr_material r)
      | RemovalCommitted r \<Rightarrow> (2, [], pr_material r)
      | AdminRemoveAccepted u r \<Rightarrow> (3, [u], pr_material r)
      | SelfLeaveFinalized r \<Rightarrow> (4, [], pr_material r))"

lemma two_tabs_result:
  "map_option (\<lambda>w. (map snd (rw_runs w) ! 1, cs_removals (rw_store w), map effect_summary (rw_effects w)))
     (removal_run demo_rt two_tabs (empty_world [])) =
   Some (Finished (Returned True), [],
     [(0, [''broker''], demo_material 7), (1, [''broker''], demo_material 7), (2, [], demo_material 7)])"
  by code_simp

lemma legacy_empty_world: "legacy_world (empty_world [])"
  by (simp add: legacy_world_def empty_world_def new_client_store_def keys_distinct_def)

lemma effect_summary_Activated:
  "effect_summary e = (1, home, m) \<Longrightarrow> \<exists>r. e = Activated home r \<and> pr_material r = m"
  by (cases e) (simp_all add: effect_summary_def)

lemma removal_activates_witness:
  "\<exists>w r. run (removal_step demo_rt) (empty_world []) two_tabs w \<and> rw_effects w ! 1 = Activated [''broker''] r \<and>
     pr_material r = demo_material 7 \<and>
     rw_effects w ! 0 = RotateAccepted ''broker'' (pr_generation r) (demo_material 7)"
proof -
  obtain w where w: "removal_run demo_rt two_tabs (empty_world []) = Some w"
    and effs: "map effect_summary (rw_effects w) =
      [(0, [''broker''], demo_material 7), (1, [''broker''], demo_material 7), (2, [], demo_material 7)]"
    using two_tabs_result by auto
  have len: "length (rw_effects w) = 3" using arg_cong [OF effs, of length] by simp
  then have "effect_summary (rw_effects w ! 1) = (1, [''broker''], demo_material 7)"
    using arg_cong [OF effs, of "\<lambda>xs. xs ! 1"] by simp
  then obtain r where r: "rw_effects w ! 1 = Activated [''broker''] r" "pr_material r = demo_material 7"
    using effect_summary_Activated by blast
  have "\<exists>k < 1. rw_effects w ! k = RotateAccepted ''broker'' (pr_generation r) (pr_material r)"
    using removal_activates_confirmed_material [OF legacy_empty_world removal_run_run [OF w], of 1 "[''broker'']" r]
    by (simp add: len r(1) r(1) [simplified])
  then show ?thesis using removal_run_run [OF w] r by auto
qed

section \<open>A home broker set that is not that of the material\<close>

text \<open>
  The loop over the home brokers uses the set read before the material is bound. A run that loses the
  race to migrate a legacy record goes on with the winner's record and material, but with the brokers
  of the record it had read: here material staged for two brokers is activated when one has confirmed.
  Recovery has no guard on the number of home brokers.
\<close>

definition legacy_record :: pending_removal where
  "legacy_record = \<lparr>pr_phase = Some Staged, pr_space = ''space'', pr_did = ''did:m'', pr_home = [''a''], pr_confirmed = [],
     pr_generation = 1, pr_material = demo_material 1, pr_staging = None, pr_fingerprint = None, pr_created = 0,
     pr_activity = None, pr_self_removal = False, pr_committed = None, pr_admin_confirmed = None\<rparr>"

definition two_brokers :: removal_deps where
  "two_brokers = demo_deps\<lparr>rd_brokers := [''a'', ''b'']\<rparr>"

definition lost_migration :: "removal_event list" where
  "lost_migration =
     [RecoverRemoval two_brokers legacy_record, RecoverRemoval two_brokers legacy_record, StoreStep 0, StoreStep 1,
      EffectDone 1 (Minted ''s1''), StoreStep 1, EffectDone 1 Proceed,
      EffectDone 1 (Rejected GENERATION_GAP (Some 1)), EffectDone 1 (Generation 1), EffectDone 1 (CaughtUp True),
      EffectDone 1 (Candidate 2 (demo_material 2) ''s2'' 50), StoreStep 1,
      EffectDone 0 (Minted ''s3''), StoreStep 0, EffectDone 0 Proceed, EffectDone 0 Proceed, StoreStep 0,
      StoreStep 0, StoreStep 0, EffectDone 0 Proceed]"

lemma lost_migration_activates_unconfirmed:
  "map_option (\<lambda>w. (map effect_summary (rw_effects w), map pr_home (cs_removals (rw_store w))))
     (removal_run demo_rt lost_migration (empty_world [legacy_record])) =
   Some ([(0, [''a''], demo_material 2), (1, [''a''], demo_material 2)], [[''a'', ''b'']])"
  by code_simp

end
