(* ===== verification/LogCrypto.thy ===== *)
theory LogCrypto
  imports Messages
begin

text \<open>
  What the protocol encrypts, \<^verbatim>\<open>protocol/sync/encryption.ts\<close>: log payloads under a space content key
  with a nonce derived from device and sequence number, one-shot payloads with a random nonce, and
  messages to the holder of an X25519 key (ECIES). The primitives of the crypto port (X25519, HKDF and
  AES-256-GCM) are the fields of \<open>ciphers\<close>, \<open>None\<close> where they reject; random bytes are arguments.
\<close>

record ciphers =
  x25519_public :: "bytes \<Rightarrow> bytes option"
  x25519_shared :: "bytes \<Rightarrow> bytes \<Rightarrow> bytes option"
  hkdf_sha256 :: "bytes \<Rightarrow> string \<Rightarrow> nat \<Rightarrow> bytes option"
  aes_encrypt :: "bytes \<Rightarrow> bytes \<Rightarrow> bytes \<Rightarrow> bytes option"
  aes_decrypt :: "bytes \<Rightarrow> bytes \<Rightarrow> bytes \<Rightarrow> bytes option"

definition ECIES_INFO :: string where "ECIES_INFO = ''wot/ecies/v1''"
definition X25519_KEY_LENGTH :: nat where "X25519_KEY_LENGTH = 32"
definition AES_256_KEY_LENGTH :: nat where "AES_256_KEY_LENGTH = 32"

lemmas key_lengths = X25519_KEY_LENGTH_def AES_256_KEY_LENGTH_def NONCE_LENGTH_def AES_GCM_TAG_LENGTH_def

section \<open>Checks\<close>

text \<open>A check that throws is \<open>None\<close>.\<close>

definition assertion :: "bool \<Rightarrow> unit option" where
  "assertion b = (if b then Some () else None)"

lemma assertion_Some [simp]: "assertion b = Some u \<longleftrightarrow> b"
  by (simp add: assertion_def)

lemma bind_assertion: "Option.bind (assertion b) f = (if b then f () else None)"
  by (simp add: assertion_def)

definition assertLength :: "bytes \<Rightarrow> nat \<Rightarrow> unit option" where
  "assertLength bs n = assertion (length bs = n)"

definition assertNotAllZero :: "bytes \<Rightarrow> unit option" where
  "assertNotAllZero bs = assertion (fold or bs 0 \<noteq> 0)"

definition assertNonEmpty :: "bytes \<Rightarrow> unit option" where
  "assertNonEmpty bs = assertion (bs \<noteq> [])"

definition assertCiphertextTag :: "bytes \<Rightarrow> unit option" where
  "assertCiphertextTag bs = assertion (length bs > AES_GCM_TAG_LENGTH)"

definition assertEncryptedBlob :: "bytes \<Rightarrow> unit option" where
  "assertEncryptedBlob bs = assertion (length bs > NONCE_LENGTH + AES_GCM_TAG_LENGTH)"

definition decodeRequiredBase64Url :: "string \<Rightarrow> bytes option" where
  "decodeRequiredBase64Url s = (if b64url_text s then decodeBase64Url s else None)"

lemmas check_defs = assertLength_def assertNotAllZero_def assertNonEmpty_def assertCiphertextTag_def
  assertEncryptedBlob_def

lemmas crypto_checks = assertLength_def assertNotAllZero_def assertNonEmpty_def assertCiphertextTag_def
  assertEncryptedBlob_def bind_assertion

section \<open>ECIES\<close>

record ecies_message =
  ec_epk :: string
  ec_nonce :: string
  ec_ciphertext :: string

definition assertEciesMessage :: "json \<Rightarrow> ecies_message option" where
  "assertEciesMessage v =
     (if \<not> is_record v then None
      else do {
        epk \<leftarrow> jget_str ''epk'' v;
        nonce \<leftarrow> jget_str ''nonce'' v;
        ct \<leftarrow> jget_str ''ciphertext'' v;
        Some \<lparr>ec_epk = epk, ec_nonce = nonce, ec_ciphertext = ct\<rparr> })"

record ecies_material =
  em_public :: bytes
  em_shared :: bytes
  em_key :: bytes

text \<open>The part both sides share: from the shared secret to the AES key.\<close>

definition ecies_key :: "ciphers \<Rightarrow> bytes \<Rightarrow> bytes \<Rightarrow> (bytes \<times> bytes) option" where
  "ecies_key cs seed public = do {
     secret \<leftarrow> x25519_shared cs seed public;
     _ \<leftarrow> assertLength secret X25519_KEY_LENGTH;
     _ \<leftarrow> assertNotAllZero secret;
     key \<leftarrow> hkdf_sha256 cs secret ECIES_INFO AES_256_KEY_LENGTH;
     _ \<leftarrow> assertLength key AES_256_KEY_LENGTH;
     Some (secret, key) }"

definition deriveEciesMaterial :: "ciphers \<Rightarrow> bytes \<Rightarrow> bytes \<Rightarrow> ecies_material option" where
  "deriveEciesMaterial cs ephemeralSeed recipientPublic = do {
     _ \<leftarrow> assertLength ephemeralSeed X25519_KEY_LENGTH;
     _ \<leftarrow> assertLength recipientPublic X25519_KEY_LENGTH;
     epk \<leftarrow> x25519_public cs ephemeralSeed;
     _ \<leftarrow> assertLength epk X25519_KEY_LENGTH;
     (secret, key) \<leftarrow> ecies_key cs ephemeralSeed recipientPublic;
     Some \<lparr>em_public = epk, em_shared = secret, em_key = key\<rparr> }"

definition encryptEcies :: "ciphers \<Rightarrow> bytes \<Rightarrow> bytes \<Rightarrow> bytes \<Rightarrow> bytes \<Rightarrow> ecies_message option" where
  "encryptEcies cs ephemeralSeed recipientPublic nonce plaintext = do {
     _ \<leftarrow> assertLength nonce NONCE_LENGTH;
     _ \<leftarrow> assertNonEmpty plaintext;
     m \<leftarrow> deriveEciesMaterial cs ephemeralSeed recipientPublic;
     ct \<leftarrow> aes_encrypt cs (em_key m) nonce plaintext;
     _ \<leftarrow> assertCiphertextTag ct;
     Some \<lparr>ec_epk = encodeBase64Url (em_public m), ec_nonce = encodeBase64Url nonce,
           ec_ciphertext = encodeBase64Url ct\<rparr> }"

definition decryptEcies :: "ciphers \<Rightarrow> bytes \<Rightarrow> json \<Rightarrow> bytes option" where
  "decryptEcies cs recipientSeed v = do {
     _ \<leftarrow> assertLength recipientSeed X25519_KEY_LENGTH;
     m \<leftarrow> assertEciesMessage v;
     epk \<leftarrow> decodeRequiredBase64Url (ec_epk m);
     nonce \<leftarrow> decodeRequiredBase64Url (ec_nonce m);
     ct \<leftarrow> decodeRequiredBase64Url (ec_ciphertext m);
     _ \<leftarrow> assertLength epk X25519_KEY_LENGTH;
     _ \<leftarrow> assertLength nonce NONCE_LENGTH;
     _ \<leftarrow> assertCiphertextTag ct;
     (secret, key) \<leftarrow> ecies_key cs recipientSeed epk;
     aes_decrypt cs key nonce ct }"

section \<open>Log payloads\<close>

definition deriveLogPayloadNonce :: "runtime \<Rightarrow> string \<Rightarrow> int \<Rightarrow> bytes option" where
  "deriveLogPayloadNonce rt deviceId seq = do {
     _ \<leftarrow> assertion (deviceId \<noteq> []);
     _ \<leftarrow> assertion (safe_seq seq);
     Some (take NONCE_LENGTH (sha256 rt (utf8_encode (deviceId @ ''|'' @ int_text seq)))) }"

definition seal :: "ciphers \<Rightarrow> bytes \<Rightarrow> bytes \<Rightarrow> bytes \<Rightarrow> bytes option" where
  "seal cs key nonce plaintext = do {
     ct \<leftarrow> aes_encrypt cs key nonce plaintext;
     _ \<leftarrow> assertCiphertextTag ct;
     Some (nonce @ ct) }"

definition encryptLogPayload :: "runtime \<Rightarrow> ciphers \<Rightarrow> bytes \<Rightarrow> string \<Rightarrow> int \<Rightarrow> bytes \<Rightarrow> bytes option" where
  "encryptLogPayload rt cs key deviceId seq plaintext = do {
     _ \<leftarrow> assertLength key AES_256_KEY_LENGTH;
     _ \<leftarrow> assertNonEmpty plaintext;
     nonce \<leftarrow> deriveLogPayloadNonce rt deviceId seq;
     seal cs key nonce plaintext }"

definition decryptLogPayload :: "ciphers \<Rightarrow> bytes \<Rightarrow> bytes \<Rightarrow> bytes option" where
  "decryptLogPayload cs key blob = do {
     _ \<leftarrow> assertLength key AES_256_KEY_LENGTH;
     _ \<leftarrow> assertEncryptedBlob blob;
     aes_decrypt cs key (take NONCE_LENGTH blob) (drop NONCE_LENGTH blob) }"

section \<open>One-shot payloads\<close>

definition encryptOneShot :: "ciphers \<Rightarrow> bytes \<Rightarrow> bytes \<Rightarrow> bytes \<Rightarrow> bytes option" where
  "encryptOneShot cs key random plaintext = do {
     _ \<leftarrow> assertLength key AES_256_KEY_LENGTH;
     _ \<leftarrow> assertNonEmpty plaintext;
     _ \<leftarrow> assertLength random NONCE_LENGTH;
     seal cs key random plaintext }"

definition decryptOneShot :: "ciphers \<Rightarrow> bytes \<Rightarrow> bytes \<Rightarrow> bytes option" where
  "decryptOneShot cs key blob = do {
     _ \<leftarrow> assertLength key AES_256_KEY_LENGTH;
     _ \<leftarrow> assertEncryptedBlob blob;
     aes_decrypt cs key (take NONCE_LENGTH blob) (drop NONCE_LENGTH blob) }"

section \<open>Lemmas\<close>

text \<open>What the code relies on: AES-GCM opens what it sealed, and both sides of X25519 agree.\<close>

definition opens_sealed :: "ciphers \<Rightarrow> bool" where
  "opens_sealed cs \<longleftrightarrow> (\<forall>key nonce pt ct. aes_encrypt cs key nonce pt = Some ct \<longrightarrow> aes_decrypt cs key nonce ct = Some pt)"

definition agrees :: "ciphers \<Rightarrow> bool" where
  "agrees cs \<longleftrightarrow> (\<forall>a b pa pb. x25519_public cs a = Some pa \<longrightarrow> x25519_public cs b = Some pb \<longrightarrow>
     x25519_shared cs a pb = x25519_shared cs b pa)"

lemma seal_Some:
  "seal cs key nonce pt = Some blob \<longleftrightarrow>
     (\<exists>ct. aes_encrypt cs key nonce pt = Some ct \<and> AES_GCM_TAG_LENGTH < length ct \<and> blob = nonce @ ct)"
  by (auto simp: seal_def crypto_checks bind_eq_Some_conv split: if_splits)

lemma open_sealed:
  assumes "opens_sealed cs" "seal cs key nonce pt = Some blob" "length nonce = NONCE_LENGTH" "length key = AES_256_KEY_LENGTH"
  shows "decryptLogPayload cs key blob = Some pt \<and> decryptOneShot cs key blob = Some pt"
  using assms by (auto simp: decryptLogPayload_def decryptOneShot_def crypto_checks seal_Some opens_sealed_def)

lemma deriveLogPayloadNonce_Some:
  "deriveLogPayloadNonce rt deviceId seq = Some nonce \<longleftrightarrow> deviceId \<noteq> [] \<and> safe_seq seq \<and>
     nonce = take NONCE_LENGTH (sha256 rt (utf8_encode (deviceId @ ''|'' @ int_text seq)))"
  by (auto simp: deriveLogPayloadNonce_def bind_assertion split: if_splits)

lemma encryptLogPayload_Some:
  "encryptLogPayload rt cs key deviceId seq pt = Some blob \<longleftrightarrow>
     length key = AES_256_KEY_LENGTH \<and> pt \<noteq> [] \<and>
     (\<exists>nonce. deriveLogPayloadNonce rt deviceId seq = Some nonce \<and> seal cs key nonce pt = Some blob)"
  by (auto simp: encryptLogPayload_def crypto_checks bind_eq_Some_conv split: if_splits)

lemma decodeRequired_encode:
  "bs \<noteq> [] \<Longrightarrow> decodeRequiredBase64Url (encodeBase64Url bs) = Some bs"
  by (simp add: decodeRequiredBase64Url_def b64url_text_encode)

lemma ecies_key_Some:
  "ecies_key cs seed public = Some (secret, key) \<Longrightarrow> length key = AES_256_KEY_LENGTH \<and> x25519_shared cs seed public = Some secret"
  by (auto simp: ecies_key_def crypto_checks bind_eq_Some_conv split: if_splits)

lemma ecies_key_cong: "x25519_shared cs a b = x25519_shared cs c d \<Longrightarrow> ecies_key cs a b = ecies_key cs c d"
  by (simp add: ecies_key_def)

lemma encryptEcies_SomeE:
  assumes "encryptEcies cs ephemeral public nonce pt = Some m"
  obtains epk secret key ct where "length nonce = NONCE_LENGTH" "x25519_public cs ephemeral = Some epk"
    "length epk = X25519_KEY_LENGTH" "ecies_key cs ephemeral public = Some (secret, key)"
    "aes_encrypt cs key nonce pt = Some ct" "AES_GCM_TAG_LENGTH < length ct"
    "m = \<lparr>ec_epk = encodeBase64Url epk, ec_nonce = encodeBase64Url nonce, ec_ciphertext = encodeBase64Url ct\<rparr>"
proof -
  obtain mat ct where n: "length nonce = NONCE_LENGTH"
    and mat: "deriveEciesMaterial cs ephemeral public = Some mat"
    and ct: "aes_encrypt cs (em_key mat) nonce pt = Some ct" "AES_GCM_TAG_LENGTH < length ct"
    and m: "m = \<lparr>ec_epk = encodeBase64Url (em_public mat), ec_nonce = encodeBase64Url nonce, ec_ciphertext = encodeBase64Url ct\<rparr>"
    using assms unfolding encryptEcies_def check_defs bind_eq_Some_conv assertion_Some option.inject by blast
  obtain epk sk where epk: "x25519_public cs ephemeral = Some epk" "length epk = X25519_KEY_LENGTH"
    and sk: "ecies_key cs ephemeral public = Some sk"
    and mat_eq: "mat = \<lparr>em_public = epk, em_shared = fst sk, em_key = snd sk\<rparr>"
    using mat unfolding deriveEciesMaterial_def check_defs bind_eq_Some_conv assertion_Some option.inject
    by (auto split: prod.splits)
  show ?thesis
    by (rule that [of epk "fst sk" "snd sk" ct]) (use n epk sk mat_eq ct m in simp_all)
qed

lemma isValidBase64UrlSegment_encode: "bs \<noteq> [] \<Longrightarrow> isValidBase64UrlSegment (encodeBase64Url bs)"
proof -
  have "(n * 4 + 2) div 3 mod 4 \<noteq> 1" for n :: nat by presburger
  then show "bs \<noteq> [] \<Longrightarrow> ?thesis"
    by (simp add: isValidBase64UrlSegment_def b64url_text_encode length_encodeBase64Url)
qed

definition ecies_json :: "ecies_message \<Rightarrow> json" where
  "ecies_json m = JObj [(''epk'', JStr (ec_epk m)), (''nonce'', JStr (ec_nonce m)), (''ciphertext'', JStr (ec_ciphertext m))]"

lemma assertEciesMessage_json: "assertEciesMessage (ecies_json m) = Some m"
  by (simp add: assertEciesMessage_def ecies_json_def jget_str_def)

section \<open>Concrete primitives\<close>

text \<open>
  For witnesses: a public key is its seed, the shared secret the bitwise OR of both, the derived key the
  secret itself, and a sealed text carries key and nonce behind the plaintext.
\<close>

definition toy_ciphers :: ciphers where
  "toy_ciphers = \<lparr>
     x25519_public = Some,
     x25519_shared = (\<lambda>a b. Some (map2 or a b)),
     hkdf_sha256 = (\<lambda>secret info n. Some (take n secret)),
     aes_encrypt = (\<lambda>key nonce pt. Some (pt @ key @ nonce)),
     aes_decrypt = (\<lambda>key nonce ct.
       let n = length ct - (length key + length nonce) in
       if drop n ct = key @ nonce then Some (take n ct) else None)\<rparr>"

lemma toy_opens_sealed: "opens_sealed toy_ciphers"
  by (simp add: opens_sealed_def toy_ciphers_def Let_def)

lemma map2_or_comm: "map2 or a b = map2 or b (a :: bytes)"
proof (induction a arbitrary: b)
  case (Cons x a)
  show ?case using Cons.IH by (cases b) (simp_all add: or.commute)
qed simp

lemma map2_replicate: "map2 f (replicate n x) (replicate n y) = replicate n (f x y)"
  by (induction n) simp_all

lemma funpow_or: "(or x ^^ n) y = (if n = 0 then y else or x y)" for x :: "8 word"
  by (induction n) (auto simp: or.assoc [symmetric])

lemma toy_agrees: "agrees toy_ciphers"
  by (simp add: agrees_def toy_ciphers_def map2_or_comm)

section \<open>Properties\<close>

text \<open>C38: what a device seals into its log, every holder of the content key reads back, whatever the
  sequence number; the sealed text passes the check of the log entry's data.\<close>

theorem log_payload_roundtrip:
  assumes "opens_sealed cs" "\<forall>m. length (sha256 rt m) = 32"
    and "encryptLogPayload rt cs key deviceId seq plaintext = Some blob"
  shows "decryptLogPayload cs key blob = Some plaintext \<and>
    assertEncryptedLogEntryData (Some (JStr (encodeBase64Url blob))) = Some (encodeBase64Url blob)"
proof -
  obtain nonce where n: "length key = AES_256_KEY_LENGTH" "seal cs key nonce plaintext = Some blob" "length nonce = NONCE_LENGTH"
    using assms(2,3) by (auto simp: encryptLogPayload_Some deriveLogPayloadNonce_Some NONCE_LENGTH_def)
  have long: "NONCE_LENGTH + AES_GCM_TAG_LENGTH < length blob" using n(2,3) by (auto simp: seal_Some)
  then have "isValidBase64UrlSegment (encodeBase64Url blob)"
    by (intro isValidBase64UrlSegment_encode) auto
  then show ?thesis
    using open_sealed [OF assms(1) n(2,3,1)] long
    by (simp add: assertEncryptedLogEntryData_Some NONCE_LENGTH_def AES_GCM_TAG_LENGTH_def)
qed

theorem log_payload_roundtrip_witness:
  "\<exists>blob. encryptLogPayload (sample_runtime\<lparr>sha256 := (\<lambda>m. replicate 32 7)\<rparr>) toy_ciphers (replicate 32 1) ''d'' 3 [5, 6] = Some blob \<and>
     decryptLogPayload toy_ciphers (replicate 32 1) blob = Some [5, 6]"
proof -
  let ?rt = "sample_runtime\<lparr>sha256 := (\<lambda>m. replicate 32 7)\<rparr>"
  obtain blob where b: "encryptLogPayload ?rt toy_ciphers (replicate 32 1) ''d'' 3 [5, 6] = Some blob"
    by (auto simp: encryptLogPayload_Some deriveLogPayloadNonce_Some seal_Some toy_ciphers_def key_lengths
        safe_seq_def safe_integer_def max_safe_integer_def)
  have h: "\<forall>m. length (sha256 ?rt m) = 32" by simp
  show ?thesis using log_payload_roundtrip [OF toy_opens_sealed h b] b by blast
qed

text \<open>C39: what was encrypted to a public key is decrypted by the holder of its seed, from the JSON form
  of the message.\<close>

theorem ecies_roundtrip:
  assumes "opens_sealed cs" "agrees cs"
    and "x25519_public cs seed = Some public" "length seed = 32"
    and "encryptEcies cs ephemeral public nonce plaintext = Some m"
  shows "decryptEcies cs seed (ecies_json m) = Some plaintext"
proof -
  obtain epk secret key ct where e: "length nonce = NONCE_LENGTH" "x25519_public cs ephemeral = Some epk"
      "length epk = X25519_KEY_LENGTH" "ecies_key cs ephemeral public = Some (secret, key)"
      "aes_encrypt cs key nonce plaintext = Some ct" "AES_GCM_TAG_LENGTH < length ct"
      "m = \<lparr>ec_epk = encodeBase64Url epk, ec_nonce = encodeBase64Url nonce, ec_ciphertext = encodeBase64Url ct\<rparr>"
    by (rule encryptEcies_SomeE [OF assms(5)])
  have "ecies_key cs seed epk = Some (secret, key)"
    using ecies_key_cong [of cs seed epk ephemeral public] e(4)
      assms(2) [unfolded agrees_def, rule_format, OF assms(3) e(2)] by simp
  moreover have "epk \<noteq> []" "nonce \<noteq> []" "ct \<noteq> []" using e(1,3,6) by (auto simp: key_lengths)
  ultimately show ?thesis
    using e assms(1,4)
    by (simp add: decryptEcies_def assertEciesMessage_json crypto_checks decodeRequired_encode opens_sealed_def key_lengths)
qed

theorem ecies_roundtrip_witness:
  "\<exists>m. encryptEcies toy_ciphers (replicate 32 4) (replicate 32 3) (replicate 12 9) [5, 6] = Some m \<and>
     decryptEcies toy_ciphers (replicate 32 3) (ecies_json m) = Some [5, 6]"
proof -
  have pub: "x25519_public toy_ciphers (replicate 32 3) = Some (replicate 32 3)" by (simp add: toy_ciphers_def)
  have key: "ecies_key toy_ciphers (replicate 32 4) (replicate 32 3) = Some (replicate 32 7, replicate 32 7)"
    by (simp add: ecies_key_def toy_ciphers_def crypto_checks key_lengths funpow_or map2_replicate)
  have "encryptEcies toy_ciphers (replicate 32 4) (replicate 32 3) (replicate 12 9) [5, 6] \<noteq> None"
    by (simp add: encryptEcies_def deriveEciesMaterial_def key crypto_checks) (simp add: toy_ciphers_def key_lengths)
  then obtain m where m: "encryptEcies toy_ciphers (replicate 32 4) (replicate 32 3) (replicate 12 9) [5, 6] = Some m"
    by blast
  show ?thesis using ecies_roundtrip [OF toy_opens_sealed toy_agrees pub _ m] m by auto
qed

end
