(* ===== verification/ClientSync.thy ===== *)
theory ClientSync
  imports ClientApply LogCrypto
begin

text \<open>
  The reading side of the client's coordinator, \<^verbatim>\<open>protocol/sync/log-sync-coordinator.ts\<close>: an entry
  that arrives is verified, decrypted, applied to the document and recorded (\<open>receiveLogEntry\<close>, and
  \<open>applySyncResponsePage\<close> for a page of a catch-up); entries whose key is missing wait in a buffer.
  The bookkeeping of gaps and the decision after a page follow, up to the decision to ask for the next
  page. Work between two answers from the network is one step: the store's own \<^verbatim>\<open>await\<close>s do not
  wait for anything outside.

  The engine is \<open>sv_apply\<close>: whether it takes an update after those it has taken. The key store is
  \<open>sv_key\<close>. Both may differ from call to call. A JavaScript \<^verbatim>\<open>Map\<close> is an association list in insertion
  order; the keys \<^verbatim>\<open>deviceId NUL seq\<close> are pairs.
\<close>

record sync_env =
  sv_rt :: runtime
  sv_ciphers :: ciphers
  sv_key :: "int \<Rightarrow> bytes option"
  sv_apply :: "bytes list \<Rightarrow> bytes \<Rightarrow> bool"

record coordinator =
  co_doc :: string
  co_device :: string
  co_epoch :: int
  co_store :: client_store
  co_applied :: "(string \<times> int) set"
  co_blocked :: "((string \<times> int) \<times> string) list"
  co_updates :: "bytes list"

definition new_coordinator :: "string \<Rightarrow> string \<Rightarrow> client_store \<Rightarrow> coordinator" where
  "new_coordinator docId deviceId s =
     \<lparr>co_doc = docId, co_device = deviceId, co_epoch = 0, co_store = s, co_applied = {},
      co_blocked = [], co_updates = []\<rparr>"

section \<open>Receiving an entry\<close>

datatype receive_outcome =
    EntryApplied string int
  | IdempotentSkip string int
  | EngineForeignSkip
  | BlockedByKey string int int
  | EntryRejected
  | AppliedUnrecorded log_entry

definition bufferBlockedByKey :: "string \<Rightarrow> int \<Rightarrow> string \<Rightarrow> coordinator \<Rightarrow> coordinator" where
  "bufferBlockedByKey deviceId seq jws c = c\<lparr>co_blocked := AList.update (deviceId, seq) jws (co_blocked c)\<rparr>"

definition readable :: "sync_env \<Rightarrow> log_entry \<Rightarrow> bytes option" where
  "readable v e = do {
     key \<leftarrow> sv_key v (le_generation e);
     blob \<leftarrow> decodeBase64Url (le_data e);
     decryptLogPayload (sv_ciphers v) key blob }"

definition processRemoteEntry ::
  "sync_env \<Rightarrow> (string \<Rightarrow> int \<Rightarrow> bool) \<Rightarrow> string \<Rightarrow> coordinator \<Rightarrow> receive_outcome \<times> coordinator" where
  "processRemoteEntry v isDurablyKnown jws c =
     (case verifyLogEntryJws (sv_rt v) jws of
        None \<Rightarrow> (EntryRejected, c)
      | Some e \<Rightarrow>
          if le_doc e \<noteq> co_doc c then (EntryRejected, c)
          else if (le_device e, le_seq e) \<in> co_applied c \<or> isDurablyKnown (le_device e) (le_seq e)
          then (IdempotentSkip (le_device e) (le_seq e), c)
          else (case readable v e of
              None \<Rightarrow> (BlockedByKey (le_device e) (le_seq e) (le_generation e),
                       bufferBlockedByKey (le_device e) (le_seq e) jws c)
            | Some plaintext \<Rightarrow>
                if sv_apply v (co_updates c) plaintext
                then (AppliedUnrecorded e, c\<lparr>co_updates := co_updates c @ [plaintext]\<rparr>)
                else (EngineForeignSkip, c)))"

definition markRemoteApplied :: "string \<Rightarrow> int \<Rightarrow> coordinator \<Rightarrow> coordinator" where
  "markRemoteApplied deviceId seq c =
     c\<lparr>co_applied := insert (deviceId, seq) (co_applied c),
       co_blocked := AList.delete (deviceId, seq) (co_blocked c)\<rparr>"

definition remote_of :: "log_entry \<Rightarrow> string \<Rightarrow> remote_entry" where
  "remote_of e jws = \<lparr>re_doc = le_doc e, re_device = le_device e, re_seq = le_seq e, re_jws = Some jws\<rparr>"

text \<open>\<open>receiveLogEntry\<close> on the entry of a message, and on the message.\<close>

definition receive_entry :: "sync_env \<Rightarrow> int \<Rightarrow> string \<Rightarrow> coordinator \<Rightarrow> receive_outcome \<times> coordinator" where
  "receive_entry v now jws c =
     (case processRemoteEntry v (\<lambda>dev n. getEntry (co_doc c) dev n (co_store c) \<noteq> None) jws c of
        (IdempotentSkip dev n, c') \<Rightarrow> (IdempotentSkip dev n, c'\<lparr>co_applied := insert (dev, n) (co_applied c')\<rparr>)
      | (AppliedUnrecorded e, c') \<Rightarrow>
          (EntryApplied (le_device e) (le_seq e),
           markRemoteApplied (le_device e) (le_seq e)
             (c'\<lparr>co_store := recordRemoteApplied (remote_of e jws) now (co_store c')\<rparr>))
      | r \<Rightarrow> r)"

definition receiveLogEntry :: "sync_env \<Rightarrow> int \<Rightarrow> json \<Rightarrow> coordinator \<Rightarrow> receive_outcome \<times> coordinator" where
  "receiveLogEntry v now message c =
     (if \<not> assertLogEntryMessage (sv_rt v) message then (EntryRejected, c)
      else case Option.bind (jget ''body'' message) (jget_str ''entry'') of
          None \<Rightarrow> (EntryRejected, c)
        | Some jws \<Rightarrow> receive_entry v now jws c)"

text \<open>The head of some freshly applied entry's device is behind that entry: there is a hole.\<close>

definition maybeTriggerLiveGapCatchUp :: "(string \<times> int) list \<Rightarrow> coordinator \<Rightarrow> bool" where
  "maybeTriggerLiveGapCatchUp es c =
     (let strict = getStrictContiguousHeads (co_doc c) (co_store c) in
      list_ex (\<lambda>(dev, n). head_of strict dev < n) es)"

text \<open>
  The replay goes through a copy of the buffer. The second component counts the entries that
  converged; the third is whether one of them landed above a hole.
\<close>

fun replay_entries ::
  "sync_env \<Rightarrow> int \<Rightarrow> ((string \<times> int) \<times> string) list \<Rightarrow> coordinator \<Rightarrow> coordinator \<times> nat \<times> bool" where
  "replay_entries v now [] c = (c, 0, False)"
| "replay_entries v now ((k, jws) # rest) c =
     (case receive_entry v now jws c of
        (EntryApplied dev n, c1) \<Rightarrow>
          (let (c2, m, t) = replay_entries v now rest (c1\<lparr>co_blocked := AList.delete k (co_blocked c1)\<rparr>)
           in (c2, m + 1, t \<or> maybeTriggerLiveGapCatchUp [(dev, n)] c1))
      | (IdempotentSkip dev n, c1) \<Rightarrow>
          (let (c2, m, t) = replay_entries v now rest (c1\<lparr>co_blocked := AList.delete k (co_blocked c1)\<rparr>)
           in (c2, m + 1, t))
      | (_, c1) \<Rightarrow> replay_entries v now rest c1)"

definition replayBlockedByKey :: "sync_env \<Rightarrow> int \<Rightarrow> coordinator \<Rightarrow> coordinator \<times> nat \<times> bool" where
  "replayBlockedByKey v now c = replay_entries v now (co_blocked c) c"

section \<open>A page of entries\<close>

definition claimLogEntryKey :: "runtime \<Rightarrow> string \<Rightarrow> (string \<times> string \<times> int) option" where
  "claimLogEntryKey rt jws =
     (case split_on CHR ''.'' jws of
        [h, p, s] \<Rightarrow> do {
          claim \<leftarrow> Option.bind (decodeBase64Url p) (json_parse rt);
          doc \<leftarrow> jget_str ''docId'' claim;
          dev \<leftarrow> jget_str ''deviceId'' claim;
          n \<leftarrow> jget_int ''seq'' claim;
          Some (doc, dev, n) }
      | _ \<Rightarrow> None)"

text \<open>The keys to look up: those claimed for this document and not known to be applied, once each.\<close>

definition batch_keys :: "runtime \<Rightarrow> string list \<Rightarrow> coordinator \<Rightarrow> (string \<times> int) list" where
  "batch_keys rt es c =
     js_set (map snd (filter (\<lambda>(doc, k). doc = co_doc c \<and> k \<notin> co_applied c)
       (List.map_filter (claimLogEntryKey rt) es)))"

record page_work =
  pw_co :: coordinator
  pw_persist :: "(log_entry \<times> string) list"
  pw_skips :: nat
  pw_buffered :: nat
  pw_lowest :: heads
  pw_highest :: heads

definition note_seq :: "(int \<Rightarrow> int \<Rightarrow> bool) \<Rightarrow> string \<Rightarrow> int \<Rightarrow> heads \<Rightarrow> heads" where
  "note_seq better dev n hs =
     (case map_of hs dev of
        None \<Rightarrow> hs @ [(dev, n)]
      | Some m \<Rightarrow> if better n m then AList.update dev n hs else hs)"

definition noteSeq :: "string \<Rightarrow> int \<Rightarrow> page_work \<Rightarrow> page_work" where
  "noteSeq dev n w = w\<lparr>pw_lowest := note_seq (<) dev n (pw_lowest w), pw_highest := note_seq (>) dev n (pw_highest w)\<rparr>"

definition pending_key :: "page_work \<Rightarrow> string \<Rightarrow> int \<Rightarrow> bool" where
  "pending_key w dev n \<longleftrightarrow> list_ex (\<lambda>(e, _). le_device e = dev \<and> le_seq e = n) (pw_persist w)"

definition page_entry :: "sync_env \<Rightarrow> (string \<times> int) list \<Rightarrow> string \<Rightarrow> page_work \<Rightarrow> page_work" where
  "page_entry v durablyKnown jws w =
     (case processRemoteEntry v (\<lambda>dev n. (dev, n) \<in> set durablyKnown \<or> pending_key w dev n) jws (pw_co w) of
        (AppliedUnrecorded e, c) \<Rightarrow>
          noteSeq (le_device e) (le_seq e) (w\<lparr>pw_co := c, pw_persist := pw_persist w @ [(e, jws)]\<rparr>)
      | (IdempotentSkip dev n, c) \<Rightarrow>
          noteSeq dev n (w\<lparr>pw_co := (if (dev, n) \<in> set durablyKnown
                                    then c\<lparr>co_applied := insert (dev, n) (co_applied c)\<rparr> else c),
                           pw_skips := pw_skips w + 1\<rparr>)
      | (BlockedByKey dev n g, c) \<Rightarrow> noteSeq dev n (w\<lparr>pw_co := c, pw_buffered := pw_buffered w + 1\<rparr>)
      | (_, c) \<Rightarrow> w\<lparr>pw_co := c\<rparr>)"

definition page_start :: "coordinator \<Rightarrow> page_work" where
  "page_start c = \<lparr>pw_co = c, pw_persist = [], pw_skips = 0, pw_buffered = 0, pw_lowest = [], pw_highest = []\<rparr>"

definition page_computed :: "sync_env \<Rightarrow> string list \<Rightarrow> coordinator \<Rightarrow> page_work" where
  "page_computed v es c =
     fold (page_entry v (hasEntriesBatch (co_doc c) (batch_keys (sv_rt v) es c) (co_store c)))
       es (page_start c)"

text \<open>The write of the batch, and the marks after it.\<close>

definition page_recorded :: "int \<Rightarrow> page_work \<Rightarrow> coordinator" where
  "page_recorded now w =
     (let c = pw_co w in
      fold (\<lambda>(e, _). markRemoteApplied (le_device e) (le_seq e)) (pw_persist w)
        (c\<lparr>co_store := recordRemoteAppliedBatch
             (map (\<lambda>(e, jws). ((remote_of e jws)\<lparr>re_doc := co_doc c\<rparr>, now)) (pw_persist w)) (co_store c)\<rparr>))"

definition applySyncResponsePage :: "sync_env \<Rightarrow> int \<Rightarrow> string list \<Rightarrow> coordinator \<Rightarrow> page_work \<times> coordinator" where
  "applySyncResponsePage v now es c =
     (let w = page_computed v es c in (w, page_recorded now w))"

end
