(* ===== verification/ClientPages.thy ===== *)
theory ClientPages
  imports ClientSync
begin

text \<open>
  Facts about the coordinator's reading side: the claims that build the look-up of a page, what a page
  leaves alone, and that a page does what receiving its entries one by one does.
\<close>

section \<open>Document ids and claims\<close>

lemma matches_no_nul: "matches ps s \<Longrightarrow> list_all (\<lambda>p. \<not> p (CHR 0x00)) ps \<Longrightarrow> CHR 0x00 \<notin> set s"
  by (induction ps s rule: matches.induct) auto

lemma uuid_no_nul: "isCanonicalUuidV4 s \<Longrightarrow> CHR 0x00 \<notin> set s"
  unfolding isCanonicalUuidV4_def by (erule matches_no_nul) code_simp

lemma verified_payload:
  assumes "verifyLogEntryJws rt jws = Some e"
  obtains d where "decodeJws rt jws = Some d" "assertLogEntryPayload (jws_payload d) = Some e"
  using assms by (auto simp: verifyLogEntryJws_def bind_eq_Some_conv split: if_splits)

lemma verified_entry_ok: "verifyLogEntryJws rt jws = Some e \<Longrightarrow> log_entry_ok e"
  by (elim verified_payload) (rule assertLogEntryPayload_ok)

lemma verified_doc_plain: "verifyLogEntryJws rt jws = Some e \<Longrightarrow> CHR 0x00 \<notin> set (le_doc e)"
  by (drule verified_entry_ok) (simp add: log_entry_ok_def uuid_no_nul)

lemma claim_of_verified:
  assumes "verifyLogEntryJws rt jws = Some e"
  shows "claimLogEntryKey rt jws = Some (le_doc e, le_device e, le_seq e)"
proof -
  obtain d where d: "decodeJws rt jws = Some d" "assertLogEntryPayload (jws_payload d) = Some e"
    using assms by (rule verified_payload)
  obtain h p s where seg: "split_on CHR ''.'' jws = [h, p, s]"
    and p: "Option.bind (decodeBase64Url p) (json_parse rt) = Some (jws_payload d)"
    using d(1) by (auto simp: decodeJws_def bind_eq_Some_conv split: list.splits if_splits)
  obtain pb where pb: "decodeBase64Url p = Some pb" "json_parse rt pb = Some (jws_payload d)"
    using p by (auto simp: bind_eq_Some_conv)
  have "jget_str ''docId'' (jws_payload d) = Some (le_doc e)" "jget_str ''deviceId'' (jws_payload d) = Some (le_device e)"
    "jget_int ''seq'' (jws_payload d) = Some (le_seq e)"
    using d(2)
    by (auto simp: assertLogEntryPayload_def bind_eq_Some_conv uuid_str_Some nonneg_integer_Some jget_str_def jget_int_def
        split: if_splits)
  then show ?thesis by (simp add: claimLogEntryKey_def seg pb)
qed

section \<open>Reading an entry\<close>

lemma getEntry_after_record:
  assumes "CHR 0x00 \<notin> set docId" "re_doc r = docId"
  shows "getEntry docId dev n (recordRemoteApplied r now s) \<noteq> None \<longleftrightarrow>
     getEntry docId dev n s \<noteq> None \<or> (re_device r = dev \<and> re_seq r = n)"
proof -
  have key: "log_entry_key docId (re_device r) (re_seq r) = log_entry_key docId dev n \<longleftrightarrow> re_device r = dev \<and> re_seq r = n"
    using assms(1) by (simp add: log_entry_key_inj)
  show ?thesis
    using key assms(2)
    by (auto simp: recordRemoteApplied_def getEntry_def ce_key_def split: option.splits if_splits)
qed

lemma getEntry_after_batch:
  assumes "CHR 0x00 \<notin> set docId" "\<forall>(r, t) \<in> set rs. re_doc r = docId"
  shows "getEntry docId dev n (recordRemoteAppliedBatch rs s) \<noteq> None \<longleftrightarrow>
     getEntry docId dev n s \<noteq> None \<or> (\<exists>(r, t) \<in> set rs. re_device r = dev \<and> re_seq r = n)"
  using assms(2)
proof (induction rs arbitrary: s)
  case (Cons p rs)
  obtain r t where p: "p = (r, t)" by (cases p)
  show ?case
    using Cons.IH [of "recordRemoteApplied r t s"] Cons.prems getEntry_after_record [OF assms(1), of r dev n t s]
    by (auto simp: p recordRemoteAppliedBatch_def)
qed (simp add: recordRemoteAppliedBatch_def)

lemma processRemoteEntry_frame:
  "processRemoteEntry v known jws c = (r, c') \<Longrightarrow>
     co_doc c' = co_doc c \<and> co_device c' = co_device c \<and> co_epoch c' = co_epoch c \<and> co_store c' = co_store c \<and>
     co_applied c' = co_applied c"
  by (auto simp: processRemoteEntry_def bufferBlockedByKey_def split: option.splits if_splits)

text \<open>Only what was known before decides, and the buffer matters only where it is written.\<close>

lemma processRemoteEntry_cong:
  assumes "co_doc c' = co_doc c" "co_updates c' = co_updates c"
    and "\<And>e. verifyLogEntryJws (sv_rt v) jws = Some e \<Longrightarrow> le_doc e = co_doc c \<Longrightarrow>
      (le_device e, le_seq e) \<in> co_applied c' \<or> known' (le_device e) (le_seq e) \<longleftrightarrow>
      (le_device e, le_seq e) \<in> co_applied c \<or> known (le_device e) (le_seq e)"
  shows "fst (processRemoteEntry v known' jws c') = fst (processRemoteEntry v known jws c)"
  using assms by (auto simp: processRemoteEntry_def split: option.splits)

section \<open>A page of entries\<close>

definition entry_keys :: "(log_entry \<times> string) list \<Rightarrow> (string \<times> int) set" where
  "entry_keys es = (\<lambda>(e, _). (le_device e, le_seq e)) ` set es"

abbreviation page_keys :: "page_work \<Rightarrow> (string \<times> int) set" where
  "page_keys w \<equiv> entry_keys (pw_persist w)"

lemma entry_keys_simps [simp]:
  "entry_keys [] = {}" "entry_keys ((e, jws) # es) = insert (le_device e, le_seq e) (entry_keys es)"
  "entry_keys (es @ fs) = entry_keys es \<union> entry_keys fs"
  by (auto simp: entry_keys_def)

lemma pending_key_iff: "pending_key w dev n \<longleftrightarrow> (dev, n) \<in> page_keys w"
  by (force simp: pending_key_def entry_keys_def list_ex_iff)

text \<open>The buffer without some keys.\<close>

definition without :: "(string \<times> int) set \<Rightarrow> ((string \<times> int) \<times> string) list \<Rightarrow> ((string \<times> int) \<times> string) list" where
  "without K xs = filter (\<lambda>p. fst p \<notin> K) xs"

lemma without_empty [simp]: "without {} xs = xs"
  by (simp add: without_def)

lemma without_without: "without K (without L xs) = without (K \<union> L) xs"
  by (auto simp: without_def intro: filter_cong)

lemma delete_without: "AList.delete k xs = without {k} xs"
  by (auto simp: without_def AList.delete_eq case_prod_unfold intro!: filter_cong)

lemma without_update: "k \<notin> K \<Longrightarrow> without K (AList.update k v xs) = AList.update k v (without K xs)"
  by (induction xs) (auto simp: without_def)

lemma fold_markRemoteApplied:
  "fold (\<lambda>(e, _). markRemoteApplied (le_device e) (le_seq e)) es c =
     c\<lparr>co_applied := co_applied c \<union> entry_keys es, co_blocked := without (entry_keys es) (co_blocked c)\<rparr>"
proof (induction es arbitrary: c)
  case (Cons p es)
  obtain e jws where p: "p = (e, jws)" by (cases p)
  show ?case
    using Cons.IH [of "markRemoteApplied (le_device e) (le_seq e) c"]
    by (simp add: p markRemoteApplied_def delete_without without_without)
qed simp

definition page_batch :: "int \<Rightarrow> page_work \<Rightarrow> (remote_entry \<times> int) list" where
  "page_batch now w = map (\<lambda>(e, jws). ((remote_of e jws)\<lparr>re_doc := co_doc (pw_co w)\<rparr>, now)) (pw_persist w)"

lemma page_recorded_eq:
  "page_recorded now w = (pw_co w)\<lparr>
     co_store := recordRemoteAppliedBatch (page_batch now w) (co_store (pw_co w)),
     co_applied := co_applied (pw_co w) \<union> page_keys w,
     co_blocked := without (page_keys w) (co_blocked (pw_co w))\<rparr>"
  by (simp add: page_recorded_def Let_def fold_markRemoteApplied page_batch_def)

definition outcome_effect :: "sync_env \<Rightarrow> string \<Rightarrow> receive_outcome \<Rightarrow> coordinator \<Rightarrow> coordinator" where
  "outcome_effect v jws r c =
     (case r of
        BlockedByKey dev n g \<Rightarrow> bufferBlockedByKey dev n jws c
      | AppliedUnrecorded e \<Rightarrow> c\<lparr>co_updates := co_updates c @ [the (readable v e)]\<rparr>
      | _ \<Rightarrow> c)"

lemma processRemoteEntry_effect:
  "snd (processRemoteEntry v known jws c) = outcome_effect v jws (fst (processRemoteEntry v known jws c)) c"
  by (auto simp: processRemoteEntry_def outcome_effect_def split: option.splits)

lemma processRemoteEntry_outcome:
  assumes "fst (processRemoteEntry v known jws c) = r"
  shows "r = AppliedUnrecorded e \<Longrightarrow> verifyLogEntryJws (sv_rt v) jws = Some e \<and> le_doc e = co_doc c \<and>
           (le_device e, le_seq e) \<notin> co_applied c \<and> \<not> known (le_device e) (le_seq e) \<and> readable v e \<noteq> None"
    and "r = IdempotentSkip dev n \<Longrightarrow> \<exists>e. verifyLogEntryJws (sv_rt v) jws = Some e \<and> le_doc e = co_doc c \<and>
           le_device e = dev \<and> le_seq e = n \<and> ((dev, n) \<in> co_applied c \<or> known dev n)"
    and "r = BlockedByKey dev n g \<Longrightarrow> \<exists>e. verifyLogEntryJws (sv_rt v) jws = Some e \<and> le_doc e = co_doc c \<and>
           le_device e = dev \<and> le_seq e = n \<and> (dev, n) \<notin> co_applied c \<and> \<not> known dev n \<and> readable v e = None"
    and "r \<noteq> EntryApplied dev n"
  using assms by (auto simp: processRemoteEntry_def split: option.splits if_splits)

text \<open>What the look-up must tell for the entries of the page, and what holds while they are read.\<close>

definition lookup_ok :: "sync_env \<Rightarrow> coordinator \<Rightarrow> (string \<times> int) list \<Rightarrow> string \<Rightarrow> bool" where
  "lookup_ok v c D jws \<longleftrightarrow> (\<forall>e. verifyLogEntryJws (sv_rt v) jws = Some e \<longrightarrow> le_doc e = co_doc c \<longrightarrow>
     (le_device e, le_seq e) \<notin> co_applied c \<longrightarrow>
     ((le_device e, le_seq e) \<in> set D \<longleftrightarrow> getEntry (co_doc c) (le_device e) (le_seq e) (co_store c) \<noteq> None))"

definition page_inv :: "coordinator \<Rightarrow> (string \<times> int) list \<Rightarrow> page_work \<Rightarrow> bool" where
  "page_inv c D w \<longleftrightarrow> co_doc (pw_co w) = co_doc c \<and> co_device (pw_co w) = co_device c \<and>
     co_epoch (pw_co w) = co_epoch c \<and> co_store (pw_co w) = co_store c \<and>
     co_applied c \<subseteq> co_applied (pw_co w) \<and> co_applied (pw_co w) \<subseteq> co_applied c \<union> set D \<and>
     (\<forall>(e, jws) \<in> set (pw_persist w). le_doc e = co_doc c)"

lemma noteSeq_simps [simp]:
  "pw_co (noteSeq dev n w) = pw_co w" "pw_persist (noteSeq dev n w) = pw_persist w"
  "pw_skips (noteSeq dev n w) = pw_skips w" "pw_buffered (noteSeq dev n w) = pw_buffered w"
  by (simp_all add: noteSeq_def)

lemma page_entry_inv: "page_inv c D w \<Longrightarrow> page_inv c D (page_entry v D jws w)"
proof -
  assume inv: "page_inv c D w"
  let ?known = "\<lambda>dev n. (dev, n) \<in> set D \<or> pending_key w dev n"
  obtain r c' where p: "processRemoteEntry v ?known jws (pw_co w) = (r, c')" by fastforce
  have frame: "co_doc c' = co_doc (pw_co w)" "co_device c' = co_device (pw_co w)" "co_epoch c' = co_epoch (pw_co w)"
      "co_store c' = co_store (pw_co w)" "co_applied c' = co_applied (pw_co w)"
    using processRemoteEntry_frame [OF p] by auto
  have r: "fst (processRemoteEntry v ?known jws (pw_co w)) = r" by (simp add: p)
  show ?thesis
    using inv frame processRemoteEntry_outcome(1) [OF r]
    by (cases r) (auto simp: page_entry_def p page_inv_def)
qed

lemma page_recorded_fields:
  "co_doc (page_recorded now w) = co_doc (pw_co w)" "co_updates (page_recorded now w) = co_updates (pw_co w)"
  "co_applied (page_recorded now w) = co_applied (pw_co w) \<union> page_keys w"
  "co_store (page_recorded now w) = recordRemoteAppliedBatch (page_batch now w) (co_store (pw_co w))"
  by (simp_all add: page_recorded_eq)

lemma getEntry_page_recorded:
  assumes "CHR 0x00 \<notin> set (co_doc (pw_co w))"
  shows "getEntry (co_doc (pw_co w)) dev n (co_store (page_recorded now w)) \<noteq> None \<longleftrightarrow>
     getEntry (co_doc (pw_co w)) dev n (co_store (pw_co w)) \<noteq> None \<or> (dev, n) \<in> page_keys w"
proof -
  have "\<forall>(r, t) \<in> set (page_batch now w). re_doc r = co_doc (pw_co w)"
    by (auto simp: page_batch_def)
  moreover have "(\<exists>(r, t) \<in> set (page_batch now w). re_device r = dev \<and> re_seq r = n) \<longleftrightarrow> (dev, n) \<in> page_keys w"
    by (force simp: page_batch_def entry_keys_def remote_of_def)
  ultimately show ?thesis
    using getEntry_after_batch [OF assms] by (simp only: page_recorded_fields)
qed

lemma page_entry_receives:
  assumes inv: "page_inv c D w" and look: "lookup_ok v c D jws"
  shows "page_recorded now (page_entry v D jws w) = snd (receive_entry v now jws (page_recorded now w))"
proof -
  let ?R = "page_recorded now w"
  let ?known = "\<lambda>dev n. (dev, n) \<in> set D \<or> pending_key w dev n"
  let ?live = "\<lambda>dev n. getEntry (co_doc ?R) dev n (co_store ?R) \<noteq> None"
  have same: "fst (processRemoteEntry v ?live jws ?R) = fst (processRemoteEntry v ?known jws (pw_co w))"
  proof (rule processRemoteEntry_cong)
    fix e assume e: "verifyLogEntryJws (sv_rt v) jws = Some e" "le_doc e = co_doc (pw_co w)"
    let ?k = "(le_device e, le_seq e)"
    have plain: "CHR 0x00 \<notin> set (co_doc (pw_co w))" using verified_doc_plain [OF e(1)] e(2) by simp
    have "?k \<in> co_applied c \<or> (?k \<in> set D \<longleftrightarrow> getEntry (co_doc c) (le_device e) (le_seq e) (co_store c) \<noteq> None)"
      using look e inv by (auto simp: lookup_ok_def page_inv_def)
    then show "?k \<in> co_applied ?R \<or> ?live (le_device e) (le_seq e) \<longleftrightarrow>
        ?k \<in> co_applied (pw_co w) \<or> ?known (le_device e) (le_seq e)"
      using inv getEntry_page_recorded [OF plain, of "le_device e" "le_seq e" now]
      unfolding page_inv_def page_recorded_fields pending_key_iff by auto
  qed (simp_all add: page_recorded_fields)
  obtain r where r: "fst (processRemoteEntry v ?known jws (pw_co w)) = r" by simp
  have pw: "processRemoteEntry v ?known jws (pw_co w) = (r, outcome_effect v jws r (pw_co w))"
    by (simp only: prod_eq_iff fst_conv snd_conv r processRemoteEntry_effect [of v ?known])
  have pR: "processRemoteEntry v ?live jws ?R = (r, outcome_effect v jws r ?R)"
    by (simp only: prod_eq_iff fst_conv snd_conv same r processRemoteEntry_effect [of v ?live])
  note out = processRemoteEntry_outcome [OF r]
  note left = page_entry_def [of v D jws w, unfolded pw]
  note right = receive_entry_def [of v now jws ?R, unfolded pR]
  show ?thesis
  proof (cases r)
    case (IdempotentSkip dev n)
    then have "(dev, n) \<in> co_applied (pw_co w) \<or> (dev, n) \<in> set D \<or> (dev, n) \<in> page_keys w"
      using out(2) by (auto simp: pending_key_iff)
    then show ?thesis
      unfolding left right IdempotentSkip
      by (auto simp: outcome_effect_def page_recorded_eq page_batch_def insert_absorb)
  next
    case (BlockedByKey dev n g)
    then have "(dev, n) \<notin> page_keys w" using out(3) by (auto simp: pending_key_iff)
    then show ?thesis
      unfolding left right BlockedByKey
      by (simp add: outcome_effect_def page_recorded_eq page_batch_def bufferBlockedByKey_def without_update)
  next
    case (AppliedUnrecorded e)
    then have "le_doc e = co_doc (pw_co w)" using out(1) by simp
    then have "(remote_of e jws)\<lparr>re_doc := co_doc (pw_co w)\<rparr> = remote_of e jws" by (simp add: remote_of_def)
    then show ?thesis
      unfolding left right AppliedUnrecorded
      by (simp add: outcome_effect_def page_recorded_eq page_batch_def
          markRemoteApplied_def recordRemoteAppliedBatch_def delete_without without_without)
  next
    case (EntryApplied dev n)
    then show ?thesis using out(4) by blast
  next
    case EngineForeignSkip
    then show ?thesis unfolding left right by (simp add: outcome_effect_def page_recorded_eq page_batch_def)
  next
    case EntryRejected
    then show ?thesis unfolding left right by (simp add: outcome_effect_def page_recorded_eq page_batch_def)
  qed
qed

lemma set_map_filter: "set (List.map_filter f xs) = {y. \<exists>x \<in> set xs. f x = Some y}"
  by (induction xs) (auto simp: List.map_filter_simps split: option.splits)

lemma lookup_batch:
  assumes "jws \<in> set es"
  shows "lookup_ok v c (hasEntriesBatch (co_doc c) (batch_keys (sv_rt v) es c) (co_store c)) jws"
  unfolding lookup_ok_def
proof (intro allI impI)
  fix e assume e: "verifyLogEntryJws (sv_rt v) jws = Some e" "le_doc e = co_doc c" "(le_device e, le_seq e) \<notin> co_applied c"
  have "(co_doc c, le_device e, le_seq e) \<in> set (List.map_filter (claimLogEntryKey (sv_rt v)) es)"
    using claim_of_verified [OF e(1)] assms e(2) by (auto simp: set_map_filter)
  then have "(le_device e, le_seq e) \<in> set (batch_keys (sv_rt v) es c)"
    using e(3) by (force simp: batch_keys_def)
  then show "(le_device e, le_seq e) \<in> set (hasEntriesBatch (co_doc c) (batch_keys (sv_rt v) es c) (co_store c)) \<longleftrightarrow>
      getEntry (co_doc c) (le_device e) (le_seq e) (co_store c) \<noteq> None"
    by (simp add: hasEntriesBatch_def)
qed

definition receive_all :: "sync_env \<Rightarrow> int \<Rightarrow> string list \<Rightarrow> coordinator \<Rightarrow> coordinator" where
  "receive_all v now es c = fold (\<lambda>jws c. snd (receive_entry v now jws c)) es c"

lemma page_fold_receives:
  assumes "page_inv c D w" "\<forall>jws \<in> set es. lookup_ok v c D jws"
  shows "page_recorded now (fold (page_entry v D) es w) = receive_all v now es (page_recorded now w)"
  using assms
proof (induction es arbitrary: w)
  case (Cons jws es)
  then show ?case
    using page_entry_receives [of c D w v jws now] page_entry_inv [of c D w v jws] by (simp add: receive_all_def)
qed (simp add: receive_all_def)

lemma page_start_inv: "page_inv c D (page_start c)"
  by (simp add: page_inv_def page_start_def)

lemma page_recorded_start: "page_recorded now (page_start c) = c"
  by (simp add: page_recorded_eq page_start_def page_batch_def recordRemoteAppliedBatch_def)

lemma page_receives_all:
  "snd (applySyncResponsePage v now es c) = receive_all v now es c"
proof -
  let ?D = "hasEntriesBatch (co_doc c) (batch_keys (sv_rt v) es c) (co_store c)"
  have "page_recorded now (fold (page_entry v ?D) es (page_start c)) = receive_all v now es (page_recorded now (page_start c))"
    by (rule page_fold_receives [where c = c]) (auto simp: page_start_inv intro: lookup_batch)
  then show ?thesis
    by (simp add: applySyncResponsePage_def page_computed_def Let_def page_recorded_start)
qed

section \<open>What a page leaves alone\<close>

lemma receive_entry_frame:
  "co_doc (snd (receive_entry v now jws c)) = co_doc c \<and> co_epoch (snd (receive_entry v now jws c)) = co_epoch c \<and>
   co_device (snd (receive_entry v now jws c)) = co_device c"
proof -
  let ?known = "\<lambda>dev n. getEntry (co_doc c) dev n (co_store c) \<noteq> None"
  obtain r c' where p: "processRemoteEntry v ?known jws c = (r, c')" by fastforce
  show ?thesis
    using processRemoteEntry_frame [OF p] unfolding receive_entry_def p by (cases r) (simp_all add: markRemoteApplied_def)
qed

lemma receive_all_frame:
  "co_doc (receive_all v now es c) = co_doc c \<and> co_epoch (receive_all v now es c) = co_epoch c \<and>
   co_device (receive_all v now es c) = co_device c"
proof (induction es arbitrary: c)
  case (Cons jws es)
  then show ?case using receive_entry_frame [of v now jws c] by (simp add: receive_all_def)
qed (simp add: receive_all_def)

lemma page_frame:
  "applySyncResponsePage v now es c = (p, c') \<Longrightarrow> co_doc c' = co_doc c \<and> co_epoch c' = co_epoch c \<and> co_device c' = co_device c"
  using receive_all_frame [of v now es c] page_receives_all [of v now es c] by simp

section \<open>The property\<close>

text \<open>C12: applying a page of a sync response in one batch (one look-up of what is stored, one write at the
  end) leaves the coordinator exactly as receiving its entries one after the other does: store, marks,
  buffered entries and document, whatever the entries are, duplicates and forged ones included.\<close>

theorem page_is_entry_by_entry:
  "snd (applySyncResponsePage v now es c) = fold (\<lambda>jws c. snd (receive_entry v now jws c)) es c"
  using page_receives_all by (simp add: receive_all_def)

end
