(* ===== verification/ClientCatchUp.thy ===== *)
theory ClientCatchUp
  imports ClientPages ClientReject
begin

text \<open>
  Catching up, \<^verbatim>\<open>protocol/sync/log-sync-coordinator.ts\<close>: what a page of a catch-up means for the gap
  records and for going on, the repair of recorded gaps, and the runs that do this over the network.

  A run (\<open>catchUp\<close>, or the first publication of a document on a connection) is its program counter
  \<open>sync_pc\<close>: what it waits for from outside, a page, the receipt of a control frame or the device that
  the adapter's handler minted, with the local variables it still needs. Runs of an old connection may
  still wait when a new one is up, so there is a list of them; they share the coordinator's fields.
\<close>

definition DEFAULT_CATCH_UP_PAGE_SIZE :: int where "DEFAULT_CATCH_UP_PAGE_SIZE = 100"
definition GAP_SOFT_SKIP_MIN_EPOCHS :: nat where "GAP_SOFT_SKIP_MIN_EPOCHS = 3"
definition GAP_SOFT_SKIP_MIN_AGE_MS :: int where "GAP_SOFT_SKIP_MIN_AGE_MS = 60000"
definition GAP_REPAIR_BASE_BACKOFF_MS :: int where "GAP_REPAIR_BASE_BACKOFF_MS = 5000"
definition GAP_REPAIR_MAX_BACKOFF_MS :: int where "GAP_REPAIR_MAX_BACKOFF_MS = 300000"
definition GAP_REPAIR_MAX_PAGES :: nat where "GAP_REPAIR_MAX_PAGES = 50"

section \<open>Requests\<close>

definition page_limit :: "int option \<Rightarrow> int" where
  "page_limit configured = (case configured of None \<Rightarrow> DEFAULT_CATCH_UP_PAGE_SIZE
     | Some n \<Rightarrow> if n > 0 then n else DEFAULT_CATCH_UP_PAGE_SIZE)"

definition requestSyncPage :: "string \<Rightarrow> int option \<Rightarrow> heads \<Rightarrow> sync_request" where
  "requestSyncPage docId configured localHeads =
     \<lparr>sq_doc = docId, sq_heads = filter (\<lambda>(dev, n). n \<ge> 0) localHeads, sq_limit = Some (page_limit configured)\<rparr>"

section \<open>Gaps\<close>

definition openGaps :: "coordinator \<Rightarrow> (string \<times> int) list" where
  "openGaps c =
     (let wire = getSyncRequestHeads (co_doc c) (co_store c) in
      map (\<lambda>(dev, maxSeq). (dev, head_of wire dev + 1))
        (filter (\<lambda>(dev, maxSeq). head_of wire dev < maxSeq) (getKnownHeads (co_doc c) (co_store c))))"

definition maybeSoftSkipGap :: "string \<Rightarrow> string \<Rightarrow> int \<Rightarrow> int \<Rightarrow> client_store \<Rightarrow> client_store" where
  "maybeSoftSkipGap docId device firstMissing now s =
     (case find (\<lambda>g. gr_doc g = docId \<and> gr_device g = device \<and> gr_missing g = firstMissing)
             (listDueGapRepairs max_safe_integer s) of
        None \<Rightarrow> s
      | Some g \<Rightarrow>
          if gr_soft g then s
          else if length (gr_epochs g) < GAP_SOFT_SKIP_MIN_EPOCHS then s
          else if now - gr_first_seen g < GAP_SOFT_SKIP_MIN_AGE_MS then s
          else markGapSoftSkipped docId device firstMissing s)"

definition gap_from_page ::
  "string \<Rightarrow> heads \<Rightarrow> heads \<Rightarrow> heads \<Rightarrow> int \<Rightarrow> int \<Rightarrow> string \<times> int \<Rightarrow> client_store \<Rightarrow> client_store" where
  "gap_from_page docId known lowest cursor epoch now b s =
     (let (device, brokerMax) = b; cursorHead = head_of cursor device; firstMissing = cursorHead + 1 in
      if map_of known device = None then s
      else if cursorHead \<ge> brokerMax then s
      else (case map_of lowest device of
          None \<Rightarrow> s
        | Some pageLowest \<Rightarrow>
            if pageLowest \<le> firstMissing then s
            else maybeSoftSkipGap docId device firstMissing now
              (recordGapObservation docId device firstMissing brokerMax epoch now s)))"

definition recordGapsFromPage :: "heads \<Rightarrow> heads \<Rightarrow> heads \<Rightarrow> int \<Rightarrow> coordinator \<Rightarrow> coordinator" where
  "recordGapsFromPage brokerHeads lowest cursor now c =
     c\<lparr>co_store := fold (gap_from_page (co_doc c) (getKnownHeads (co_doc c) (co_store c)) lowest cursor (co_epoch c) now)
         brokerHeads (co_store c)\<rparr>"

section \<open>After a page\<close>

datatype incomplete_reason = GapPending | KeyMissing | TimedOut

text \<open>\<open>cr_incomplete\<close> is \<open>None\<close> for \<^verbatim>\<open>complete: true\<close>.\<close>

record catch_up_result =
  cr_restore :: bool
  cr_incomplete :: "incomplete_reason option"
  cr_gaps :: "(string \<times> int) list"

definition headsAdvanced :: "heads \<Rightarrow> heads \<Rightarrow> bool" where
  "headsAdvanced before_heads after_heads \<longleftrightarrow> list_ex (\<lambda>(dev, n). n > head_of before_heads dev) after_heads"

text \<open>\<open>None\<close> when the comparison throws on a number that is not safe.\<close>

definition computeRestoreDisposition :: "heads \<Rightarrow> coordinator \<Rightarrow> bool option" where
  "computeRestoreDisposition brokerHeads c =
     (let brokerSeq = head_of brokerHeads (co_device c);
          localSeq = head_of (getKnownHeads (co_doc c) (co_store c)) (co_device c) in
      if brokerSeq < 0 then Some False
      else if localSeq < 0 then Some True
      else (case classifyLocalBrokerSeqConsistency localSeq brokerSeq of
          Inl _ \<Rightarrow> None
        | Inr d \<Rightarrow> Some (d = RestoreCloneRequired)))"

datatype page_next = NextPage | PageDone catch_up_result | PageThrows

definition page_verdict :: "bool \<Rightarrow> page_work \<Rightarrow> bool \<Rightarrow> bool \<Rightarrow> bool \<Rightarrow> coordinator \<Rightarrow> page_next" where
  "page_verdict restore w truncated strictAdvanced cursorAdvanced c =
     (if \<not> truncated then PageDone \<lparr>cr_restore = restore, cr_incomplete = None, cr_gaps = openGaps c\<rparr>
      else if strictAdvanced \<or> cursorAdvanced then NextPage
      else if length (pw_persist w) + pw_skips w > 0
      then PageDone \<lparr>cr_restore = restore, cr_incomplete = Some GapPending, cr_gaps = openGaps c\<rparr>
      else if pw_buffered w > 0
      then PageDone \<lparr>cr_restore = restore, cr_incomplete = Some KeyMissing, cr_gaps = []\<rparr>
      else PageThrows)"

text \<open>The body of the loop after the request: \<open>strict\<close> and \<open>wire\<close> are the heads read before it.\<close>

definition catch_up_page ::
  "sync_env \<Rightarrow> int \<Rightarrow> sync_response \<Rightarrow> heads \<Rightarrow> heads \<Rightarrow> bool \<Rightarrow> coordinator \<Rightarrow> page_next \<times> coordinator" where
  "catch_up_page v now resp strict wire restore c =
     (let (w, c1) = applySyncResponsePage v now (sy_entries resp) c;
          strictAdvanced = headsAdvanced strict (getStrictContiguousHeads (co_doc c1) (co_store c1));
          c2 = recordGapsFromPage (sy_heads resp) (pw_lowest w) wire now c1;
          cursorAdvanced = headsAdvanced wire (getSyncRequestHeads (co_doc c2) (co_store c2));
          truncated = (evaluateSyncResponseDisposition (sy_truncated resp) = RequestNextPage)
      in (page_verdict restore w truncated strictAdvanced cursorAdvanced c2, c2))"

section \<open>Repair of gaps\<close>

definition repair_heads :: "heads \<Rightarrow> gap_repair \<Rightarrow> heads" where
  "repair_heads known g = AList.update (gr_device g) (gr_missing g - 1) known"

definition repair_backoff :: "gap_repair \<Rightarrow> int" where
  "repair_backoff g = min (GAP_REPAIR_BASE_BACKOFF_MS * 2 ^ nat (gr_attempts g)) GAP_REPAIR_MAX_BACKOFF_MS"

definition repair_attempted :: "gap_repair \<Rightarrow> int \<Rightarrow> coordinator \<Rightarrow> coordinator" where
  "repair_attempted g started c =
     c\<lparr>co_store := markGapRepairAttempt (gr_doc g) (gr_device g) (gr_missing g) (started + repair_backoff g) (co_store c)\<rparr>"

text \<open>Move the heads of the devices that the page delivered; whether any moved.\<close>

definition advance_repair :: "heads \<Rightarrow> heads \<Rightarrow> heads \<times> bool" where
  "advance_repair highest hs =
     fold (\<lambda>(dev, hi) (hs, moved). if hi > head_of hs dev then (AList.update dev hi hs, True) else (hs, moved))
       highest (hs, False)"

text \<open>\<open>Some\<close> of the heads for a further page of the same attempt.\<close>

definition repair_page ::
  "sync_env \<Rightarrow> int \<Rightarrow> sync_response option \<Rightarrow> gap_repair \<Rightarrow> heads \<Rightarrow> nat \<Rightarrow> coordinator \<Rightarrow> heads option \<times> coordinator" where
  "repair_page v now answer g hs page c =
     (case answer of
        None \<Rightarrow> (None, c)
      | Some resp \<Rightarrow>
          (let (w, c1) = applySyncResponsePage v now (sy_entries resp) c;
               (hs', moved) = advance_repair (pw_highest w) hs in
           if map_of (pw_lowest w) (gr_device g) \<noteq> None then (None, c1)
           else if evaluateSyncResponseDisposition (sy_truncated resp) \<noteq> RequestNextPage then (None, c1)
           else if \<not> moved then (None, c1)
           else if page + 1 < GAP_REPAIR_MAX_PAGES then (Some hs', c1) else (None, c1)))"

section \<open>Runs\<close>

datatype run_kind = CatchUpRun | PublishRun

datatype sync_pc =
    RepairWait int heads gap_repair "gap_repair list" heads nat
  | RegisterWait
  | PresentWait nat
  | PageWait heads heads "bool option"
  | InFlightWait nat
  | HandlerWait catch_up_result
  | RestoreRegister catch_up_result
  | RestorePresent catch_up_result nat
  | RewriteWait catch_up_result
  | Settled "catch_up_result option"

record sync_run =
  rn_kind :: run_kind
  rn_epoch :: int
  rn_pc :: sync_pc

datatype outstanding_reason = InFlight | Incomplete incomplete_reason | NoProgress

record catch_up_state =
  st_in_flight :: bool
  st_outstanding :: "outstanding_reason option"

record sync_world =
  sw_co :: coordinator
  sw_registers :: bool
  sw_handler :: bool
  sw_catching :: bool
  sw_in_flight :: "nat option"
  sw_active :: int
  sw_state :: catch_up_state
  sw_published :: bool
  sw_publishing :: "nat option"
  sw_restoring :: bool
  sw_runs :: "sync_run list"

definition new_world :: "coordinator \<Rightarrow> bool \<Rightarrow> bool \<Rightarrow> sync_world" where
  "new_world c registers handler =
     \<lparr>sw_co = c, sw_registers = registers, sw_handler = handler, sw_catching = False, sw_in_flight = None, sw_active = 0,
      sw_state = \<lparr>st_in_flight = False, st_outstanding = None\<rparr>, sw_published = False, sw_publishing = None,
      sw_restoring = False, sw_runs = []\<rparr>"

definition set_pc :: "nat \<Rightarrow> sync_pc \<Rightarrow> sync_world \<Rightarrow> sync_world" where
  "set_pc n pc w = w\<lparr>sw_runs := (sw_runs w)[n := (sw_runs w ! n)\<lparr>rn_pc := pc\<rparr>]\<rparr>"

text \<open>\<open>withCatchUpReporting\<close> before and after the run, \<open>emitCatchUpResult\<close>.\<close>

definition report_start :: "sync_world \<Rightarrow> sync_world" where
  "report_start w = w\<lparr>sw_active := sw_active w + 1,
     sw_state := \<lparr>st_in_flight = True, st_outstanding = Some InFlight\<rparr>\<rparr>"

definition emitCatchUpResult :: "catch_up_result \<Rightarrow> catch_up_state" where
  "emitCatchUpResult r = \<lparr>st_in_flight = False,
     st_outstanding = (case cr_incomplete r of Some i \<Rightarrow> Some (Incomplete i)
       | None \<Rightarrow> if cr_gaps r = [] then None else Some (Incomplete GapPending))\<rparr>"

definition report_end :: "int \<Rightarrow> catch_up_result option \<Rightarrow> sync_world \<Rightarrow> sync_world" where
  "report_end epoch r w =
     (if epoch \<noteq> co_epoch (sw_co w) then w
      else if sw_active w - 1 \<noteq> 0 then w\<lparr>sw_active := sw_active w - 1\<rparr>
      else w\<lparr>sw_active := 0,
             sw_state := (case r of Some r \<Rightarrow> emitCatchUpResult r
               | None \<Rightarrow> \<lparr>st_in_flight = False, st_outstanding = Some NoProgress\<rparr>)\<rparr>)"

definition releaseCatchUpGuard :: "nat \<Rightarrow> sync_world \<Rightarrow> sync_world" where
  "releaseCatchUpGuard n w =
     (if sw_in_flight w \<noteq> Some n then w else w\<lparr>sw_catching := False, sw_in_flight := None\<rparr>)"

definition page_wait :: "bool option \<Rightarrow> coordinator \<Rightarrow> sync_pc" where
  "page_wait restore c =
     PageWait (getStrictContiguousHeads (co_doc c) (co_store c)) (getSyncRequestHeads (co_doc c) (co_store c)) restore"

fun repair_wait :: "int \<Rightarrow> heads \<Rightarrow> gap_repair list \<Rightarrow> sync_pc" where
  "repair_wait started known [] = PresentWait 0"
| "repair_wait started known (g # gs) = RepairWait started known g gs (repair_heads known g) 0"

section \<open>Control flow of a run\<close>

datatype frame_answer = FrameAccepted | FrameRejected broker_error | FrameFailed | KeysUnavailable

datatype sync_answer =
    Page "sync_response option"
  | Frame frame_answer
  | MintedDevice "string option"
  | HandlerFailed
  | Rewritten bool
  | Joined

text \<open>\<open>presentCapabilityWithRetry\<close>, one answer at a time.\<close>

datatype present_next = PresentOk | PresentAgain nat | PresentThrows | PresentNoKeys

definition presentCapabilityWithRetry :: "nat \<Rightarrow> frame_answer \<Rightarrow> present_next" where
  "presentCapabilityWithRetry attempt a =
     (case a of
        FrameAccepted \<Rightarrow> PresentOk
      | KeysUnavailable \<Rightarrow> PresentNoKeys
      | FrameFailed \<Rightarrow> PresentThrows
      | FrameRejected code \<Rightarrow>
          if classifyRejectDisposition code = CapabilityRePresent \<and> attempt + 1 < 3
          then PresentAgain (attempt + 1) else PresentThrows)"

definition no_result :: catch_up_result where
  "no_result = \<lparr>cr_restore = False, cr_incomplete = None, cr_gaps = []\<rparr>"

text \<open>The end of a run: \<open>None\<close> if it throws.\<close>

definition finish_run :: "nat \<Rightarrow> catch_up_result option \<Rightarrow> sync_world \<Rightarrow> sync_world" where
  "finish_run n r w =
     (let run = sw_runs w ! n; w1 = set_pc n (Settled r) w in
      case rn_kind run of
        CatchUpRun \<Rightarrow> releaseCatchUpGuard n (report_end (rn_epoch run) r w1)
      | PublishRun \<Rightarrow>
          let w2 = releaseCatchUpGuard n w1 in
          if sw_publishing w2 = Some n
          then w2\<lparr>sw_published := (sw_published w2 \<or> r \<noteq> None), sw_publishing := None\<rparr> else w2)"

definition actOnRestoreDisposition :: "nat \<Rightarrow> catch_up_result \<Rightarrow> sync_world \<Rightarrow> sync_world" where
  "actOnRestoreDisposition n r w =
     (if cr_restore r \<and> \<not> sw_restoring w \<and> sw_handler w
      then set_pc n (HandlerWait r) (w\<lparr>sw_restoring := True\<rparr>)
      else finish_run n (Some r) w)"

text \<open>The pages of a run have ended with a result, or with an error.\<close>

definition pages_end :: "nat \<Rightarrow> catch_up_result \<Rightarrow> sync_world \<Rightarrow> sync_world" where
  "pages_end n r w =
     actOnRestoreDisposition n r
       (if rn_kind (sw_runs w ! n) = PublishRun then report_end (rn_epoch (sw_runs w ! n)) (Some r) w else w)"

definition pages_throw :: "nat \<Rightarrow> sync_world \<Rightarrow> sync_world" where
  "pages_throw n w =
     finish_run n None
       (if rn_kind (sw_runs w ! n) = PublishRun then report_end (rn_epoch (sw_runs w ! n)) None w else w)"

definition catchUp :: "int \<Rightarrow> sync_world \<Rightarrow> sync_world" where
  "catchUp now w =
     (if sw_catching w then w
      else let c = sw_co w;
               due = filter (\<lambda>g. gr_doc g = co_doc c) (listDueGapRepairs now (co_store c));
               pc = repair_wait now (getKnownHeads (co_doc c) (co_store c)) due
           in (report_start w)\<lparr>sw_catching := True, sw_in_flight := Some (length (sw_runs w)),
                 sw_runs := sw_runs w @ [\<lparr>rn_kind = CatchUpRun, rn_epoch = co_epoch c, rn_pc = pc\<rparr>]\<rparr>)"

definition ensurePublished :: "sync_world \<Rightarrow> sync_world" where
  "ensurePublished w =
     (if sw_published w \<or> sw_publishing w \<noteq> None then w
      else w\<lparr>sw_publishing := Some (length (sw_runs w)),
             sw_runs := sw_runs w @ [\<lparr>rn_kind = PublishRun, rn_epoch = co_epoch (sw_co w),
               rn_pc = (if sw_registers w then RegisterWait else PresentWait 0)\<rparr>]\<rparr>)"

text \<open>The first publication after its capability was presented.\<close>

definition publication_pages :: "nat \<Rightarrow> sync_world \<Rightarrow> sync_world" where
  "publication_pages n w =
     (if sw_restoring w then finish_run n (Some no_result) w
      else case (sw_catching w, sw_in_flight w) of
          (True, Some m) \<Rightarrow> set_pc n (InFlightWait m) w
        | _ \<Rightarrow> let w1 = (report_start w)\<lparr>sw_catching := True, sw_in_flight := Some n\<rparr> in
               w1\<lparr>sw_runs := (sw_runs w1)[n := \<lparr>rn_kind = PublishRun, rn_epoch = co_epoch (sw_co w1),
                    rn_pc = page_wait None (sw_co w1)\<rparr>]\<rparr>)"

definition presented :: "nat \<Rightarrow> sync_world \<Rightarrow> sync_world" where
  "presented n w =
     (case rn_kind (sw_runs w ! n) of
        CatchUpRun \<Rightarrow> set_pc n (page_wait None (sw_co w)) w
      | PublishRun \<Rightarrow> publication_pages n w)"

text \<open>A restore-clone that fails or is over.\<close>

definition restore_throw :: "nat \<Rightarrow> sync_world \<Rightarrow> sync_world" where
  "restore_throw n w =
     finish_run n None (w\<lparr>sw_restoring := False,
       sw_publishing := (if sw_publishing w = Some n \<and> rn_kind (sw_runs w ! n) = CatchUpRun then None else sw_publishing w)\<rparr>)"

definition rebound :: "nat \<Rightarrow> string \<Rightarrow> catch_up_result \<Rightarrow> sync_world \<Rightarrow> sync_world" where
  "rebound n newDevice r w =
     set_pc n (if sw_registers w then RestoreRegister r else RestorePresent r 0)
       (w\<lparr>sw_co := (sw_co w)\<lparr>co_device := newDevice\<rparr>, sw_published := False, sw_publishing := Some n\<rparr>)"

definition republished :: "nat \<Rightarrow> catch_up_result \<Rightarrow> sync_world \<Rightarrow> sync_world" where
  "republished n r w =
     set_pc n (RewriteWait r)
       (if sw_publishing w = Some n then w\<lparr>sw_published := True, sw_publishing := None\<rparr> else w)"

text \<open>A live entry, or a page, has applied these entries: perhaps start a catch-up.\<close>

definition triggerGapCatchUp :: "int \<Rightarrow> bool \<Rightarrow> sync_world \<Rightarrow> sync_world" where
  "triggerGapCatchUp now hole w = (if hole then catchUp now w else w)"

definition page_applied_keys :: "page_work \<Rightarrow> (string \<times> int) list" where
  "page_applied_keys p = map (\<lambda>(e, _). (le_device e, le_seq e)) (pw_persist p)"

definition page_hole :: "sync_env \<Rightarrow> int \<Rightarrow> sync_response \<Rightarrow> coordinator \<Rightarrow> bool" where
  "page_hole v now resp c =
     (let (p, c1) = applySyncResponsePage v now (sy_entries resp) c
      in maybeTriggerLiveGapCatchUp (page_applied_keys p) c1)"

definition catchUpInternal ::
  "sync_env \<Rightarrow> int \<Rightarrow> nat \<Rightarrow> sync_response option \<Rightarrow> heads \<Rightarrow> heads \<Rightarrow> bool option \<Rightarrow> sync_world \<Rightarrow> sync_world" where
  "catchUpInternal v now n answer strict wire restore w =
     (case answer of
        None \<Rightarrow> pages_end n \<lparr>cr_restore = (restore = Some True), cr_incomplete = Some TimedOut, cr_gaps = []\<rparr> w
      | Some resp \<Rightarrow>
          (case (case restore of Some b \<Rightarrow> Some b | None \<Rightarrow> computeRestoreDisposition (sy_heads resp) (sw_co w)) of
             None \<Rightarrow> pages_throw n w
           | Some b \<Rightarrow>
               let (nx, c) = catch_up_page v now resp strict wire b (sw_co w);
                   w1 = triggerGapCatchUp now (page_hole v now resp (sw_co w)) (w\<lparr>sw_co := c\<rparr>)
               in case nx of
                  NextPage \<Rightarrow> set_pc n (page_wait (Some b) c) w1
                | PageDone r \<Rightarrow> pages_end n r w1
                | PageThrows \<Rightarrow> pages_throw n w1))"

definition driveGapRepairs ::
  "sync_env \<Rightarrow> int \<Rightarrow> nat \<Rightarrow> sync_response option \<Rightarrow> int \<Rightarrow> heads \<Rightarrow> gap_repair \<Rightarrow> gap_repair list \<Rightarrow> heads \<Rightarrow> nat \<Rightarrow>
   sync_world \<Rightarrow> sync_world" where
  "driveGapRepairs v now n answer started known g rest hs page w =
     (let (next_hs, c) = repair_page v now answer g hs page (sw_co w);
          hole = (case answer of None \<Rightarrow> False | Some resp \<Rightarrow> page_hole v now resp (sw_co w));
          w1 = triggerGapCatchUp now hole (w\<lparr>sw_co := c\<rparr>)
      in case next_hs of
         Some hs' \<Rightarrow> set_pc n (RepairWait started known g rest hs' (page + 1)) w1
       | None \<Rightarrow> set_pc n (repair_wait started known rest) (w1\<lparr>sw_co := repair_attempted g started (sw_co w1)\<rparr>))"

definition restore_device :: "nat \<Rightarrow> string option \<Rightarrow> catch_up_result \<Rightarrow> sync_world \<Rightarrow> sync_world" where
  "restore_device n outcome r w =
     (case outcome of
        None \<Rightarrow> finish_run n (Some r) (w\<lparr>sw_restoring := False\<rparr>)
      | Some d \<Rightarrow> if d = [] \<or> d = co_device (sw_co w) then finish_run n (Some r) (w\<lparr>sw_restoring := False\<rparr>)
                else rebound n d r w)"

text \<open>The answer that a run waits for; \<open>None\<close> if it waits for something else.\<close>

definition resume :: "sync_env \<Rightarrow> int \<Rightarrow> nat \<Rightarrow> sync_answer \<Rightarrow> sync_world \<Rightarrow> sync_world option" where
  "resume v now n ans w =
     (case rn_pc (sw_runs w ! n) of
        RepairWait started known g rest hs page \<Rightarrow>
          (case ans of Page answer \<Rightarrow> Some (driveGapRepairs v now n answer started known g rest hs page w) | _ \<Rightarrow> None)
      | RegisterWait \<Rightarrow>
          (case ans of
             Frame FrameAccepted \<Rightarrow> Some (set_pc n (PresentWait 0) w)
           | Frame _ \<Rightarrow> Some (finish_run n None w) | _ \<Rightarrow> None)
      | PresentWait attempt \<Rightarrow>
          (case ans of
             Frame a \<Rightarrow> Some (case presentCapabilityWithRetry attempt a of
                 PresentOk \<Rightarrow> presented n w
               | PresentAgain k \<Rightarrow> set_pc n (PresentWait k) w
               | PresentThrows \<Rightarrow> finish_run n None w
               | PresentNoKeys \<Rightarrow>
                   (case rn_kind (sw_runs w ! n) of
                      CatchUpRun \<Rightarrow>
                        finish_run n (Some \<lparr>cr_restore = False, cr_incomplete = Some KeyMissing, cr_gaps = []\<rparr>) w
                    | PublishRun \<Rightarrow> finish_run n None w))
           | _ \<Rightarrow> None)
      | PageWait strict wire restore \<Rightarrow>
          (case ans of Page answer \<Rightarrow> Some (catchUpInternal v now n answer strict wire restore w) | _ \<Rightarrow> None)
      | InFlightWait m \<Rightarrow>
          (case (ans, if m < length (sw_runs w) then Some (rn_pc (sw_runs w ! m)) else None) of
             (Joined, Some (Settled r)) \<Rightarrow> Some (finish_run n (if r = None then None else Some no_result) w) | _ \<Rightarrow> None)
      | HandlerWait r \<Rightarrow>
          (case ans of
             MintedDevice outcome \<Rightarrow> Some (restore_device n outcome r w)
           | HandlerFailed \<Rightarrow> Some (restore_throw n w) | _ \<Rightarrow> None)
      | RestoreRegister r \<Rightarrow>
          (case ans of
             Frame FrameAccepted \<Rightarrow> Some (set_pc n (RestorePresent r 0) w)
           | Frame _ \<Rightarrow> Some (restore_throw n w) | _ \<Rightarrow> None)
      | RestorePresent r attempt \<Rightarrow>
          (case ans of
             Frame a \<Rightarrow> Some (case presentCapabilityWithRetry attempt a of
                 PresentOk \<Rightarrow> republished n r w
               | PresentAgain k \<Rightarrow> set_pc n (RestorePresent r k) w
               | _ \<Rightarrow> restore_throw n w)
           | _ \<Rightarrow> None)
      | RewriteWait r \<Rightarrow>
          (case ans of
             Rewritten ok \<Rightarrow>
               Some (if ok then finish_run n (Some r) (w\<lparr>sw_restoring := False\<rparr>) else restore_throw n w)
           | _ \<Rightarrow> None)
      | Settled r \<Rightarrow> None)"

section \<open>Events\<close>

definition resetForReconnect :: "sync_world \<Rightarrow> sync_world" where
  "resetForReconnect w =
     w\<lparr>sw_published := False, sw_publishing := None, sw_catching := False, sw_active := 0,
       sw_co := (sw_co w)\<lparr>co_epoch := co_epoch (sw_co w) + 1\<rparr>\<rparr>"

text \<open>An entry, and a sync response that no request waits for.\<close>

definition live_entry :: "sync_env \<Rightarrow> int \<Rightarrow> json \<Rightarrow> sync_world \<Rightarrow> sync_world" where
  "live_entry v now message w =
     (case receiveLogEntry v now message (sw_co w) of
        (EntryApplied dev n, c) \<Rightarrow>
          triggerGapCatchUp now (maybeTriggerLiveGapCatchUp [(dev, n)] c) (w\<lparr>sw_co := c\<rparr>)
      | (_, c) \<Rightarrow> w\<lparr>sw_co := c\<rparr>)"

definition applySyncResponse :: "sync_env \<Rightarrow> int \<Rightarrow> sync_response \<Rightarrow> sync_world \<Rightarrow> sync_world" where
  "applySyncResponse v now resp w =
     (case computeRestoreDisposition (sy_heads resp) (sw_co w) of
        None \<Rightarrow> w
      | Some restore \<Rightarrow>
          let c = snd (applySyncResponsePage v now (sy_entries resp) (sw_co w));
              w1 = triggerGapCatchUp now (page_hole v now resp (sw_co w)) (w\<lparr>sw_co := c\<rparr>);
              truncated = (evaluateSyncResponseDisposition (sy_truncated resp) = RequestNextPage);
              result = \<lparr>cr_restore = restore, cr_incomplete = (if truncated then Some GapPending else None),
                        cr_gaps = openGaps c\<rparr>;
              w2 = (if sw_active w1 = 0 then w1\<lparr>sw_state := emitCatchUpResult result\<rparr> else w1)
          in triggerGapCatchUp now (truncated \<or> openGaps c \<noteq> []) w2)"

definition handle_sync_response :: "sync_env \<Rightarrow> int \<Rightarrow> json \<Rightarrow> sync_world \<Rightarrow> sync_world" where
  "handle_sync_response v now message w =
     (case assertSyncResponseMessage (sv_rt v) message of
        None \<Rightarrow> w
      | Some resp \<Rightarrow> if sy_doc resp \<noteq> co_doc (sw_co w) then w else applySyncResponse v now resp w)"

definition replay_blocked :: "sync_env \<Rightarrow> int \<Rightarrow> sync_world \<Rightarrow> sync_world" where
  "replay_blocked v now w =
     (let (c, m, hole) = replayBlockedByKey v now (sw_co w) in triggerGapCatchUp now hole (w\<lparr>sw_co := c\<rparr>))"

datatype sync_event =
    CatchUpCalled int
  | PublishCalled
  | Resumed sync_env int nat sync_answer
  | EntryArrived sync_env int json
  | ResponseArrived sync_env int json
  | KeysImported sync_env int
  | Reconnected
  | LocalEntryBuilt building "string option" int
  | EntryAcked string int

inductive sync_step :: "sync_world \<Rightarrow> sync_event \<Rightarrow> sync_world \<Rightarrow> bool" where
  catch_up_called: "sync_step w (CatchUpCalled now) (catchUp now w)"
| publish_called: "sync_step w PublishCalled (ensurePublished w)"
| resumed: "n < length (sw_runs w) \<Longrightarrow> resume v now n ans w = Some w' \<Longrightarrow> sync_step w (Resumed v now n ans) w'"
| entry_arrived: "sync_step w (EntryArrived v now message) (live_entry v now message w)"
| response_arrived: "sync_step w (ResponseArrived v now message) (handle_sync_response v now message w)"
| keys_imported: "sync_step w (KeysImported v now) (replay_blocked v now w)"
| reconnected: "sync_step w Reconnected (resetForReconnect w)"
| local_entry_built: "bl_doc b = co_doc (sw_co w) \<Longrightarrow>
    sync_step w (LocalEntryBuilt b jws now)
      (w\<lparr>sw_co := (sw_co w)\<lparr>co_store := snd (append_built b jws now (co_store (sw_co w)))\<rparr>\<rparr>)"
| entry_acked: "sync_step w (EntryAcked dev n)
    (w\<lparr>sw_co := (sw_co w)\<lparr>co_store := markAcked (co_doc (sw_co w)) dev n (co_store (sw_co w))\<rparr>\<rparr>)"

end
