(* ===== verification/ClientGuard.thy ===== *)
theory ClientGuard
  imports ClientCatchUp
begin

text \<open>
  The coordinator's guard: on one connection at most one run pages through the log, a run that is still
  busy on an old connection neither blocks nor releases the guard of the new one, and the reported state
  is \<^verbatim>\<open>in-flight\<close> while a run pages.
\<close>

section \<open>What a run holds\<close>

text \<open>
  A run holds the guard from its start (\<open>catchUp\<close>) or from the moment its publication pages, until it has
  settled; it is counted while it is within \<^verbatim>\<open>withCatchUpReporting\<close>.
\<close>

fun guarded :: "sync_run \<Rightarrow> bool" where
  "guarded r \<longleftrightarrow>
     (case rn_pc r of
        Settled _ \<Rightarrow> False
      | RegisterWait \<Rightarrow> rn_kind r = CatchUpRun
      | PresentWait _ \<Rightarrow> rn_kind r = CatchUpRun
      | InFlightWait _ \<Rightarrow> rn_kind r = CatchUpRun
      | RepairWait _ _ _ _ _ _ \<Rightarrow> rn_kind r = CatchUpRun
      | _ \<Rightarrow> True)"

fun counted :: "sync_run \<Rightarrow> bool" where
  "counted r \<longleftrightarrow>
     (case rn_pc r of
        Settled _ \<Rightarrow> False
      | PageWait _ _ _ \<Rightarrow> True
      | _ \<Rightarrow> rn_kind r = CatchUpRun)"

declare guarded.simps [simp del] counted.simps [simp del]
lemmas run_class = guarded.simps counted.simps

lemma counted_guarded: "counted r \<Longrightarrow> guarded r"
  by (simp add: run_class split: sync_pc.splits)

definition current :: "sync_world \<Rightarrow> nat \<Rightarrow> bool" where
  "current w n \<longleftrightarrow> n < length (sw_runs w) \<and> rn_epoch (sw_runs w ! n) = co_epoch (sw_co w)"

definition in_flight_state :: catch_up_state where
  "in_flight_state = \<lparr>st_in_flight = True, st_outstanding = Some InFlight\<rparr>"

text \<open>The runs of this connection that hold the guard, and those that are counted.\<close>

definition holders :: "sync_world \<Rightarrow> nat set" where
  "holders w = {n. current w n \<and> guarded (sw_runs w ! n)}"

definition reporters :: "sync_world \<Rightarrow> nat set" where
  "reporters w = {n. current w n \<and> counted (sw_runs w ! n)}"

definition guard_inv :: "sync_world \<Rightarrow> bool" where
  "guard_inv w \<longleftrightarrow>
     (if sw_catching w then \<exists>n. sw_in_flight w = Some n \<and> holders w = {n} else holders w = {}) \<and>
     sw_active w = (if reporters w = {} then 0 else 1) \<and>
     (reporters w \<noteq> {} \<longrightarrow> sw_state w = in_flight_state) \<and>
     (\<forall>r \<in> set (sw_runs w). rn_epoch r \<le> co_epoch (sw_co w))"

lemma reporters_holders: "reporters w \<subseteq> holders w"
  by (auto simp: reporters_def holders_def counted_guarded)

text \<open>Fields that do not matter to the guard.\<close>

definition same_guard :: "sync_world \<Rightarrow> sync_world \<Rightarrow> bool" where
  "same_guard w w' \<longleftrightarrow> sw_runs w' = sw_runs w \<and> co_epoch (sw_co w') = co_epoch (sw_co w) \<and>
     sw_catching w' = sw_catching w \<and> sw_in_flight w' = sw_in_flight w \<and> sw_active w' = sw_active w \<and>
     sw_state w' = sw_state w"

lemma same_guard_inv: "guard_inv w \<Longrightarrow> same_guard w w' \<Longrightarrow> guard_inv w'"
proof -
  assume inv: "guard_inv w" and same: "same_guard w w'"
  have "current w' n \<longleftrightarrow> current w n" for n using same by (simp add: current_def same_guard_def)
  then have "holders w' = holders w" "reporters w' = reporters w"
    using same by (auto simp: holders_def reporters_def same_guard_def)
  then show ?thesis using inv same unfolding guard_inv_def same_guard_def by simp
qed

section \<open>Replacing the state of one run\<close>

lemma set_pc_fields [simp]:
  "sw_co (set_pc n pc w) = sw_co w" "sw_catching (set_pc n pc w) = sw_catching w"
  "sw_in_flight (set_pc n pc w) = sw_in_flight w" "sw_active (set_pc n pc w) = sw_active w"
  "sw_state (set_pc n pc w) = sw_state w" "length (sw_runs (set_pc n pc w)) = length (sw_runs w)"
  "sw_publishing (set_pc n pc w) = sw_publishing w" "sw_published (set_pc n pc w) = sw_published w"
  by (simp_all add: set_pc_def)

lemma set_pc_run:
  "m < length (sw_runs w) \<Longrightarrow> sw_runs (set_pc n pc w) ! m = (if m = n then (sw_runs w ! n)\<lparr>rn_pc := pc\<rparr> else sw_runs w ! m)"
  by (auto simp: set_pc_def nth_list_update)

lemma current_set_pc [simp]: "current (set_pc n pc w) m \<longleftrightarrow> current w m"
proof (cases "m < length (sw_runs w)")
  case True
  then show ?thesis by (cases "m = n") (simp_all add: current_def set_pc_run)
qed (simp add: current_def)

lemma holders_set_pc:
  "holders (set_pc n pc w) = (holders w - {n}) \<union> (if current w n \<and> guarded ((sw_runs w ! n)\<lparr>rn_pc := pc\<rparr>) then {n} else {})"
  by (auto simp: holders_def current_def [of w] set_pc_run split: if_splits)

lemma reporters_set_pc:
  "reporters (set_pc n pc w) = (reporters w - {n}) \<union> (if current w n \<and> counted ((sw_runs w ! n)\<lparr>rn_pc := pc\<rparr>) then {n} else {})"
  by (auto simp: reporters_def current_def [of w] set_pc_run split: if_splits)

lemma epochs_set_pc:
  "n < length (sw_runs w) \<Longrightarrow> \<forall>r \<in> set (sw_runs w). rn_epoch r \<le> b \<Longrightarrow> \<forall>r \<in> set (sw_runs (set_pc n pc w)). rn_epoch r \<le> b"
  by (auto simp: set_pc_def dest!: subsetD [OF set_update_subset_insert])

lemma set_pc_same_class:
  assumes "guard_inv w" "n < length (sw_runs w)"
    and "guarded ((sw_runs w ! n)\<lparr>rn_pc := pc\<rparr>) = guarded (sw_runs w ! n)"
    and "counted ((sw_runs w ! n)\<lparr>rn_pc := pc\<rparr>) = counted (sw_runs w ! n)"
  shows "guard_inv (set_pc n pc w)"
proof -
  have "holders (set_pc n pc w) = holders w" "reporters (set_pc n pc w) = reporters w"
    unfolding holders_set_pc reporters_set_pc assms(3,4) by (auto simp: holders_def reporters_def)
  then show ?thesis
    using assms(1) epochs_set_pc [OF assms(2)] by (simp add: guard_inv_def)
qed

section \<open>Starting and ending\<close>

lemma empty_reporters: "guard_inv w \<Longrightarrow> \<not> sw_catching w \<Longrightarrow> reporters w = {} \<and> holders w = {} \<and> sw_active w = 0"
  using reporters_holders [of w] by (auto simp: guard_inv_def)

lemma guard_after_start:
  assumes "guard_inv w" "\<not> sw_catching w"
    and "sw_catching w'" "sw_in_flight w' = Some n" "holders w' = {n}" "reporters w' = {n}"
    and "sw_active w' = sw_active w + 1" "sw_state w' = in_flight_state"
    and "\<forall>r \<in> set (sw_runs w'). rn_epoch r \<le> co_epoch (sw_co w')"
  shows "guard_inv w'"
  using assms empty_reporters [OF assms(1,2)] by (simp add: guard_inv_def)

lemma append_run:
  assumes "sw_runs w' = sw_runs w @ [r]" "co_epoch (sw_co w') = co_epoch (sw_co w)" "rn_epoch r = co_epoch (sw_co w)"
  shows "holders w' = holders w \<union> (if guarded r then {length (sw_runs w)} else {})"
    and "reporters w' = reporters w \<union> (if counted r then {length (sw_runs w)} else {})"
proof -
  have "current w' m \<longleftrightarrow> current w m \<or> m = length (sw_runs w)" for m
    using assms by (auto simp: current_def nth_append)
  moreover have "sw_runs w' ! length (sw_runs w) = r" "current w m \<Longrightarrow> sw_runs w' ! m = sw_runs w ! m" for m
    using assms(1) by (simp_all add: nth_append current_def)
  ultimately show "holders w' = holders w \<union> (if guarded r then {length (sw_runs w)} else {})"
    and "reporters w' = reporters w \<union> (if counted r then {length (sw_runs w)} else {})"
    by (auto simp: holders_def reporters_def)
qed

lemma repair_wait_class:
  "guarded \<lparr>rn_kind = CatchUpRun, rn_epoch = k, rn_pc = repair_wait now known gs\<rparr>"
  "counted \<lparr>rn_kind = CatchUpRun, rn_epoch = k, rn_pc = repair_wait now known gs\<rparr>"
  by (cases gs; simp add: run_class)+

lemma catchUp_inv: "guard_inv w \<Longrightarrow> guard_inv (catchUp now w)"
proof -
  assume inv: "guard_inv w"
  show ?thesis
  proof (cases "sw_catching w")
    case False
    let ?w = "catchUp now w"
    define r where "r = \<lparr>rn_kind = CatchUpRun, rn_epoch = co_epoch (sw_co w),
      rn_pc = repair_wait now (getKnownHeads (co_doc (sw_co w)) (co_store (sw_co w)))
        (filter (\<lambda>g. gr_doc g = co_doc (sw_co w)) (listDueGapRepairs now (co_store (sw_co w))))\<rparr>"
    have runs: "sw_runs ?w = sw_runs w @ [r]" and co: "sw_co ?w = sw_co w"
      by (simp_all add: catchUp_def False Let_def report_start_def r_def)
    have cls: "guarded r" "counted r" "rn_epoch r = co_epoch (sw_co w)"
      by (simp_all add: r_def repair_wait_class)
    have "holders ?w = {length (sw_runs w)}" "reporters ?w = {length (sw_runs w)}"
      using append_run [OF runs _ cls(3)] empty_reporters [OF inv False] cls by (simp_all add: co)
    moreover have "\<forall>r \<in> set (sw_runs ?w). rn_epoch r \<le> co_epoch (sw_co ?w)"
      using inv cls(3) by (simp add: runs co guard_inv_def)
    ultimately show ?thesis
      by (intro guard_after_start [OF inv False, of ?w "length (sw_runs w)"])
         (simp_all, simp_all add: catchUp_def False Let_def report_start_def in_flight_state_def)
  qed (use inv in \<open>simp add: catchUp_def\<close>)
qed

lemma triggerGapCatchUp_inv: "guard_inv w \<Longrightarrow> guard_inv (triggerGapCatchUp now hole w)"
  by (simp add: triggerGapCatchUp_def catchUp_inv)

lemma ensurePublished_inv: "guard_inv w \<Longrightarrow> guard_inv (ensurePublished w)"
proof -
  assume inv: "guard_inv w"
  show ?thesis
  proof (cases "sw_published w \<or> sw_publishing w \<noteq> None")
    case False
    let ?w = "ensurePublished w"
    define r where "r = \<lparr>rn_kind = PublishRun, rn_epoch = co_epoch (sw_co w),
      rn_pc = (if sw_registers w then RegisterWait else PresentWait 0)\<rparr>"
    have fields: "sw_runs ?w = sw_runs w @ [r]" "sw_co ?w = sw_co w" "sw_catching ?w = sw_catching w"
      "sw_in_flight ?w = sw_in_flight w" "sw_active ?w = sw_active w" "sw_state ?w = sw_state w"
      using False by (simp_all add: ensurePublished_def r_def)
    have cls: "\<not> guarded r" "\<not> counted r" "rn_epoch r = co_epoch (sw_co w)"
      by (simp_all add: r_def run_class)
    have "holders ?w = holders w" "reporters ?w = reporters w"
      using append_run [OF fields(1) _ cls(3)] cls by (simp_all add: fields)
    then show ?thesis using inv cls(3) by (simp add: guard_inv_def fields)
  qed (use inv in \<open>auto simp: ensurePublished_def\<close>)
qed

text \<open>
  One run moves on. Its guard is kept or released, and its count kept or given back; a release of a
  guard the run does not have, and a report on an old connection, change nothing.
\<close>

lemma run_moves:
  assumes inv: "guard_inv w" and n: "n < length (sw_runs w)"
    and runs: "sw_runs w' = sw_runs (set_pc n pc w)" and co: "co_epoch (sw_co w') = co_epoch (sw_co w)"
    and guard: "guarded ((sw_runs w ! n)\<lparr>rn_pc := pc\<rparr>) = guarded (sw_runs w ! n) \<and>
        sw_catching w' = sw_catching w \<and> sw_in_flight w' = sw_in_flight w \<or>
      \<not> guarded ((sw_runs w ! n)\<lparr>rn_pc := pc\<rparr>) \<and>
        (if sw_in_flight w = Some n then \<not> sw_catching w'
         else sw_catching w' = sw_catching w \<and> sw_in_flight w' = sw_in_flight w)"
    and count: "counted ((sw_runs w ! n)\<lparr>rn_pc := pc\<rparr>) = counted (sw_runs w ! n) \<and>
        sw_active w' = sw_active w \<and> sw_state w' = sw_state w \<or>
      counted (sw_runs w ! n) \<and> \<not> counted ((sw_runs w ! n)\<lparr>rn_pc := pc\<rparr>) \<and>
        (if current w n then sw_active w' = sw_active w - 1 else sw_active w' = sw_active w \<and> sw_state w' = sw_state w)"
  shows "guard_inv w'"
proof -
  let ?r = "(sw_runs w ! n)\<lparr>rn_pc := pc\<rparr>"
  have cur: "current w' m \<longleftrightarrow> current (set_pc n pc w) m" for m
    using runs co by (simp add: current_def)
  have sets: "holders w' = holders (set_pc n pc w)" "reporters w' = reporters (set_pc n pc w)"
    using runs by (simp_all add: holders_def reporters_def cur)
  have holds: "n \<in> holders w \<longleftrightarrow> current w n \<and> guarded (sw_runs w ! n)" by (simp add: holders_def)
  have reports: "n \<in> reporters w \<longleftrightarrow> current w n \<and> counted (sw_runs w ! n)" by (simp add: reporters_def)
  have G: "if sw_catching w' then \<exists>m. sw_in_flight w' = Some m \<and> holders w' = {m} else holders w' = {}"
  proof -
    have "if sw_catching w then \<exists>m. sw_in_flight w = Some m \<and> holders w = {m} else holders w = {}"
      using inv by (simp add: guard_inv_def)
    then show ?thesis
      using guard holds unfolding sets holders_set_pc by (cases "sw_catching w") (auto split: if_splits)
  qed
  have C: "sw_active w' = (if reporters w' = {} then 0 else 1) \<and> (reporters w' \<noteq> {} \<longrightarrow> sw_state w' = in_flight_state)"
  proof -
    have old: "sw_active w = (if reporters w = {} then 0 else 1)" "reporters w \<noteq> {} \<longrightarrow> sw_state w = in_flight_state"
      using inv by (simp_all add: guard_inv_def)
    have "reporters w = {n}" if "n \<in> reporters w"
    proof -
      have "holders w \<noteq> {}" using that reporters_holders [of w] by blast
      then obtain m where "holders w = {m}"
        using inv by (auto simp: guard_inv_def split: if_splits)
      then show ?thesis using that reporters_holders [of w] by auto
    qed
    then show ?thesis
      using count reports old unfolding sets reporters_set_pc by (auto split: if_splits)
  qed
  have "\<forall>r \<in> set (sw_runs w'). rn_epoch r \<le> co_epoch (sw_co w')"
    using inv epochs_set_pc [OF n] by (simp add: runs co guard_inv_def)
  then show ?thesis using G C by (simp add: guard_inv_def)
qed

lemma set_pc_moves:
  "guard_inv w \<Longrightarrow> n < length (sw_runs w) \<Longrightarrow>
   guarded ((sw_runs w ! n)\<lparr>rn_pc := pc\<rparr>) = guarded (sw_runs w ! n) \<Longrightarrow>
   counted ((sw_runs w ! n)\<lparr>rn_pc := pc\<rparr>) = counted (sw_runs w ! n) \<Longrightarrow>
   same_guard (set_pc n pc w) w' \<Longrightarrow> guard_inv w'"
  by (rule same_guard_inv [OF set_pc_same_class])

lemma report_end_fields:
  "sw_runs (report_end k r w) = sw_runs w" "sw_co (report_end k r w) = sw_co w"
  "sw_catching (report_end k r w) = sw_catching w" "sw_in_flight (report_end k r w) = sw_in_flight w"
  "sw_active (report_end k r w) = (if k = co_epoch (sw_co w) then sw_active w - 1 else sw_active w)"
  "k \<noteq> co_epoch (sw_co w) \<Longrightarrow> sw_state (report_end k r w) = sw_state w"
  by (simp_all add: report_end_def)

lemma release_fields:
  "sw_runs (releaseCatchUpGuard n w) = sw_runs w" "sw_co (releaseCatchUpGuard n w) = sw_co w"
  "sw_active (releaseCatchUpGuard n w) = sw_active w" "sw_state (releaseCatchUpGuard n w) = sw_state w"
  "sw_catching (releaseCatchUpGuard n w) = (sw_catching w \<and> sw_in_flight w \<noteq> Some n)"
  "sw_in_flight w \<noteq> Some n \<Longrightarrow> sw_in_flight (releaseCatchUpGuard n w) = sw_in_flight w"
  by (simp_all add: releaseCatchUpGuard_def)

lemmas guard_fields = report_end_fields release_fields

lemma settled_class:
  "\<not> guarded (r\<lparr>rn_pc := Settled x\<rparr>)" "\<not> counted (r\<lparr>rn_pc := Settled x\<rparr>)"
  by (simp_all add: run_class)

lemma finish_run_fields:
  "sw_runs (finish_run n r w) = sw_runs (set_pc n (Settled r) w)" "sw_co (finish_run n r w) = sw_co w"
  "sw_catching (finish_run n r w) = (sw_catching w \<and> sw_in_flight w \<noteq> Some n)"
  "sw_in_flight w \<noteq> Some n \<Longrightarrow> sw_in_flight (finish_run n r w) = sw_in_flight w"
  by (auto simp: finish_run_def Let_def guard_fields split: run_kind.splits)

lemma finish_run_report:
  "rn_kind (sw_runs w ! n) = CatchUpRun \<Longrightarrow> n < length (sw_runs w) \<Longrightarrow>
     sw_active (finish_run n r w) = (if current w n then sw_active w - 1 else sw_active w) \<and>
     (\<not> current w n \<longrightarrow> sw_state (finish_run n r w) = sw_state w)"
  "rn_kind (sw_runs w ! n) = PublishRun \<Longrightarrow>
     sw_active (finish_run n r w) = sw_active w \<and> sw_state (finish_run n r w) = sw_state w"
  by (auto simp: finish_run_def Let_def guard_fields current_def)

lemma finish_run_inv:
  assumes inv: "guard_inv w" and n: "n < length (sw_runs w)" and live: "\<forall>x. rn_pc (sw_runs w ! n) \<noteq> Settled x"
    and paged: "rn_kind (sw_runs w ! n) = PublishRun \<Longrightarrow> \<not> counted (sw_runs w ! n)"
  shows "guard_inv (finish_run n r w)"
proof (rule run_moves [OF inv n, where pc = "Settled r"])
  show "counted ((sw_runs w ! n)\<lparr>rn_pc := Settled r\<rparr>) = counted (sw_runs w ! n) \<and>
      sw_active (finish_run n r w) = sw_active w \<and> sw_state (finish_run n r w) = sw_state w \<or>
    counted (sw_runs w ! n) \<and> \<not> counted ((sw_runs w ! n)\<lparr>rn_pc := Settled r\<rparr>) \<and>
      (if current w n then sw_active (finish_run n r w) = sw_active w - 1
       else sw_active (finish_run n r w) = sw_active w \<and> sw_state (finish_run n r w) = sw_state w)"
  proof (cases "rn_kind (sw_runs w ! n)")
    case CatchUpRun
    then have "counted (sw_runs w ! n)" using live by (simp add: run_class split: sync_pc.splits)
    then show ?thesis using finish_run_report(1) [OF CatchUpRun n, of r] by (simp add: settled_class)
  next
    case PublishRun
    then show ?thesis using finish_run_report(2) [OF PublishRun, of r] paged by (simp add: settled_class)
  qed
qed (simp_all add: finish_run_fields settled_class)

text \<open>The pages of a publication end before the run does.\<close>

lemma finish_after_report_inv:
  assumes inv: "guard_inv w" and n: "n < length (sw_runs w)" and page: "rn_pc (sw_runs w ! n) = PageWait a b c"
    and kind: "rn_kind (sw_runs w ! n) = PublishRun"
    and w': "w' = report_end (rn_epoch (sw_runs w ! n)) x w"
  shows "guard_inv (finish_run n r w')" and "same_guard (set_pc n (HandlerWait y) w') v \<Longrightarrow> guard_inv v"
proof -
  have cnt: "counted (sw_runs w ! n)" "guarded (sw_runs w ! n)" using page by (simp_all add: run_class)
  have act: "(if current w n then sw_active w' = sw_active w - 1 else sw_active w' = sw_active w \<and> sw_state w' = sw_state w)"
    using n by (auto simp: w' guard_fields current_def)
  have pub: "rn_kind (sw_runs w' ! n) = PublishRun" by (simp add: w' guard_fields kind)
  have "if current w n then sw_active (finish_run n r w') = sw_active w - 1
    else sw_active (finish_run n r w') = sw_active w \<and> sw_state (finish_run n r w') = sw_state w"
    using act finish_run_report(2) [OF pub, of r] by simp
  then show "guard_inv (finish_run n r w')"
    by (intro run_moves [OF inv n, where pc = "Settled r"])
       (use cnt in \<open>simp_all add: finish_run_fields settled_class\<close>,
        simp_all add: w' guard_fields set_pc_def finish_run_fields(4))
  show "guard_inv v" if v: "same_guard (set_pc n (HandlerWait y) w') v"
    by (rule run_moves [OF inv n, where pc = "HandlerWait y"])
       (use v n act cnt kind in \<open>simp_all add: same_guard_def w' guard_fields set_pc_def run_class current_def\<close>)
qed

section \<open>Every step keeps the guard\<close>

lemma actOnRestore_inv:
  assumes "guard_inv w" "n < length (sw_runs w)" "rn_pc (sw_runs w ! n) = PageWait a b c"
    and "rn_kind (sw_runs w ! n) = CatchUpRun"
  shows "guard_inv (actOnRestoreDisposition n r w)"
proof (cases "cr_restore r \<and> \<not> sw_restoring w \<and> sw_handler w")
  case True
  have "same_guard (set_pc n (HandlerWait r) w) (set_pc n (HandlerWait r) (w\<lparr>sw_restoring := True\<rparr>))"
    by (simp add: same_guard_def set_pc_def)
  then show ?thesis
    using True set_pc_moves [OF assms(1,2), of "HandlerWait r"] assms(3,4)
    by (simp add: actOnRestoreDisposition_def run_class)
next
  case False
  then show ?thesis
    using finish_run_inv [OF assms(1,2)] assms(3,4) by (auto simp: actOnRestoreDisposition_def)
qed

lemma pages_end_inv:
  assumes "guard_inv w" "n < length (sw_runs w)" "rn_pc (sw_runs w ! n) = PageWait a b c"
  shows "guard_inv (pages_end n r w)" and "guard_inv (pages_throw n w)"
proof -
  show "guard_inv (pages_end n r w)"
  proof (cases "rn_kind (sw_runs w ! n)")
    case CatchUpRun
    then show ?thesis using actOnRestore_inv [OF assms CatchUpRun] by (simp add: pages_end_def)
  next
    case PublishRun
    let ?w = "report_end (rn_epoch (sw_runs w ! n)) (Some r) w"
    note after_report = finish_after_report_inv [OF assms PublishRun refl]
    have "same_guard (set_pc n (HandlerWait r) ?w) (set_pc n (HandlerWait r) (?w\<lparr>sw_restoring := True\<rparr>))"
      by (simp add: same_guard_def set_pc_def)
    then show ?thesis
      using after_report(1) [of "Some r" "Some r"] after_report(2) [of r "Some r"] PublishRun
      by (simp add: pages_end_def actOnRestoreDisposition_def)
  qed
  show "guard_inv (pages_throw n w)"
  proof (cases "rn_kind (sw_runs w ! n)")
    case CatchUpRun
    then show ?thesis using finish_run_inv [OF assms(1,2)] assms(3) by (simp add: pages_throw_def)
  next
    case PublishRun
    then show ?thesis using finish_after_report_inv(1) [OF assms PublishRun refl] by (simp add: pages_throw_def)
  qed
qed

text \<open>What applying entries changes is not in the guard, and a triggered catch-up only adds a run.\<close>

lemma co_same_guard: "co_epoch c = co_epoch (sw_co w) \<Longrightarrow> same_guard w (w\<lparr>sw_co := c\<rparr>)"
  by (simp add: same_guard_def)

lemma trigger_runs:
  "n < length (sw_runs w) \<Longrightarrow> n < length (sw_runs (triggerGapCatchUp now hole w)) \<and>
     sw_runs (triggerGapCatchUp now hole w) ! n = sw_runs w ! n"
  by (simp add: triggerGapCatchUp_def catchUp_def Let_def report_start_def nth_append)

lemma catch_up_page_frame:
  "catch_up_page v now resp strict wire b c = (nx, c') \<Longrightarrow> co_doc c' = co_doc c \<and> co_epoch c' = co_epoch c"
  by (auto simp: catch_up_page_def Let_def recordGapsFromPage_def split: prod.splits dest!: page_frame)

lemma repair_page_frame:
  "repair_page v now answer g hs page c = (next_hs, c') \<Longrightarrow> co_doc c' = co_doc c \<and> co_epoch c' = co_epoch c"
  by (auto simp: repair_page_def Let_def split: prod.splits option.splits if_splits dest!: page_frame)

lemma page_wait_class:
  "guarded (r\<lparr>rn_pc := page_wait x c\<rparr>)" "counted (r\<lparr>rn_pc := page_wait x c\<rparr>)"
  by (simp_all add: page_wait_def run_class)

lemma catchUpInternal_inv:
  assumes inv: "guard_inv w" and n: "n < length (sw_runs w)" and pc: "rn_pc (sw_runs w ! n) = PageWait strict wire restore"
  shows "guard_inv (catchUpInternal v now n answer strict wire restore w)"
proof (cases answer)
  case None
  then show ?thesis using pages_end_inv [OF assms] by (simp add: catchUpInternal_def)
next
  case (Some resp)
  show ?thesis
  proof (cases "case restore of Some b \<Rightarrow> Some b | None \<Rightarrow> computeRestoreDisposition (sy_heads resp) (sw_co w)")
    case None
    then show ?thesis using pages_end_inv(2) [OF assms] Some by (simp add: catchUpInternal_def)
  next
    case (Some b)
    obtain nx c where page: "catch_up_page v now resp strict wire b (sw_co w) = (nx, c)" by fastforce
    define w1 where "w1 = triggerGapCatchUp now (page_hole v now resp (sw_co w)) (w\<lparr>sw_co := c\<rparr>)"
    have "guard_inv (w\<lparr>sw_co := c\<rparr>)"
      using same_guard_inv [OF inv co_same_guard] catch_up_page_frame [OF page] by simp
    then have inv1: "guard_inv w1" unfolding w1_def by (rule triggerGapCatchUp_inv)
    have n1: "n < length (sw_runs w1)" "rn_pc (sw_runs w1 ! n) = PageWait strict wire restore"
      using trigger_runs [of n "w\<lparr>sw_co := c\<rparr>"] n pc by (simp_all add: w1_def)
    have "guard_inv (set_pc n (page_wait x c) w1)" for x
      using n1 by (intro set_pc_same_class [OF inv1]) (simp_all add: page_wait_class, simp_all add: run_class)
    then show ?thesis
      using pages_end_inv [OF inv1 n1] Some \<open>answer = Some resp\<close>
      by (simp add: catchUpInternal_def page w1_def [symmetric] Let_def split: page_next.splits)
  qed
qed

lemma repair_class:
  assumes "rn_pc r = RepairWait a b c d e f"
  shows "guarded (r\<lparr>rn_pc := repair_wait x y gs\<rparr>) = guarded r" "counted (r\<lparr>rn_pc := repair_wait x y gs\<rparr>) = counted r"
    and "guarded (r\<lparr>rn_pc := RepairWait a' b' c' d' e' f'\<rparr>) = guarded r"
    and "counted (r\<lparr>rn_pc := RepairWait a' b' c' d' e' f'\<rparr>) = counted r"
  using assms by (cases gs; simp add: run_class)+

lemma driveGapRepairs_inv:
  assumes inv: "guard_inv w" and n: "n < length (sw_runs w)"
    and pc: "rn_pc (sw_runs w ! n) = RepairWait started known g rest hs page"
  shows "guard_inv (driveGapRepairs v now n answer started known g rest hs page w)"
proof -
  obtain next_hs c where page: "repair_page v now answer g hs page (sw_co w) = (next_hs, c)" by fastforce
  define hole where "hole = (case answer of None \<Rightarrow> False | Some resp \<Rightarrow> page_hole v now resp (sw_co w))"
  define w1 where "w1 = triggerGapCatchUp now hole (w\<lparr>sw_co := c\<rparr>)"
  have "guard_inv (w\<lparr>sw_co := c\<rparr>)"
    using same_guard_inv [OF inv co_same_guard] repair_page_frame [OF page] by simp
  then have inv1: "guard_inv w1" unfolding w1_def by (rule triggerGapCatchUp_inv)
  have n1: "n < length (sw_runs w1)" "rn_pc (sw_runs w1 ! n) = RepairWait started known g rest hs page"
    using trigger_runs [of n "w\<lparr>sw_co := c\<rparr>"] n pc by (simp_all add: w1_def)
  let ?w2 = "w1\<lparr>sw_co := repair_attempted g started (sw_co w1)\<rparr>"
  have inv2: "guard_inv ?w2"
    by (rule same_guard_inv [OF inv1 co_same_guard]) (simp add: repair_attempted_def)
  have "guard_inv (set_pc n (RepairWait started known g rest hs' (page + 1)) w1)" for hs'
    by (rule set_pc_same_class [OF inv1 n1(1)]) (rule repair_class [OF n1(2)])+
  moreover have "guard_inv (set_pc n (repair_wait started known rest) ?w2)"
    using n1 by (intro set_pc_same_class [OF inv2]) (simp_all add: repair_class)
  ultimately show ?thesis
    unfolding driveGapRepairs_def page Let_def hole_def [symmetric] prod.case w1_def [symmetric] by (simp split: option.split)
qed

lemma publication_pages_inv:
  assumes inv: "guard_inv w" and n: "n < length (sw_runs w)" and pc: "rn_pc (sw_runs w ! n) = PresentWait k"
    and kind: "rn_kind (sw_runs w ! n) = PublishRun"
  shows "guard_inv (publication_pages n w)"
proof (cases "sw_restoring w")
  case True
  then show ?thesis
    using finish_run_inv [OF inv n] pc kind by (simp add: publication_pages_def run_class)
next
  case restoring: False
  show ?thesis
  proof (cases "sw_catching w")
    case True
    then obtain m where m: "sw_in_flight w = Some m" using inv by (auto simp: guard_inv_def)
    then show ?thesis
      using set_pc_same_class [OF inv n, of "InFlightWait m"] pc kind True restoring
      by (simp add: publication_pages_def run_class)
  next
    case False
    let ?w = "publication_pages n w"
    define r where "r = \<lparr>rn_kind = PublishRun, rn_epoch = co_epoch (sw_co w), rn_pc = page_wait None (sw_co w)\<rparr>"
    have fields: "sw_runs ?w = (sw_runs w)[n := r]" "sw_co ?w = sw_co w" "sw_catching ?w" "sw_in_flight ?w = Some n"
      "sw_active ?w = sw_active w + 1" "sw_state ?w = in_flight_state"
      using False restoring by (simp_all add: publication_pages_def Let_def report_start_def r_def in_flight_state_def)
    have r: "guarded r" "counted r" "rn_epoch r = co_epoch (sw_co w)"
      by (simp_all add: r_def run_class page_wait_def)
    have cur: "current ?w m \<longleftrightarrow> m = n \<or> current w m" for m
      using n r(3) by (auto simp: current_def fields nth_list_update)
    have nth: "sw_runs ?w ! m = (if m = n then r else sw_runs w ! m)" for m
      using n by (cases "m = n") (simp_all add: fields)
    have "m \<in> holders ?w \<longleftrightarrow> m \<in> insert n (holders w)" for m
      using cur r(1) by (simp add: holders_def nth)
    moreover have "m \<in> reporters ?w \<longleftrightarrow> m \<in> insert n (reporters w)" for m
      using cur r(2) by (simp add: reporters_def nth)
    ultimately have "holders ?w = insert n (holders w)" "reporters ?w = insert n (reporters w)"
      by blast+
    then have sets: "holders ?w = {n}" "reporters ?w = {n}"
      using empty_reporters [OF inv False] by simp_all
    have "\<forall>r \<in> set (sw_runs ?w). rn_epoch r \<le> co_epoch (sw_co ?w)"
      using inv r(3) unfolding fields by (auto simp: guard_inv_def dest!: subsetD [OF set_update_subset_insert])
    then show ?thesis by (intro guard_after_start [OF inv False fields(3,4) sets fields(5,6)])
  qed
qed

lemma presented_inv:
  assumes "guard_inv w" "n < length (sw_runs w)" "rn_pc (sw_runs w ! n) = PresentWait k"
  shows "guard_inv (presented n w)"
proof (cases "rn_kind (sw_runs w ! n)")
  case CatchUpRun
  then show ?thesis
    using set_pc_same_class [OF assms(1,2), of "page_wait None (sw_co w)"] assms(3)
    by (simp add: presented_def page_wait_class, simp add: run_class)
qed (use publication_pages_inv [OF assms] in \<open>simp add: presented_def\<close>)

lemma restore_moves:
  assumes "guard_inv w" "n < length (sw_runs w)"
    and "rn_pc (sw_runs w ! n) \<in> {HandlerWait r, RestoreRegister r, RestorePresent r k, RewriteWait r}"
  shows "guard_inv (restore_throw n w)" and "guard_inv (rebound n d r w)" and "guard_inv (republished n r w)"
    and "guard_inv (finish_run n x (w\<lparr>sw_restoring := b\<rparr>))"
    and "guard_inv (set_pc n (RestorePresent r j) w)"
proof -
  have other: "guard_inv w'" "n < length (sw_runs w')" "sw_runs w' = sw_runs w" if "same_guard w w'" for w'
    using that assms(1,2) same_guard_inv by (auto simp: same_guard_def)
  have cls: "guarded ((sw_runs w ! n)\<lparr>rn_pc := pc\<rparr>) = guarded (sw_runs w ! n) \<and>
      counted ((sw_runs w ! n)\<lparr>rn_pc := pc\<rparr>) = counted (sw_runs w ! n)"
    if "pc \<in> {RestoreRegister r, RestorePresent r 0, RestorePresent r j, RewriteWait r}" for pc
    using assms(3) that by (auto simp: run_class)
  have fin: "guard_inv (finish_run n x w')" if same: "same_guard w w'" for x w'
    using finish_run_inv [OF other(1,2) [OF same]] other(3) [OF same] assms(3) by (auto simp: run_class)
  show "guard_inv (restore_throw n w)"
    unfolding restore_throw_def by (rule fin) (simp add: same_guard_def)
  show "guard_inv (finish_run n x (w\<lparr>sw_restoring := b\<rparr>))" by (rule fin) (simp add: same_guard_def)
  show "guard_inv (set_pc n (RestorePresent r j) w)"
    by (rule set_pc_same_class [OF assms(1,2)]) (simp_all add: cls)
  show "guard_inv (republished n r w)"
    by (rule set_pc_moves [OF assms(1,2), of "RewriteWait r"])
       (simp_all add: cls, simp add: republished_def same_guard_def set_pc_def)
  define pc where "pc = (if sw_registers w then RestoreRegister r else RestorePresent r 0)"
  have "pc \<in> {RestoreRegister r, RestorePresent r 0, RestorePresent r j, RewriteWait r}" by (simp add: pc_def)
  note same_class = cls [OF this]
  have "same_guard (set_pc n pc w) (rebound n d r w)"
    unfolding rebound_def pc_def same_guard_def set_pc_def by simp
  then show "guard_inv (rebound n d r w)"
    by (rule set_pc_moves [OF assms(1,2) same_class [THEN conjunct1] same_class [THEN conjunct2]])
qed

lemma resume_inv:
  assumes inv: "guard_inv w" and n: "n < length (sw_runs w)" and res: "resume v now n ans w = Some w'"
  shows "guard_inv w'"
proof (cases "rn_pc (sw_runs w ! n)")
  case (RepairWait started known g rest hs page)
  then show ?thesis
    using res driveGapRepairs_inv [OF inv n RepairWait] by (auto simp: resume_def split: sync_answer.splits)
next
  case RegisterWait
  then have "guard_inv (set_pc n (PresentWait 0) w)"
    by (intro set_pc_same_class [OF inv n]) (simp_all add: run_class)
  moreover have "guard_inv (finish_run n None w)"
    using RegisterWait by (intro finish_run_inv [OF inv n]) (simp_all add: run_class)
  ultimately show ?thesis
    using res RegisterWait by (auto simp: resume_def split: sync_answer.splits frame_answer.splits)
next
  case (PresentWait k)
  have "guard_inv (finish_run n x w)" for x
    using PresentWait by (intro finish_run_inv [OF inv n]) (simp_all add: run_class)
  moreover have "guard_inv (set_pc n (PresentWait j) w)" for j
    using PresentWait by (intro set_pc_same_class [OF inv n]) (simp_all add: run_class)
  ultimately show ?thesis
    using res PresentWait presented_inv [OF inv n PresentWait]
    by (auto simp: resume_def split: sync_answer.splits present_next.splits run_kind.splits)
next
  case (PageWait strict wire restore)
  then show ?thesis
    using res catchUpInternal_inv [OF inv n PageWait] by (auto simp: resume_def split: sync_answer.splits)
next
  case (InFlightWait m)
  have "guard_inv (finish_run n x w)" for x
    using InFlightWait by (intro finish_run_inv [OF inv n]) (simp_all add: run_class)
  then show ?thesis
    using res InFlightWait by (auto simp: resume_def split: sync_answer.splits sync_pc.splits if_splits)
next
  case (HandlerWait r)
  then have pc: "rn_pc (sw_runs w ! n) \<in> {HandlerWait r, RestoreRegister r, RestorePresent r 0, RewriteWait r}" by simp
  show ?thesis
    using res HandlerWait restore_moves(1,2,4) [OF inv n pc]
    by (auto simp: resume_def restore_device_def split: sync_answer.splits option.splits if_splits)
next
  case (RestoreRegister r)
  then have pc: "rn_pc (sw_runs w ! n) \<in> {HandlerWait r, RestoreRegister r, RestorePresent r 0, RewriteWait r}" by simp
  show ?thesis
    using res RestoreRegister restore_moves(1,5) [OF inv n pc]
    by (auto simp: resume_def split: sync_answer.splits frame_answer.splits)
next
  case (RestorePresent r k)
  then have pc: "rn_pc (sw_runs w ! n) \<in> {HandlerWait r, RestoreRegister r, RestorePresent r k, RewriteWait r}" by simp
  show ?thesis
    using res RestorePresent restore_moves(1,3,5) [OF inv n pc]
    by (auto simp: resume_def split: sync_answer.splits present_next.splits)
next
  case (RewriteWait r)
  then have pc: "rn_pc (sw_runs w ! n) \<in> {HandlerWait r, RestoreRegister r, RestorePresent r 0, RewriteWait r}" by simp
  show ?thesis
    using res RewriteWait restore_moves(1,4) [OF inv n pc]
    by (auto simp: resume_def split: sync_answer.splits if_splits)
qed (use res in \<open>simp add: resume_def\<close>)

lemma reconnect_inv: "guard_inv w \<Longrightarrow> guard_inv (resetForReconnect w)"
proof -
  assume inv: "guard_inv w"
  have "\<not> current (resetForReconnect w) n" for n
  proof
    assume c: "current (resetForReconnect w) n"
    then have "sw_runs w ! n \<in> set (sw_runs w)" by (simp add: current_def resetForReconnect_def)
    moreover have "\<forall>r \<in> set (sw_runs w). rn_epoch r \<le> co_epoch (sw_co w)" using inv by (simp add: guard_inv_def)
    ultimately have "rn_epoch (sw_runs w ! n) \<le> co_epoch (sw_co w)" by blast
    then show False using c by (simp add: current_def resetForReconnect_def)
  qed
  then have "holders (resetForReconnect w) = {}" "reporters (resetForReconnect w) = {}"
    by (simp_all add: holders_def reporters_def)
  then show ?thesis
    using inv by (auto simp: guard_inv_def resetForReconnect_def)
qed

lemma applySyncResponse_inv: "guard_inv w \<Longrightarrow> guard_inv (applySyncResponse v now resp w)"
proof (cases "computeRestoreDisposition (sy_heads resp) (sw_co w)")
  case (Some b)
  assume inv: "guard_inv w"
  define c where "c = snd (applySyncResponsePage v now (sy_entries resp) (sw_co w))"
  have frame: "co_epoch c = co_epoch (sw_co w)"
    using page_frame [of v now "sy_entries resp" "sw_co w"] by (simp add: c_def prod_eq_iff)
  define w1 where "w1 = triggerGapCatchUp now (page_hole v now resp (sw_co w)) (w\<lparr>sw_co := c\<rparr>)"
  have inv1: "guard_inv w1"
    unfolding w1_def by (intro triggerGapCatchUp_inv same_guard_inv [OF inv co_same_guard] frame)
  have "guard_inv (w1\<lparr>sw_state := st\<rparr>)" if "sw_active w1 = 0" for st
  proof -
    have "reporters w1 = {}" using inv1 that by (simp add: guard_inv_def split: if_splits)
    moreover have "reporters (w1\<lparr>sw_state := st\<rparr>) = reporters w1" "holders (w1\<lparr>sw_state := st\<rparr>) = holders w1"
      by (simp_all add: reporters_def holders_def current_def)
    ultimately show ?thesis using inv1 by (simp add: guard_inv_def)
  qed
  then show ?thesis
    using inv1 Some unfolding applySyncResponse_def Some option.case Let_def c_def [symmetric] w1_def [symmetric]
    by (intro triggerGapCatchUp_inv) simp
qed (simp add: applySyncResponse_def)

lemma replay_frame: "replay_entries v now es c = (c', m, t) \<Longrightarrow> co_epoch c' = co_epoch c"
proof (induction es arbitrary: c c' m t)
  case (Cons p es)
  obtain k jws where p: "p = (k, jws)" by (cases p)
  obtain r c1 where r: "receive_entry v now jws c = (r, c1)" by fastforce
  have frame: "co_epoch c1 = co_epoch c" using receive_entry_frame [of v now jws c] by (simp add: r)
  show ?case
    using Cons.prems Cons.IH frame by (cases r) (auto simp: p r split: prod.splits)
qed simp

lemma sync_step_inv: "sync_step w e w' \<Longrightarrow> guard_inv w \<Longrightarrow> guard_inv w'"
proof (induction rule: sync_step.induct)
  case (entry_arrived w v now message)
  obtain r c where r: "receiveLogEntry v now message (sw_co w) = (r, c)" by fastforce
  have frame: "co_epoch c = co_epoch (sw_co w)"
    using r receive_entry_frame
    by (auto simp: receiveLogEntry_def prod_eq_iff split: option.splits if_splits)
  have "guard_inv (w\<lparr>sw_co := c\<rparr>)" by (intro same_guard_inv [OF entry_arrived co_same_guard] frame)
  then show ?case by (auto simp: live_entry_def r intro: triggerGapCatchUp_inv split: receive_outcome.splits)
next
  case (response_arrived w v now message)
  then show ?case by (auto simp: handle_sync_response_def intro: applySyncResponse_inv split: option.splits)
next
  case (keys_imported w v now)
  obtain c m hole where r: "replayBlockedByKey v now (sw_co w) = (c, m, hole)" using prod_cases3 by blast
  have "co_epoch c = co_epoch (sw_co w)" using r replay_frame by (auto simp: replayBlockedByKey_def)
  then show ?case
    using keys_imported by (auto simp: replay_blocked_def r intro!: triggerGapCatchUp_inv same_guard_inv [OF _ co_same_guard])
qed (auto intro: catchUp_inv ensurePublished_inv resume_inv reconnect_inv same_guard_inv [OF _ co_same_guard])

definition idle_world :: "sync_world \<Rightarrow> bool" where
  "idle_world w \<longleftrightarrow> sw_runs w = [] \<and> \<not> sw_catching w \<and> sw_active w = 0"

interpretation guard: invariant_system idle_world sync_step guard_inv
proof
  show "guard_inv w" if "idle_world w" for w
    using that by (simp add: idle_world_def guard_inv_def holders_def reporters_def current_def)
qed (rule sync_step_inv)

section \<open>The property\<close>

text \<open>C11: on one connection at most one run pages through the log at any time, however calls, reconnects,
  late answers of old connections, live entries and restores interleave. The guard is set exactly while
  such a run is busy, so it is never left behind; the counter of active runs is exact, and while it is
  positive the reported state is \<^verbatim>\<open>in-flight\<close>.\<close>

theorem one_catch_up_per_connection:
  assumes "idle_world w0" "run sync_step w0 evs w"
  shows "(\<forall>m n. current w m \<and> guarded (sw_runs w ! m) \<and> current w n \<and> guarded (sw_runs w ! n) \<longrightarrow> m = n) \<and>
    (sw_catching w \<longleftrightarrow> (\<exists>n. current w n \<and> guarded (sw_runs w ! n))) \<and>
    sw_active w = (if \<exists>n. current w n \<and> counted (sw_runs w ! n) then 1 else 0) \<and>
    ((\<exists>n. current w n \<and> counted (sw_runs w ! n)) \<longrightarrow> sw_state w = in_flight_state)"
proof -
  have inv: "guard_inv w" using assms by (rule guard.init_run_inv)
  have holds: "n \<in> holders w \<longleftrightarrow> current w n \<and> guarded (sw_runs w ! n)" for n by (simp add: holders_def)
  have reports: "reporters w \<noteq> {} \<longleftrightarrow> (\<exists>n. current w n \<and> counted (sw_runs w ! n))" by (auto simp: reporters_def)
  have one: "\<forall>m n. m \<in> holders w \<and> n \<in> holders w \<longrightarrow> m = n" "sw_catching w \<longleftrightarrow> (\<exists>n. n \<in> holders w)"
    using inv by (auto simp: guard_inv_def split: if_splits)
  have "sw_active w = (if reporters w \<noteq> {} then 1 else 0)" "reporters w \<noteq> {} \<longrightarrow> sw_state w = in_flight_state"
    using inv by (simp_all add: guard_inv_def)
  then show ?thesis using one unfolding holds reports by simp
qed

text \<open>
  A catch-up waits for its capability when the connection is replaced; the new connection starts its own.
  When the old one fails, the guard stays with the new one.
\<close>

definition example_env :: sync_env where
  "example_env = \<lparr>sv_rt = sample_runtime, sv_ciphers = toy_ciphers, sv_key = (\<lambda>g. None), sv_apply = (\<lambda>us u. True)\<rparr>"

definition example_world :: sync_world where
  "example_world = new_world (new_coordinator ''d'' ''x'' new_client_store) False False"

definition late_failure :: "sync_event list" where
  "late_failure = [CatchUpCalled 0, Reconnected, CatchUpCalled 5, Resumed example_env 6 0 (Frame FrameFailed)]"

lemma late_failure_run:
  "\<exists>w. run sync_step example_world late_failure w \<and> map rn_pc (sw_runs w) = [Settled None, PresentWait 0] \<and>
     map rn_epoch (sw_runs w) = [0, 1] \<and> map rn_kind (sw_runs w) = [CatchUpRun, CatchUpRun] \<and> co_epoch (sw_co w) = 1"
proof -
  let ?w1 = "catchUp 0 example_world"
  let ?w3 = "catchUp 5 (resetForReconnect ?w1)"
  let ?w4 = "finish_run 0 None ?w3"
  have fields: "example_world = new_world (new_coordinator ''d'' ''x'' new_client_store) False False"
    by (simp add: example_world_def)
  have runs: "map rn_pc (sw_runs ?w3) = [PresentWait 0, PresentWait 0]" "map rn_epoch (sw_runs ?w3) = [0, 1]"
      "map rn_kind (sw_runs ?w3) = [CatchUpRun, CatchUpRun]" "co_epoch (sw_co ?w3) = 1"
    by (simp_all add: fields new_world_def new_coordinator_def new_client_store_def catchUp_def resetForReconnect_def
        report_start_def Let_def listDueGapRepairs_def)
  have len: "length (sw_runs ?w3) = 2" using arg_cong [OF runs(2), of length] by simp
  have pc: "rn_pc (sw_runs ?w3 ! 0) = PresentWait 0" using arg_cong [OF runs(1), of "\<lambda>xs. xs ! 0"] len by (simp add: nth_map)
  have "resume example_env 6 0 (Frame FrameFailed) ?w3 = Some ?w4"
    by (simp add: resume_def pc presentCapabilityWithRetry_def)
  then have last_step: "sync_step ?w3 (Resumed example_env 6 0 (Frame FrameFailed)) ?w4"
    using len by (intro sync_step.resumed) simp_all
  have "run sync_step example_world late_failure ?w4"
    unfolding late_failure_def
    by (rule run_cons, rule sync_step.catch_up_called, rule run_cons, rule sync_step.reconnected,
        rule run_cons, rule sync_step.catch_up_called, rule run_cons, rule last_step, rule run_nil)
  moreover have "map rn_pc (sw_runs ?w4) = [Settled None, PresentWait 0]" "map rn_epoch (sw_runs ?w4) = [0, 1]"
      "map rn_kind (sw_runs ?w4) = [CatchUpRun, CatchUpRun]"
    using runs len by (simp_all add: finish_run_fields set_pc_def map_update pc)
      (cases "sw_runs ?w3"; simp)+
  ultimately show ?thesis using runs(4) by (auto simp: finish_run_fields)
qed

theorem one_catch_up_witness:
  "\<exists>w. run sync_step example_world late_failure w \<and> rn_pc (sw_runs w ! 0) = Settled None \<and>
     sw_catching w \<and> sw_active w = 1 \<and> sw_state w = in_flight_state"
proof -
  obtain w where w: "run sync_step example_world late_failure w" "map rn_pc (sw_runs w) = [Settled None, PresentWait 0]"
    "map rn_epoch (sw_runs w) = [0, 1]" "map rn_kind (sw_runs w) = [CatchUpRun, CatchUpRun]" "co_epoch (sw_co w) = 1"
    using late_failure_run by (elim exE conjE) (rule that; assumption)
  obtain r0 r1 where two: "sw_runs w = [r0, r1]" using w(2) by (auto simp: map_eq_Cons_conv)
  have runs: "sw_runs w = [r0, r1]" "rn_pc r0 = Settled None" "rn_pc r1 = PresentWait 0" "rn_epoch r1 = 1"
      "rn_kind r1 = CatchUpRun"
    using w(2,3,4) by (simp_all add: two)
  have idle: "idle_world example_world" by (simp add: idle_world_def example_world_def new_world_def)
  have busy: "current w 1 \<and> guarded (sw_runs w ! 1)" "current w 1 \<and> counted (sw_runs w ! 1)"
    using runs w(5) by (simp_all add: current_def run_class)
  note facts = one_catch_up_per_connection [OF idle w(1)]
  have "\<exists>n. current w n \<and> counted (sw_runs w ! n)" using busy(2) by blast
  then have "sw_active w = 1 \<and> sw_state w = in_flight_state" using facts by (simp only: if_True simp_thms)
  moreover have "\<exists>n. current w n \<and> guarded (sw_runs w ! n)" using busy(1) by blast
  then have "sw_catching w" using facts by (simp only: simp_thms)
  ultimately show ?thesis using w(1) runs(1,2) by (intro exI [of _ w]) simp
qed

end
