(* ===== verification/ClientConverge.thy ===== *)
theory ClientConverge
  imports ClientCatchUp RelayExample
begin

text \<open>
  A client that catches up against a broker: the pages are those of the relay's own \<open>sync_page\<close>, the
  entries those of its log. What a complete catch-up guarantees, and that a catch-up over logs without
  holes ends, with every entry of the broker, after at most one page per entry.
\<close>

section \<open>Entries the client can read\<close>

definition good_entry :: "sync_env \<Rightarrow> string \<Rightarrow> string \<Rightarrow> string \<times> int \<Rightarrow> bool" where
  "good_entry v docId jws k \<longleftrightarrow> (\<exists>e. verifyLogEntryJws (sv_rt v) jws = Some e \<and> le_doc e = docId \<and>
     (le_device e, le_seq e) = k \<and> readable v e \<noteq> None) \<and> (\<forall>us u. sv_apply v us u)"

text \<open>What is marked as applied is stored.\<close>

definition marks_stored :: "coordinator \<Rightarrow> bool" where
  "marks_stored c \<longleftrightarrow> plain_docs (co_store c) \<and>
     (\<forall>(dev, n) \<in> co_applied c. n \<in> stored_seqs (co_doc c) dev (co_store c))"

lemma receive_good:
  assumes good: "good_entry v (co_doc c) jws (dev, n)" and marks: "marks_stored c"
  shows "marks_stored (snd (receive_entry v now jws c)) \<and>
    (\<forall>d. stored_seqs (co_doc c) d (co_store (snd (receive_entry v now jws c))) =
      (if d = dev then insert n (stored_seqs (co_doc c) d (co_store c)) else stored_seqs (co_doc c) d (co_store c)))"
proof -
  obtain e pt where e: "verifyLogEntryJws (sv_rt v) jws = Some e" "le_doc e = co_doc c" "le_device e = dev" "le_seq e = n"
      "readable v e = Some pt" and app: "\<forall>us u. sv_apply v us u"
    using good by (auto simp: good_entry_def)
  have plain: "CHR 0x00 \<notin> set (co_doc c)" using verified_doc_plain [OF e(1)] e(2) by simp
  have docs: "plain_docs (co_store c)" using marks by (simp add: marks_stored_def)
  have known: "getEntry (co_doc c) dev n (co_store c) \<noteq> None \<longleftrightarrow> n \<in> stored_seqs (co_doc c) dev (co_store c)"
    by (rule getEntry_stored [OF docs plain])
  show ?thesis
  proof (cases "n \<in> stored_seqs (co_doc c) dev (co_store c)")
    case True
    then have "receive_entry v now jws c = (IdempotentSkip dev n, c\<lparr>co_applied := insert (dev, n) (co_applied c)\<rparr>)"
      using e known by (simp add: receive_entry_def processRemoteEntry_def)
    then show ?thesis using True marks by (auto simp: marks_stored_def insert_absorb)
  next
    case False
    then have "(dev, n) \<notin> co_applied c" using marks by (auto simp: marks_stored_def)
    then have r: "snd (receive_entry v now jws c) = markRemoteApplied dev n
        (c\<lparr>co_updates := co_updates c @ [pt], co_store := recordRemoteApplied (remote_of e jws) now (co_store c)\<rparr>)"
      using e app known False by (simp add: receive_entry_def processRemoteEntry_def)
    have re: "re_doc (remote_of e jws) = co_doc c" "re_device (remote_of e jws) = dev" "re_seq (remote_of e jws) = n"
      using e by (simp_all add: remote_of_def)
    have "plain_docs (recordRemoteApplied (remote_of e jws) now (co_store c))"
      using plain_docs_recordRemoteApplied [OF docs] plain re by simp
    then show ?thesis
      using stored_seqs_recordRemoteApplied [OF docs, of "remote_of e jws"] plain re marks
      unfolding r by (auto simp: marks_stored_def markRemoteApplied_def)
  qed
qed

lemma receive_all_good:
  assumes "list_all2 (good_entry v docId) es ks" "marks_stored c" "co_doc c = docId"
  shows "marks_stored (receive_all v now es c) \<and>
    (\<forall>d. stored_seqs docId d (co_store (receive_all v now es c)) =
       stored_seqs docId d (co_store c) \<union> {n. (d, n) \<in> set ks})"
  using assms
proof (induction es ks arbitrary: c rule: list_all2_induct)
  case (Cons jws es k ks)
  obtain dev n where k: "k = (dev, n)" by (cases k)
  let ?c = "snd (receive_entry v now jws c)"
  have one: "marks_stored ?c" "\<forall>d. stored_seqs docId d (co_store ?c) =
      (if d = dev then insert n (stored_seqs docId d (co_store c)) else stored_seqs docId d (co_store c))"
    using receive_good [of v c jws dev n now] Cons.hyps(1) Cons.prems by (auto simp: k)
  have "co_doc ?c = docId" using receive_entry_frame Cons.prems(2) by simp
  from Cons.IH [OF one(1) this] one(2) show ?case by (auto simp: k receive_all_def)
qed (simp add: receive_all_def)

section \<open>What a page records\<close>

text \<open>The lowest number a page delivered for a device, when all its entries are readable.\<close>

lemma map_of_note_seq:
  "map_of (note_seq better dev n hs) d =
     (if d = dev then (case map_of hs dev of None \<Rightarrow> Some n | Some m \<Rightarrow> Some (if better n m then n else m)) else map_of hs d)"
  by (auto simp: note_seq_def update_conv' map_add_def split: option.splits)

lemma page_entry_good:
  assumes good: "good_entry v docId jws (dev, n)" and doc: "co_doc (pw_co w) = docId"
  shows "pw_lowest (page_entry v D jws w) = note_seq (<) dev n (pw_lowest w) \<and>
    length (pw_persist (page_entry v D jws w)) + pw_skips (page_entry v D jws w) = length (pw_persist w) + pw_skips w + 1 \<and>
    co_doc (pw_co (page_entry v D jws w)) = docId"
proof -
  obtain e pt where e: "verifyLogEntryJws (sv_rt v) jws = Some e" "le_doc e = docId" "le_device e = dev" "le_seq e = n"
      "readable v e = Some pt" and app: "\<forall>us u. sv_apply v us u"
    using good by (auto simp: good_entry_def)
  show ?thesis
    using e app doc
    by (cases "(dev, n) \<in> co_applied (pw_co w) \<or> (dev, n) \<in> set D \<or> pending_key w dev n")
       (auto simp: page_entry_def processRemoteEntry_def noteSeq_def)
qed

definition lowest_ok :: "heads \<Rightarrow> (string \<times> int) set \<Rightarrow> bool" where
  "lowest_ok low K \<longleftrightarrow> (\<forall>d. (case map_of low d of
     None \<Rightarrow> \<forall>n. (d, n) \<notin> K | Some l \<Rightarrow> (d, l) \<in> K \<and> (\<forall>n. (d, n) \<in> K \<longrightarrow> l \<le> n)))"

lemma lowest_ok_note:
  assumes ok: "lowest_ok low K"
  shows "lowest_ok (note_seq (<) dev n low) (insert (dev, n) K)"
  unfolding lowest_ok_def
proof
  fix d
  have at_d: "case map_of low d of None \<Rightarrow> \<forall>m. (d, m) \<notin> K | Some l \<Rightarrow> (d, l) \<in> K \<and> (\<forall>m. (d, m) \<in> K \<longrightarrow> l \<le> m)"
    using ok by (simp add: lowest_ok_def)
  show "case map_of (note_seq (<) dev n low) d of
      None \<Rightarrow> \<forall>m. (d, m) \<notin> insert (dev, n) K
    | Some l \<Rightarrow> (d, l) \<in> insert (dev, n) K \<and> (\<forall>m. (d, m) \<in> insert (dev, n) K \<longrightarrow> l \<le> m)"
  proof (cases "d = dev")
    case True
    then show ?thesis
      using at_d by (cases "map_of low dev") (simp_all add: map_of_note_seq, fastforce)
  next
    case False
    then show ?thesis using at_d by (simp add: map_of_note_seq split: option.splits)
  qed
qed

lemma page_fold_good:
  assumes "list_all2 (good_entry v docId) es ks" "co_doc (pw_co w) = docId" "lowest_ok (pw_lowest w) K"
  shows "lowest_ok (pw_lowest (fold (page_entry v D) es w)) (K \<union> set ks) \<and>
    length (pw_persist (fold (page_entry v D) es w)) + pw_skips (fold (page_entry v D) es w) =
      length (pw_persist w) + pw_skips w + length es"
  using assms
proof (induction es ks arbitrary: w K rule: list_all2_induct)
  case (Cons jws es k ks)
  obtain dev n where k: "k = (dev, n)" by (cases k)
  have one: "pw_lowest (page_entry v D jws w) = note_seq (<) dev n (pw_lowest w)"
    "length (pw_persist (page_entry v D jws w)) + pw_skips (page_entry v D jws w) = length (pw_persist w) + pw_skips w + 1"
    "co_doc (pw_co (page_entry v D jws w)) = docId"
    using page_entry_good [of v docId jws dev n w D] Cons.hyps(1) Cons.prems(1) by (auto simp: k)
  have "lowest_ok (pw_lowest (page_entry v D jws w)) (insert (dev, n) K)"
    unfolding one(1) by (rule lowest_ok_note [OF Cons.prems(2)])
  from Cons.IH [OF one(3) this] one(2) show ?case by (simp add: k)
qed simp

lemma page_good:
  assumes "list_all2 (good_entry v (co_doc c)) es ks"
  shows "lowest_ok (pw_lowest (page_computed v es c)) (set ks)"
    and "length (pw_persist (page_computed v es c)) + pw_skips (page_computed v es c) = length es"
proof -
  have "lowest_ok (pw_lowest (page_start c)) {}" by (simp add: lowest_ok_def page_start_def)
  from page_fold_good [OF assms _ this] show "lowest_ok (pw_lowest (page_computed v es c)) (set ks)"
    and "length (pw_persist (page_computed v es c)) + pw_skips (page_computed v es c) = length es"
    by (simp_all add: page_computed_def page_start_def)
qed

section \<open>The heads of a request\<close>

lemma map_of_filter_values:
  "distinct (map fst xs) \<Longrightarrow> map_of (filter P xs) k =
     (case map_of xs k of None \<Rightarrow> None | Some v \<Rightarrow> if P (k, v) then Some v else None)"
  by (induction xs) (auto simp: map_of_eq_None_iff split: option.splits)

lemma strict_of_ge: "-1 \<le> strict_of docId device s"
  using strict_head_device_seqs [of docId device s] by (simp add: strict_head_def)

lemma strict_of_next: "strict_of docId device s + 1 \<notin> stored_seqs docId device s"
  using strict_head_device_seqs [of docId device s] by (simp add: strict_head_def)

lemma strict_of_stored: "0 \<le> i \<Longrightarrow> i \<le> strict_of docId device s \<Longrightarrow> i \<in> stored_seqs docId device s"
  using strict_head_device_seqs [of docId device s] by (simp add: strict_head_def)

lemma head_of_strict_heads: "head_of (getStrictContiguousHeads docId s) device = strict_of docId device s"
proof (cases "stored_seqs docId device s = {}")
  case True
  then have "device_seqs docId device s = []" using set_device_seqs by (metis set_empty)
  then show ?thesis using True by (simp add: head_of_def map_of_strict_heads strictContiguousHead_def)
qed (simp add: head_of_def map_of_strict_heads)

lemma head_of_requested:
  assumes "soft_gaps docId s = []"
  shows "head_of (sq_heads (requestSyncPage docId limit (getSyncRequestHeads docId s))) device = strict_of docId device s"
proof -
  have "distinct (map fst (getStrictContiguousHeads docId s))"
    by (simp add: getStrictContiguousHeads_def seqsByDevice_def comp_def)
  from map_of_filter_values [OF this]
  have "head_of (filter (\<lambda>(dev, n). n \<ge> 0) (getStrictContiguousHeads docId s)) device =
      (if head_of (getStrictContiguousHeads docId s) device \<ge> 0 then head_of (getStrictContiguousHeads docId s) device else -1)"
    by (auto simp: head_of_def split: option.splits)
  then show ?thesis
    using strict_of_ge [of docId device s]
    by (simp add: requestSyncPage_def wire_heads_no_soft [OF assms] head_of_strict_heads)
qed

section \<open>A broker whose entries the client can read\<close>

definition readable_log :: "sync_env \<Rightarrow> string \<Rightarrow> db \<Rightarrow> bool" where
  "readable_log v docId d \<longleftrightarrow> log_keys d \<and> (\<forall>r \<in> set (doc_rows docId d). good_entry v docId (log_jws r) (coord r))"

definition row_seqs :: "string \<Rightarrow> string \<Rightarrow> db \<Rightarrow> int set" where
  "row_seqs docId dev d = log_seq ` {r \<in> set (doc_log d). log_doc r = docId \<and> log_device r = dev}"

text \<open>What the broker and the client hold of each device together is an initial segment.\<close>

definition unbroken :: "string \<Rightarrow> db \<Rightarrow> client_store \<Rightarrow> bool" where
  "unbroken docId d s \<longleftrightarrow> (\<forall>dev. \<exists>N. stored_seqs docId dev s \<union> row_seqs docId dev d = {0..<N})"

text \<open>The entries of the broker that the client does not hold.\<close>

definition lacking :: "string \<Rightarrow> db \<Rightarrow> client_store \<Rightarrow> log_row list" where
  "lacking docId d s = filter (\<lambda>r. log_seq r \<notin> stored_seqs docId (log_device r) s) (doc_rows docId d)"

lemma row_seqs_rows: "n \<in> row_seqs docId dev d \<longleftrightarrow> (\<exists>r \<in> set (doc_rows docId d). coord r = (dev, n))"
  by (auto simp: row_seqs_def doc_rows_def)

lemma next_is_row:
  assumes "unbroken docId d s" "n \<in> row_seqs docId dev d" "strict_of docId dev s < n"
  shows "strict_of docId dev s + 1 \<in> row_seqs docId dev d"
proof -
  obtain N where N: "stored_seqs docId dev s \<union> row_seqs docId dev d = {0..<N}"
    using assms(1) by (auto simp: unbroken_def)
  then have "n < N" using assms(2) by (metis UnI2 atLeastLessThan_iff)
  then have "strict_of docId dev s + 1 \<in> {0..<N}" using assms(3) strict_of_ge [of docId dev s] by simp
  then show ?thesis using N strict_of_next [of docId dev s] by (metis UnE)
qed

lemma gaps_shrink_receive:
  "set (cs_gaps (co_store (snd (receive_entry v now jws c)))) \<subseteq> set (cs_gaps (co_store c))"
proof -
  let ?known = "\<lambda>dev n. getEntry (co_doc c) dev n (co_store c) \<noteq> None"
  obtain r c' where p: "processRemoteEntry v ?known jws c = (r, c')" by fastforce
  show ?thesis
    using processRemoteEntry_frame [OF p] unfolding receive_entry_def p
    by (cases r) (auto simp: markRemoteApplied_def recordRemoteApplied_def autoResolveGaps_def row_delete_def Let_def
        split: option.splits)
qed

lemma gaps_shrink: "set (cs_gaps (co_store (receive_all v now es c))) \<subseteq> set (cs_gaps (co_store c))"
proof (induction es arbitrary: c)
  case (Cons jws es)
  show ?case
    using Cons [of "snd (receive_entry v now jws c)"] gaps_shrink_receive [of v now jws c] by (simp add: receive_all_def)
qed (simp add: receive_all_def)

lemma soft_gaps_empty: "soft_gaps docId s = [] \<longleftrightarrow> (\<forall>g \<in> set (cs_gaps s). \<not> (gr_doc g = docId \<and> gr_soft g))"
proof -
  have "soft_gaps docId s = [] \<longleftrightarrow> filter (\<lambda>g. gr_doc g = docId \<and> gr_soft g) (cs_gaps s) = []"
    by (simp only: soft_gaps_def set_empty [symmetric] set_sort)
  then show ?thesis by (simp add: filter_empty_conv)
qed

section \<open>A page of the broker\<close>

text \<open>What holds between two pages.\<close>

definition synced_ok :: "sync_env \<Rightarrow> db \<Rightarrow> coordinator \<Rightarrow> bool" where
  "synced_ok v d c \<longleftrightarrow> marks_stored c \<and> soft_gaps (co_doc c) (co_store c) = [] \<and>
     readable_log v (co_doc c) d \<and> unbroken (co_doc c) d (co_store c)"

lemma page_lowest_in_reach:
  assumes ok: "unbroken docId d s" and keys: "log_keys d"
    and low: "lowest_ok low (set (map coord (take n (missing_rows docId hs d))))"
    and hs: "\<And>dev. head_of hs dev = strict_of docId dev s" and l: "map_of low dev = Some l"
  shows "l \<le> strict_of docId dev s + 1"
proof -
  let ?M = "missing_rows docId hs d"
  have in_page: "(dev, l) \<in> set (map coord (take n ?M))" "\<And>m. (dev, m) \<in> set (map coord (take n ?M)) \<Longrightarrow> l \<le> m"
    using low l unfolding lowest_ok_def by (metis (mono_tags, lifting) option.simps(5))+
  obtain r where r: "r \<in> set (take n ?M)" "coord r = (dev, l)" using in_page(1) by auto
  have above: "strict_of docId dev s < l" "l \<in> row_seqs docId dev d"
    using in_set_takeD [OF r(1)] r(2) hs by (auto simp: missing_rows_def row_seqs_rows)
  obtain q where q: "q \<in> set (doc_rows docId d)" "coord q = (dev, strict_of docId dev s + 1)"
    using next_is_row [OF ok above(2,1)] by (auto simp: row_seqs_rows)
  then have "q \<in> set ?M" using hs by (simp add: missing_rows_def)
  show ?thesis
  proof (cases "q \<in> set (take n ?M)")
    case True
    then have "coord q \<in> set (map coord (take n ?M))" by simp
    then show ?thesis using in_page(2) q(2) by simp
  next
    case False
    then have "q \<in> set (drop n ?M)" using \<open>q \<in> set ?M\<close> by (metis UnE append_take_drop_id set_append)
    moreover have "sorted_wrt (\<lambda>a b. coord a < coord b) (take n ?M @ drop n ?M)"
      using missing_rows_sorted [OF keys] by simp
    ultimately have "coord r < coord q" using r(1) by (simp only: sorted_wrt_append)
    then show ?thesis using r(2) q(2) by (simp add: less_prod_def)
  qed
qed

lemma no_gap_recorded:
  assumes "\<And>dev l. map_of low dev = Some l \<Longrightarrow> l \<le> head_of cursor dev + 1"
  shows "recordGapsFromPage heads low cursor now c = c"
proof -
  have "gap_from_page (co_doc c) known low cursor (co_epoch c) now b s = s" for known b s
    using assms by (cases b) (simp add: gap_from_page_def Let_def split: option.splits)
  then have "fold (gap_from_page (co_doc c) known low cursor (co_epoch c) now) bs s = s" for known bs s
    by (induction bs) simp_all
  then show ?thesis by (simp add: recordGapsFromPage_def)
qed

lemma good_entries:
  assumes "readable_log v docId d" "set rs \<subseteq> set (doc_rows docId d)"
  shows "list_all2 (good_entry v docId) (map log_jws rs) (map coord rs)"
  using assms by (auto simp: readable_log_def list_all2_conv_all_nth) (meson nth_mem subsetD)

lemma row_seq_nonneg:
  assumes "readable_log v docId d" "r \<in> set (doc_rows docId d)"
  shows "0 \<le> log_seq r"
  using assms verified_entry_ok by (fastforce simp: readable_log_def good_entry_def log_entry_ok_def)

lemma sync_page_requested:
  fixes limit wire docId
  defines "q \<equiv> requestSyncPage docId limit wire" and "n \<equiv> nat (page_limit limit)"
  shows "sy_entries (sync_page q d) = map log_jws (take n (missing_rows docId (sq_heads q) d))"
    and "sy_truncated (sync_page q d) \<longleftrightarrow> n < length (missing_rows docId (sq_heads q) d)"
proof -
  have "0 < page_limit limit" by (simp add: page_limit_def DEFAULT_CATCH_UP_PAGE_SIZE_def split: option.splits)
  then have "int n = page_limit limit" "\<not> int n < 0" by (simp_all add: n_def)
  moreover have "sq_doc q = docId" "sq_limit q = Some (page_limit limit)" by (simp_all add: q_def requestSyncPage_def)
  ultimately show "sy_entries (sync_page q d) = map log_jws (take n (missing_rows docId (sq_heads q) d))"
    and "sy_truncated (sync_page q d) \<longleftrightarrow> n < length (missing_rows docId (sq_heads q) d)"
    by (simp_all add: sync_page_def getSinceWithTruncation_def js_slice0_def Let_def flip: \<open>int n = page_limit limit\<close>)
qed

lemma strict_advanced:
  assumes "soft_gaps docId s = []" "strict_of docId dev s + 1 \<in> stored_seqs docId dev s'"
    and "\<And>i. i \<in> stored_seqs docId dev s \<Longrightarrow> i \<in> stored_seqs docId dev s'"
  shows "headsAdvanced (getStrictContiguousHeads docId s) (getStrictContiguousHeads docId s')"
proof -
  have "strict_of docId dev s < strict_of docId dev s'"
  proof (rule ccontr)
    assume "\<not> strict_of docId dev s < strict_of docId dev s'"
    moreover have "strict_of docId dev s \<le> strict_of docId dev s'" using assms(3) by (intro strict_of_mono) blast
    ultimately show False using strict_of_next [of docId dev s'] assms(2) by simp
  qed
  moreover have "map_of (getStrictContiguousHeads docId s') dev = Some (strict_of docId dev s')"
    using assms(2) by (auto simp: map_of_strict_heads)
  ultimately show ?thesis
    unfolding headsAdvanced_def list_ex_iff using map_of_SomeD head_of_strict_heads by fastforce
qed

lemma distinct_known_heads: "distinct (map fst (getKnownHeads docId s))"
proof -
  have "distinct (map fst (fold (\<lambda>e hs. if ce_doc e \<noteq> docId then hs
                 else case map_of hs (ce_device e) of
                     None \<Rightarrow> hs @ [(ce_device e, ce_seq e)]
                   | Some m \<Rightarrow> if ce_seq e > m then AList.update (ce_device e) (ce_seq e) hs else hs) es hs))"
    if "distinct (map fst hs)" for es and hs :: heads
    using that
    by (induction es arbitrary: hs) (auto simp: map_of_eq_None_iff distinct_update split: option.splits)
  from this [of "[]"] show ?thesis by (simp add: getKnownHeads_def)
qed

lemma openGaps_none:
  assumes "soft_gaps (co_doc c) (co_store c) = []"
    and "\<And>dev. \<exists>N. stored_seqs (co_doc c) dev (co_store c) = {0..<N}"
  shows "openGaps c = []"
proof -
  have "n \<le> strict_of (co_doc c) dev (co_store c)" if n: "map_of (getKnownHeads (co_doc c) (co_store c)) dev = Some n" for dev n
  proof -
    let ?S = "stored_seqs (co_doc c) dev (co_store c)"
    obtain N where N: "?S = {0..<N}" using assms(2) by blast
    have some: "?S \<noteq> {}" "n = Max ?S" using n by (auto simp: map_of_known_heads split: if_splits)
    have "n \<in> ?S" unfolding some(2) by (rule Max_in) (use some(1) in simp_all)
    then have "n < N" using N by simp
    moreover have "strict_head ?S (N - 1)" using N \<open>n \<in> ?S\<close> by (simp add: strict_head_def)
    then have "strict_of (co_doc c) dev (co_store c) = N - 1" by (simp only: strict_of_eq_iff)
    ultimately show ?thesis by simp
  qed
  moreover have "distinct (map fst (getKnownHeads (co_doc c) (co_store c)))"
    by (rule distinct_known_heads)
  ultimately show ?thesis
    using map_of_is_SomeI
    by (fastforce simp: openGaps_def Let_def filter_empty_conv wire_heads_no_soft [OF assms(1)] head_of_strict_heads not_less)
qed

text \<open>A page asked for with the heads of the store.\<close>

definition broker_page :: "db \<Rightarrow> int option \<Rightarrow> coordinator \<Rightarrow> sync_response" where
  "broker_page d limit c = sync_page (requestSyncPage (co_doc c) limit (getSyncRequestHeads (co_doc c) (co_store c))) d"

definition page_rows :: "db \<Rightarrow> int option \<Rightarrow> coordinator \<Rightarrow> log_row list" where
  "page_rows d limit c = take (nat (page_limit limit))
     (missing_rows (co_doc c) (sq_heads (requestSyncPage (co_doc c) limit (getSyncRequestHeads (co_doc c) (co_store c)))) d)"

lemma page_rows_above:
  assumes "soft_gaps (co_doc c) (co_store c) = []" "r \<in> set (page_rows d limit c)"
  shows "r \<in> set (doc_rows (co_doc c) d)" "strict_of (co_doc c) (log_device r) (co_store c) < log_seq r"
  using in_set_takeD [OF assms(2) [unfolded page_rows_def]] head_of_requested [OF assms(1)] by (simp_all add: missing_rows_def)

lemma broker_page_effect:
  assumes ok: "synced_ok v d c" and page: "applySyncResponsePage v now (sy_entries (broker_page d limit c)) c = (p, c')"
  shows "synced_ok v d c'" "co_doc c' = co_doc c"
    and "stored_seqs (co_doc c) dev (co_store c') =
      stored_seqs (co_doc c) dev (co_store c) \<union> {n. (dev, n) \<in> coord ` set (page_rows d limit c)}"
    and "lowest_ok (pw_lowest p) (set (map coord (page_rows d limit c)))"
proof -
  let ?P = "page_rows d limit c"
  have marks: "marks_stored c" and soft: "soft_gaps (co_doc c) (co_store c) = []"
      and log: "readable_log v (co_doc c) d" and unb: "unbroken (co_doc c) d (co_store c)"
    using ok by (simp_all add: synced_ok_def)
  have rows: "set ?P \<subseteq> set (doc_rows (co_doc c) d)" using page_rows_above(1) [OF soft] by blast
  have es: "sy_entries (broker_page d limit c) = map log_jws ?P"
    by (simp add: broker_page_def page_rows_def sync_page_requested)
  have good: "list_all2 (good_entry v (co_doc c)) (map log_jws ?P) (map coord ?P)" by (rule good_entries [OF log rows])
  have c': "c' = receive_all v now (map log_jws ?P) c"
    using page es page_receives_all [of v now "map log_jws ?P" c] by simp
  note all = receive_all_good [OF good marks refl, of now, folded c']
  have st: "stored_seqs (co_doc c) dev (co_store c') =
      stored_seqs (co_doc c) dev (co_store c) \<union> {n. (dev, n) \<in> coord ` set ?P}" for dev
    using all by simp
  then show "stored_seqs (co_doc c) dev (co_store c') =
      stored_seqs (co_doc c) dev (co_store c) \<union> {n. (dev, n) \<in> coord ` set ?P}" .
  show doc: "co_doc c' = co_doc c" unfolding c' using receive_all_frame by blast
  have "p = page_computed v (map log_jws ?P) c" using page es by (simp add: applySyncResponsePage_def Let_def)
  then show "lowest_ok (pw_lowest p) (set (map coord ?P))" using page_good(1) [OF good] by simp
  have "{n. (dev, n) \<in> coord ` set ?P} \<subseteq> row_seqs (co_doc c) dev d" for dev
    using rows by (force simp: row_seqs_rows)
  then have "stored_seqs (co_doc c) dev (co_store c') \<union> row_seqs (co_doc c) dev d =
      stored_seqs (co_doc c) dev (co_store c) \<union> row_seqs (co_doc c) dev d" for dev
    unfolding st by blast
  then have "unbroken (co_doc c) d (co_store c')" using unb by (simp add: unbroken_def)
  moreover have "soft_gaps (co_doc c) (co_store c') = []"
    using soft gaps_shrink [of v now "map log_jws ?P" c] unfolding soft_gaps_empty c' by blast
  ultimately show "synced_ok v d c'" using all log doc by (simp add: synced_ok_def)
qed

lemma page_rows_first:
  assumes ok: "synced_ok v d c" and some: "page_rows d limit c \<noteq> []"
  obtains dev where "(dev, strict_of (co_doc c) dev (co_store c) + 1) \<in> coord ` set (page_rows d limit c)"
proof -
  define hs where "hs = sq_heads (requestSyncPage (co_doc c) limit (getSyncRequestHeads (co_doc c) (co_store c)))"
  let ?M = "missing_rows (co_doc c) hs d"
  have soft: "soft_gaps (co_doc c) (co_store c) = []" and keys: "log_keys d" and unb: "unbroken (co_doc c) d (co_store c)"
    using ok by (simp_all add: synced_ok_def readable_log_def)
  have hs: "head_of hs dev = strict_of (co_doc c) dev (co_store c)" for dev
    unfolding hs_def by (rule head_of_requested [OF soft])
  have P: "page_rows d limit c = take (nat (page_limit limit)) ?M" by (simp add: page_rows_def hs_def)
  obtain r where r: "r \<in> set (page_rows d limit c)" "hd ?M = r" "r \<in> set ?M"
    using some unfolding P by (cases ?M; cases "nat (page_limit limit)") auto
  define m where "m = strict_of (co_doc c) (log_device r) (co_store c) + 1"
  have "log_seq r \<in> row_seqs (co_doc c) (log_device r) d" "m - 1 < log_seq r"
    using r(3) by (auto simp: missing_rows_def row_seqs_rows hs m_def)
  then obtain q where q: "q \<in> set (doc_rows (co_doc c) d)" "coord q = (log_device r, m)"
    using next_is_row [OF unb] by (auto simp: row_seqs_rows m_def)
  then have "q \<in> set ?M" by (simp add: missing_rows_def hs m_def)
  have "coord r \<le> coord q"
    using \<open>q \<in> set ?M\<close> r(2) missing_rows_sorted [OF keys, of "co_doc c" hs] by (cases ?M) auto
  then have "log_seq r \<le> m" using q(2) by (simp add: less_eq_prod_def)
  then have "coord r = (log_device r, m)" using \<open>m - 1 < log_seq r\<close> by simp
  then have "(log_device r, m) \<in> coord ` set (page_rows d limit c)" using r(1) by (simp add: image_iff) metis
  then show thesis unfolding m_def by (rule that)
qed

lemma catch_up_page_broker:
  assumes ok: "synced_ok v d c"
  defines "strict \<equiv> getStrictContiguousHeads (co_doc c) (co_store c)"
    and "wire \<equiv> getSyncRequestHeads (co_doc c) (co_store c)"
  shows "\<exists>c'. catch_up_page v now (broker_page d limit c) strict wire restore c =
      (if sy_truncated (broker_page d limit c) then NextPage
       else PageDone \<lparr>cr_restore = restore, cr_incomplete = None, cr_gaps = []\<rparr>, c') \<and>
    synced_ok v d c' \<and> co_doc c' = co_doc c \<and>
    (\<forall>dev. stored_seqs (co_doc c) dev (co_store c') =
       stored_seqs (co_doc c) dev (co_store c) \<union> {n. (dev, n) \<in> coord ` set (page_rows d limit c)}) \<and>
    (sy_truncated (broker_page d limit c) \<longrightarrow>
       length (lacking (co_doc c) d (co_store c')) < length (lacking (co_doc c) d (co_store c))) \<and>
    (\<not> sy_truncated (broker_page d limit c) \<longrightarrow>
       (\<forall>dev. row_seqs (co_doc c) dev d \<subseteq> stored_seqs (co_doc c) dev (co_store c')))"
proof -
  obtain p c' where page: "applySyncResponsePage v now (sy_entries (broker_page d limit c)) c = (p, c')" by fastforce
  note eff = broker_page_effect [OF ok page]
  have soft: "soft_gaps (co_doc c) (co_store c) = []" and unb: "unbroken (co_doc c) d (co_store c)" and keys: "log_keys d"
    using ok by (simp_all add: synced_ok_def readable_log_def)
  define hs where "hs = sq_heads (requestSyncPage (co_doc c) limit wire)"
  have hs: "head_of hs dev = strict_of (co_doc c) dev (co_store c)" for dev
    unfolding hs_def wire_def by (rule head_of_requested [OF soft])
  define n where "n = nat (page_limit limit)"
  have P: "page_rows d limit c = take n (missing_rows (co_doc c) hs d)" by (simp add: page_rows_def hs_def wire_def n_def)
  have tr: "sy_truncated (broker_page d limit c) \<longleftrightarrow> n < length (missing_rows (co_doc c) hs d)"
    by (simp add: broker_page_def sync_page_requested hs_def wire_def n_def)
  have low: "lowest_ok (pw_lowest p) (set (map coord (take n (missing_rows (co_doc c) hs d))))" using eff(4) by (simp add: P)
  have wire: "head_of wire dev = strict_of (co_doc c) dev (co_store c)" for dev
    by (simp add: wire_def wire_heads_no_soft [OF soft] head_of_strict_heads)
  have gaps: "recordGapsFromPage hh (pw_lowest p) wire now c' = c'" for hh
    by (rule no_gap_recorded) (use page_lowest_in_reach [OF unb keys low hs] wire in auto)
  have verdict: "catch_up_page v now (broker_page d limit c) strict wire restore c =
      (page_verdict restore p (sy_truncated (broker_page d limit c))
         (headsAdvanced strict (getStrictContiguousHeads (co_doc c) (co_store c')))
         (headsAdvanced wire (getSyncRequestHeads (co_doc c) (co_store c'))) c', c')"
    by (simp add: catch_up_page_def page gaps Let_def eff(2) evaluateSyncResponseDisposition_def)
  show ?thesis
  proof (cases "sy_truncated (broker_page d limit c)")
    case True
    have "0 < n" by (simp add: n_def page_limit_def DEFAULT_CATCH_UP_PAGE_SIZE_def split: option.splits)
    then have "page_rows d limit c \<noteq> []" using True tr by (simp add: P) force
    then obtain dev where dev: "(dev, strict_of (co_doc c) dev (co_store c) + 1) \<in> coord ` set (page_rows d limit c)"
      by (rule page_rows_first [OF ok])
    have "headsAdvanced strict (getStrictContiguousHeads (co_doc c) (co_store c'))"
      unfolding strict_def by (rule strict_advanced [OF soft, of dev]) (use dev eff(3) in auto)
    then have next_page: "page_verdict restore p True (headsAdvanced strict (getStrictContiguousHeads (co_doc c) (co_store c')))
        (headsAdvanced wire (getSyncRequestHeads (co_doc c) (co_store c'))) c' = NextPage"
      by (simp add: page_verdict_def)
    obtain r where r: "r \<in> set (page_rows d limit c)" "coord r = (dev, strict_of (co_doc c) dev (co_store c) + 1)"
      using dev by auto
    have "length (lacking (co_doc c) d (co_store c')) < length (lacking (co_doc c) d (co_store c))"
    proof -
      let ?old = "\<lambda>r. log_seq r \<notin> stored_seqs (co_doc c) (log_device r) (co_store c)"
      let ?new = "\<lambda>r. log_seq r \<notin> stored_seqs (co_doc c) (log_device r) (co_store c')"
      have sub: "?new q \<Longrightarrow> ?old q" for q using eff(3) by blast
      have "lacking (co_doc c) d (co_store c') = filter ?new (lacking (co_doc c) d (co_store c))"
        unfolding lacking_def filter_filter by (rule filter_cong) (use sub in auto)
      moreover have "r \<in> set (lacking (co_doc c) d (co_store c))"
        using page_rows_above(1) [OF soft r(1)] r(2) strict_of_next by (auto simp: lacking_def)
      moreover have "\<not> ?new r" using eff(3) r by force
      ultimately show ?thesis by (metis length_filter_less)
    qed
    then show ?thesis using True verdict next_page eff(1-3) by simp
  next
    case False
    then have all: "page_rows d limit c = missing_rows (co_doc c) hs d" by (simp add: P tr)
    have stored: "row_seqs (co_doc c) dev d \<subseteq> stored_seqs (co_doc c) dev (co_store c')" for dev
    proof
      fix m assume "m \<in> row_seqs (co_doc c) dev d"
      then obtain r where r: "r \<in> set (doc_rows (co_doc c) d)" "coord r = (dev, m)" by (auto simp: row_seqs_rows)
      have "0 \<le> m" using row_seq_nonneg [of v "co_doc c" d r] ok r by (simp add: synced_ok_def)
      show "m \<in> stored_seqs (co_doc c) dev (co_store c')"
      proof (cases "m \<le> strict_of (co_doc c) dev (co_store c)")
        case True
        then show ?thesis using strict_of_stored [OF \<open>0 \<le> m\<close>] eff(3) by blast
      next
        case False
        then have "r \<in> set (page_rows d limit c)" using r by (simp add: all missing_rows_def hs)
        then show ?thesis using r(2) eff(3) by (force simp: image_iff)
      qed
    qed
    have "\<exists>N. stored_seqs (co_doc c') dev (co_store c') = {0..<N}" for dev
    proof -
      obtain N where "stored_seqs (co_doc c) dev (co_store c') \<union> row_seqs (co_doc c) dev d = {0..<N}"
        using eff(1,2) by (auto simp: synced_ok_def unbroken_def)
      then have "stored_seqs (co_doc c) dev (co_store c') = {0..<N}" using stored [of dev] by blast
      then show ?thesis by (auto simp: eff(2))
    qed
    then have "openGaps c' = []" using openGaps_none eff(1) by (simp add: synced_ok_def)
    then show ?thesis using False verdict eff(1-3) stored by (simp add: page_verdict_def)
  qed
qed

section \<open>The whole catch-up\<close>

text \<open>The loop of \<open>catchUpInternal\<close> alone, against a broker that answers every request; \<open>None\<close> when the
  fuel is used up.\<close>

fun catch_up_run ::
  "nat \<Rightarrow> sync_env \<Rightarrow> int \<Rightarrow> int option \<Rightarrow> db \<Rightarrow> bool \<Rightarrow> coordinator \<Rightarrow> (page_next \<times> coordinator) option" where
  "catch_up_run 0 v now limit d restore c = None"
| "catch_up_run (Suc fuel) v now limit d restore c =
     (case catch_up_page v now (broker_page d limit c) (getStrictContiguousHeads (co_doc c) (co_store c))
             (getSyncRequestHeads (co_doc c) (co_store c)) restore c of
        (NextPage, c') \<Rightarrow> catch_up_run fuel v now limit d restore c'
      | r \<Rightarrow> Some r)"

lemma catch_up_run_ends:
  assumes "synced_ok v d c" "length (lacking (co_doc c) d (co_store c)) < fuel"
  shows "\<exists>c'. catch_up_run fuel v now limit d restore c =
      Some (PageDone \<lparr>cr_restore = restore, cr_incomplete = None, cr_gaps = []\<rparr>, c') \<and>
    (\<forall>dev. stored_seqs (co_doc c) dev (co_store c') =
       stored_seqs (co_doc c) dev (co_store c) \<union> row_seqs (co_doc c) dev d)"
  using assms
proof (induction fuel arbitrary: c)
  case (Suc fuel)
  let ?resp = "broker_page d limit c"
  obtain c1 where page: "catch_up_page v now ?resp (getStrictContiguousHeads (co_doc c) (co_store c))
        (getSyncRequestHeads (co_doc c) (co_store c)) restore c =
      (if sy_truncated ?resp then NextPage else PageDone \<lparr>cr_restore = restore, cr_incomplete = None, cr_gaps = []\<rparr>, c1)"
    and ok: "synced_ok v d c1" "co_doc c1 = co_doc c"
    and st: "\<forall>dev. stored_seqs (co_doc c) dev (co_store c1) =
       stored_seqs (co_doc c) dev (co_store c) \<union> {n. (dev, n) \<in> coord ` set (page_rows d limit c)}"
    and less: "sy_truncated ?resp \<longrightarrow> length (lacking (co_doc c) d (co_store c1)) < length (lacking (co_doc c) d (co_store c))"
    and all: "\<not> sy_truncated ?resp \<longrightarrow> (\<forall>dev. row_seqs (co_doc c) dev d \<subseteq> stored_seqs (co_doc c) dev (co_store c1))"
    using catch_up_page_broker [OF Suc.prems(1), where now = now and limit = limit and restore = restore] by (elim exE conjE) (rule that; assumption)
  have soft: "soft_gaps (co_doc c) (co_store c) = []" using Suc.prems(1) by (simp add: synced_ok_def)
  have rows: "{n. (dev, n) \<in> coord ` set (page_rows d limit c)} \<subseteq> row_seqs (co_doc c) dev d" for dev
    using page_rows_above(1) [OF soft] by (force simp: row_seqs_rows)
  show ?case
  proof (cases "sy_truncated ?resp")
    case True
    have "length (lacking (co_doc c1) d (co_store c1)) < fuel" using less True Suc.prems(2) ok(2) by simp
    from Suc.IH [OF ok(1) this] obtain c' where c': "catch_up_run fuel v now limit d restore c1 =
        Some (PageDone \<lparr>cr_restore = restore, cr_incomplete = None, cr_gaps = []\<rparr>, c')"
      and st': "\<forall>dev. stored_seqs (co_doc c) dev (co_store c') = stored_seqs (co_doc c) dev (co_store c1) \<union> row_seqs (co_doc c) dev d"
      by (auto simp: ok(2))
    have "stored_seqs (co_doc c) dev (co_store c') = stored_seqs (co_doc c) dev (co_store c) \<union> row_seqs (co_doc c) dev d" for dev
      using st st' rows [of dev] by blast
    then show ?thesis using c' page True by auto
  next
    case False
    have "stored_seqs (co_doc c) dev (co_store c1) = stored_seqs (co_doc c) dev (co_store c) \<union> row_seqs (co_doc c) dev d" for dev
      using st all False rows [of dev] by blast
    then show ?thesis using page False by simp
  qed
qed simp

section \<open>The property\<close>

text \<open>C10: a catch-up against a broker whose entries the client can read, and whose log together with the
  client's has no holes (the client may hold entries above a hole), on a client that has marked as
  applied only what it stores and has given up on no hole of the document (one that it has given up
  on is passed over and not requested), ends after at most one page for each
  entry that the client lacks and one more, whatever the page size: it reports that the document is
  complete, without open gaps, and the store then holds exactly what it held and every entry of the
  broker.\<close>

theorem catch_up_converges:
  assumes "marks_stored c" "soft_gaps (co_doc c) (co_store c) = []" "readable_log v (co_doc c) d"
    and "unbroken (co_doc c) d (co_store c)" "length (lacking (co_doc c) d (co_store c)) < fuel"
  shows "\<exists>c'. catch_up_run fuel v now limit d restore c =
      Some (PageDone \<lparr>cr_restore = restore, cr_incomplete = None, cr_gaps = []\<rparr>, c') \<and>
    (\<forall>dev. stored_seqs (co_doc c) dev (co_store c') =
       stored_seqs (co_doc c) dev (co_store c) \<union> row_seqs (co_doc c) dev d)"
  by (rule catch_up_run_ends) (simp_all add: synced_ok_def assms)

definition reading_env :: sync_env where
  "reading_env = \<lparr>sv_rt = demo_runtime 0, sv_ciphers = toy_ciphers\<lparr>aes_decrypt := (\<lambda>_ _ _. Some [9])\<rparr>,
     sv_key = (\<lambda>g. Some (replicate 32 1)), sv_apply = (\<lambda>us u. True)\<rparr>"

definition demo_log :: db where
  "demo_log = empty_db\<lparr>doc_log := [demo_row 0]\<rparr>"

lemma demo_log_rows: "doc_rows (le_doc (demo_entry 0)) demo_log = [demo_row 0]"
  by (simp add: doc_rows_def demo_log_def demo_row_def log_row_of_def entry_append_def)

lemma demo_row_good: "good_entry reading_env (le_doc (demo_entry 0)) (log_jws (demo_row 0)) (coord (demo_row 0))"
proof -
  have ok: "log_entry_ok (demo_entry 0)" by (rule verified_entry_ok [OF demo_entry_verifies]) simp
  then obtain bs where bs: "decodeBase64Url (le_data (demo_entry 0)) = Some bs" "28 < length bs"
    by (auto simp: log_entry_ok_def)
  have "readable reading_env (demo_entry 0) = Some [9]"
    using bs by (simp add: readable_def reading_env_def decryptLogPayload_def crypto_checks key_lengths toy_ciphers_def)
  then show ?thesis
    using demo_entry_verifies [of 0]
    by (simp add: good_entry_def reading_env_def demo_row_def log_row_of_def entry_append_def)
qed

theorem catch_up_converges_witness:
  "\<exists>c'. catch_up_run 2 reading_env 7 (Some 1) demo_log False (new_coordinator (le_doc (demo_entry 0)) ''x'' new_client_store) =
      Some (PageDone \<lparr>cr_restore = False, cr_incomplete = None, cr_gaps = []\<rparr>, c') \<and>
    stored_seqs (le_doc (demo_entry 0)) (le_device (demo_entry 0)) (co_store c') = {0}"
proof -
  let ?doc = "le_doc (demo_entry 0)" and ?dev = "le_device (demo_entry 0)"
  let ?c = "new_coordinator ?doc ''x'' new_client_store"
  have c: "co_doc ?c = ?doc" "co_store ?c = new_client_store" "co_applied ?c = {}" by (simp_all add: new_coordinator_def)
  have empty: "stored_seqs ?doc dev new_client_store = {}" "cs_gaps new_client_store = []" "cs_entries new_client_store = []" for dev
    by (simp_all add: stored_seqs_def new_client_store_def)
  have row: "coord (demo_row 0) = (?dev, 0)" by (simp add: demo_row_def log_row_of_def entry_append_def demo_entry_def)
  have rows: "row_seqs ?doc dev demo_log = (if dev = ?dev then {0} else {})" for dev
    using row by (auto simp: row_seqs_rows demo_log_rows)
  have "marks_stored ?c" by (simp add: marks_stored_def c plain_docs_def empty)
  moreover have "soft_gaps (co_doc ?c) (co_store ?c) = []" by (simp add: soft_gaps_empty c empty)
  moreover have "readable_log reading_env (co_doc ?c) demo_log"
    using demo_row_good by (simp add: readable_log_def c demo_log_rows) (simp add: demo_log_def log_keys_def keys_distinct_def empty_db_def)
  moreover have "unbroken (co_doc ?c) demo_log (co_store ?c)"
  proof -
    have "{0..<1} = {0 :: int}" "{0..<0} = ({} :: int set)" by auto
    then show ?thesis unfolding unbroken_def c empty rows by (metis Un_empty_left)
  qed
  moreover have "length (lacking (co_doc ?c) demo_log (co_store ?c)) < 2"
    by (simp add: lacking_def c demo_log_rows)
  ultimately obtain c' where c': "catch_up_run 2 reading_env 7 (Some 1) demo_log False ?c =
      Some (PageDone \<lparr>cr_restore = False, cr_incomplete = None, cr_gaps = []\<rparr>, c')"
    "\<forall>dev. stored_seqs ?doc dev (co_store c') = stored_seqs ?doc dev new_client_store \<union> row_seqs ?doc dev demo_log"
    using catch_up_converges [where c = ?c and v = reading_env and d = demo_log and fuel = 2 and now = 7
      and limit = "Some 1" and restore = False] by (auto simp: c)
  then show ?thesis by (simp add: empty rows)
qed



end
