(* ===== verification/Membership.thy ===== *)
theory Membership
  imports Messages
begin

text \<open>
  The members and admins of a space: \<^verbatim>\<open>protocol/sync/membership-events.ts\<close> and \<^verbatim>\<open>admin-set.ts\<close>, the
  grow-only sets in the space document and how they are read. The events are a list in the order in
  which the document yields them; that the order does not matter is the first property. Texts are
  compared byte by byte, which is JavaScript's order for ASCII texts.
\<close>

section \<open>Events\<close>

datatype membership_status = MemberActive | MemberRemoved

record membership_event =
  me_did :: string
  me_status :: membership_status
  me_since :: int
  me_added_by :: "string option"

record membership_key =
  mk_did :: string
  mk_generation :: int
  mk_status :: membership_status

definition status_text :: "membership_status \<Rightarrow> string" where
  "status_text s = (case s of MemberActive \<Rightarrow> ''active'' | MemberRemoved \<Rightarrow> ''removed'')"

definition assertMembershipStatus :: "string \<Rightarrow> membership_status option" where
  "assertMembershipStatus s =
     (if s = ''active'' then Some MemberActive else if s = ''removed'' then Some MemberRemoved else None)"

definition nonneg_safe :: "int \<Rightarrow> bool" where
  "nonneg_safe n \<longleftrightarrow> safe_integer n \<and> 0 \<le> n"

definition assertMembershipEvent :: "json \<Rightarrow> membership_event option" where
  "assertMembershipEvent v =
     (if \<not> no_extra_keys [''did'', ''status'', ''sinceGeneration'', ''addedBy''] v then None
      else if \<not> loose_did_str (jget ''did'' v) then None
      else do {
        did \<leftarrow> jget_str ''did'' v;
        status \<leftarrow> Option.bind (jget_str ''status'' v) assertMembershipStatus;
        since \<leftarrow> jget_int ''sinceGeneration'' v;
        (if \<not> nonneg_safe since then None
         else if jget ''addedBy'' v \<noteq> None \<and> \<not> loose_did_str (jget ''addedBy'' v) then None
         else Some \<lparr>me_did = did, me_status = status, me_since = since, me_added_by = jget_str ''addedBy'' v\<rparr>) })"

section \<open>Keys of events\<close>

text \<open>A text cut at the last occurrence of a character.\<close>

definition split_last :: "char \<Rightarrow> string \<Rightarrow> (string \<times> string) option" where
  "split_last c s =
     (case dropWhile (\<lambda>x. x \<noteq> c) (rev s) of
        [] \<Rightarrow> None
      | _ # r \<Rightarrow> Some (rev r, rev (takeWhile (\<lambda>x. x \<noteq> c) (rev s))))"

definition canonical_generation :: "string \<Rightarrow> bool" where
  "canonical_generation s \<longleftrightarrow>
     (case s of [] \<Rightarrow> False
      | c # cs \<Rightarrow> s = ''0'' \<or> (is_digit c \<and> c \<noteq> CHR ''0'' \<and> list_all is_digit cs))"

definition formatMembershipEventKey :: "membership_key \<Rightarrow> string option" where
  "formatMembershipEventKey p =
     (if \<not> loose_did (mk_did p) then None
      else if \<not> nonneg_safe (mk_generation p) then None
      else Some (mk_did p @ '':'' @ int_text (mk_generation p) @ '':'' @ status_text (mk_status p)))"

definition parseMembershipEventKey :: "string \<Rightarrow> membership_key option" where
  "parseMembershipEventKey key = do {
     (front, statusSegment) \<leftarrow> split_last CHR '':'' key;
     (did, generationSegment) \<leftarrow> split_last CHR '':'' front;
     (if \<not> loose_did did then None
      else if \<not> canonical_generation generationSegment then None
      else do {
        status \<leftarrow> assertMembershipStatus statusSegment;
        let g = int (nat_of_text 0 generationSegment);
        (if \<not> nonneg_safe g then None
         else Some \<lparr>mk_did = did, mk_generation = g, mk_status = status\<rparr>) }) }"

section \<open>Reading the members\<close>

definition membershipEventWins :: "membership_event \<Rightarrow> membership_event \<Rightarrow> bool" where
  "membershipEventWins candidate incumbent \<longleftrightarrow>
     (if me_since candidate \<noteq> me_since incumbent then me_since candidate > me_since incumbent
      else me_status candidate = MemberRemoved \<and> me_status incumbent = MemberActive)"

definition count_event :: "membership_event \<Rightarrow> (string \<times> membership_event) list \<Rightarrow> (string \<times> membership_event) list" where
  "count_event e winners =
     (case map_of winners (me_did e) of
        None \<Rightarrow> winners @ [(me_did e, e)]
      | Some incumbent \<Rightarrow>
          if membershipEventWins e incumbent then AList.update (me_did e) e winners else winners)"

definition resolveActiveMembers :: "membership_event list \<Rightarrow> string list" where
  "resolveActiveMembers es =
     sort (map (\<lambda>(_, w). me_did w) (filter (\<lambda>(_, w). me_status w = MemberActive) (fold count_event es [])))"

definition resolveMembershipWinner :: "membership_event list \<Rightarrow> string \<Rightarrow> membership_event option" where
  "resolveMembershipWinner es did =
     fold (\<lambda>e winner. if me_did e \<noteq> did then winner
                      else case winner of None \<Rightarrow> Some e
                           | Some w \<Rightarrow> if membershipEventWins e w then Some e else winner) es None"

definition resolveAdmission :: "membership_event list \<Rightarrow> string \<Rightarrow> int option" where
  "resolveAdmission es did =
     (let own = filter (\<lambda>e. me_did e = did) es in
      case resolveMembershipWinner own did of
        None \<Rightarrow> None
      | Some winner \<Rightarrow>
          if me_status winner \<noteq> MemberActive then None
          else
            let lastRemoved = fold (\<lambda>e m. if me_status e = MemberRemoved \<and> me_since e > m then me_since e else m) own (- 1)
            in Some (fold (\<lambda>e m. if me_status e = MemberActive \<and> me_since e > lastRemoved \<and> me_since e < m
                                 then me_since e else m) own (me_since winner)))"

text \<open>\<open>None\<close> is a missing admission.\<close>

definition isSameAdmission :: "int option \<Rightarrow> int option \<Rightarrow> bool" where
  "isSameAdmission a b =
     (case (a, b) of (Some m, Some n) \<Rightarrow> m = n | _ \<Rightarrow> a = None \<and> b = None)"

definition compareAdmission :: "int \<Rightarrow> int \<Rightarrow> int" where
  "compareAdmission a b = (if a = b then 0 else if a < b then - 1 else 1)"

section \<open>Admins\<close>

record admin_entry =
  ad_did :: string
  ad_added_by :: "string option"

definition assertAdminEntry :: "json \<Rightarrow> admin_entry option" where
  "assertAdminEntry v =
     (if \<not> no_extra_keys [''did'', ''addedBy''] v then None
      else if \<not> loose_did_str (jget ''did'' v) then None
      else if jget ''addedBy'' v \<noteq> None \<and> \<not> loose_did_str (jget ''addedBy'' v) then None
      else map_option (\<lambda>did. \<lparr>ad_did = did, ad_added_by = jget_str ''addedBy'' v\<rparr>) (jget_str ''did'' v))"

definition resolveAdmins :: "admin_entry list \<Rightarrow> string list" where
  "resolveAdmins ads = sort (js_set (map ad_did ads))"

definition resolveActiveAdmins :: "admin_entry list \<Rightarrow> string list \<Rightarrow> string list" where
  "resolveActiveAdmins ads activeMembers =
     sort (js_set (filter (\<lambda>did. did \<in> set activeMembers) (resolveAdmins ads)))"

section \<open>Facts about keys\<close>

lemma split_last_Some: "split_last c s = Some (a, b) \<longleftrightarrow> s = a @ c # b \<and> c \<notin> set b"
proof
  assume "split_last c s = Some (a, b)"
  then obtain x r where d: "dropWhile (\<lambda>x. x \<noteq> c) (rev s) = x # r" "a = rev r" "b = rev (takeWhile (\<lambda>x. x \<noteq> c) (rev s))"
    by (auto simp: split_last_def split: list.splits)
  have "x = c" using d(1) by (metis (mono_tags, lifting) dropWhile_eq_Cons_conv)
  have "rev s = takeWhile (\<lambda>x. x \<noteq> c) (rev s) @ x # r" using d(1) by (metis takeWhile_dropWhile_id)
  then have "rev (rev s) = rev (takeWhile (\<lambda>x. x \<noteq> c) (rev s) @ x # r)" by (rule arg_cong)
  then have "s = a @ c # b" using d(2,3) \<open>x = c\<close> by simp
  moreover have "c \<notin> set b" using d(3) by (auto dest: set_takeWhileD)
  ultimately show "s = a @ c # b \<and> c \<notin> set b" by simp
next
  assume s: "s = a @ c # b \<and> c \<notin> set b"
  then have rev_s: "rev s = rev b @ c # rev a" by simp
  have "\<forall>x \<in> set (rev b). x \<noteq> c" using s by auto
  then have "dropWhile (\<lambda>x. x \<noteq> c) (rev s) = c # rev a" "takeWhile (\<lambda>x. x \<noteq> c) (rev s) = rev b"
    unfolding rev_s by (simp_all add: dropWhile_append takeWhile_append)
  then show "split_last c s = Some (a, b)" by (simp add: split_last_def)
qed

lemma digit_text:
  assumes "is_digit c"
  shows "char_of (48 + (of_char c - 48 :: nat)) = c" "of_char c - 48 < (10 :: nat)"
proof -
  have c: "48 \<le> (of_char c :: nat)" "(of_char c :: nat) \<le> 57" using assms by (simp_all add: is_digit_code)
  then have "48 + (of_char c - 48 :: nat) = of_char c" by arith
  then show "char_of (48 + (of_char c - 48 :: nat)) = c" by (simp only: char_of_char)
  show "of_char c - 48 < (10 :: nat)" using c by arith
qed

lemma digits_no_colon: "list_all is_digit s \<Longrightarrow> CHR '':'' \<notin> set s"
  by (auto simp: list_all_iff is_digit_def less_eq_char_def)

lemma nat_text_hd_zero: "0 < n \<Longrightarrow> hd (nat_text n) \<noteq> CHR ''0'' \<and> nat_text n \<noteq> []"
proof (induction n rule: nat_text.induct)
  case (1 n)
  show ?case
  proof (cases "n < 10")
    case True
    have "(of_char (char_of (48 + n) :: char) :: nat) \<noteq> of_char (CHR ''0'')" using True 1(2) by simp
    then have "char_of (48 + n) \<noteq> CHR ''0''" by metis
    then show ?thesis using True by (simp add: nat_text.simps [of n])
  next
    case False
    then show ?thesis using 1 by (subst (1 2) nat_text.simps) simp
  qed
qed

lemma canonical_nat_text: "canonical_generation (nat_text n)"
proof (cases "n = 0")
  case True
  then show ?thesis by (simp add: nat_text.simps [of 0] canonical_generation_def) code_simp
next
  case False
  then show ?thesis
    using nat_text_hd_zero [of n] nat_text_digits [of n]
    by (cases "nat_text n") (auto simp: canonical_generation_def)
qed

lemma nat_of_text_pos: "s \<noteq> [] \<Longrightarrow> list_all is_digit s \<Longrightarrow> hd s \<noteq> CHR ''0'' \<Longrightarrow> 0 < nat_of_text 0 s"
proof (induction s rule: rev_induct)
  case (snoc c s)
  show ?case
  proof (cases s)
    case Nil
    have "(of_char c :: nat) \<noteq> of_char (CHR ''0'')" 
      unfolding of_char_eq_iff using snoc.prems(3) Nil by simp
    then show ?thesis using snoc.prems(2) Nil by (simp add: is_digit_code)
  next
    case (Cons a l)
    then show ?thesis using snoc by (simp add: nat_of_text_append)
  qed
qed simp

lemma nat_text_of_digits: "s \<noteq> [] \<Longrightarrow> list_all is_digit s \<Longrightarrow> hd s \<noteq> CHR ''0'' \<Longrightarrow> nat_text (nat_of_text 0 s) = s"
proof (induction s rule: rev_induct)
  case (snoc c s)
  have c: "is_digit c" using snoc.prems(2) by simp
  show ?case
  proof (cases s)
    case Nil
    then show ?thesis using digit_text [OF c] by (simp add: nat_text.simps [of "of_char c - 48"])
  next
    case (Cons a l)
    then have s: "s \<noteq> []" "list_all is_digit s" "hd s \<noteq> CHR ''0''" using snoc.prems by simp_all
    let ?n = "nat_of_text 0 s" and ?d = "of_char c - 48 :: nat"
    have n: "nat_of_text 0 (s @ [c]) = 10 * ?n + ?d" by (simp add: nat_of_text_append)
    have "0 < ?n" by (rule nat_of_text_pos [OF s])
    then have "\<not> 10 * ?n + ?d < 10" "(10 * ?n + ?d) div 10 = ?n" "(10 * ?n + ?d) mod 10 = ?d"
      using digit_text(2) [OF c] by simp_all
    then show ?thesis
      unfolding n using snoc.IH [OF s] digit_text(1) [OF c] by (subst nat_text.simps) simp
  qed
qed simp

lemma canonical_generation_text: "canonical_generation s \<longleftrightarrow> s = nat_text (nat_of_text 0 s)"
proof
  assume "canonical_generation s"
  then consider "s = ''0''" | "s \<noteq> []" "list_all is_digit s" "hd s \<noteq> CHR ''0''"
    by (cases s) (auto simp: canonical_generation_def)
  then show "s = nat_text (nat_of_text 0 s)"
  proof cases
    case 1
    then show ?thesis by (simp add: nat_text.simps [of 0]) code_simp
  next
    case 2
    then show ?thesis using nat_text_of_digits by simp
  qed
qed (metis canonical_nat_text)

lemma status_text_iff: "assertMembershipStatus t = Some st \<longleftrightarrow> t = status_text st"
  by (cases st) (auto simp: assertMembershipStatus_def status_text_def)

lemma status_text_no_colon: "CHR '':'' \<notin> set (status_text st)"
  by (cases st) (simp_all add: status_text_def)

section \<open>The keys of the event set\<close>

text \<open>C0: the keys of the event set name their event: a text is the key of an event exactly when it parses
  to it. So two events share a key exactly when they agree on person, generation and status, every key
  that is accepted is in its one canonical form, and an identifier may itself hold colons.\<close>

theorem membership_key_roundtrip:
  "parseMembershipEventKey key = Some p \<longleftrightarrow> formatMembershipEventKey p = Some key"
proof -
  define rebuilt where "rebuilt seg \<longleftrightarrow>
     key = mk_did p @ '':'' @ seg @ '':'' @ status_text (mk_status p) \<and> CHR '':'' \<notin> set seg \<and>
     canonical_generation seg \<and> loose_did (mk_did p) \<and> mk_generation p = int (nat_of_text 0 seg) \<and>
     nonneg_safe (mk_generation p)" for seg
  have "\<exists>seg. rebuilt seg" if "parseMembershipEventKey key = Some p"
    using that by (auto simp: rebuilt_def parseMembershipEventKey_def bind_eq_Some_conv split_last_Some status_text_iff
        Let_def split: if_splits)
  moreover have "parseMembershipEventKey key = Some p" if seg: "rebuilt seg" for seg
  proof -
    have "split_last CHR '':'' key = Some (mk_did p @ '':'' @ seg, status_text (mk_status p))"
      "split_last CHR '':'' (mk_did p @ '':'' @ seg) = Some (mk_did p, seg)"
      using seg by (simp_all add: rebuilt_def split_last_Some status_text_no_colon)
    moreover have g: "int (nat_of_text 0 seg) = mk_generation p" using seg by (simp add: rebuilt_def)
    moreover have "nonneg_safe (int (nat_of_text 0 seg))" unfolding g using seg unfolding rebuilt_def by blast
    ultimately show ?thesis
      using seg status_text_iff [of "status_text (mk_status p)" "mk_status p"]
      by (simp add: rebuilt_def parseMembershipEventKey_def Let_def)
  qed
  ultimately have parse: "parseMembershipEventKey key = Some p \<longleftrightarrow> (\<exists>seg. rebuilt seg)" by blast
  have seg: "CHR '':'' \<notin> set seg \<and> canonical_generation seg \<and> g = int (nat_of_text 0 seg) \<and> nonneg_safe g \<longleftrightarrow>
      seg = int_text g \<and> nonneg_safe g" for seg g
    using digits_no_colon [OF nat_text_digits]
    by (auto simp: canonical_generation_text int_text_def nonneg_safe_def nat_of_text_nat_text)
  have "parseMembershipEventKey key = Some p \<longleftrightarrow>
      key = mk_did p @ '':'' @ int_text (mk_generation p) @ '':'' @ status_text (mk_status p) \<and>
      loose_did (mk_did p) \<and> nonneg_safe (mk_generation p)"
    unfolding parse rebuilt_def using seg by blast
  then show ?thesis by (auto simp: formatMembershipEventKey_def)
qed

section \<open>The members\<close>

text \<open>The reading of the set of events: the members, and the admissions of one person.\<close>

definition members_of :: "membership_event set \<Rightarrow> string set" where
  "members_of E = {d. \<exists>e \<in> E. me_did e = d \<and> me_status e = MemberActive \<and>
     (\<forall>e' \<in> E. me_did e' = d \<longrightarrow> me_since e' < me_since e \<or>
        (me_since e' = me_since e \<and> me_status e' = MemberActive))}"

definition best_event :: "membership_event set \<Rightarrow> string \<Rightarrow> membership_event \<Rightarrow> bool" where
  "best_event E d w \<longleftrightarrow> w \<in> E \<and> me_did w = d \<and> (\<forall>e \<in> E. me_did e = d \<longrightarrow> \<not> membershipEventWins e w)"

lemma wins_trans: "membershipEventWins a b \<Longrightarrow> \<not> membershipEventWins c b \<Longrightarrow> \<not> membershipEventWins c a"
  by (auto simp: membershipEventWins_def split: if_splits)

lemma best_event_active:
  assumes "best_event E d w"
  shows "me_status w = MemberActive \<longleftrightarrow> d \<in> members_of E"
proof
  assume "me_status w = MemberActive"
  moreover have "me_since e < me_since w \<or> (me_since e = me_since w \<and> me_status e = MemberActive)"
    if "e \<in> E" "me_did e = d" for e
    using assms that calculation by (cases "me_status e") (auto simp: best_event_def membershipEventWins_def split: if_splits)
  ultimately show "d \<in> members_of E" using assms by (auto simp: members_of_def best_event_def)
next
  assume "d \<in> members_of E"
  then obtain e where "e \<in> E" "me_did e = d" "me_status e = MemberActive"
      "me_since w < me_since e \<or> (me_since w = me_since e \<and> me_status w = MemberActive)"
    using assms by (auto simp: members_of_def best_event_def)
  then show "me_status w = MemberActive" using assms by (auto simp: best_event_def membershipEventWins_def split: if_splits)
qed

lemma map_of_count_event:
  "map_of (count_event e ws) d =
     (if d \<noteq> me_did e then map_of ws d
      else Some (case map_of ws d of None \<Rightarrow> e | Some w \<Rightarrow> if membershipEventWins e w then e else w))"
  by (auto simp: count_event_def update_conv' map_add_def split: option.splits)

lemma count_event_keys: "distinct (map fst ws) \<Longrightarrow> distinct (map fst (count_event e ws))"
  by (auto simp: count_event_def map_of_eq_None_iff distinct_update split: option.splits)

definition winners_of :: "membership_event set \<Rightarrow> (string \<times> membership_event) list \<Rightarrow> bool" where
  "winners_of E ws \<longleftrightarrow> distinct (map fst ws) \<and>
     (\<forall>d. case map_of ws d of None \<Rightarrow> \<forall>e \<in> E. me_did e \<noteq> d | Some w \<Rightarrow> best_event E d w)"

lemma winners_of_count:
  assumes "winners_of E ws"
  shows "winners_of (insert e E) (count_event e ws)"
proof -
  have "case map_of (count_event e ws) d of None \<Rightarrow> \<forall>x \<in> insert e E. me_did x \<noteq> d | Some w \<Rightarrow> best_event (insert e E) d w" for d
  proof -
    have d: "case map_of ws d of None \<Rightarrow> \<forall>x \<in> E. me_did x \<noteq> d | Some w \<Rightarrow> best_event E d w"
      using assms by (simp add: winners_of_def)
    have irr: "\<not> membershipEventWins e e" by (auto simp: membershipEventWins_def)
    show ?thesis
    proof (cases "me_did e = d")
      case False
      then show ?thesis using d by (auto simp: map_of_count_event best_event_def split: option.splits)
    next
      case True
      show ?thesis
      proof (cases "map_of ws d")
        case None
        then show ?thesis using d True irr by (simp add: map_of_count_event best_event_def)
      next
        case (Some w)
        then have w: "best_event E d w" using d by simp
        show ?thesis
        proof (cases "membershipEventWins e w")
          case True
          then have "best_event (insert e E) d e"
            using w \<open>me_did e = d\<close> irr wins_trans [OF True] unfolding best_event_def by blast
          then show ?thesis using Some True \<open>me_did e = d\<close> by (simp add: map_of_count_event)
        next
          case False
          then have "best_event (insert e E) d w" using w unfolding best_event_def by blast
          then show ?thesis using Some False \<open>me_did e = d\<close> by (simp add: map_of_count_event)
        qed
      qed
    qed
  qed
  then show ?thesis using assms count_event_keys by (simp add: winners_of_def)
qed

lemma winners_of_fold: "winners_of E ws \<Longrightarrow> winners_of (E \<union> set es) (fold count_event es ws)"
proof (induction es arbitrary: E ws)
  case (Cons e es)
  from Cons.IH [OF winners_of_count [OF Cons.prems, of e]] show ?case by simp
qed simp

lemma winners: "winners_of (set es) (fold count_event es [])"
  using winners_of_fold [of "{}" "[]" es] by (simp add: winners_of_def)

lemma finite_members_of: "finite E \<Longrightarrow> finite (members_of E)"
  by (rule finite_subset [of _ "me_did ` E"]) (auto simp: members_of_def)

lemma resolveActiveMembers_eq:
  "resolveActiveMembers es = sorted_list_of_set (members_of (set es))"
proof -
  define ws where "ws = fold count_event es []"
  have keys: "distinct (map fst ws)"
    and best: "\<And>d. case map_of ws d of None \<Rightarrow> \<forall>e \<in> set es. me_did e \<noteq> d | Some w \<Rightarrow> best_event (set es) d w"
    using winners [of es] by (simp_all add: winners_of_def ws_def)
  have in_ws: "(d, w) \<in> set ws \<longleftrightarrow> map_of ws d = Some w" for d w using keys by simp
  have did: "me_did w = d \<and> (me_status w = MemberActive \<longleftrightarrow> d \<in> members_of (set es))" if "(d, w) \<in> set ws" for d w
    using best [of d] that best_event_active [of "set es" d w] by (simp add: in_ws best_event_def)
  define act where "act = filter (\<lambda>(_, w). me_status w = MemberActive) ws"
  have "map (\<lambda>(_, w). me_did w) act = map fst act" using did by (auto simp: act_def)
  moreover have "distinct (map fst act)" unfolding act_def using keys by (rule distinct_map_filter)
  moreover have "set (map fst act) = members_of (set es)"
  proof
    show "set (map fst act) \<subseteq> members_of (set es)" using did by (auto simp: act_def)
    show "members_of (set es) \<subseteq> set (map fst act)"
    proof
      fix d assume m: "d \<in> members_of (set es)"
      then have "\<not> (\<forall>e \<in> set es. me_did e \<noteq> d)" by (auto simp: members_of_def)
      then obtain w where w: "(d, w) \<in> set ws" using best [of d] by (auto simp: in_ws split: option.splits)
      then have "(d, w) \<in> set act" using did [OF w] m by (simp add: act_def)
      then show "d \<in> set (map fst act)" by force
    qed
  qed
  ultimately have "sort (map (\<lambda>(_, w). me_did w) act) = sorted_list_of_set (members_of (set es))"
    by (metis distinct_remdups_id sorted_list_of_set_sort_remdups)
  then show ?thesis by (simp add: resolveActiveMembers_def ws_def [symmetric] act_def)
qed

section \<open>Admissions\<close>

lemma winner_of_fold: "resolveMembershipWinner es d = map_of (fold count_event es []) d"
proof -
  define f where "f e winner = (if me_did e \<noteq> d then winner
      else case winner of None \<Rightarrow> Some e | Some w \<Rightarrow> if membershipEventWins e w then Some e else winner)" for e winner
  have f: "f e (map_of ws d) = map_of (count_event e ws) d" for e ws
    by (auto simp: f_def map_of_count_event split: option.splits)
  have "fold f es (map_of ws d) = map_of (fold count_event es ws) d" for ws
    by (induction es arbitrary: ws) (simp_all add: f)
  from this [of "[]"] show ?thesis by (simp add: resolveMembershipWinner_def f_def [abs_def])
qed

lemma winner_best:
  "case resolveMembershipWinner es d of None \<Rightarrow> \<forall>e \<in> set es. me_did e \<noteq> d | Some w \<Rightarrow> best_event (set es) d w"
  using winners [of es] by (simp add: winners_of_def winner_of_fold)

lemma fold_guarded_max:
  fixes f :: "'a \<Rightarrow> int" and P :: "'a \<Rightarrow> bool"
  defines "m \<equiv> fold (\<lambda>e m. if P e \<and> f e > m then f e else m)"
  shows "a \<le> m es a \<and> (\<forall>e \<in> set es. P e \<longrightarrow> f e \<le> m es a) \<and> (m es a = a \<or> (\<exists>e \<in> set es. P e \<and> f e = m es a))"
proof (induction es arbitrary: a)
  case Nil
  show ?case by (simp add: m_def)
next
  case (Cons e es)
  let ?a = "if P e \<and> f e > a then f e else a"
  have step: "m (e # es) a = m es ?a" by (simp add: m_def)
  show ?case using Cons [of ?a] unfolding step by (auto split: if_splits)
qed

lemma fold_guarded_min:
  fixes f :: "'a \<Rightarrow> int" and P Q :: "'a \<Rightarrow> bool"
  defines "m \<equiv> fold (\<lambda>e m. if P e \<and> Q e \<and> f e < m then f e else m)"
  shows "m es a \<le> a \<and> (\<forall>e \<in> set es. P e \<and> Q e \<longrightarrow> m es a \<le> f e) \<and> (m es a = a \<or> (\<exists>e \<in> set es. P e \<and> Q e \<and> f e = m es a))"
proof (induction es arbitrary: a)
  case Nil
  show ?case by (simp add: m_def)
next
  case (Cons e es)
  let ?a = "if P e \<and> Q e \<and> f e < a then f e else a"
  have step: "m (e # es) a = m es ?a" by (simp add: m_def)
  show ?case using Cons [of ?a] unfolding step by (auto split: if_splits)
qed

text \<open>The lowest active generation above all removals.\<close>

definition admission_is :: "membership_event set \<Rightarrow> string \<Rightarrow> int \<Rightarrow> bool" where
  "admission_is E d a \<longleftrightarrow>
     (\<exists>e \<in> E. me_did e = d \<and> me_status e = MemberActive \<and> me_since e = a) \<and>
     (\<forall>r \<in> E. me_did r = d \<and> me_status r = MemberRemoved \<longrightarrow> me_since r < a) \<and>
     (\<forall>e \<in> E. me_did e = d \<and> me_status e = MemberActive \<and>
        (\<forall>r \<in> E. me_did r = d \<and> me_status r = MemberRemoved \<longrightarrow> me_since r < me_since e) \<longrightarrow> a \<le> me_since e)"

lemma admission_unique: "admission_is E d a \<Longrightarrow> admission_is E d b \<Longrightarrow> a = b"
  unfolding admission_is_def by (metis order_antisym)

lemma resolveAdmission_iff:
  assumes "\<forall>e \<in> set es. 0 \<le> me_since e"
  shows "resolveAdmission es d = Some a \<longleftrightarrow> d \<in> members_of (set es) \<and> admission_is (set es) d a"
proof -
  define own where "own = filter (\<lambda>e. me_did e = d) es"
  have own: "set own = {e \<in> set es. me_did e = d}" by (auto simp: own_def)
  show ?thesis
  proof (cases "resolveMembershipWinner own d")
    case None
    then have "\<forall>e \<in> set own. me_did e \<noteq> d" using winner_best [of own d] by simp
    then have "d \<notin> members_of (set es)" by (auto simp: own members_of_def)
    then show ?thesis using None by (simp add: resolveAdmission_def own_def [symmetric])
  next
    case (Some w)
    then have best: "best_event (set es) d w" using winner_best [of own d] by (auto simp: best_event_def own)
    show ?thesis
    proof (cases "me_status w = MemberActive")
      case False
      then show ?thesis using Some best_event_active [OF best] by (simp add: resolveAdmission_def own_def [symmetric])
    next
      case True
      define R where "R = fold (\<lambda>e m. if me_status e = MemberRemoved \<and> me_since e > m then me_since e else m) own (- 1)"
      define A where "A = fold (\<lambda>e m. if me_status e = MemberActive \<and> me_since e > R \<and> me_since e < m then me_since e else m)
        own (me_since w)"
      have res: "resolveAdmission es d = Some A"
        using Some True by (simp add: resolveAdmission_def own_def [symmetric] R_def [symmetric] A_def)
      have R: "\<forall>r \<in> set own. me_status r = MemberRemoved \<longrightarrow> me_since r \<le> R"
        "R = - 1 \<or> (\<exists>r \<in> set own. me_status r = MemberRemoved \<and> me_since r = R)"
        using fold_guarded_max [of "- 1" "\<lambda>e. me_status e = MemberRemoved" me_since own] by (simp_all add: R_def)
      have A: "\<forall>e \<in> set own. me_status e = MemberActive \<and> me_since e > R \<longrightarrow> A \<le> me_since e"
        "A = me_since w \<or> (\<exists>e \<in> set own. me_status e = MemberActive \<and> me_since e > R \<and> me_since e = A)"
        using fold_guarded_min [of "\<lambda>e. me_status e = MemberActive" "\<lambda>e. me_since e > R" me_since own "me_since w"]
        by (simp_all add: A_def)
      have w: "w \<in> set own" using best by (simp add: own best_event_def)
      have below: "me_since r < me_since w" if "r \<in> set own" "me_status r = MemberRemoved" for r
        using best that True by (force simp: best_event_def own membershipEventWins_def split: if_splits)
      have "R < me_since w"
        using R(2) below w assms by (auto simp: own)
      have "admission_is (set es) d A"
        unfolding admission_is_def
      proof (intro conjI ballI impI)
        show "\<exists>e \<in> set es. me_did e = d \<and> me_status e = MemberActive \<and> me_since e = A"
          using A(2) w True by (auto simp: own)
      next
        fix r assume "r \<in> set es" "me_did r = d \<and> me_status r = MemberRemoved"
        then have "me_since r \<le> R" using R(1) by (simp add: own)
        then show "me_since r < A" using A(2) \<open>R < me_since w\<close> by auto
      next
        fix e assume e: "e \<in> set es" "me_did e = d \<and> me_status e = MemberActive \<and>
          (\<forall>r \<in> set es. me_did r = d \<and> me_status r = MemberRemoved \<longrightarrow> me_since r < me_since e)"
        then have "R < me_since e" using R(2) assms by (fastforce simp: own)
        then show "A \<le> me_since e" using A(1) e by (simp add: own)
      qed
      then show ?thesis
        unfolding res using best_event_active [OF best] True admission_unique by blast
    qed
  qed
qed

lemma set_sort_js: "set (sort (js_set xs)) = set xs" "distinct (sort (js_set xs))" for xs :: "string list"
  by (simp_all add: set_js_set distinct_js_set)

lemma sorted_set_eq: "sort (js_set xs) = sorted_list_of_set (set xs)" for xs :: "string list"
  by (metis distinct_js_set distinct_remdups_id set_js_set sorted_list_of_set_sort_remdups)

text \<open>C16: the list of members is the sorted projection of the set of events, whatever the order and the
  repetitions in which the document yields them: a person is a member exactly when an active event
  of theirs lies above all removals of theirs. Peers with the same events agree on the list.\<close>

theorem members_from_event_set:
  "resolveActiveMembers es = sorted_list_of_set (members_of (set es))"
  by (rule resolveActiveMembers_eq)

text \<open>C0: admins are the members that were promoted: removing a member takes their admin rights away
  although the set of promotions only grows, and the order of either set does not matter.\<close>

theorem admins_are_members:
  "resolveActiveAdmins ads (resolveActiveMembers es) =
     sorted_list_of_set (ad_did ` set ads \<inter> members_of (set es))"
proof -
  have "set (resolveActiveMembers es) = members_of (set es)"
    by (simp add: resolveActiveMembers_eq finite_members_of)
  then have "set (filter (\<lambda>did. did \<in> set (resolveActiveMembers es)) (resolveAdmins ads)) = ad_did ` set ads \<inter> members_of (set es)"
    by (auto simp: resolveAdmins_def set_js_set)
  then show ?thesis by (simp only: resolveActiveAdmins_def sorted_set_eq)
qed

text \<open>C15: the admission of a member, the generation from which they belong to the space without a break,
  does not move when their invitation is delivered again, when others come or go, or when the events
  arrive in another order; once a removal at or above it is known, every later admission is higher.\<close>

theorem admission_moves_only_by_removal:
  assumes admitted: "resolveAdmission es did = Some a"
    and nonneg: "\<forall>e \<in> set es'. 0 \<le> me_since e" and more: "set es \<subseteq> set es'"
  shows "((\<forall>e \<in> set es' - set es. me_did e = did \<longrightarrow> me_status e = MemberActive \<and> a \<le> me_since e) \<longrightarrow>
       resolveAdmission es' did = Some a) \<and>
    (\<forall>r \<in> set es'. \<forall>b. me_did r = did \<and> me_status r = MemberRemoved \<and> a \<le> me_since r \<and>
       resolveAdmission es' did = Some b \<longrightarrow> a < b)"
proof (intro conjI impI ballI allI)
  have "\<forall>e \<in> set es. 0 \<le> me_since e" using nonneg more by blast
  then have adm: "did \<in> members_of (set es)" "admission_is (set es) did a"
    using admitted resolveAdmission_iff by blast+
  note iff = resolveAdmission_iff [OF nonneg]
  {
    assume new: "\<forall>e \<in> set es' - set es. me_did e = did \<longrightarrow> me_status e = MemberActive \<and> a \<le> me_since e"
    obtain e where e: "e \<in> set es" "me_did e = did" "me_status e = MemberActive" "me_since e = a"
      using adm(2) by (auto simp: admission_is_def)
    have removed: "r \<in> set es \<and> me_since r < a" if "r \<in> set es'" "me_did r = did" "me_status r = MemberRemoved" for r
      using new that adm(2) by (fastforce simp: admission_is_def)
    have "admission_is (set es') did a"
      unfolding admission_is_def
    proof (intro conjI ballI impI)
      show "\<exists>e \<in> set es'. me_did e = did \<and> me_status e = MemberActive \<and> me_since e = a" using e more by blast
      show "me_since r < a" if "r \<in> set es'" "me_did r = did \<and> me_status r = MemberRemoved" for r
        using removed that by blast
      fix x assume x: "x \<in> set es'" "me_did x = did \<and> me_status x = MemberActive \<and>
        (\<forall>r \<in> set es'. me_did r = did \<and> me_status r = MemberRemoved \<longrightarrow> me_since r < me_since x)"
      show "a \<le> me_since x"
      proof (cases "x \<in> set es")
        case True
        moreover have "\<forall>r \<in> set es. me_did r = did \<and> me_status r = MemberRemoved \<longrightarrow> me_since r < me_since x"
          using x(2) more by blast
        ultimately show ?thesis using adm(2) x(2) unfolding admission_is_def by blast
      next
        case False
        then show ?thesis using new x by blast
      qed
    qed
    moreover obtain w where w: "resolveMembershipWinner es' did = Some w" "best_event (set es') did w"
      using winner_best [of es' did] e more by (cases "resolveMembershipWinner es' did") auto
    have "me_status w = MemberActive"
    proof (rule ccontr)
      assume "me_status w \<noteq> MemberActive"
      then have "me_status w = MemberRemoved" by (cases "me_status w") auto
      then have "me_since w < a" using removed w(2) by (simp add: best_event_def)
      then have "membershipEventWins e w" using e(4) by (simp add: membershipEventWins_def)
      then show False using w(2) e more by (auto simp: best_event_def)
    qed
    then have "did \<in> members_of (set es')" using best_event_active [OF w(2)] by simp
    ultimately show "resolveAdmission es' did = Some a" using iff by blast
  }
  fix r b
  assume "r \<in> set es'" and r: "me_did r = did \<and> me_status r = MemberRemoved \<and> a \<le> me_since r \<and> resolveAdmission es' did = Some b"
  then have "admission_is (set es') did b" using iff by blast
  then have "me_since r < b" using r \<open>r \<in> set es'\<close> by (simp add: admission_is_def)
  then show "a < b" using r by simp
qed

theorem admission_moves_only_by_removal_witness:
  "let event = (\<lambda>st g. \<lparr>me_did = ''did:x:a'', me_status = st, me_since = g, me_added_by = None\<rparr>);
       es = [event MemberActive 1];
       es' = [event MemberActive 1, event MemberActive 4, event MemberRemoved 2]
   in resolveAdmission es ''did:x:a'' = Some 1 \<and> resolveAdmission (es @ [event MemberActive 3]) ''did:x:a'' = Some 1 \<and>
      resolveAdmission es' ''did:x:a'' = Some 4 \<and> (1 :: int) < 4"
proof -
  define event where "event = (\<lambda>st g. \<lparr>me_did = ''did:x:a'', me_status = st, me_since = g, me_added_by = None\<rparr>)"
  have one: "resolveAdmission [event MemberActive 1] ''did:x:a'' = Some 1"
    by (simp add: resolveAdmission_def resolveMembershipWinner_def event_def)
  have two: "resolveAdmission [event MemberActive 1, event MemberActive 4, event MemberRemoved 2] ''did:x:a'' = Some 4"
    by (simp add: resolveAdmission_def resolveMembershipWinner_def membershipEventWins_def event_def)
  have "resolveAdmission ([event MemberActive 1] @ [event MemberActive 3]) ''did:x:a'' = Some 1"
    using admission_moves_only_by_removal [OF one, of "[event MemberActive 1] @ [event MemberActive 3]"] by (simp add: event_def)
  then show ?thesis unfolding Let_def event_def [symmetric] using one two by simp
qed

end
