(* ===== verification/MemberUpdates.thy ===== *)
theory MemberUpdates
  imports Membership
begin

text \<open>
  Signals about members, \<^verbatim>\<open>protocol/sync/member-update-disposition.ts\<close>, with the store of pending
  signals (\<^verbatim>\<open>adapters/member-update/InMemoryMemberUpdatePendingStore.ts\<close>) and the workflow and resolution
  of \<^verbatim>\<open>application/spaces\<close>. A signal is a hint: it waits until the members of the space document confirm
  it. The caller passes the pending signals of the space to the workflow, as the adapters do; one signal
  is processed at a time.
\<close>

section \<open>Signals\<close>

datatype member_action = MemberAdded | MemberLeft

record member_signal =
  ms_space :: string
  ms_action :: member_action
  ms_member :: string
  ms_generation :: int
  ms_signer :: string
  ms_outer :: "string option"
  ms_received :: "string option"

datatype stored_disposition = StoredVerified | StoredUnverified

record seen_signal =
  ss_signal :: member_signal
  ss_stored :: stored_disposition

datatype member_update_disposition =
    StorePendingAndSync
  | StoreUnverifiedPendingAndSync
  | UpgradePendingAndSync
  | IgnoreLowerAuthority
  | IgnoreDuplicateUpdate
  | IgnoreStaleUpdate
  | BufferFutureAndCatchUp

record update_policy =
  up_generation :: int
  up_admins :: "string list"
  up_members :: "string list"
  up_seen :: "seen_signal list"

definition sameMemberUpdateTuple :: "member_signal \<Rightarrow> member_signal \<Rightarrow> bool" where
  "sameMemberUpdateTuple a b \<longleftrightarrow> ms_space a = ms_space b \<and> ms_action a = ms_action b \<and>
     ms_member a = ms_member b \<and> ms_generation a = ms_generation b"

definition memberUpdateAuthorityLevel :: "member_signal \<Rightarrow> update_policy \<Rightarrow> int" where
  "memberUpdateAuthorityLevel u p =
     (if ms_action u = MemberLeft \<and> ms_signer u = ms_member u then 1
      else if ms_signer u \<in> set (up_admins p) then 1
      else if ms_action u = MemberAdded \<and> ms_signer u \<in> set (up_members p) then 1
      else 0)"

definition storedMemberUpdateAuthorityLevel :: "stored_disposition \<Rightarrow> int" where
  "storedMemberUpdateAuthorityLevel d = (if d = StoredVerified then 1 else 0)"

definition evaluateMemberUpdateDisposition :: "update_policy \<Rightarrow> member_signal \<Rightarrow> member_update_disposition" where
  "evaluateMemberUpdateDisposition p u =
     (if ms_generation u < up_generation p then IgnoreStaleUpdate
      else if ms_generation u > up_generation p + 1 then BufferFutureAndCatchUp
      else
        let authority = memberUpdateAuthorityLevel u p in
        case find (\<lambda>s. sameMemberUpdateTuple (ss_signal s) u) (up_seen p) of
          Some existing \<Rightarrow>
            let stored = storedMemberUpdateAuthorityLevel (ss_stored existing) in
            if authority > stored then UpgradePendingAndSync
            else if authority < stored then IgnoreLowerAuthority
            else IgnoreDuplicateUpdate
        | None \<Rightarrow> if authority > 0 then StorePendingAndSync else StoreUnverifiedPendingAndSync)"

section \<open>The store of pending signals\<close>

record pending_store =
  ps_seen :: "string \<rightharpoonup> seen_signal list"
  ps_future :: "string \<rightharpoonup> member_signal list"

definition new_pending_store :: pending_store where
  "new_pending_store = \<lparr>ps_seen = (\<lambda>_. None), ps_future = (\<lambda>_. None)\<rparr>"

definition listSeenForSpace :: "string \<Rightarrow> pending_store \<Rightarrow> seen_signal list" where
  "listSeenForSpace spaceId st = (case ps_seen st spaceId of None \<Rightarrow> [] | Some xs \<Rightarrow> xs)"

definition listFutureForSpace :: "string \<Rightarrow> pending_store \<Rightarrow> member_signal list" where
  "listFutureForSpace spaceId st = (case ps_future st spaceId of None \<Rightarrow> [] | Some xs \<Rightarrow> xs)"

definition savePending :: "seen_signal \<Rightarrow> pending_store \<Rightarrow> pending_store" where
  "savePending s st =
     (let xs = listSeenForSpace (ms_space (ss_signal s)) st in
      if list_ex (\<lambda>x. sameMemberUpdateTuple (ss_signal x) (ss_signal s)) xs then st
      else st\<lparr>ps_seen := (ps_seen st)(ms_space (ss_signal s) \<mapsto> xs @ [s])\<rparr>)"

fun replace_first :: "('a \<Rightarrow> bool) \<Rightarrow> 'a \<Rightarrow> 'a list \<Rightarrow> 'a list" where
  "replace_first P y [] = []"
| "replace_first P y (x # xs) = (if P x then y # xs else x # replace_first P y xs)"

definition upgradePending :: "seen_signal \<Rightarrow> pending_store \<Rightarrow> pending_store" where
  "upgradePending s st =
     (case ps_seen st (ms_space (ss_signal s)) of
        None \<Rightarrow> st
      | Some xs \<Rightarrow> st\<lparr>ps_seen := (ps_seen st)(ms_space (ss_signal s) \<mapsto>
          replace_first (\<lambda>x. sameMemberUpdateTuple (ss_signal x) (ss_signal s)) s xs)\<rparr>)"

definition bufferFuture :: "member_signal \<Rightarrow> pending_store \<Rightarrow> pending_store" where
  "bufferFuture s st =
     (let xs = listFutureForSpace (ms_space s) st in
      if list_ex (\<lambda>x. sameMemberUpdateTuple x s \<and> ms_signer x = ms_signer s) xs then st
      else st\<lparr>ps_future := (ps_future st)(ms_space s \<mapsto> xs @ [s])\<rparr>)"

definition resolvePending :: "string \<Rightarrow> member_signal \<Rightarrow> pending_store \<Rightarrow> pending_store" where
  "resolvePending spaceId s st =
     (case ps_seen st spaceId of
        None \<Rightarrow> st
      | Some xs \<Rightarrow>
          let rest = filter (\<lambda>x. \<not> sameMemberUpdateTuple (ss_signal x) s) xs in
          st\<lparr>ps_seen := (ps_seen st)(spaceId := (if rest = [] then None else Some rest))\<rparr>)"

definition resolveFuture :: "string \<Rightarrow> member_signal \<Rightarrow> pending_store \<Rightarrow> pending_store" where
  "resolveFuture spaceId s st =
     (case ps_future st spaceId of
        None \<Rightarrow> st
      | Some xs \<Rightarrow>
          let rest = filter (\<lambda>x. \<not> sameMemberUpdateTuple x s) xs in
          st\<lparr>ps_future := (ps_future st)(spaceId := (if rest = [] then None else Some rest))\<rparr>)"

section \<open>Processing a signal\<close>

datatype local_impact = NoImpact | MarkRemovalPending | MarkAdditionPending

record update_result =
  ur_disposition :: member_update_disposition
  ur_catch_up :: bool
  ur_ackable :: bool
  ur_impact :: local_impact

definition computeLocalImpact :: "member_update_disposition \<Rightarrow> member_signal \<Rightarrow> string \<Rightarrow> local_impact" where
  "computeLocalImpact d s localDid =
     (if ms_member s \<noteq> localDid then NoImpact
      else if d \<noteq> StorePendingAndSync \<and> d \<noteq> UpgradePendingAndSync then NoImpact
      else if ms_action s = MemberLeft then MarkRemovalPending else MarkAdditionPending)"

definition processMemberUpdate ::
  "member_signal \<Rightarrow> update_policy \<Rightarrow> string \<Rightarrow> pending_store \<Rightarrow> update_result \<times> pending_store" where
  "processMemberUpdate s p localDid st =
     (let d = evaluateMemberUpdateDisposition p s; impact = computeLocalImpact d s localDid;
          result = (\<lambda>sync impact. \<lparr>ur_disposition = d, ur_catch_up = sync, ur_ackable = True, ur_impact = impact\<rparr>) in
      case d of
        StorePendingAndSync \<Rightarrow> (result True impact, savePending \<lparr>ss_signal = s, ss_stored = StoredVerified\<rparr> st)
      | StoreUnverifiedPendingAndSync \<Rightarrow>
          (result True impact, savePending \<lparr>ss_signal = s, ss_stored = StoredUnverified\<rparr> st)
      | UpgradePendingAndSync \<Rightarrow> (result True impact, upgradePending \<lparr>ss_signal = s, ss_stored = StoredVerified\<rparr> st)
      | BufferFutureAndCatchUp \<Rightarrow> (result True NoImpact, bufferFuture s st)
      | _ \<Rightarrow> (result False NoImpact, st))"

section \<open>Resolution against the canonical members\<close>

record update_resolution =
  rs_confirmed :: "member_signal list"
  rs_discarded :: "member_signal list"
  rs_local_removal :: "member_signal option"

definition resolve_signal :: "string list \<Rightarrow> string \<Rightarrow> seen_signal \<Rightarrow> update_resolution \<Rightarrow> update_resolution" where
  "resolve_signal canonicalActiveMembers localDid x r =
     (let s = ss_signal x;
          isCanonicalMember = (ms_member s \<in> set canonicalActiveMembers);
          isConfirmed = (if ms_action s = MemberAdded then isCanonicalMember else \<not> isCanonicalMember) in
      if isConfirmed \<and> ss_stored x = StoredUnverified then r
      else if isConfirmed
      then r\<lparr>rs_confirmed := rs_confirmed r @ [s],
             rs_local_removal := (if ms_action s = MemberLeft \<and> ms_member s = localDid \<and> ss_stored x = StoredVerified
                                  then Some s else rs_local_removal r)\<rparr>
      else r\<lparr>rs_discarded := rs_discarded r @ [s]\<rparr>)"

definition resolveMemberUpdatesAgainstCanonical ::
  "seen_signal list \<Rightarrow> string list \<Rightarrow> string \<Rightarrow> update_resolution" where
  "resolveMemberUpdatesAgainstCanonical pending canonicalActiveMembers localDid =
     fold (resolve_signal canonicalActiveMembers localDid) pending
       \<lparr>rs_confirmed = [], rs_discarded = [], rs_local_removal = None\<rparr>"

definition canonicalEventSetAnswersPending :: "membership_event list \<Rightarrow> member_signal \<Rightarrow> bool" where
  "canonicalEventSetAnswersPending es s =
     (case resolveMembershipWinner es (ms_member s) of
        None \<Rightarrow> False
      | Some w \<Rightarrow>
          if me_since w > ms_generation s then True
          else if me_since w < ms_generation s then False
          else me_status w = MemberRemoved \<or> ms_action s = MemberAdded)"

section \<open>The store over time\<close>

text \<open>A signal is processed, from the inbox or from the buffer, or a pending one is resolved.\<close>

datatype update_event =
    UpdateReceived member_signal int "string list" "string list"
  | PendingResolved string member_signal
  | FutureResolved string member_signal

definition store_policy :: "member_signal \<Rightarrow> int \<Rightarrow> string list \<Rightarrow> string list \<Rightarrow> pending_store \<Rightarrow> update_policy" where
  "store_policy s g admins members st =
     \<lparr>up_generation = g, up_admins = admins, up_members = members, up_seen = listSeenForSpace (ms_space s) st\<rparr>"

inductive update_step :: "string \<Rightarrow> pending_store \<Rightarrow> update_event \<Rightarrow> pending_store \<Rightarrow> bool" for localDid where
  update_received: "update_step localDid st (UpdateReceived s g admins members)
     (snd (processMemberUpdate s (store_policy s g admins members st) localDid st))"
| pending_resolved: "update_step localDid st (PendingResolved spaceId s) (resolvePending spaceId s st)"
| future_resolved: "update_step localDid st (FutureResolved spaceId s) (resolveFuture spaceId s st)"

text \<open>Who may announce what.\<close>

definition may_announce :: "member_signal \<Rightarrow> string list \<Rightarrow> string list \<Rightarrow> bool" where
  "may_announce s admins members \<longleftrightarrow>
     (ms_action s = MemberLeft \<and> ms_signer s = ms_member s) \<or> ms_signer s \<in> set admins \<or>
     (ms_action s = MemberAdded \<and> ms_signer s \<in> set members)"

lemma authority_level: "memberUpdateAuthorityLevel s p = (if may_announce s (up_admins p) (up_members p) then 1 else 0)"
  by (auto simp: memberUpdateAuthorityLevel_def may_announce_def)

definition tuple_of :: "seen_signal \<Rightarrow> string \<times> member_action \<times> string \<times> int" where
  "tuple_of x = (ms_space (ss_signal x), ms_action (ss_signal x), ms_member (ss_signal x), ms_generation (ss_signal x))"

lemma same_tuple: "sameMemberUpdateTuple (ss_signal x) (ss_signal y) \<longleftrightarrow> tuple_of x = tuple_of y"
  by (auto simp: sameMemberUpdateTuple_def tuple_of_def)

definition authorized_in :: "update_event set \<Rightarrow> seen_signal \<Rightarrow> bool" where
  "authorized_in E x \<longleftrightarrow> (ss_stored x = StoredVerified \<longrightarrow>
     (\<exists>g admins members. UpdateReceived (ss_signal x) g admins members \<in> E \<and> may_announce (ss_signal x) admins members))"

definition seen_ok :: "update_event set \<Rightarrow> string \<Rightarrow> seen_signal list \<Rightarrow> bool" where
  "seen_ok E spaceId xs \<longleftrightarrow> distinct (map tuple_of xs) \<and>
     (\<forall>x \<in> set xs. ms_space (ss_signal x) = spaceId \<and> authorized_in E x)"

definition pending_ok :: "update_event set \<Rightarrow> pending_store \<Rightarrow> bool" where
  "pending_ok E st \<longleftrightarrow> (\<forall>spaceId. seen_ok E spaceId (listSeenForSpace spaceId st))"

lemma seen_ok_mono: "seen_ok E spaceId xs \<Longrightarrow> E \<subseteq> F \<Longrightarrow> seen_ok F spaceId xs"
  unfolding seen_ok_def authorized_in_def by blast

lemma replace_first_split:
  "list_ex P xs \<Longrightarrow> \<exists>as x bs. xs = as @ x # bs \<and> P x \<and> list_all (\<lambda>a. \<not> P a) as \<and> replace_first P y xs = as @ y # bs"
proof (induction xs)
  case (Cons x xs)
  show ?case
  proof (cases "P x")
    case True
    then show ?thesis by (intro exI [of _ "[]"] exI [of _ x] exI [of _ xs]) simp
  next
    case False
    then obtain as z bs where r: "xs = as @ z # bs" "P z" "list_all (\<lambda>a. \<not> P a) as" "replace_first P y xs = as @ y # bs"
      using Cons by auto
    have "replace_first P y (x # xs) = x # as @ y # bs" using r(4) False by simp
    then show ?thesis using False r(1-3) by - (rule exI [of _ "x # as"], rule exI [of _ z], rule exI [of _ bs], simp)
  qed
qed simp

lemma replace_first_none: "\<not> list_ex P xs \<Longrightarrow> replace_first P y xs = xs"
  by (induction xs) auto

lemma seen_ok_replace:
  assumes "seen_ok E spaceId xs" "ms_space (ss_signal s) = spaceId" "authorized_in E s"
  shows "seen_ok E spaceId (replace_first (\<lambda>x. tuple_of x = tuple_of s) s xs)"
proof (cases "list_ex (\<lambda>x. tuple_of x = tuple_of s) xs")
  case True
  from replace_first_split [OF this, of s] obtain as x bs where
    r: "xs = as @ x # bs" "tuple_of x = tuple_of s" "replace_first (\<lambda>x. tuple_of x = tuple_of s) s xs = as @ s # bs" by blast
  then show ?thesis using assms by (simp add: seen_ok_def)
qed (use assms in \<open>simp add: replace_first_none\<close>)

lemma listSeen_simps [simp]:
  "listSeenForSpace k (st\<lparr>ps_seen := (ps_seen st)(j \<mapsto> xs)\<rparr>) = (if k = j then xs else listSeenForSpace k st)"
  "listSeenForSpace k (st\<lparr>ps_future := f\<rparr>) = listSeenForSpace k st"
  by (simp_all add: listSeenForSpace_def)

lemma listSeen_save:
  "listSeenForSpace k (savePending s st) =
     (if k = ms_space (ss_signal s) \<and> \<not> list_ex (\<lambda>x. tuple_of x = tuple_of s) (listSeenForSpace k st)
      then listSeenForSpace k st @ [s] else listSeenForSpace k st)"
  by (simp add: savePending_def Let_def same_tuple)

lemma listSeen_upgrade:
  "listSeenForSpace k (upgradePending s st) =
     (if k = ms_space (ss_signal s) then replace_first (\<lambda>x. tuple_of x = tuple_of s) s (listSeenForSpace k st)
      else listSeenForSpace k st)"
  by (auto simp: upgradePending_def same_tuple listSeenForSpace_def split: option.splits)

lemma listSeen_resolve:
  "listSeenForSpace k (resolvePending spaceId s st) =
     (if k = spaceId then filter (\<lambda>x. \<not> sameMemberUpdateTuple (ss_signal x) s) (listSeenForSpace k st)
      else listSeenForSpace k st)"
  by (auto simp: resolvePending_def listSeenForSpace_def Let_def split: option.splits)

lemma listSeen_future [simp]:
  "listSeenForSpace k (bufferFuture s st) = listSeenForSpace k st"
  "listSeenForSpace k (resolveFuture spaceId s st) = listSeenForSpace k st"
  by (auto simp: bufferFuture_def resolveFuture_def Let_def split: option.splits)

lemma seen_ok_filter: "seen_ok E k xs \<Longrightarrow> seen_ok E k (filter P xs)"
  by (auto simp: seen_ok_def distinct_map_filter)

lemma pending_ok_step:
  assumes "update_step localDid st e st'" "pending_ok E st"
  shows "pending_ok (insert e E) st'"
  using assms(1)
proof cases
  case (update_received s g admins members)
  have old: "seen_ok (insert e E) k (listSeenForSpace k st)" for k
    using assms(2) seen_ok_mono [of E k _ "insert e E"] by (auto simp: pending_ok_def)
  define d where "d = evaluateMemberUpdateDisposition (store_policy s g admins members st) s"
  have auth: "may_announce s admins members" if "d = StorePendingAndSync \<or> d = UpgradePendingAndSync"
    using that by (auto simp: d_def evaluateMemberUpdateDisposition_def authority_level storedMemberUpdateAuthorityLevel_def
        store_policy_def Let_def split: if_splits option.splits)
  have ok: "authorized_in (insert e E) \<lparr>ss_signal = s, ss_stored = x\<rparr>"
    if "x = StoredVerified \<longrightarrow> d = StorePendingAndSync \<or> d = UpgradePendingAndSync" for x
    using that auth update_received(1) unfolding authorized_in_def by auto
  have st': "st' = snd (processMemberUpdate s (store_policy s g admins members st) localDid st)" using update_received by simp
  have save: "seen_ok (insert e E) k (listSeenForSpace k (savePending \<lparr>ss_signal = s, ss_stored = x\<rparr> st))"
    if "x = StoredVerified \<longrightarrow> d = StorePendingAndSync \<or> d = UpgradePendingAndSync" for x k
    using old [of k] ok [OF that] by (auto simp: listSeen_save seen_ok_def list_ex_iff)
  have upgrade: "seen_ok (insert e E) k (listSeenForSpace k (upgradePending \<lparr>ss_signal = s, ss_stored = StoredVerified\<rparr> st))"
    if "d = UpgradePendingAndSync" for k
    using old [of k] ok [of StoredVerified] that by (auto simp: listSeen_upgrade intro: seen_ok_replace)
  show ?thesis
    unfolding pending_ok_def st'
    using old save upgrade by (cases d) (simp_all add: processMemberUpdate_def Let_def d_def [symmetric])
qed (use assms(2) seen_ok_mono [of E _ _ "insert e E"] in \<open>auto simp: pending_ok_def listSeen_resolve intro!: seen_ok_filter\<close>)

lemma pending_ok_run:
  assumes "run (update_step localDid) st evs st'" "pending_ok E st"
  shows "pending_ok (E \<union> set evs) st'"
  using assms
proof (induction arbitrary: E rule: run.induct)
  case (run_cons s e s' es s'')
  from run_cons.IH [OF pending_ok_step [OF run_cons.hyps(1) run_cons.prems]] show ?case by simp
qed simp

lemma pending_ok_new: "pending_ok E new_pending_store"
  by (simp add: pending_ok_def seen_ok_def listSeenForSpace_def new_pending_store_def)

section \<open>Resolution\<close>

lemma resolve_local_removal:
  "rs_local_removal (fold (resolve_signal canonical localDid) pending r) = Some s \<Longrightarrow>
     rs_local_removal r = Some s \<or>
     (\<exists>x \<in> set pending. ss_signal x = s \<and> ss_stored x = StoredVerified \<and> ms_action s = MemberLeft \<and>
        ms_member s = localDid \<and> localDid \<notin> set canonical)"
proof (induction pending arbitrary: r)
  case (Cons x pending)
  have "rs_local_removal (resolve_signal canonical localDid x r) = Some s \<Longrightarrow> rs_local_removal r = Some s \<or>
      (ss_signal x = s \<and> ss_stored x = StoredVerified \<and> ms_action s = MemberLeft \<and> ms_member s = localDid \<and>
        localDid \<notin> set canonical)"
    by (auto simp: resolve_signal_def Let_def split: if_splits)
  then show ?case using Cons.IH [of "resolve_signal canonical localDid x r"] Cons.prems by auto
qed simp

text \<open>C13: a device treats its own removal as confirmed only if the space document no longer lists its
  person, and a signal of that removal was received that was signed by that person or by an admin known
  at the time. Signals of anybody else, in any number and order, before or after, cannot bring it about.\<close>

theorem local_removal_is_authorized:
  assumes "run (update_step localDid) new_pending_store evs st"
    and "rs_local_removal (resolveMemberUpdatesAgainstCanonical (listSeenForSpace spaceId st) canonical localDid) = Some s"
  shows "ms_space s = spaceId \<and> ms_action s = MemberLeft \<and> ms_member s = localDid \<and> localDid \<notin> set canonical \<and>
    (\<exists>g admins members. UpdateReceived s g admins members \<in> set evs \<and>
       (ms_signer s = localDid \<or> ms_signer s \<in> set admins))"
proof -
  have "\<exists>x \<in> set (listSeenForSpace spaceId st). ss_signal x = s \<and> ss_stored x = StoredVerified \<and>
      ms_action s = MemberLeft \<and> ms_member s = localDid \<and> localDid \<notin> set canonical"
    using resolve_local_removal [OF assms(2) [unfolded resolveMemberUpdatesAgainstCanonical_def]] by simp
  then obtain x where x: "x \<in> set (listSeenForSpace spaceId st)" "ss_signal x = s" "ss_stored x = StoredVerified"
      "ms_action s = MemberLeft" "ms_member s = localDid" "localDid \<notin> set canonical"
    by blast
  have "pending_ok (set evs) st" using pending_ok_run [OF assms(1) pending_ok_new, of "{}"] by simp
  then have "ms_space s = spaceId" "authorized_in (set evs) x"
    using x(1,2) by (auto simp: pending_ok_def seen_ok_def)
  then show ?thesis using x by (auto simp: authorized_in_def may_announce_def)
qed

text \<open>Bob's removal, announced first by a stranger and then by the admin Alice.\<close>

definition bob_leaves :: "string \<Rightarrow> member_signal" where
  "bob_leaves signer = \<lparr>ms_space = ''s'', ms_action = MemberLeft, ms_member = ''bob'', ms_generation = 1,
     ms_signer = signer, ms_outer = None, ms_received = None\<rparr>"

definition bob_events :: "update_event list" where
  "bob_events = [UpdateReceived (bob_leaves ''eve'') 0 [''alice''] [''alice'', ''bob''],
     UpdateReceived (bob_leaves ''alice'') 0 [''alice''] [''alice'', ''bob'']]"

definition bob_store :: pending_store where
  "bob_store = new_pending_store\<lparr>ps_seen := [''s'' \<mapsto> [\<lparr>ss_signal = bob_leaves ''alice'', ss_stored = StoredVerified\<rparr>]]\<rparr>"

lemma bob_run: "run (update_step ''bob'') new_pending_store bob_events bob_store"
proof -
  define st where "st = snd (processMemberUpdate (bob_leaves ''eve'')
    (store_policy (bob_leaves ''eve'') 0 [''alice''] [''alice'', ''bob''] new_pending_store) ''bob'' new_pending_store)"
  have st: "st = new_pending_store\<lparr>ps_seen := [''s'' \<mapsto> [\<lparr>ss_signal = bob_leaves ''eve'', ss_stored = StoredUnverified\<rparr>]]\<rparr>"
    unfolding st_def by (simp add: processMemberUpdate_def evaluateMemberUpdateDisposition_def store_policy_def
        memberUpdateAuthorityLevel_def storedMemberUpdateAuthorityLevel_def sameMemberUpdateTuple_def bob_leaves_def
        listSeenForSpace_def savePending_def new_pending_store_def Let_def)
  have last: "bob_store = snd (processMemberUpdate (bob_leaves ''alice'')
    (store_policy (bob_leaves ''alice'') 0 [''alice''] [''alice'', ''bob''] st) ''bob'' st)"
    unfolding st bob_store_def by (simp add: processMemberUpdate_def evaluateMemberUpdateDisposition_def store_policy_def
        memberUpdateAuthorityLevel_def storedMemberUpdateAuthorityLevel_def sameMemberUpdateTuple_def bob_leaves_def
        listSeenForSpace_def upgradePending_def new_pending_store_def Let_def)
  show ?thesis
    unfolding bob_events_def last st_def
    by (rule run.run_cons, rule update_step.update_received, rule run.run_cons, rule update_step.update_received,
        rule run.run_nil)
qed

theorem local_removal_is_authorized_witness:
  "\<exists>st. run (update_step ''bob'') new_pending_store bob_events st \<and>
    rs_local_removal (resolveMemberUpdatesAgainstCanonical (listSeenForSpace ''s'' st) [''alice''] ''bob'') =
      Some (bob_leaves ''alice'') \<and>
    (\<exists>g admins members. UpdateReceived (bob_leaves ''alice'') g admins members \<in> set bob_events \<and> ''alice'' \<in> set admins)"
proof -
  have removal: "rs_local_removal (resolveMemberUpdatesAgainstCanonical (listSeenForSpace ''s'' bob_store) [''alice''] ''bob'') =
      Some (bob_leaves ''alice'')"
    by (simp add: resolveMemberUpdatesAgainstCanonical_def resolve_signal_def listSeenForSpace_def bob_store_def bob_leaves_def Let_def)
  have "ms_signer (bob_leaves ''alice'') = ''alice''" by (simp add: bob_leaves_def)
  with local_removal_is_authorized [OF bob_run removal] removal bob_run show ?thesis by fastforce
qed

lemma verified_kept_step:
  assumes "update_step localDid st e st'" "pending_ok E st"
    and "x \<in> set (listSeenForSpace spaceId st)" "ss_stored x = StoredVerified"
    and "\<And>s. e = PendingResolved spaceId s \<Longrightarrow> \<not> sameMemberUpdateTuple (ss_signal x) s"
  shows "x \<in> set (listSeenForSpace spaceId st')"
  using assms(1)
proof cases
  case (update_received s g admins members)
  define d where "d = evaluateMemberUpdateDisposition (store_policy s g admins members st) s"
  have st': "st' = snd (processMemberUpdate s (store_policy s g admins members st) localDid st)" using update_received by simp
  have save: "x \<in> set (listSeenForSpace spaceId (savePending y st))" for y using assms(3) by (cases "spaceId = ms_space (ss_signal y)") (simp_all add: listSeen_save)
  have upgrade: "x \<in> set (listSeenForSpace spaceId (upgradePending \<lparr>ss_signal = s, ss_stored = StoredVerified\<rparr> st))"
    if d: "d = UpgradePendingAndSync"
  proof (cases "spaceId = ms_space s \<and> list_ex (\<lambda>y. tuple_of y = tuple_of \<lparr>ss_signal = s, ss_stored = StoredVerified\<rparr>) (listSeenForSpace spaceId st)")
    case False
    then show ?thesis using assms(3) by (auto simp: listSeen_upgrade replace_first_none)
  next
    case True
    let ?s = "\<lparr>ss_signal = s, ss_stored = StoredVerified\<rparr>"
    have "list_ex (\<lambda>y. tuple_of y = tuple_of ?s) (listSeenForSpace spaceId st)" using True by blast
    from replace_first_split [OF this, of ?s] obtain as y bs where
      r: "listSeenForSpace spaceId st = as @ y # bs" "tuple_of y = tuple_of ?s" "list_all (\<lambda>a. tuple_of a \<noteq> tuple_of ?s) as"
        "replace_first (\<lambda>y. tuple_of y = tuple_of ?s) ?s (listSeenForSpace spaceId st) = as @ ?s # bs" by blast
    have same: "sameMemberUpdateTuple (ss_signal z) s \<longleftrightarrow> tuple_of z = tuple_of ?s" for z
      using same_tuple [of z ?s] by simp
    have "find (\<lambda>z. sameMemberUpdateTuple (ss_signal z) s) (listSeenForSpace (ms_space s) st) = Some y"
      using r True unfolding same by (simp add: find_append find_None_set list_all_iff option.case_eq_if)
    then have "ss_stored y = StoredUnverified"
      using d by (cases "ss_stored y") (auto simp: d_def evaluateMemberUpdateDisposition_def authority_level
          storedMemberUpdateAuthorityLevel_def store_policy_def Let_def split: if_splits)
    then have "x \<noteq> y" using assms(4) by auto
    then show ?thesis using assms(3) r(1,4) True by (auto simp: listSeen_upgrade)
  qed
  show ?thesis
    unfolding st' using assms(3) save upgrade by (cases d) (simp_all add: processMemberUpdate_def Let_def d_def [symmetric])
next
  case (pending_resolved spaceId' s)
  then show ?thesis using assms(3,5) by (auto simp: listSeen_resolve)
next
  case (future_resolved spaceId' s)
  then show ?thesis using assms(3) by simp
qed

text \<open>C14: a pending signal of somebody entitled to announce it stays, with its signer, until its change is
  resolved against the document: no later signal replaces, weakens or removes it.\<close>

theorem verified_update_kept:
  assumes "run (update_step localDid) new_pending_store before st" "run (update_step localDid) st evs st'"
    and "x \<in> set (listSeenForSpace spaceId st)" "ss_stored x = StoredVerified"
    and "\<And>s. PendingResolved spaceId s \<in> set evs \<Longrightarrow> \<not> sameMemberUpdateTuple (ss_signal x) s"
  shows "x \<in> set (listSeenForSpace spaceId st')"
proof -
  have "pending_ok (set before) st" using pending_ok_run [OF assms(1) pending_ok_new, of "{}"] by simp
  with assms(2) show ?thesis
    using assms(3,5)
  proof (induction arbitrary: before rule: run.induct)
    case (run_cons s e s' es s'')
    have ok: "pending_ok (set (e # before)) s'" using pending_ok_step [OF run_cons.hyps(1) run_cons.prems(1)] by simp
    have "x \<in> set (listSeenForSpace spaceId s')"
      by (rule verified_kept_step [OF run_cons.hyps(1) run_cons.prems(1,2) assms(4)]) (use run_cons.prems(3) in auto)
    then show ?case using run_cons.IH [OF ok] run_cons.prems(3) by auto
  qed simp
qed

theorem verified_update_kept_witness:
  "\<lparr>ss_signal = bob_leaves ''alice'', ss_stored = StoredVerified\<rparr> \<in>
     set (listSeenForSpace ''s'' (snd (processMemberUpdate (bob_leaves ''eve'')
       (store_policy (bob_leaves ''eve'') 0 [''alice''] [''alice'', ''bob''] bob_store) ''bob'' bob_store)))"
proof -
  have step: "run (update_step ''bob'') bob_store [UpdateReceived (bob_leaves ''eve'') 0 [''alice''] [''alice'', ''bob'']]
      (snd (processMemberUpdate (bob_leaves ''eve'')
         (store_policy (bob_leaves ''eve'') 0 [''alice''] [''alice'', ''bob''] bob_store) ''bob'' bob_store))"
    by (rule run.run_cons, rule update_step.update_received, rule run.run_nil)
  show ?thesis
    by (rule verified_update_kept [OF bob_run step]) (simp_all add: listSeenForSpace_def bob_store_def)
qed

section \<open>When a pending signal is answered\<close>

text \<open>The event of the space document that a signal announces.\<close>

definition announced_event :: "member_signal \<Rightarrow> string option \<Rightarrow> membership_event" where
  "announced_event s by' =
     \<lparr>me_did = ms_member s,
      me_status = (case ms_action s of MemberAdded \<Rightarrow> MemberActive | MemberLeft \<Rightarrow> MemberRemoved),
      me_since = ms_generation s, me_added_by = by'\<rparr>"

lemma winner_snoc:
  "resolveMembershipWinner (es @ [e]) d =
     (if me_did e \<noteq> d then resolveMembershipWinner es d
      else case resolveMembershipWinner es d of
        None \<Rightarrow> Some e
      | Some w \<Rightarrow> if membershipEventWins e w then Some e else Some w)"
  by (auto simp: resolveMembershipWinner_def split: option.splits)

text \<open>C17: the events of a document answer a pending signal exactly if the event it announces could no
  longer change who wins for that person: a signal is settled early only when its own event would make
  no difference, and is kept open whenever it would.\<close>

theorem answered_iff_settled:
  "canonicalEventSetAnswersPending es s \<longleftrightarrow>
     resolveMembershipWinner (es @ [announced_event s by']) (ms_member s) = resolveMembershipWinner es (ms_member s)"
proof (cases "resolveMembershipWinner es (ms_member s)")
  case None
  then show ?thesis by (simp add: canonicalEventSetAnswersPending_def winner_snoc announced_event_def)
next
  case (Some w)
  then show ?thesis
    by (cases w; cases "ms_action s"; cases "me_status w")
       (auto simp: canonicalEventSetAnswersPending_def winner_snoc announced_event_def membershipEventWins_def)
qed

end
