(* ===== verification/Spec2Isabelle.thy ===== *)
theory Spec2Isabelle
  imports Store Dispositions Messages RelaySafety RelaySessions RelayGates RelayLiveness RelayMetrics RelayDevices
    ClientNonces RemovalSafety ClientGuard ClientConverge MemberUpdates
begin

text \<open>
  A verification library for the Web of Trust: its broker, and the log synchronisation of its clients.

  The program. Clients of the Web of Trust keep encrypted, append-only logs and exchange them through a
  broker, the relay (\<^verbatim>\<open>packages/wot-relay/src\<close>). The relay authenticates devices by a signed challenge,
  keeps a device list, a registry of spaces with their admins and key generations, a log per document
  and an inbox per device in SQLite, and lets a socket read or write a document only with a capability.
  What goes over the wire is defined by the protocol library (\<^verbatim>\<open>packages/wot-core/src/protocol\<close>), which
  both sides use to create, parse and verify frames and messages. This library models that protocol
  layer, the two stores and the relay itself down to its callbacks, and of the client its log store, the
  reading side of its coordinator, the removal of members and the reading of the member list.

  The protocol layer, bottom up.
  \<^item> \<open>Json\<close>: JSON values and the canonical form of \<^verbatim>\<open>crypto/jcs.ts\<close>. Objects are key lists in order;
    numbers are rationals with the two infinities a parser can produce. How a number is printed is a
    parameter.
  \<^item> \<open>Encoding\<close>, \<open>DidKey\<close>, \<open>Jws\<close>: base64url, base58 and hex (\<^verbatim>\<open>crypto/encoding.ts\<close>, \<^verbatim>\<open>hex.ts\<close>),
    did:key identifiers (\<^verbatim>\<open>identity/did-key.ts\<close>) and compact JWS (\<^verbatim>\<open>crypto/jws.ts\<close>). The JSON parser,
    Ed25519 and SHA-256 are fields of the record \<open>runtime\<close>; nothing is assumed of them but, where a
    created object is verified again, that the verifier accepts what the signer made and that the parser
    reads the printed text back with its properties in the order printed (\<open>key_sorted\<close>).
  \<^item> \<open>Formats\<close>: the regular expressions and calendar checks as recursive predicates. \<open>JsonText\<close>: a reader
    of canonical texts that keeps the order of the properties, as \<^verbatim>\<open>JSON.parse\<close> does; it serves the
    witnesses.
  \<^item> \<open>BrokerError\<close>, \<open>BrokerAuth\<close>, \<open>AdminFrames\<close>, \<open>Capability\<close>, \<open>Messages\<close>, \<open>Dispositions\<close>,
    \<open>SeqConsistency\<close>: the frames and messages of \<^verbatim>\<open>protocol/sync\<close>, each with its parser, constructor and
    verifier. A thrown error is \<open>None\<close>, a rejection \<open>Inl\<close> of its code. Their properties say what an
    accepted frame guarantees and that created frames are accepted.

  The stores.
  \<^item> \<open>Tables\<close>: SQLite tables as lists of rows with unique keys; an insert that violates a key fails and
    undoes its transaction (\<open>tx\<close> is \<open>Inl\<close>).
  \<^item> \<open>DocLog\<close>: \<^verbatim>\<open>log-store.ts\<close>, the log, device list, space registry, admins and document owners.
  \<^item> \<open>InboxQueue\<close>: \<^verbatim>\<open>queue.ts\<close>, messages with one entry per device, acknowledgement, delivery and garbage
    collection.
  \<^item> \<open>Store\<close>: both on one database, as the transition system \<open>store_step\<close> whose steps are the transactions,
    with the integrity invariant \<open>db_ok\<close> and what no history can undo.

  The relay (\<^verbatim>\<open>relay.ts\<close>).
  \<^item> \<open>RelayState\<close>: the fields of \<^verbatim>\<open>RelayServer\<close>; a socket is a number, the frames sent and counters bumped
    are a trace.
  \<^item> \<open>RelayHandlers\<close>, \<open>RelayRouting\<close>: one definition per handler. An \<^verbatim>\<open>async\<close> handler is cut at its
    \<^verbatim>\<open>await\<close>: the first part leaves a \<open>task\<close> with the values it has read, the part after it has the
    suffix \<open>_done\<close> (\<open>handleLogEntry\<close>, which awaits twice, is cut into \<open>handleLogEntry\<close> and
    \<open>handleLogEntry_hashed\<close>).
  \<^item> \<open>Relay\<close>: the dispatcher and the step relation \<open>relay_step\<close>. A step is one callback: a connection, a
    message, a socket closing or closed, any pending task resuming, or the retention sweep. Tasks resume
    in any order. \<open>exec\<close> is the same as a function.
  \<^item> \<open>RelayFacts\<close>: what each handler leaves alone; \<open>RelayExample\<close>: a concrete session used by witnesses.
  \<^item> \<open>RelaySafety\<close>: the server implements its store, and stored entries are authentic. \<open>RelaySessions\<close>: the
    session tables, logins only by verified challenges, nonces used once. \<open>RelayGates\<close>: what reading and
    writing must pass, revocation, and two gates weaker than their comments. \<open>RelayLiveness\<close>: every message
    is answered within a bounded number of callbacks. \<open>RelayDevices\<close>: the device handlers beside the
    protocol's disposition functions, which they do not call.
  \<^item> \<open>Metrics\<close>, \<open>MetricsHistory\<close>, \<open>RelayMetrics\<close>: \<^verbatim>\<open>metrics.ts\<close>, the ring of buckets against the list of all
    buckets, and the counters against the frames really sent.

  The client (\<^verbatim>\<open>packages/wot-core/src/adapters/storage\<close> and \<^verbatim>\<open>application/sync\<close>).
  \<^item> \<open>ClientLog\<close>, \<open>ClientGaps\<close>: \<^verbatim>\<open>InMemoryDocLogStore.ts\<close>, the client's copy of the logs, its device
    identifier, known, strict and requested heads and the records of missing entries.
    \<^verbatim>\<open>appendLocalEntry\<close> is cut where it awaits the building of the entry.
  \<^item> \<open>ClientApply\<close>: the batch of remote entries against the set of their coordinates; cursors and gap
    records depend on the set only. \<open>ClientNonces\<close>: the life of a store as a step system, in which no
    coordinate (a nonce of the encryption) is used twice unless \<open>clear()\<close> overtakes the building of an
    entry; the run that shows this exception is given.
  \<^item> \<open>LogCrypto\<close>: \<^verbatim>\<open>encryption.ts\<close>, the encryption of log entries, one-shot payloads and inbox messages
    over the ciphers as a parameter. \<open>ClientSync\<close>: the reading side of \<^verbatim>\<open>log-sync-coordinator.ts\<close>, an entry
    or a page of entries verified, decrypted, applied and recorded; \<open>ClientPages\<close>: the page is the same as
    its entries one by one.
  \<^item> \<open>ClientCatchUp\<close>: catching up, gap repair, first publication and restore as the step relation
    \<open>sync_step\<close>, whose runs are cut where they wait for the network or the adapter; \<open>ClientGuard\<close>: at most
    one run per connection pages through the log. \<open>ClientConverge\<close>: the client's loop against the relay's
    own \<open>sync_page\<close> ends with every entry.
  \<^item> \<open>ClientRemovals\<close>: the durable staging of member removals with its conditional writes;
    \<open>ClientReject\<close>: \<^verbatim>\<open>classifyRejectDisposition\<close>; \<open>RemovalRun\<close>: \<^verbatim>\<open>secure-removal-workflow.ts\<close> as a
    state machine cut at every \<^verbatim>\<open>await\<close>, with any number of runs on one store; \<open>RemovalSafety\<close>: its
    invariant, and that only confirmed key material is activated.

  Members (\<^verbatim>\<open>protocol/sync\<close> and \<^verbatim>\<open>application/spaces\<close>).
  \<^item> \<open>Membership\<close>: \<^verbatim>\<open>membership-events.ts\<close> and \<^verbatim>\<open>admin-set.ts\<close>, how members, admins and admissions are
    read off the events of a space document, against definitions on the set of events.
  \<^item> \<open>MemberUpdates\<close>: the signals about members, their store, workflow and resolution; only signals of
    those entitled to send them are acted upon.

  Interfaces as locales, in \<open>Prelude\<close> and the theories that use them: keyed tables and first-writer-wins
  registries, encoders with canonical texts and invariants of transition systems; each is interpreted
  on the definitions above.

  Bounds. No definition of the code needs fuel: recursions are structural or have a measure (\<open>groups\<close>,
  the base conversions), and the answer to a message takes at most two resumed tasks. The two loops over
  the network, \<open>pull_pages\<close> and \<open>catch_up_run\<close>, count their requests down; one more than the entries that
  are missing is shown to be enough.

  Not modelled. Human-readable texts of error frames, time stamps of receipts and client hints; timers
  other than the sweep (a fired timer is a step at any time, so their periods do not matter); the
  HTTP endpoints, the static dashboard and the read-only statistics; the readers of host files in
  \<^verbatim>\<open>metrics.ts\<close> and the rounding of binary floating point; connection handling and migration of the
  database file except for the legacy inbox table; SQLite errors other than violated constraints. The
  cryptographic primitives and the JSON parser are parameters, since they are not part of the
  repository. The applications, the CRDT adapters and their user interfaces rest on third-party
  libraries (Yjs, Automerge, React) and are outside this library, as are the writing side of the client's
  coordinator (sending, resending and re-emitting rejected writes; only the reservation of sequence
  numbers is modelled), the store in IndexedDB (the same contract over the browser's transactions) and
  the transport adapters. In the coordinator a timeout is the answer \<open>None\<close> to a request, control frames
  are answered in the order in which the run asks, and errors of the store do not occur. In the removal workflow
  the key store, the brokers and the commit are answers of the environment, staging identities are
  taken to be new, and errors of the store other than a lost conditional write do not occur.
\<close>

end
